(* ===== verification/Prelude.thy ===== *)
theory Prelude
  imports Main "HOL-Library.Multiset" "HOL-Library.Product_Lexorder"
begin

text \<open>
  Shared vocabulary of the development: the Rust scalar conventions (unsigned 64-bit
  arithmetic on \<open>nat\<close> with the wrap-around of the release profile written out, instants and
  durations as nanosecond counts), the standard library's \<open>Poll\<close> and \<open>io::Error\<close>, and the
  list lemmas the component theories share.
\<close>

named_theorems slab_simps \<open>laws of the slab interface as rewrite rules\<close>
named_theorems wheel_simps \<open>frame facts of the timing wheel updates\<close>
named_theorems exec_simps \<open>unfolding rules of the executor operations\<close>
named_theorems driver_simps \<open>unfolding rules of the driver operations\<close>

section \<open>Machine integers and time\<close>

type_synonym u64 = nat
type_synonym usize = nat

text \<open>\<open>Instant\<close> is a monotonic clock reading and \<open>Duration\<close> a span, both in nanoseconds.\<close>

type_synonym instant = nat
type_synonym duration = nat

abbreviation U64_LIMIT :: nat where
  "U64_LIMIT \<equiv> 2 ^ 64"

definition u64_add :: "u64 \<Rightarrow> u64 \<Rightarrow> u64" where
  "u64_add a b = (a + b) mod U64_LIMIT"

lemma u64_add_exact [simp]: "a + b < U64_LIMIT \<Longrightarrow> u64_add a b = a + b"
  unfolding u64_add_def by (rule mod_less)

lemma u64_add_bound: "u64_add a b < U64_LIMIT"
  unfolding u64_add_def by (rule mod_less_divisor) simp

text \<open>\<open>u64::try_from\<close> on a \<open>u128\<close>.\<close>

definition try_u64 :: "nat \<Rightarrow> u64 option" where
  "try_u64 n = (if n < U64_LIMIT then Some n else None)"

text \<open>\<open>saturating_duration_since\<close>, \<open>Duration::as_millis\<close> and \<open>Duration::from_millis\<close>.\<close>

definition saturating_duration_since :: "instant \<Rightarrow> instant \<Rightarrow> duration" where
  "saturating_duration_since later earlier = later - earlier"

definition as_millis :: "duration \<Rightarrow> nat" where
  "as_millis d = d div 1000000"

definition from_millis :: "nat \<Rightarrow> duration" where
  "from_millis ms = ms * 1000000"

lemma as_millis_from_millis [simp]: "as_millis (from_millis ms) = ms"
  by (simp add: as_millis_def from_millis_def)

lemma as_millis_mono: "a \<le> b \<Longrightarrow> as_millis a \<le> as_millis b"
  by (simp add: as_millis_def div_le_mono)

section \<open>Poll and I/O errors\<close>

datatype 'a poll = Pending | Ready 'a

datatype error_kind = NotFound | Unsupported | WouldBlock | Interrupted | InvalidInput
  | NotConnected | WriteZero | UnexpectedEof | AlreadyExists | InvalidData | BrokenPipe | OtherKind

text \<open>
  An \<open>io::Error\<close> is a kind with a message (\<open>Simple\<close>; the message text is dropped) or a raw
  operating-system code (\<open>Os\<close>), whose kind the standard library derives from the code.
\<close>

datatype io_error = Simple error_kind | Os nat

text \<open>Linux errno values the sources compare with or that map to a kind above.\<close>

abbreviation (input) EINTR :: nat where "EINTR \<equiv> 4"
abbreviation (input) EPIPE :: nat where "EPIPE \<equiv> 32"
abbreviation (input) EAGAIN :: nat where "EAGAIN \<equiv> 11"
abbreviation (input) EBUSY :: nat where "EBUSY \<equiv> 16"
abbreviation (input) EINVAL :: nat where "EINVAL \<equiv> 22"
abbreviation (input) ETIME :: nat where "ETIME \<equiv> 62"
abbreviation (input) ENOENT :: nat where "ENOENT \<equiv> 2"
abbreviation (input) EEXIST :: nat where "EEXIST \<equiv> 17"
abbreviation (input) ENOTCONN :: nat where "ENOTCONN \<equiv> 107"

fun kind_of :: "io_error \<Rightarrow> error_kind" where
  "kind_of (Simple k) = k"
| "kind_of (Os c) =
     (if c = EINTR then Interrupted
      else if c = EAGAIN then WouldBlock
      else if c = EINVAL then InvalidInput
      else if c = ENOENT then NotFound
      else if c = EEXIST then AlreadyExists
      else if c = ENOTCONN then NotConnected
      else if c = EPIPE then BrokenPipe
      else OtherKind)"

fun raw_os_error :: "io_error \<Rightarrow> nat option" where
  "raw_os_error (Simple k) = None"
| "raw_os_error (Os c) = Some c"

type_synonym 'a io_result = "io_error + 'a"

section \<open>Shared list and map lemmas\<close>

lemma count_list_remove1:
  "count_list (remove1 x xs) y = (if x = y then count_list xs y - 1 else count_list xs y)"
  by (induction xs) auto

lemma count_list_distinct: "distinct xs \<Longrightarrow> x \<in> set xs \<Longrightarrow> count_list xs x = 1"
  by (induction xs) (auto simp: count_list_0_iff)

lemma set_case_option: "set (case x of None \<Rightarrow> [] | Some w \<Rightarrow> [w]) = set_option x"
  by (cases x) simp_all

lemma sorted_hd_least: "sorted (x # xs) \<Longrightarrow> y \<in> set (x # xs) \<Longrightarrow> x \<le> y"
  by auto

lemma sorted_le_last: "sorted (x # xs) \<Longrightarrow> x \<le> last (x # xs)"
  by (cases xs) auto

lemma div_add_le: "(a::nat) div k + b div k \<le> (a + b) div k"
proof (cases "k = 0")
  case False
  have "(a div k + b div k) * k \<le> a + b"
    unfolding distrib_right by (intro add_mono div_times_less_eq_dividend)
  then show ?thesis using False by (simp add: less_eq_div_iff_mult_less_eq)
qed simp

lemma ran_eq_empty: "ran m = {} \<longleftrightarrow> m = Map.empty"
proof
  assume "ran m = {}"
  then have "m x = None" for x by (cases "m x") (auto simp: ran_def)
  then show "m = Map.empty" by (simp add: fun_eq_iff)
qed simp

lemma mod_hit_window:
  fixes a n s :: nat
  assumes "s < n"
  shows "\<exists>t. a \<le> t \<and> t < a + n \<and> t mod n = s"
proof -
  define t where "t = a + (s + n - a mod n) mod n"
  have n: "0 < n" using assms by simp
  have "t mod n = (a mod n + (s + n - a mod n)) mod n"
    unfolding t_def by (metis mod_add_left_eq mod_add_right_eq)
  moreover have "a mod n < n" using n by simp
  ultimately have "t mod n = (s + n) mod n" by simp
  then have "t mod n = s" using assms by simp
  moreover have "a \<le> t" and "t < a + n" using n by (simp_all add: t_def)
  ultimately show ?thesis by blast
qed

end
