(* ===== verification/Slab.thy ===== *)
theory Slab
  imports Prelude
begin

text \<open>
  The \<open>slab\<close> crate is not part of the repository: the timing wheel and the drivers use it
  through its documented interface only. A slab is a parameter of the model, the record
  \<open>slab_ops\<close> of the operations the sources call, and the locale \<open>slab\<close> states what its
  documentation promises of them. \<open>vec_slab_ops\<close> is one implementation with these laws (a
  vector of optional values that reuses the first vacant index), so the laws are consistent
  and concrete runs can be evaluated.
\<close>

record ('s, 'a) slab_ops =
  sl_new :: 's
  sl_is_empty :: "'s \<Rightarrow> bool"
  sl_get :: "'s \<Rightarrow> nat \<Rightarrow> 'a option"
  sl_vacant_key :: "'s \<Rightarrow> nat"
  sl_insert :: "'s \<Rightarrow> 'a \<Rightarrow> 's"
  sl_set :: "'s \<Rightarrow> nat \<Rightarrow> 'a \<Rightarrow> 's"
  sl_remove :: "'s \<Rightarrow> nat \<Rightarrow> 's"

text \<open>
  \<open>sl_vacant_key\<close> is \<open>vacant_entry().key()\<close>, the key that the next insertion gets;
  \<open>sl_insert\<close> stores a value there; \<open>sl_set\<close> is a write through \<open>get_mut\<close> and \<open>sl_remove\<close>
  is \<open>remove\<close> or \<open>try_remove\<close> of an occupied key.
\<close>

locale slab =
  fixes ops :: "('s, 'a) slab_ops"
  assumes get_new: "sl_get ops (sl_new ops) = Map.empty"
    and get_vacant: "sl_get ops s (sl_vacant_key ops s) = None"
    and get_insert: "sl_get ops (sl_insert ops s v) = (sl_get ops s)(sl_vacant_key ops s \<mapsto> v)"
    and get_set: "sl_get ops s k = Some u \<Longrightarrow> sl_get ops (sl_set ops s k v) = (sl_get ops s)(k \<mapsto> v)"
    and get_remove: "sl_get ops s k = Some u \<Longrightarrow> sl_get ops (sl_remove ops s k) = (sl_get ops s)(k := None)"
    and is_empty_iff: "sl_is_empty ops s \<longleftrightarrow> sl_get ops s = Map.empty"
    and finite_keys: "finite (dom (sl_get ops s))"
begin

lemmas laws [slab_simps] = get_new get_vacant get_insert get_set get_remove is_empty_iff

lemma vacant_fresh: "sl_get ops s k = Some v \<Longrightarrow> k \<noteq> sl_vacant_key ops s"
  using get_vacant by auto

lemma ran_remove_subset: "sl_get ops s k = Some u \<Longrightarrow>
    ran (sl_get ops (sl_remove ops s k)) \<subseteq> ran (sl_get ops s)"
  by (auto simp: get_remove ran_def split: if_splits)

lemma finite_values: "finite (ran (sl_get ops s))"
  by (rule finite_ran[OF finite_keys])

end

section \<open>A vector-backed slab\<close>

definition vec_get :: "'a option list \<Rightarrow> nat \<Rightarrow> 'a option" where
  "vec_get xs k = (if k < length xs then xs ! k else None)"

definition vec_vacant :: "'a option list \<Rightarrow> nat" where
  "vec_vacant xs = length (takeWhile (\<lambda>x. x \<noteq> None) xs)"

definition vec_insert :: "'a option list \<Rightarrow> 'a \<Rightarrow> 'a option list" where
  "vec_insert xs v =
     (if vec_vacant xs < length xs then xs[vec_vacant xs := Some v] else xs @ [Some v])"

definition vec_slab_ops :: "('a option list, 'a) slab_ops" where
  "vec_slab_ops = \<lparr> sl_new = [], sl_is_empty = list_all (\<lambda>x. x = None), sl_get = vec_get,
     sl_vacant_key = vec_vacant, sl_insert = vec_insert,
     sl_set = (\<lambda>xs k v. xs[k := Some v]), sl_remove = (\<lambda>xs k. xs[k := None]) \<rparr>"

lemma vec_vacant_le: "vec_vacant xs \<le> length xs"
  by (simp add: vec_vacant_def length_takeWhile_le)

lemma vec_vacant_full: "\<not> vec_vacant xs < length xs \<Longrightarrow> vec_vacant xs = length xs"
  using vec_vacant_le[of xs] by simp

lemma vec_get_vacant: "vec_get xs (vec_vacant xs) = None"
  using nth_length_takeWhile[of "\<lambda>x. x \<noteq> None" xs]
  by (auto simp: vec_get_def vec_vacant_def)

lemma vec_get_insert: "vec_get (vec_insert xs v) = (vec_get xs)(vec_vacant xs \<mapsto> v)"
  using vec_vacant_full[of xs]
  by (auto simp: vec_get_def vec_insert_def fun_eq_iff nth_append nth_list_update)

lemma vec_get_empty: "list_all (\<lambda>x. x = None) xs \<longleftrightarrow> vec_get xs = Map.empty"
  by (auto simp: vec_get_def fun_eq_iff list_all_length)

lemma finite_dom_vec_get: "finite (dom (vec_get xs))"
  by (rule finite_subset[of _ "{..<length xs}"]) (auto simp: vec_get_def split: if_splits)

lemma vec_get_update: "vec_get xs k = Some u \<Longrightarrow> vec_get (xs[k := y]) = (vec_get xs)(k := y)"
  by (auto simp: vec_get_def fun_eq_iff nth_list_update split: if_splits)

interpretation vec_slab: slab "vec_slab_ops :: ('a option list, 'a) slab_ops"
  by unfold_locales
    (auto simp: vec_slab_ops_def vec_get_vacant vec_get_insert vec_get_empty finite_dom_vec_get
      vec_get_update, auto simp: vec_get_def)

end
