(* ===== verification/Timing_Wheel.thy ===== *)
theory Timing_Wheel
  imports Slab
begin

text \<open>
  The hierarchical timing wheel of \<open>timer.rs\<close>: seven levels of 64 slots of slab indices, the
  slab of timer entries, the binary heap of \<open>(expiration_tick, slab_index, generation)\<close> that
  gives the nearest deadline, and the operations \<open>insert\<close>, \<open>remove\<close>, \<open>advance\<close> and
  \<open>nearest_wakeup\<close>. A \<open>BinaryHeap\<close> of \<open>Reverse\<close> triples is kept as its ascending list: the
  code only pushes, peeks the least element and pops it. The first part holds the
  definitions, the second the well-formedness invariant and its preservation, the third the
  expiry theorems.
\<close>

unbundle bit_operations_syntax

section \<open>Definitions\<close>

definition NUM_LEVELS :: usize where
  "NUM_LEVELS = 7"

definition SLOTS_PER_LEVEL :: usize where
  "SLOTS_PER_LEVEL = 64"

record timer_handle =
  slab_index :: usize
  h_generation :: u64

record 'w timer_entry =
  te_waker :: 'w
  expiration_tick :: u64
  te_generation :: u64
  te_level :: usize
  te_slot :: usize

record 's timing_wheel =
  entries :: 's
  wheels :: "usize list list list"
  current_tick :: u64
  generation_counter :: u64
  min_expiration_tick :: "u64 option"
  expiration_heap :: "(u64 \<times> usize \<times> u64) list"

type_synonym ('s, 'w) wheel_ops = "('s, 'w timer_entry) slab_ops"

definition wheel_new :: "('s, 'w) wheel_ops \<Rightarrow> 's timing_wheel" where
  "wheel_new ops = \<lparr> entries = sl_new ops,
     wheels = replicate NUM_LEVELS (replicate SLOTS_PER_LEVEL []),
     current_tick = 0, generation_counter = 0, min_expiration_tick = None,
     expiration_heap = [] \<rparr>"

definition wheel_is_empty :: "('s, 'w) wheel_ops \<Rightarrow> 's timing_wheel \<Rightarrow> bool" where
  "wheel_is_empty ops w = sl_is_empty ops (entries w)"

definition wheel_now :: "'s timing_wheel \<Rightarrow> u64" where
  "wheel_now w = current_tick w"

text \<open>Reading and replacing \<open>wheels[level][slot]\<close>.\<close>

definition slot_of :: "'s timing_wheel \<Rightarrow> usize \<Rightarrow> usize \<Rightarrow> usize list" where
  "slot_of w l s = wheels w ! l ! s"

definition set_slot :: "'s timing_wheel \<Rightarrow> usize \<Rightarrow> usize \<Rightarrow> usize list \<Rightarrow> 's timing_wheel" where
  "set_slot w l s xs = w\<lparr>wheels := (wheels w)[l := (wheels w ! l)[s := xs]]\<rparr>"

definition update_min_on_insert :: "'s timing_wheel \<Rightarrow> u64 \<Rightarrow> 's timing_wheel" where
  "update_min_on_insert w t = w\<lparr>min_expiration_tick :=
     Some (case min_expiration_tick w of None \<Rightarrow> t | Some m \<Rightarrow> min m t)\<rparr>"

text \<open>The \<open>while let\<close> loop of \<open>refresh_min_expiration\<close>: pop stale triples until the top is live.\<close>

fun refresh_loop ::
  "('s, 'w) wheel_ops \<Rightarrow> 's \<Rightarrow> (u64 \<times> usize \<times> u64) list \<Rightarrow> (u64 \<times> usize \<times> u64) list \<times> u64 option" where
  "refresh_loop ops es [] = ([], None)"
| "refresh_loop ops es ((t, idx, gen) # h) =
     (case sl_get ops es idx of
        Some entry \<Rightarrow>
          if te_generation entry = gen then ((t, idx, gen) # h, Some (expiration_tick entry))
          else refresh_loop ops es h
      | None \<Rightarrow> refresh_loop ops es h)"

definition refresh_min_expiration :: "('s, 'w) wheel_ops \<Rightarrow> 's timing_wheel \<Rightarrow> 's timing_wheel" where
  "refresh_min_expiration ops w =
     (let (h, m) = refresh_loop ops (entries w) (expiration_heap w)
      in w\<lparr>expiration_heap := h, min_expiration_tick := m\<rparr>)"

text \<open>\<open>nearest_wakeup\<close> returns the refreshed minimum unless it is 0 (\<open>NonZeroU64::new\<close>).\<close>

definition nearest_wakeup :: "('s, 'w) wheel_ops \<Rightarrow> 's timing_wheel \<Rightarrow> u64 option \<times> 's timing_wheel" where
  "nearest_wakeup ops w =
     (let w' = refresh_min_expiration ops w
      in (case min_expiration_tick w' of
            Some t \<Rightarrow> if t = 0 then None else Some t
          | None \<Rightarrow> None, w'))"

text \<open>
  \<open>calculate_level_and_slot\<close>: the \<open>for\<close> loop over the levels, with the early returns; the code
  after the loop is the last branch.
\<close>

function level_and_slot_from :: "usize \<Rightarrow> u64 \<Rightarrow> usize \<times> usize" where
  "level_and_slot_from level delay =
     (if level < NUM_LEVELS then
        (let level_shift = 6 * level;
             slot = drop_bit level_shift delay AND (SLOTS_PER_LEVEL - 1)
         in if level = NUM_LEVELS - 1 then (level, slot)
            else let max_for_level = push_bit level_shift SLOTS_PER_LEVEL - 1
                 in if delay \<le> max_for_level \<or> level = NUM_LEVELS - 1 then (level, slot)
                    else level_and_slot_from (Suc level) delay)
      else (NUM_LEVELS - 1,
            drop_bit (6 * (NUM_LEVELS - 1)) delay AND (SLOTS_PER_LEVEL - 1)))"
  by pat_completeness auto
termination
  by (relation "measure (\<lambda>(level, delay). NUM_LEVELS - level)") auto

declare level_and_slot_from.simps [simp del]

definition calculate_level_and_slot :: "u64 \<Rightarrow> usize \<times> usize" where
  "calculate_level_and_slot delay = level_and_slot_from 0 delay"

definition wheel_insert ::
  "('s, 'w) wheel_ops \<Rightarrow> 'w \<Rightarrow> u64 \<Rightarrow> 's timing_wheel \<Rightarrow> timer_handle \<times> 's timing_wheel" where
  "wheel_insert ops waker expiration w =
     (let delay = expiration - current_tick w;
          (level, slot) = calculate_level_and_slot delay;
          generation = u64_add (generation_counter w) 1;
          idx = sl_vacant_key ops (entries w);
          w1 = w\<lparr>generation_counter := generation,
                 entries := sl_insert ops (entries w)
                   \<lparr>te_waker = waker, expiration_tick = expiration, te_generation = generation,
                    te_level = level, te_slot = slot\<rparr>\<rparr>;
          w2 = set_slot w1 level slot (slot_of w1 level slot @ [idx]);
          w3 = w2\<lparr>expiration_heap := insort (expiration, idx, generation) (expiration_heap w2)\<rparr>
      in (\<lparr>slab_index = idx, h_generation = generation\<rparr>, update_min_on_insert w3 expiration))"

text \<open>
  \<open>remove\<close>: \<open>Vec::remove\<close> at the first \<open>position\<close> of the index is \<open>remove1\<close>; a stale handle
  (vacant index or another generation) changes nothing.
\<close>

definition wheel_remove :: "('s, 'w) wheel_ops \<Rightarrow> timer_handle \<Rightarrow> 's timing_wheel \<Rightarrow> 's timing_wheel" where
  "wheel_remove ops handle w =
     (case sl_get ops (entries w) (slab_index handle) of
        None \<Rightarrow> w
      | Some entry \<Rightarrow>
          if te_generation entry = h_generation handle then
            (let level = te_level entry; slot = te_slot entry; idx = slab_index handle;
                 w1 = set_slot w level slot (remove1 idx (slot_of w level slot));
                 w2 = w1\<lparr>entries := sl_remove ops (entries w1) idx\<rparr>
             in refresh_min_expiration ops w2)
          else w)"

text \<open>
  The loop body shared by \<open>cascade_level\<close> and \<open>process_slot_at_level_0\<close>: an expired timer is
  removed and its waker collected, any other is moved to the slot of its remaining delay.
\<close>

definition settle_timer ::
  "('s, 'w) wheel_ops \<Rightarrow> usize \<Rightarrow> 's timing_wheel \<times> 'w list \<Rightarrow> 's timing_wheel \<times> 'w list" where
  "settle_timer ops idx st =
     (let (w, expired) = st in
      case sl_get ops (entries w) idx of
        None \<Rightarrow> (w, expired)
      | Some entry \<Rightarrow>
          if expiration_tick entry \<le> current_tick w
          then (w\<lparr>entries := sl_remove ops (entries w) idx\<rparr>, expired @ [te_waker entry])
          else (let delay = expiration_tick entry - current_tick w;
                    (new_level, new_slot) = calculate_level_and_slot delay;
                    w1 = w\<lparr>entries := sl_set ops (entries w) idx
                            (entry\<lparr>te_level := new_level, te_slot := new_slot\<rparr>)\<rparr>
                in (set_slot w1 new_level new_slot (slot_of w1 new_level new_slot @ [idx]), expired)))"

definition settle_slot ::
  "('s, 'w) wheel_ops \<Rightarrow> usize \<Rightarrow> usize \<Rightarrow> 's timing_wheel \<times> 'w list \<Rightarrow> 's timing_wheel \<times> 'w list" where
  "settle_slot ops level slot st =
     fold (settle_timer ops) (slot_of (fst st) level slot) (set_slot (fst st) level slot [], snd st)"

definition cascade_level ::
  "('s, 'w) wheel_ops \<Rightarrow> usize \<Rightarrow> 's timing_wheel \<times> 'w list \<Rightarrow> 's timing_wheel \<times> 'w list" where
  "cascade_level ops level st = fold (settle_slot ops level) [0..<SLOTS_PER_LEVEL] st"

definition cascade_all_levels ::
  "('s, 'w) wheel_ops \<Rightarrow> 's timing_wheel \<times> 'w list \<Rightarrow> 's timing_wheel \<times> 'w list" where
  "cascade_all_levels ops st = fold (cascade_level ops) (rev [1..<NUM_LEVELS]) st"

definition process_slot_at_level_0 ::
  "('s, 'w) wheel_ops \<Rightarrow> usize \<Rightarrow> 's timing_wheel \<times> 'w list \<Rightarrow> 's timing_wheel \<times> 'w list" where
  "process_slot_at_level_0 ops slot st = settle_slot ops 0 slot st"

text \<open>The slots that \<open>advance\<close> scans at level 0, in its order.\<close>

definition level_0_scan :: "u64 \<Rightarrow> u64 \<Rightarrow> u64 \<Rightarrow> usize list" where
  "level_0_scan start_tick now ticks =
     (let start_slot = start_tick AND (SLOTS_PER_LEVEL - 1);
          end_slot = now AND (SLOTS_PER_LEVEL - 1)
      in if SLOTS_PER_LEVEL \<le> ticks then [0..<SLOTS_PER_LEVEL]
         else if start_slot \<le> end_slot then [start_slot..<Suc end_slot]
         else [start_slot..<SLOTS_PER_LEVEL] @ [0..<Suc end_slot])"

definition wheel_advance ::
  "('s, 'w) wheel_ops \<Rightarrow> u64 \<Rightarrow> 's timing_wheel \<Rightarrow> 'w list \<times> 's timing_wheel" where
  "wheel_advance ops ticks w =
     (if ticks = 0 then ([], w)
      else (let start_tick = current_tick w;
                w1 = w\<lparr>current_tick := u64_add (current_tick w) ticks\<rparr>;
                st2 = cascade_all_levels ops (w1, []);
                (w3, expired) = fold (process_slot_at_level_0 ops)
                  (level_0_scan start_tick (current_tick w1) ticks) st2
            in (expired, refresh_min_expiration ops w3)))"

section \<open>Levels and slots\<close>

lemma and_63: "(x::nat) AND 63 = x mod 64"
  using take_bit_eq_mask[of 6 x] by (simp add: take_bit_eq_mod mask_eq_exp_minus_1)

lemma level_and_slot_bounds:
  "level_and_slot_from l d = (l', s) \<Longrightarrow> l \<le> 6 \<Longrightarrow> l' \<le> 6 \<and> s < 64"
proof (induction l d rule: level_and_slot_from.induct)
  case (1 level delay)
  show ?case
    using "1.prems" "1.IH"[OF _ refl refl]
    by (subst (asm) level_and_slot_from.simps)
      (auto simp: NUM_LEVELS_def SLOTS_PER_LEVEL_def and_63 Let_def split: if_splits)
qed

lemma calculate_level_and_slot_bounds:
  "calculate_level_and_slot d = (l, s) \<Longrightarrow> l < 7 \<and> s < 64"
  using level_and_slot_bounds[of 0 d l s] by (simp add: calculate_level_and_slot_def)

lemma level_and_slot_exact:
  "level_and_slot_from l d = (l', s) \<Longrightarrow> l \<le> 6 \<Longrightarrow> 64 ^ l \<le> d \<or> l = 0 \<Longrightarrow>
    s = d div 64 ^ l' mod 64 \<and> (l' < 6 \<longrightarrow> d < 64 ^ Suc l') \<and> (0 < l' \<longrightarrow> 64 ^ l' \<le> d)"
proof (induction l d rule: level_and_slot_from.induct)
  case (1 level delay)
  have p: "(2::nat) ^ (6 * level) = 64 ^ level" by (simp add: power_mult)
  have q: "(x \<le> 64 * 64 ^ n - Suc 0) = (x < 64 * 64 ^ n)" for x n :: nat
    using less_eq_Suc_le Suc_pred[of "64 * 64 ^ n"] by (simp add: less_Suc_eq_le[symmetric])
  show ?case
    using "1.prems" "1.IH"[OF _ refl refl] p
    by (subst (asm) level_and_slot_from.simps)
      (auto simp: NUM_LEVELS_def SLOTS_PER_LEVEL_def and_63 Let_def drop_bit_eq_div push_bit_eq_mult q
        split: if_splits)
qed

lemma calculate_level_and_slot_exact:
  assumes "calculate_level_and_slot d = (l, s)"
  shows "s = d div 64 ^ l mod 64" and "l < 6 \<Longrightarrow> d < 64 ^ Suc l" and "0 < l \<Longrightarrow> 64 ^ l \<le> d"
  using level_and_slot_exact[of 0 d l s] assms by (auto simp: calculate_level_and_slot_def)

section \<open>Well-formed wheels\<close>

definition wheel_dims :: "'s timing_wheel \<Rightarrow> bool" where
  "wheel_dims w \<longleftrightarrow> length (wheels w) = 7 \<and> (\<forall>row \<in> set (wheels w). length row = 64)"

lemma wheel_dims_row: "wheel_dims w \<Longrightarrow> l < 7 \<Longrightarrow> length (wheels w ! l) = 64"
  by (simp add: wheel_dims_def)

lemma wheel_dims_set_slot [simp]: "wheel_dims w \<Longrightarrow> l < 7 \<Longrightarrow> wheel_dims (set_slot w l s xs)"
  by (auto simp: wheel_dims_def set_slot_def dest!: subsetD[OF set_update_subset_insert])

lemma slot_of_set_slot [simp]:
  "wheel_dims w \<Longrightarrow> l < 7 \<Longrightarrow> s < 64 \<Longrightarrow>
    slot_of (set_slot w l s xs) l' s' = (if l' = l \<and> s' = s then xs else slot_of w l' s')"
  by (auto simp: slot_of_def set_slot_def nth_list_update wheel_dims_row wheel_dims_def)

lemma set_slot_frame [simp]:
  "entries (set_slot w l s xs) = entries w"
  "current_tick (set_slot w l s xs) = current_tick w"
  "generation_counter (set_slot w l s xs) = generation_counter w"
  "min_expiration_tick (set_slot w l s xs) = min_expiration_tick w"
  "expiration_heap (set_slot w l s xs) = expiration_heap w"
  by (simp_all add: set_slot_def)

lemma slot_of_frame [simp]:
  "slot_of (w\<lparr>entries := es\<rparr>) = slot_of w"
  "slot_of (w\<lparr>current_tick := t\<rparr>) = slot_of w"
  "slot_of (w\<lparr>generation_counter := g\<rparr>) = slot_of w"
  "slot_of (w\<lparr>min_expiration_tick := m\<rparr>) = slot_of w"
  "slot_of (w\<lparr>expiration_heap := h\<rparr>) = slot_of w"
  by (simp_all add: slot_of_def fun_eq_iff)

lemma wheel_dims_frame [simp]:
  "wheel_dims (w\<lparr>entries := es\<rparr>) = wheel_dims w"
  "wheel_dims (w\<lparr>current_tick := t\<rparr>) = wheel_dims w"
  "wheel_dims (w\<lparr>generation_counter := g\<rparr>) = wheel_dims w"
  "wheel_dims (w\<lparr>min_expiration_tick := m\<rparr>) = wheel_dims w"
  "wheel_dims (w\<lparr>expiration_heap := h\<rparr>) = wheel_dims w"
  by (simp_all add: wheel_dims_def)

text \<open>
  \<open>placed ops w ps\<close>: every timer of the slab sits in the slot its entry names, once, except the
  timers of \<open>ps\<close>, which the running loop has taken out of their slot; every index in a slot is
  a live timer. Between operations \<open>ps\<close> is empty.
\<close>

definition placed :: "('s, 'w) wheel_ops \<Rightarrow> 's timing_wheel \<Rightarrow> usize list \<Rightarrow> bool" where
  "placed ops w ps \<longleftrightarrow>
     wheel_dims w \<and> distinct ps \<and>
     (\<forall>i \<in> set ps. sl_get ops (entries w) i \<noteq> None) \<and>
     (\<forall>i e. sl_get ops (entries w) i = Some e \<longrightarrow>
        te_level e < 7 \<and> te_slot e < 64 \<and>
        (i \<in> set ps \<or> i \<in> set (slot_of w (te_level e) (te_slot e)))) \<and>
     (\<forall>l < 7. \<forall>s < 64. distinct (slot_of w l s) \<and>
        (\<forall>i \<in> set (slot_of w l s). i \<notin> set ps \<and>
           (\<exists>e. sl_get ops (entries w) i = Some e \<and> te_level e = l \<and> te_slot e = s)))"

text \<open>
  \<open>heap_covers\<close>: the heap is ascending, holds the triple of every live timer, and a triple whose
  generation matches the live timer at its index carries that timer's expiration. No
  generation exceeds the counter.
\<close>

definition heap_covers :: "('s, 'w) wheel_ops \<Rightarrow> 's timing_wheel \<Rightarrow> bool" where
  "heap_covers ops w \<longleftrightarrow>
     sorted (expiration_heap w) \<and>
     (\<forall>i e. sl_get ops (entries w) i = Some e \<longrightarrow>
        (expiration_tick e, i, te_generation e) \<in> set (expiration_heap w)) \<and>
     (\<forall>t i g e. (t, i, g) \<in> set (expiration_heap w) \<longrightarrow> sl_get ops (entries w) i = Some e \<longrightarrow>
        te_generation e = g \<longrightarrow> expiration_tick e = t) \<and>
     (\<forall>t i g. (t, i, g) \<in> set (expiration_heap w) \<longrightarrow> g \<le> generation_counter w)"

definition least_expiration :: "('s, 'w) wheel_ops \<Rightarrow> 's timing_wheel \<Rightarrow> u64 option" where
  "least_expiration ops w =
     (let ts = expiration_tick ` ran (sl_get ops (entries w))
      in if ts = {} then None else Some (Min ts))"

definition wheel_inv :: "('s, 'w) wheel_ops \<Rightarrow> 's timing_wheel \<Rightarrow> bool" where
  "wheel_inv ops w \<longleftrightarrow> placed ops w [] \<and> heap_covers ops w \<and>
     min_expiration_tick w = least_expiration ops w"

locale timer_slab = slab ops for ops :: "('s, 'w timer_entry) slab_ops"
begin

abbreviation live :: "'s timing_wheel \<Rightarrow> usize \<Rightarrow> 'w timer_entry option" where
  "live w \<equiv> sl_get ops (entries w)"

lemma placedD:
  assumes "placed ops w ps" and "live w i = Some e"
  shows "te_level e < 7" and "te_slot e < 64"
    and "i \<notin> set ps \<Longrightarrow> i \<in> set (slot_of w (te_level e) (te_slot e))"
  using assms unfolding placed_def by blast+

lemma placed_slotD:
  assumes "placed ops w ps" and "l < 7" and "s < 64"
  shows "distinct (slot_of w l s)"
    and "i \<in> set (slot_of w l s) \<Longrightarrow> i \<notin> set ps"
    and "i \<in> set (slot_of w l s) \<Longrightarrow> \<exists>e. live w i = Some e \<and> te_level e = l \<and> te_slot e = s"
  using assms unfolding placed_def by blast+

lemma placedI:
  assumes "wheel_dims w" and "distinct ps" and "\<And>i. i \<in> set ps \<Longrightarrow> live w i \<noteq> None"
    and "\<And>i e. live w i = Some e \<Longrightarrow> te_level e < 7 \<and> te_slot e < 64 \<and>
        (i \<in> set ps \<or> i \<in> set (slot_of w (te_level e) (te_slot e)))"
    and "\<And>l s. l < 7 \<Longrightarrow> s < 64 \<Longrightarrow> distinct (slot_of w l s)"
    and "\<And>l s i. l < 7 \<Longrightarrow> s < 64 \<Longrightarrow> i \<in> set (slot_of w l s) \<Longrightarrow>
        i \<notin> set ps \<and> (\<exists>e. live w i = Some e \<and> te_level e = l \<and> te_slot e = s)"
  shows "placed ops w ps"
  using assms unfolding placed_def by blast

lemma placed_dims: "placed ops w ps \<Longrightarrow> wheel_dims w"
  by (simp add: placed_def)

lemma placed_frame [simp]:
  "placed ops (w\<lparr>current_tick := t\<rparr>) ps = placed ops w ps"
  "placed ops (w\<lparr>generation_counter := g\<rparr>) ps = placed ops w ps"
  "placed ops (w\<lparr>min_expiration_tick := m\<rparr>) ps = placed ops w ps"
  "placed ops (w\<lparr>expiration_heap := h\<rparr>) ps = placed ops w ps"
  by (simp_all add: placed_def)

text \<open>Taking a whole slot out of the wheel puts its timers in hand.\<close>

lemma placed_take_slot:
  assumes "placed ops w []" and "l < 7" and "s < 64"
  shows "placed ops (set_slot w l s []) (slot_of w l s)"
proof (rule placedI)
  note dims = placed_dims[OF assms(1)]
  show "wheel_dims (set_slot w l s [])" using dims assms by simp
  show "distinct (slot_of w l s)" by (rule placed_slotD(1)[OF assms])
  show "live (set_slot w l s []) i \<noteq> None" if "i \<in> set (slot_of w l s)" for i
    using placed_slotD(3)[OF assms that] by auto
  show "te_level e < 7 \<and> te_slot e < 64 \<and> (i \<in> set (slot_of w l s) \<or>
      i \<in> set (slot_of (set_slot w l s []) (te_level e) (te_slot e)))"
    if "live (set_slot w l s []) i = Some e" for i e
    using placedD[OF assms(1), of i e] that dims assms(2,3) by auto
  show "distinct (slot_of (set_slot w l s []) l' s')" if "l' < 7" and "s' < 64" for l' s'
    using placed_slotD(1)[OF assms(1) that] dims assms(2,3) by simp
  show "i \<notin> set (slot_of w l s) \<and> (\<exists>e. live (set_slot w l s []) i = Some e \<and> te_level e = l' \<and> te_slot e = s')"
    if ls: "l' < 7" "s' < 64" and i: "i \<in> set (slot_of (set_slot w l s []) l' s')" for l' s' i
  proof -
    from i dims assms(2,3) have ne: "(l', s') \<noteq> (l, s)" and "i \<in> set (slot_of w l' s')"
      by (auto split: if_splits)
    then obtain e where e: "live w i = Some e" "te_level e = l'" "te_slot e = s'"
      using placed_slotD(3)[OF assms(1) ls] by blast
    moreover have "i \<notin> set (slot_of w l s)"
      using placed_slotD(3)[OF assms, of i] e ne by auto
    ultimately show ?thesis by simp
  qed
qed

text \<open>Dropping a timer in hand from the slab.\<close>

lemma placed_drop:
  assumes "placed ops w (i # ps)" and "live w i = Some e"
  shows "placed ops (w\<lparr>entries := sl_remove ops (entries w) i\<rparr>) ps"
proof (rule placedI, goal_cases)
  case 6
  then show ?case using placed_slotD[OF assms(1) 6(1,2)] assms(2) by (auto simp: get_remove)
qed (use assms in \<open>auto simp: placed_def get_remove split: if_splits\<close>)

text \<open>Entering a new timer into the slab, in hand.\<close>

lemma placed_enter:
  assumes "placed ops w ps" and "te_level e < 7" and "te_slot e < 64"
  shows "placed ops (w\<lparr>entries := sl_insert ops (entries w) e\<rparr>) (sl_vacant_key ops (entries w) # ps)"
    (is "placed ops ?w (?k # ps)")
proof (rule placedI)
  have live': "live ?w = (live w)(?k \<mapsto> e)" by (simp add: get_insert)
  have fresh: "live w ?k = None" by (rule get_vacant)
  have old: "distinct ps" "\<forall>j \<in> set ps. live w j \<noteq> None" using assms(1) by (auto simp: placed_def)
  show "wheel_dims ?w" using placed_dims[OF assms(1)] by simp
  show "distinct (?k # ps)" using old fresh by auto
  show "live ?w j \<noteq> None" if "j \<in> set (?k # ps)" for j using that old live' by auto
  show "te_level e' < 7 \<and> te_slot e' < 64 \<and>
      (j \<in> set (?k # ps) \<or> j \<in> set (slot_of ?w (te_level e') (te_slot e')))"
    if "live ?w j = Some e'" for j e'
    using that live' placedD[OF assms(1), of j e'] assms(2,3) by (auto split: if_splits)
  show "distinct (slot_of ?w l s)" if "l < 7" "s < 64" for l s
    using placed_slotD(1)[OF assms(1) that] by simp
  show "j \<notin> set (?k # ps) \<and> (\<exists>e. live ?w j = Some e \<and> te_level e = l \<and> te_slot e = s)"
    if "l < 7" "s < 64" "j \<in> set (slot_of ?w l s)" for l s j
    using placed_slotD(2,3)[OF assms(1) that(1,2), of j] that(3) live' fresh by auto
qed

text \<open>Renaming the coordinates of a timer in hand.\<close>

lemma placed_rename:
  assumes "placed ops w (i # ps)" and "live w i = Some e" and "te_level e' < 7" and "te_slot e' < 64"
  shows "placed ops (w\<lparr>entries := sl_set ops (entries w) i e'\<rparr>) (i # ps)" (is "placed ops ?w _")
proof (rule placedI)
  have live': "live ?w = (live w)(i \<mapsto> e')" using assms(2) by (simp add: get_set)
  show "wheel_dims ?w" using placed_dims[OF assms(1)] by simp
  show "distinct (i # ps)" using assms(1) by (simp add: placed_def)
  show "live ?w j \<noteq> None" if "j \<in> set (i # ps)" for j
    using that assms(1) live' by (auto simp: placed_def)
  show "te_level e'' < 7 \<and> te_slot e'' < 64 \<and>
      (j \<in> set (i # ps) \<or> j \<in> set (slot_of ?w (te_level e'') (te_slot e'')))"
    if "live ?w j = Some e''" for j e''
    using that live' placedD[OF assms(1), of j e''] assms(3,4) by (auto split: if_splits)
  show "distinct (slot_of ?w l s)" if "l < 7" "s < 64" for l s
    using placed_slotD(1)[OF assms(1) that] by simp
  show "j \<notin> set (i # ps) \<and> (\<exists>e. live ?w j = Some e \<and> te_level e = l \<and> te_slot e = s)"
    if "l < 7" "s < 64" "j \<in> set (slot_of ?w l s)" for l s j
    using placed_slotD(2,3)[OF assms(1) that(1,2), of j] that(3) live' by auto
qed

text \<open>Putting a timer in hand into the slot its entry names.\<close>

lemma placed_push:
  assumes "placed ops w (i # ps)" and "live w i = Some e" and "te_level e = l" and "te_slot e = s"
  shows "placed ops (set_slot w l s (slot_of w l s @ [i])) ps" (is "placed ops ?w ps")
proof (rule placedI)
  have dims: "wheel_dims w" by (rule placed_dims[OF assms(1)])
  have b: "l < 7" "s < 64" using placedD(1,2)[OF assms(1,2)] assms(3,4) by auto
  have hand: "i \<notin> set ps" "distinct ps" "\<forall>j \<in> set ps. live w j \<noteq> None"
    using assms(1) by (auto simp: placed_def)
  have out: "i \<notin> set (slot_of w l' s')" if "l' < 7" "s' < 64" for l' s'
    using placed_slotD(2)[OF assms(1) that] by auto
  show "wheel_dims ?w" using dims b by simp
  show "distinct ps" by (rule hand(2))
  show "live ?w j \<noteq> None" if "j \<in> set ps" for j using that hand(3) by simp
  show "te_level e' < 7 \<and> te_slot e' < 64 \<and> (j \<in> set ps \<or> j \<in> set (slot_of ?w (te_level e') (te_slot e')))"
    if "live ?w j = Some e'" for j e'
    using that placedD[OF assms(1), of j e'] dims b assms(2-4) by (cases "j = i"; cases "j \<in> set ps") auto
  show "distinct (slot_of ?w l' s')" if "l' < 7" "s' < 64" for l' s'
    using placed_slotD(1)[OF assms(1) that] out[OF that] dims b by auto
  show "j \<notin> set ps \<and> (\<exists>e. live ?w j = Some e \<and> te_level e = l' \<and> te_slot e = s')"
    if "l' < 7" "s' < 64" "j \<in> set (slot_of ?w l' s')" for l' s' j
  proof (cases "j = i")
    case True
    then show ?thesis using that out[OF that(1,2)] hand assms(2-4) dims b by (auto split: if_splits)
  next
    case False
    with that dims b have "j \<in> set (slot_of w l' s')" by (auto split: if_splits)
    then show ?thesis using placed_slotD(2,3)[OF assms(1) that(1,2), of j] by auto
  qed
qed

text \<open>Taking one timer out of its slot.\<close>

lemma placed_take:
  assumes "placed ops w []" and "live w i = Some e" and "te_level e = l" and "te_slot e = s"
  shows "placed ops (set_slot w l s (remove1 i (slot_of w l s))) [i]" (is "placed ops ?w _")
proof (rule placedI)
  have dims: "wheel_dims w" by (rule placed_dims[OF assms(1)])
  have b: "l < 7" "s < 64" using placedD(1,2)[OF assms(1,2)] assms(3,4) by auto
  have once: "i \<notin> set (slot_of w l' s')" if "l' < 7" "s' < 64" "(l', s') \<noteq> (l, s)" for l' s'
    using placed_slotD(3)[OF assms(1) that(1,2), of i] that(3) assms(2-4) by auto
  have dist: "distinct (slot_of w l' s')" if "l' < 7" "s' < 64" for l' s'
    by (rule placed_slotD(1)[OF assms(1) that])
  show "wheel_dims ?w" using dims b by simp
  show "live ?w j \<noteq> None" if "j \<in> set [i]" for j using that assms(2) by simp
  show "te_level e' < 7 \<and> te_slot e' < 64 \<and> (j \<in> set [i] \<or> j \<in> set (slot_of ?w (te_level e') (te_slot e')))"
    if "live ?w j = Some e'" for j e'
    using that placedD[OF assms(1), of j e'] dims b by (cases "j = i") auto
  show "distinct (slot_of ?w l' s')" if "l' < 7" "s' < 64" for l' s'
    using dist[OF that] dims b by auto
  show "j \<notin> set [i] \<and> (\<exists>e. live ?w j = Some e \<and> te_level e = l' \<and> te_slot e = s')"
    if "l' < 7" "s' < 64" "j \<in> set (slot_of ?w l' s')" for l' s' j
    using that once[OF that(1,2)] dist[OF that(1,2)] placed_slotD(3)[OF assms(1) that(1,2), of j] dims b
    by (auto split: if_splits)
qed simp

end

section \<open>What the expiry loops do\<close>

text \<open>
  \<open>fired ops w ex w' ex'\<close> relates the wheel before and after a stretch of the expiry loops: some
  timers, each due, left the slab and their wakers were appended in that order; every other
  timer keeps its waker, expiration and generation, and a due timer that stays is untouched.
\<close>

definition fired ::
  "('s, 'w) wheel_ops \<Rightarrow> 's timing_wheel \<Rightarrow> 'w list \<Rightarrow> 's timing_wheel \<Rightarrow> 'w list \<Rightarrow> usize list \<Rightarrow> bool" where
  "fired ops w ex w' ex' is \<longleftrightarrow>
     distinct is \<and> ex' = ex @ map (\<lambda>i. te_waker (the (sl_get ops (entries w) i))) is \<and>
     (\<forall>i \<in> set is. \<exists>e. sl_get ops (entries w) i = Some e \<and> expiration_tick e \<le> current_tick w) \<and>
     dom (sl_get ops (entries w')) = dom (sl_get ops (entries w)) - set is \<and>
     (\<forall>i e e'. sl_get ops (entries w) i = Some e \<longrightarrow> sl_get ops (entries w') i = Some e' \<longrightarrow>
        te_waker e' = te_waker e \<and> expiration_tick e' = expiration_tick e \<and>
        te_generation e' = te_generation e \<and> (expiration_tick e \<le> current_tick w \<longrightarrow> e' = e)) \<and>
     current_tick w' = current_tick w \<and> generation_counter w' = generation_counter w \<and>
     expiration_heap w' = expiration_heap w"

text \<open>\<open>due_in ops w ps U\<close>: a due timer is in hand or in a slot of \<open>U\<close>.\<close>

definition due_in ::
  "('s, 'w) wheel_ops \<Rightarrow> 's timing_wheel \<Rightarrow> usize list \<Rightarrow> (usize \<times> usize) set \<Rightarrow> bool" where
  "due_in ops w ps U \<longleftrightarrow>
     (\<forall>i e. sl_get ops (entries w) i = Some e \<longrightarrow> expiration_tick e \<le> current_tick w \<longrightarrow>
        i \<in> set ps \<or> (te_level e, te_slot e) \<in> U)"

lemma fired_refl: "fired ops w ex w ex []"
  by (simp add: fired_def)

lemma fired_same:
  assumes f: "fired ops w ex w' ex' is" and e': "sl_get ops (entries w') i = Some e'"
  obtains e where "sl_get ops (entries w) i = Some e" and "te_waker e' = te_waker e"
    and "expiration_tick e' = expiration_tick e" and "te_generation e' = te_generation e"
    and "expiration_tick e \<le> current_tick w \<Longrightarrow> e' = e"
proof -
  have "i \<in> dom (sl_get ops (entries w'))" using e' by blast
  then have "i \<in> dom (sl_get ops (entries w))" using f by (simp add: fired_def)
  then obtain e where e: "sl_get ops (entries w) i = Some e" by blast
  from f have "\<forall>i e e'. sl_get ops (entries w) i = Some e \<longrightarrow> sl_get ops (entries w') i = Some e' \<longrightarrow>
        te_waker e' = te_waker e \<and> expiration_tick e' = expiration_tick e \<and>
        te_generation e' = te_generation e \<and> (expiration_tick e \<le> current_tick w \<longrightarrow> e' = e)"
    unfolding fired_def by (elim conjE)
  from this[rule_format, OF e e'] show ?thesis using e that by blast
qed

lemma fired_trans:
  assumes f1: "fired ops w ex w' ex' is" and f2: "fired ops w' ex' w'' ex'' js"
  shows "fired ops w ex w'' ex'' (is @ js)"
proof -
  let ?g = "sl_get ops (entries w)" and ?g' = "sl_get ops (entries w')"
  have dom': "dom ?g' = dom ?g - set is" and tick: "current_tick w' = current_tick w"
    using f1 by (auto simp: fired_def)
  have js: "\<exists>e'. ?g' j = Some e' \<and> expiration_tick e' \<le> current_tick w" if "j \<in> set js" for j
    using f2 that unfolding fired_def tick by blast
  have same: "\<exists>e. ?g j = Some e \<and> te_waker e' = te_waker e \<and> expiration_tick e' = expiration_tick e
      \<and> te_generation e' = te_generation e \<and> (expiration_tick e \<le> current_tick w \<longrightarrow> e' = e)"
    if "?g' j = Some e'" for j e'
    by (rule fired_same[OF f1 that]) auto
  have wk: "map (\<lambda>i. te_waker (the (?g' i))) js = map (\<lambda>i. te_waker (the (?g i))) js"
  proof (rule map_cong[OF refl])
    fix j assume "j \<in> set js"
    then obtain e' where e': "?g' j = Some e'" using js by blast
    then show "te_waker (the (?g' j)) = te_waker (the (?g j))" using same[OF e'] by auto
  qed
  have disj: "set is \<inter> set js = {}" using js dom' by blast
  have due: "\<exists>e. ?g j = Some e \<and> expiration_tick e \<le> current_tick w" if "j \<in> set js" for j
    using js[OF that] same by metis
  show ?thesis
    unfolding fired_def
  proof (intro conjI, goal_cases)
    case 5
    show ?case
    proof (intro allI impI)
      fix i e e'' assume e: "?g i = Some e" and e'': "sl_get ops (entries w'') i = Some e''"
      from fired_same[OF f2 e''] obtain e' where e': "?g' i = Some e'"
        and "te_waker e'' = te_waker e'" "expiration_tick e'' = expiration_tick e'"
          "te_generation e'' = te_generation e'" "expiration_tick e' \<le> current_tick w \<Longrightarrow> e'' = e'"
        unfolding tick by blast
      then show "te_waker e'' = te_waker e \<and> expiration_tick e'' = expiration_tick e \<and>
          te_generation e'' = te_generation e \<and> (expiration_tick e \<le> current_tick w \<longrightarrow> e'' = e)"
        using same[OF e'] e by auto
    qed
  qed (use f1 f2 wk disj due dom' in \<open>auto simp: fired_def\<close>)
qed

lemma fired_heap_covers:
  assumes "fired ops w ex w' ex' is" and "heap_covers ops w"
  shows "heap_covers ops w'"
proof -
  have orig: "\<exists>e. sl_get ops (entries w) i = Some e \<and> expiration_tick e' = expiration_tick e
      \<and> te_generation e' = te_generation e" if "sl_get ops (entries w') i = Some e'" for i e'
    by (rule fired_same[OF assms(1) that]) auto
  have heap: "expiration_heap w' = expiration_heap w" "generation_counter w' = generation_counter w"
    using assms(1) by (simp_all add: fired_def)
  show ?thesis
    unfolding heap_covers_def heap
  proof (intro conjI allI impI)
    fix i e' assume "sl_get ops (entries w') i = Some e'"
    from orig[OF this] assms(2) show "(expiration_tick e', i, te_generation e') \<in> set (expiration_heap w)"
      by (auto simp: heap_covers_def)
  next
    fix t i g e' assume "(t, i, g) \<in> set (expiration_heap w)" "sl_get ops (entries w') i = Some e'"
      "te_generation e' = g"
    with orig[of i e'] assms(2) show "expiration_tick e' = t" by (auto simp: heap_covers_def)
  qed (use assms(2) in \<open>auto simp: heap_covers_def\<close>)
qed

lemma fold_nested: "fold (\<lambda>l. fold (f l) xs) ls = fold (\<lambda>(l, s). f l s) (List.product ls xs)"
  by (induction ls) (auto simp: fun_eq_iff fold_map comp_def)

text \<open>The slots \<open>advance\<close> empties, in order: levels 6 to 1, then the scanned part of level 0.\<close>

lemma advance_loops:
  "fold (process_slot_at_level_0 ops) scan (cascade_all_levels ops st) =
   fold (\<lambda>(l, s). settle_slot ops l s)
     (List.product (rev [1..<NUM_LEVELS]) [0..<SLOTS_PER_LEVEL] @ map (Pair 0) scan) st"
  by (simp add: cascade_all_levels_def cascade_level_def[abs_def] fold_nested
      process_slot_at_level_0_def[abs_def] fold_map comp_def)

context timer_slab
begin

lemma settle_timer_step:
  assumes "placed ops w (i # ps)" and "settle_timer ops i (w, ex) = (w', ex')"
  shows "placed ops w' ps" and "\<exists>is. fired ops w ex w' ex' is"
    and "due_in ops w (i # ps) U \<Longrightarrow> due_in ops w' ps U"
proof -
  obtain e where e: "live w i = Some e" using assms(1) by (auto simp: placed_def)
  have "placed ops w' ps \<and> (\<exists>is. fired ops w ex w' ex' is) \<and>
      (due_in ops w (i # ps) U \<longrightarrow> due_in ops w' ps U)"
  proof (cases "expiration_tick e \<le> current_tick w")
    case True
    then have w': "w' = w\<lparr>entries := sl_remove ops (entries w) i\<rparr>" "ex' = ex @ [te_waker e]"
      using assms(2) e by (simp_all add: settle_timer_def)
    have "fired ops w ex w' ex' [i]"
      using e True by (auto simp: fired_def w' get_remove)
    then show ?thesis
      using placed_drop[OF assms(1) e] w' e by (auto simp: due_in_def get_remove)
  next
    case False
    obtain l s where ls: "calculate_level_and_slot (expiration_tick e - current_tick w) = (l, s)"
      by force
    let ?e = "e\<lparr>te_level := l, te_slot := s\<rparr>"
    have w': "w' = set_slot (w\<lparr>entries := sl_set ops (entries w) i ?e\<rparr>) l s (slot_of w l s @ [i])"
      "ex' = ex" using assms(2) e False ls by (simp_all add: settle_timer_def)
    have "fired ops w ex w' ex' []"
      using e False by (auto simp: fired_def w' get_set)
    moreover have "placed ops w' ps"
      unfolding w' using placed_push[OF placed_rename[OF assms(1) e], of ?e ?e l s] e
        calculate_level_and_slot_bounds[OF ls] by (simp add: get_set)
    ultimately show ?thesis
      using e False by (auto simp: due_in_def get_set w')
  qed
  then show "placed ops w' ps" and "\<exists>is. fired ops w ex w' ex' is"
    and "due_in ops w (i # ps) U \<Longrightarrow> due_in ops w' ps U" by blast+
qed

lemma settle_timers:
  assumes "placed ops w ps" and "fold (settle_timer ops) ps (w, ex) = (w', ex')"
  shows "placed ops w' [] \<and> (\<exists>is. fired ops w ex w' ex' is) \<and> (due_in ops w ps U \<longrightarrow> due_in ops w' [] U)"
  using assms
proof (induction ps arbitrary: w ex)
  case Nil
  then show ?case using fired_refl[of ops w ex] by auto
next
  case (Cons i ps)
  obtain w1 ex1 where s: "settle_timer ops i (w, ex) = (w1, ex1)" by force
  note step = settle_timer_step[OF Cons.prems(1) s]
  have "fold (settle_timer ops) ps (w1, ex1) = (w', ex')" using Cons.prems(2) s by simp
  from Cons.IH[OF step(1) this] show ?case using step(2,3) fired_trans by blast
qed

lemma fired_set_slot: "fired ops (set_slot w l s xs) ex w' ex' is \<longleftrightarrow> fired ops w ex w' ex' is"
  by (simp add: fired_def)

lemma settle_slot_step:
  assumes "placed ops w []" and "l < 7" and "s < 64" and "settle_slot ops l s (w, ex) = (w', ex')"
  shows "placed ops w' [] \<and> (\<exists>is. fired ops w ex w' ex' is) \<and>
    (due_in ops w [] U \<longrightarrow> due_in ops w' [] (U - {(l, s)}))"
proof -
  have "due_in ops (set_slot w l s []) (slot_of w l s) (U - {(l, s)})" if "due_in ops w [] U"
    using that placedD(3)[OF assms(1)] by (auto simp: due_in_def)
  then show ?thesis
    using settle_timers[OF placed_take_slot[OF assms(1-3)], of ex w' ex' "U - {(l, s)}"] assms(4)
    by (auto simp: settle_slot_def fired_set_slot)
qed

lemma settle_slots:
  assumes "placed ops w []" and "\<forall>(l, s) \<in> set lss. l < 7 \<and> s < 64"
    and "fold (\<lambda>(l, s). settle_slot ops l s) lss (w, ex) = (w', ex')" and "due_in ops w [] U"
  shows "placed ops w' [] \<and> (\<exists>is. fired ops w ex w' ex' is) \<and> due_in ops w' [] (U - set lss)"
  using assms
proof (induction lss arbitrary: w ex U)
  case Nil
  then show ?case using fired_refl[of ops w ex] by auto
next
  case (Cons p lss)
  obtain l s where p: "p = (l, s)" by force
  obtain w1 ex1 where s: "settle_slot ops l s (w, ex) = (w1, ex1)" by force
  have "l < 7" and "s < 64" using Cons.prems(2) p by auto
  note step = settle_slot_step[OF Cons.prems(1) this s, of U]
  have "fold (\<lambda>(l, s). settle_slot ops l s) lss (w1, ex1) = (w', ex')"
    using Cons.prems(3) s p by simp
  from Cons.IH[OF _ _ this, of "U - {(l, s)}"] step Cons.prems(2,4)
  have rest: "placed ops w' [] \<and> (\<exists>is. fired ops w1 ex1 w' ex' is) \<and> due_in ops w' [] (U - {(l, s)} - set lss)"
    by simp
  moreover have "U - {(l, s)} - set lss = U - set (p # lss)" using p by auto
  ultimately show ?case using step fired_trans by metis
qed

lemma level_0_scan_slots: "s \<in> set (level_0_scan a b t) \<Longrightarrow> s < 64"
  by (auto simp: level_0_scan_def SLOTS_PER_LEVEL_def and_63 Let_def split: if_splits)


text \<open>\<open>refresh_min_expiration\<close> drops stale triples only and finds the least live expiration.\<close>

lemma refresh_loop_spec:
  "refresh_loop ops es h = (h', m) \<Longrightarrow>
    \<exists>p. h = p @ h' \<and> (\<forall>(t, i, g) \<in> set p. \<forall>e. sl_get ops es i = Some e \<longrightarrow> te_generation e \<noteq> g) \<and>
      (case m of None \<Rightarrow> h' = []
       | Some x \<Rightarrow> \<exists>t i g r e. h' = (t, i, g) # r \<and> sl_get ops es i = Some e \<and>
            te_generation e = g \<and> x = expiration_tick e)"
proof (induction ops es h rule: refresh_loop.induct)
  case (1 ops es)
  then show ?case by simp
next
  case (2 ops es t idx gen h)
  show ?case
  proof (cases "\<exists>e. sl_get ops es idx = Some e \<and> te_generation e = gen")
    case True
    with "2.prems" show ?thesis by (auto intro: exI[of _ "[]"])
  next
    case False
    then have "refresh_loop ops es h = (h', m)" using "2.prems" by (auto split: option.splits if_splits)
    then obtain p where "h = p @ h'"
      "\<forall>(t, i, g) \<in> set p. \<forall>e. sl_get ops es i = Some e \<longrightarrow> te_generation e \<noteq> g"
      "case m of None \<Rightarrow> h' = []
       | Some x \<Rightarrow> \<exists>t i g r e. h' = (t, i, g) # r \<and> sl_get ops es i = Some e \<and>
            te_generation e = g \<and> x = expiration_tick e"
      using "2.IH" False by (cases "sl_get ops es idx") auto
    then show ?thesis using False by (intro exI[of _ "(t, idx, gen) # p"]) auto
  qed
qed

lemma refresh_correct:
  assumes "heap_covers ops w"
  shows "heap_covers ops (refresh_min_expiration ops w)"
    and "min_expiration_tick (refresh_min_expiration ops w) = least_expiration ops w"
proof -
  obtain h m where r: "refresh_loop ops (entries w) (expiration_heap w) = (h, m)" by force
  obtain p where p: "expiration_heap w = p @ h"
    and stale: "\<forall>(t, i, g) \<in> set p. \<forall>e. live w i = Some e \<longrightarrow> te_generation e \<noteq> g"
    and top: "case m of None \<Rightarrow> h = []
       | Some x \<Rightarrow> \<exists>t i g r e. h = (t, i, g) # r \<and> live w i = Some e \<and> te_generation e = g \<and> x = expiration_tick e"
    using refresh_loop_spec[OF r] by blast
  have w': "refresh_min_expiration ops w = w\<lparr>expiration_heap := h, min_expiration_tick := m\<rparr>"
    by (simp add: refresh_min_expiration_def r)
  have cover: "(expiration_tick e, i, te_generation e) \<in> set h" if "live w i = Some e" for i e
  proof -
    have "(expiration_tick e, i, te_generation e) \<in> set (p @ h)"
      using assms that unfolding heap_covers_def p by blast
    then show ?thesis using stale that by auto
  qed
  show "heap_covers ops (refresh_min_expiration ops w)"
    using assms cover unfolding w' heap_covers_def p by (auto simp: sorted_append)
  show "min_expiration_tick (refresh_min_expiration ops w) = least_expiration ops w"
  proof (cases m)
    case None
    then have "live w i = None" for i using top cover[of i] by (cases "live w i") auto
    then show ?thesis using None by (simp add: w' least_expiration_def ran_def)
  next
    case (Some x)
    then obtain t i g r e where h: "h = (t, i, g) # r" and e: "live w i = Some e" "te_generation e = g"
      and x: "x = expiration_tick e" using top by auto
    have tx: "expiration_tick e = t"
      using assms e unfolding heap_covers_def p h by (metis in_set_conv_decomp)
    have srt: "sorted h" using assms unfolding heap_covers_def p by (simp add: sorted_append)
    have least: "x \<le> expiration_tick e'" if "live w j = Some e'" for j e'
    proof -
      have "(t, i, g) \<le> (expiration_tick e', j, te_generation e')"
        using srt cover[OF that] unfolding h by (rule sorted_hd_least)
      then show ?thesis using x tx by (simp add: less_eq_prod_def) linarith
    qed
    have "Min (expiration_tick ` ran (live w)) = x"
    proof (rule Min_eqI)
      show "finite (expiration_tick ` ran (live w))" using finite_values by simp
      show "x \<in> expiration_tick ` ran (live w)" using e x by (auto simp: ran_def)
      show "x \<le> y" if "y \<in> expiration_tick ` ran (live w)" for y using that least by (auto simp: ran_def)
    qed
    moreover have "ran (live w) \<noteq> {}" using e by (auto simp: ran_def)
    ultimately show ?thesis using Some by (simp add: w' least_expiration_def)
  qed
qed

lemma refresh_frame [simp]:
  "entries (refresh_min_expiration ops w) = entries w"
  "current_tick (refresh_min_expiration ops w) = current_tick w"
  "generation_counter (refresh_min_expiration ops w) = generation_counter w"
  "placed ops (refresh_min_expiration ops w) ps = placed ops w ps"
  "slot_of (refresh_min_expiration ops w) = slot_of w"
  by (simp_all add: refresh_min_expiration_def split: prod.splits)

lemma wheel_inv_refresh:
  "placed ops w [] \<Longrightarrow> heap_covers ops w \<Longrightarrow> wheel_inv ops (refresh_min_expiration ops w)"
  using refresh_correct[of w] by (simp add: wheel_inv_def least_expiration_def)


section \<open>The operations keep the invariant\<close>

lemma wheel_inv_new: "wheel_inv ops (wheel_new ops)"
  by (auto simp: wheel_inv_def placed_def heap_covers_def least_expiration_def wheel_new_def
      wheel_dims_def slot_of_def NUM_LEVELS_def SLOTS_PER_LEVEL_def get_new)

text \<open>The timer that \<open>insert\<close> stores, and the wheel it leaves, named field by field.\<close>

lemma wheel_insert_unfold:
  assumes "wheel_insert ops k t w = (h, w')" and "calculate_level_and_slot (t - current_tick w) = (l, s)"
    and "generation_counter w + 1 < U64_LIMIT"
  defines "g \<equiv> generation_counter w + 1" and "i \<equiv> sl_vacant_key ops (entries w)"
  defines "e \<equiv> \<lparr>te_waker = k, expiration_tick = t, te_generation = g, te_level = l, te_slot = s\<rparr>"
  shows "h = \<lparr>slab_index = i, h_generation = g\<rparr>"
    and "live w' = (live w)(i \<mapsto> e)"
    and "entries w' = sl_insert ops (entries w) e"
    and "current_tick w' = current_tick w" and "generation_counter w' = g"
    and "expiration_heap w' = insort (t, i, g) (expiration_heap w)"
    and "min_expiration_tick w' =
           Some (case min_expiration_tick w of None \<Rightarrow> t | Some m \<Rightarrow> min m t)"
    and "placed ops w [] \<Longrightarrow> placed ops w' []"
proof -
  have g: "u64_add (generation_counter w) (Suc 0) = g" using assms(3) unfolding g_def by simp
  let ?w1 = "w\<lparr>generation_counter := g, entries := sl_insert ops (entries w) e\<rparr>"
  let ?w2 = "set_slot ?w1 l s (slot_of ?w1 l s @ [i])"
  have w': "w' = update_min_on_insert (?w2\<lparr>expiration_heap := insort (t, i, g) (expiration_heap ?w2)\<rparr>) t"
    and h: "h = \<lparr>slab_index = i, h_generation = g\<rparr>"
    using assms(1) unfolding wheel_insert_def Let_def assms(2) g One_nat_def
    by (simp_all add: e_def i_def)
  show "h = \<lparr>slab_index = i, h_generation = g\<rparr>" by (rule h)
  show "entries w' = sl_insert ops (entries w) e" "current_tick w' = current_tick w"
    "generation_counter w' = g" "expiration_heap w' = insort (t, i, g) (expiration_heap w)"
    "min_expiration_tick w' = Some (case min_expiration_tick w of None \<Rightarrow> t | Some m \<Rightarrow> min m t)"
    by (simp_all add: w' update_min_on_insert_def)
  then show live': "live w' = (live w)(i \<mapsto> e)" by (simp add: get_insert i_def)
  show "placed ops w' []" if "placed ops w []"
  proof -
    have "placed ops ?w1 [i]"
      using placed_enter[of "w\<lparr>generation_counter := g\<rparr>" "[]" e] that calculate_level_and_slot_bounds[OF assms(2)]
      by (simp add: e_def i_def)
    then have "placed ops ?w2 []"
      by (rule placed_push[of _ _ _ e]) (simp_all add: get_insert i_def e_def)
    then show ?thesis by (simp add: w' update_min_on_insert_def)
  qed
qed

lemma heap_covers_insert:
  assumes "heap_covers ops w" and "expiration_heap w' = insort (t, i, g) (expiration_heap w)"
    and "live w' = (live w)(i \<mapsto> e)" and "expiration_tick e = t" and "te_generation e = g"
    and "generation_counter w' = g" and "g = generation_counter w + 1"
  shows "heap_covers ops w'"
proof -
  have old: "g' \<le> generation_counter w" if "(t', j, g') \<in> set (expiration_heap w)" for t' j g'
    using assms(1) that by (auto simp: heap_covers_def)
  have cov: "sorted (expiration_heap w)"
    "\<And>j e. live w j = Some e \<Longrightarrow> (expiration_tick e, j, te_generation e) \<in> set (expiration_heap w)"
    "\<And>t' j g' e. (t', j, g') \<in> set (expiration_heap w) \<Longrightarrow> live w j = Some e \<Longrightarrow> te_generation e = g' \<Longrightarrow>
       expiration_tick e = t'"
    using assms(1) unfolding heap_covers_def by blast+
  show ?thesis
    unfolding heap_covers_def
  proof (intro conjI allI impI)
    show "sorted (expiration_heap w')" using cov(1) assms(2) by (simp add: sorted_insort)
    show "(expiration_tick e', j, te_generation e') \<in> set (expiration_heap w')"
      if "live w' j = Some e'" for j e'
      using that cov(2)[of j e'] assms(2-5) by (auto simp: set_insort_key split: if_splits)
    show "expiration_tick e' = t'"
      if "(t', j, g') \<in> set (expiration_heap w')" "live w' j = Some e'" "te_generation e' = g'" for t' j g' e'
      using that cov(2)[of j e'] cov(3)[of t' j g' e'] old[of t' j g'] old[of _ j g'] assms(2-7)
      by (fastforce simp: set_insort_key split: if_splits)
    show "g' \<le> generation_counter w'" if "(t', j, g') \<in> set (expiration_heap w')" for t' j g'
      using that old[of t' j g'] assms(2,6,7) by (auto simp: set_insort_key)
  qed
qed

lemma least_expiration_insert:
  assumes "live w' = (live w)(i \<mapsto> e)" and "live w i = None"
  shows "least_expiration ops w' = Some (case least_expiration ops w of
    None \<Rightarrow> expiration_tick e | Some m \<Rightarrow> min m (expiration_tick e))"
proof -
  have "ran (live w') = insert e (ran (live w))" using assms by simp
  moreover have "finite (expiration_tick ` ran (live w))" using finite_values by simp
  ultimately show ?thesis
    by (auto simp: least_expiration_def min.commute)
qed

lemma wheel_inv_insert:
  assumes "wheel_inv ops w" and "generation_counter w + 1 < U64_LIMIT" and "wheel_insert ops k t w = (h, w')"
  shows "wheel_inv ops w'"
proof -
  obtain l s where ls: "calculate_level_and_slot (t - current_tick w) = (l, s)" by force
  note ins = wheel_insert_unfold[OF assms(3) ls assms(2)]
  have "heap_covers ops w'"
    by (rule heap_covers_insert[OF _ ins(6,2) _ _ ins(5)]) (use assms(1) in \<open>simp_all add: wheel_inv_def\<close>)
  moreover have "min_expiration_tick w' = least_expiration ops w'"
    using assms(1) least_expiration_insert[OF ins(2) get_vacant] ins(7)
    by (simp add: wheel_inv_def split: option.splits)
  ultimately show ?thesis using ins(8) assms(1) by (simp add: wheel_inv_def)
qed

lemma heap_covers_remove:
  "heap_covers ops w \<Longrightarrow> live w i = Some e \<Longrightarrow> expiration_heap w' = expiration_heap w \<Longrightarrow>
    generation_counter w' = generation_counter w \<Longrightarrow> live w' = (live w)(i := None) \<Longrightarrow> heap_covers ops w'"
  by (auto simp: heap_covers_def)

lemma wheel_remove_hit:
  assumes "live w (slab_index h) = Some e" and "te_generation e = h_generation h"
  defines "w2 \<equiv> (set_slot w (te_level e) (te_slot e)
      (remove1 (slab_index h) (slot_of w (te_level e) (te_slot e))))
      \<lparr>entries := sl_remove ops (entries w) (slab_index h)\<rparr>"
  shows "wheel_remove ops h w = refresh_min_expiration ops w2"
    and "live w2 = (live w)(slab_index h := None)"
    and "current_tick w2 = current_tick w" and "expiration_heap w2 = expiration_heap w"
    and "generation_counter w2 = generation_counter w"
  using assms by (simp_all add: wheel_remove_def Let_def get_remove)

lemma wheel_remove_miss:
  "\<forall>e. live w (slab_index h) = Some e \<longrightarrow> te_generation e \<noteq> h_generation h \<Longrightarrow> wheel_remove ops h w = w"
  by (auto simp: wheel_remove_def split: option.splits)

lemma live_wheel_remove:
  "live (wheel_remove ops h w) =
    (if \<exists>e. live w (slab_index h) = Some e \<and> te_generation e = h_generation h
     then (live w)(slab_index h := None) else live w)"
  using wheel_remove_hit[of w h] wheel_remove_miss[of w h] by auto

lemma wheel_inv_remove:
  assumes "wheel_inv ops w"
  shows "wheel_inv ops (wheel_remove ops h w)"
proof (cases "\<exists>e. live w (slab_index h) = Some e \<and> te_generation e = h_generation h")
  case True
  then obtain e where e: "live w (slab_index h) = Some e" "te_generation e = h_generation h" by blast
  note hit = wheel_remove_hit[OF e]
  have "placed ops w []" and hc: "heap_covers ops w" using assms by (simp_all add: wheel_inv_def)
  from placed_drop[OF placed_take[OF this(1) e(1) refl refl]] e(1)
  have "placed ops ((set_slot w (te_level e) (te_slot e)
      (remove1 (slab_index h) (slot_of w (te_level e) (te_slot e))))
      \<lparr>entries := sl_remove ops (entries w) (slab_index h)\<rparr>) []" by simp
  then show ?thesis
    unfolding hit(1) by (rule wheel_inv_refresh) (rule heap_covers_remove[OF hc e(1) hit(4,5,2)])
next
  case False
  then show ?thesis using assms wheel_remove_miss[of w h] by simp
qed


lemma wheel_advance_core:
  assumes "wheel_inv ops w" and "0 < d" and "current_tick w + d < U64_LIMIT"
    and "wheel_advance ops d w = (ex, w')"
  obtains w3 "is" where "w' = refresh_min_expiration ops w3" and "placed ops w3 []"
    and "fired ops (w\<lparr>current_tick := current_tick w + d\<rparr>) [] w3 ex is"
    and "due_in ops w3 [] ({0} \<times> ({..<64} - set (level_0_scan (current_tick w) (current_tick w + d) d)))"
proof -
  let ?w1 = "w\<lparr>current_tick := current_tick w + d\<rparr>"
  let ?scan = "level_0_scan (current_tick w) (current_tick w + d) d"
  let ?slots = "List.product (rev [1..<NUM_LEVELS]) [0..<SLOTS_PER_LEVEL] @ map (Pair 0) ?scan"
  obtain w3 where run: "fold (\<lambda>(l, s). settle_slot ops l s) ?slots (?w1, []) = (w3, ex)"
    and w': "w' = refresh_min_expiration ops w3"
    using assms(2-4) by (auto simp: wheel_advance_def Let_def advance_loops split: prod.splits)
  have p1: "placed ops ?w1 []" using assms(1) by (simp add: wheel_inv_def)
  have "\<forall>(l, s) \<in> set ?slots. l < 7 \<and> s < 64"
    using level_0_scan_slots by (auto simp: NUM_LEVELS_def SLOTS_PER_LEVEL_def)
  moreover have "due_in ops ?w1 [] ({..<7} \<times> {..<64})"
    using placedD(1,2)[OF p1] by (auto simp: due_in_def)
  ultimately have res: "placed ops w3 [] \<and> (\<exists>is. fired ops ?w1 [] w3 ex is) \<and>
      due_in ops w3 [] ({..<7} \<times> {..<64} - set ?slots)"
    using settle_slots[OF p1 _ run] by blast
  have "{..<7} \<times> {..<64} - set ?slots \<subseteq> {0} \<times> ({..<64} - set ?scan)"
    by (auto simp: NUM_LEVELS_def SLOTS_PER_LEVEL_def)
  with res have "due_in ops w3 [] ({0} \<times> ({..<64} - set ?scan))"
    unfolding due_in_def by blast
  with res w' that show thesis by blast
qed

lemma wheel_inv_advance:
  assumes "wheel_inv ops w" and "current_tick w + d < U64_LIMIT" and "wheel_advance ops d w = (ex, w')"
  shows "wheel_inv ops w'"
proof (cases "d = 0")
  case True
  then show ?thesis using assms by (simp add: wheel_advance_def)
next
  case False
  then have d: "0 < d" by simp
  obtain w3 "is" where "w' = refresh_min_expiration ops w3" and "placed ops w3 []"
    and f: "fired ops (w\<lparr>current_tick := current_tick w + d\<rparr>) [] w3 ex is"
    and "due_in ops w3 [] ({0} \<times> ({..<64} - set (level_0_scan (current_tick w) (current_tick w + d) d)))"
    by (rule wheel_advance_core[OF assms(1) d assms(2,3)])
  moreover have "heap_covers ops w3"
    by (rule fired_heap_covers[OF f]) (use assms(1) in \<open>simp add: wheel_inv_def heap_covers_def\<close>)
  ultimately show ?thesis by (simp add: wheel_inv_refresh)
qed

lemma wheel_inv_nearest:
  "wheel_inv ops w \<Longrightarrow> nearest_wakeup ops w = (r, w') \<Longrightarrow> wheel_inv ops w'"
  by (auto simp: nearest_wakeup_def Let_def wheel_inv_def[of ops w] intro: wheel_inv_refresh)

end

section \<open>Runs of the wheel\<close>

text \<open>
  The timers a wheel holds, as its clients see them: slab index to waker, expiration tick and
  generation. Levels, slots and the heap are bookkeeping.
\<close>

definition timers :: "('s, 'w) wheel_ops \<Rightarrow> 's timing_wheel \<Rightarrow> usize \<Rightarrow> ('w \<times> u64 \<times> u64) option" where
  "timers ops w i = map_option (\<lambda>e. (te_waker e, expiration_tick e, te_generation e)) (sl_get ops (entries w) i)"

text \<open>
  One call on the wheel by its owner \<open>Timer\<close>. \<open>Timer::submit\<close> inserts \<open>now + millis\<close> with
  \<open>millis \<ge> 1\<close>, hence the guard of \<open>do_insert\<close>; the other guards exclude the wrap-around of the
  64-bit tick and generation counters.
\<close>

datatype 'w wheel_event =
  Inserted 'w u64 timer_handle | Removed timer_handle | Advanced u64 "'w list" | Nearest "u64 option"

inductive wheel_step ::
  "('s, 'w) wheel_ops \<Rightarrow> 's timing_wheel \<Rightarrow> 'w wheel_event \<Rightarrow> 's timing_wheel \<Rightarrow> bool" for ops where
  do_insert: "current_tick w < t \<Longrightarrow> t < U64_LIMIT \<Longrightarrow> generation_counter w + 1 < U64_LIMIT \<Longrightarrow>
     wheel_insert ops k t w = (h, w') \<Longrightarrow> wheel_step ops w (Inserted k t h) w'"
| do_remove: "wheel_step ops w (Removed h) (wheel_remove ops h w)"
| do_advance: "current_tick w + d < U64_LIMIT \<Longrightarrow> wheel_advance ops d w = (ex, w') \<Longrightarrow>
     wheel_step ops w (Advanced d ex) w'"
| do_nearest: "nearest_wakeup ops w = (r, w') \<Longrightarrow> wheel_step ops w (Nearest r) w'"

inductive_cases insert_stepE: "wheel_step ops w (Inserted k t h) w'"
inductive_cases remove_stepE: "wheel_step ops w (Removed h) w'"
inductive_cases advance_stepE: "wheel_step ops w (Advanced d ex) w'"
inductive_cases nearest_stepE: "wheel_step ops w (Nearest r) w'"

inductive wheel_reach :: "('s, 'w) wheel_ops \<Rightarrow> 's timing_wheel \<Rightarrow> bool" for ops where
  reach_new: "wheel_reach ops (wheel_new ops)"
| reach_step: "wheel_reach ops w \<Longrightarrow> wheel_step ops w ev w' \<Longrightarrow> wheel_reach ops w'"

text \<open>
  A due timer that is still in the wheel sits at level 0 in a slot that no tick since its
  expiration has named: this is what bounds the delay of a late timer.
\<close>

definition overdue_ok :: "('s, 'w) wheel_ops \<Rightarrow> 's timing_wheel \<Rightarrow> bool" where
  "overdue_ok ops w \<longleftrightarrow>
     (\<forall>i e. sl_get ops (entries w) i = Some e \<longrightarrow> expiration_tick e \<le> current_tick w \<longrightarrow>
        te_slot e < 64 \<and> (\<forall>t. expiration_tick e \<le> t \<longrightarrow> t \<le> current_tick w \<longrightarrow> t mod 64 \<noteq> te_slot e))"

lemma level_0_scan_covers:
  assumes "a \<le> t" and "t \<le> a + d"
  shows "t mod 64 \<in> set (level_0_scan a (a + d) d)"
proof -
  define q r where "q = a div 64" and "r = a mod 64"
  define tq tr where "tq = t div 64" and "tr = t mod 64"
  define bq br where "bq = (a + d) div 64" and "br = (a + d) mod 64"
  have a: "a = 64 * q + r" and t: "t = 64 * tq + tr" and b: "a + d = 64 * bq + br"
    by (simp_all add: q_def r_def tq_def tr_def bq_def br_def)
  have lt: "r < 64" "tr < 64" "br < 64" by (simp_all add: r_def tr_def br_def)
  have qs: "q \<le> tq" "tq \<le> bq" using assms by (simp_all add: q_def tq_def bq_def div_le_mono)
  show ?thesis
  proof (cases "d < 64")
    case False
    then show ?thesis by (auto simp: level_0_scan_def SLOTS_PER_LEVEL_def)
  next
    case True
    have "64 * bq + br = 64 * q + r + d" using a b by simp
    then have bq: "bq \<le> Suc q" using lt True by linarith
    have "if r \<le> br then r \<le> tr \<and> tr \<le> br else r \<le> tr \<or> tr \<le> br"
    proof (cases "bq = q")
      case True
      then have "tq = q" using qs by simp
      then show ?thesis using True a t b assms by auto
    next
      case False
      then have "bq = Suc q" using bq qs by simp
      then have "br < r" using a b \<open>d < 64\<close> by simp
      moreover have "r \<le> tr \<or> tr \<le> br"
        using \<open>bq = Suc q\<close> qs a t b assms by (cases "tq = q") auto
      ultimately show ?thesis by simp
    qed
    then show ?thesis
      using True lt unfolding level_0_scan_def SLOTS_PER_LEVEL_def Let_def r_def tr_def br_def
      by (auto simp: and_63 split: if_splits)
  qed
qed

context timer_slab
begin

lemma wheel_step_inv: "wheel_step ops w ev w' \<Longrightarrow> wheel_inv ops w \<Longrightarrow> wheel_inv ops w'"
  by (induction rule: wheel_step.induct)
    (blast intro: wheel_inv_insert wheel_inv_remove wheel_inv_advance wheel_inv_nearest)+

lemma wheel_reach_inv: "wheel_reach ops w \<Longrightarrow> wheel_inv ops w"
  by (induction rule: wheel_reach.induct) (auto intro: wheel_inv_new wheel_step_inv)

lemma fired_timers:
  assumes "fired ops w ex w' ex' is"
  shows "timers ops w' = timers ops w |` (- set is)"
    and "ex' = ex @ map (\<lambda>i. fst (the (timers ops w i))) is"
    and "\<And>i. i \<in> set is \<Longrightarrow> \<exists>k t g. timers ops w i = Some (k, t, g) \<and> t \<le> current_tick w"
proof -
  have dom: "dom (live w') = dom (live w) - set is"
    and due: "\<forall>i \<in> set is. \<exists>e. live w i = Some e \<and> expiration_tick e \<le> current_tick w"
    and ex: "ex' = ex @ map (\<lambda>i. te_waker (the (live w i))) is"
    using assms by (simp_all add: fired_def)
  show "timers ops w' = timers ops w |` (- set is)"
  proof
    fix i
    show "timers ops w' i = (timers ops w |` (- set is)) i"
    proof (cases "live w' i")
      case None
      then have "i \<notin> dom (live w) - set is" using dom by auto
      then show ?thesis using None by (auto simp: timers_def restrict_map_def)
    next
      case (Some e')
      then have "i \<in> dom (live w) - set is" using dom by blast
      then show ?thesis using Some by (auto simp: timers_def restrict_map_def elim: fired_same[OF assms])
    qed
  qed
  show "ex' = ex @ map (\<lambda>i. fst (the (timers ops w i))) is"
    unfolding ex using due by (auto simp: timers_def)
  show "\<exists>k t g. timers ops w i = Some (k, t, g) \<and> t \<le> current_tick w" if "i \<in> set is" for i
    using due that by (auto simp: timers_def)
qed

lemma timers_frame [simp]: "timers ops (w\<lparr>current_tick := t\<rparr>) = timers ops w"
  "timers ops (refresh_min_expiration ops w) = timers ops w"
  by (simp_all add: timers_def fun_eq_iff)

lemma overdue_ok_insert:
  assumes "overdue_ok ops w" and "current_tick w < t" and "generation_counter w + 1 < U64_LIMIT"
    and "wheel_insert ops k t w = (h, w')"
  shows "overdue_ok ops w'"
proof -
  obtain l s where ls: "calculate_level_and_slot (t - current_tick w) = (l, s)" by force
  note ins = wheel_insert_unfold[OF assms(4) ls assms(3)]
  show ?thesis using assms(1,2) by (auto simp: overdue_ok_def ins(2,4))
qed

lemma overdue_ok_remove: "overdue_ok ops w \<Longrightarrow> overdue_ok ops (wheel_remove ops h w)"
proof (cases "\<exists>e. live w (slab_index h) = Some e \<and> te_generation e = h_generation h")
  case True
  then obtain e where "live w (slab_index h) = Some e" "te_generation e = h_generation h" by blast
  from wheel_remove_hit[OF this] show "overdue_ok ops w \<Longrightarrow> ?thesis"
    by (simp add: overdue_ok_def)
qed (simp add: wheel_remove_miss)

lemma overdue_ok_advance:
  assumes "wheel_inv ops w" and "overdue_ok ops w" and "current_tick w + d < U64_LIMIT"
    and "wheel_advance ops d w = (ex, w')"
  shows "overdue_ok ops w'"
proof (cases "d = 0")
  case True
  then show ?thesis using assms by (simp add: wheel_advance_def)
next
  case False
  let ?w1 = "w\<lparr>current_tick := current_tick w + d\<rparr>"
  from False have d: "0 < d" by simp
  obtain w3 "is" where w': "w' = refresh_min_expiration ops w3" and "placed ops w3 []"
    and f: "fired ops ?w1 [] w3 ex is"
    and due: "due_in ops w3 [] ({0} \<times> ({..<64} - set (level_0_scan (current_tick w) (current_tick w + d) d)))"
    by (rule wheel_advance_core[OF assms(1) d assms(3,4)])
  have tick: "current_tick w3 = current_tick w + d" using f by (simp add: fired_def)
  show ?thesis
    unfolding overdue_ok_def w' refresh_frame tick
  proof (intro allI impI)
    fix i e assume e: "live w3 i = Some e" and le: "expiration_tick e \<le> current_tick w + d"
    then have slot: "te_slot e < 64" "te_slot e \<notin> set (level_0_scan (current_tick w) (current_tick w + d) d)"
      using due tick by (auto simp: due_in_def)
    have e0: "live w i = Some e" by (rule fired_same[OF f e]) (use le in auto)
    show "te_slot e < 64 \<and> (\<forall>t. expiration_tick e \<le> t \<longrightarrow> t \<le> current_tick w + d \<longrightarrow> t mod 64 \<noteq> te_slot e)"
    proof (intro conjI allI impI slot(1))
      fix t assume "expiration_tick e \<le> t" and "t \<le> current_tick w + d"
      then show "t mod 64 \<noteq> te_slot e"
        using level_0_scan_covers[of "current_tick w" t d] slot(2) assms(2) e0
        by (cases "current_tick w \<le> t") (auto simp: overdue_ok_def)
    qed
  qed
qed

lemma overdue_ok_reach: "wheel_reach ops w \<Longrightarrow> overdue_ok ops w"
proof (induction rule: wheel_reach.induct)
  case reach_new
  show ?case by (simp add: overdue_ok_def wheel_new_def get_new)
next
  case (reach_step w ev w')
  from reach_step.hyps(2) show ?case
  proof cases
    case do_nearest
    then show ?thesis using reach_step.IH by (auto simp: nearest_wakeup_def Let_def overdue_ok_def)
  qed (use reach_step in \<open>auto intro: overdue_ok_insert overdue_ok_remove overdue_ok_advance wheel_reach_inv\<close>)
qed

lemma overdue_bound:
  assumes "wheel_reach ops w" and "live w i = Some e"
  shows "current_tick w < expiration_tick e + 63"
proof (rule ccontr)
  assume late: "\<not> current_tick w < expiration_tick e + 63"
  then have "expiration_tick e \<le> current_tick w" by simp
  then have "te_slot e < 64"
    and miss: "\<And>t. expiration_tick e \<le> t \<Longrightarrow> t \<le> current_tick w \<Longrightarrow> t mod 64 \<noteq> te_slot e"
    using overdue_ok_reach[OF assms(1)] assms(2) by (auto simp: overdue_ok_def)
  obtain t where "expiration_tick e \<le> t" "t < expiration_tick e + 64" "t mod 64 = te_slot e"
    using mod_hit_window[OF \<open>te_slot e < 64\<close>] by blast
  then show False using miss[of t] late by simp
qed

end

end
