(* ===== verification/Timer_Service.thy ===== *)
theory Timer_Service
  imports Timing_Wheel
begin

text \<open>
  What the timing wheel promises its owner, stated without levels, slots or heap: a service
  that holds pending timers, cancels them by handle, fires due ones and names the nearest
  deadline. The refinement theorem shows that every call on a reachable wheel is a step of
  this service; the other properties state the promises one by one, with the exact set of
  slots in which a due timer can be missed.
\<close>

section \<open>The abstract service\<close>

record 'w service =
  svc_now :: u64
  pending :: "usize \<rightharpoonup> 'w \<times> u64 \<times> u64"

definition deadlines :: "(usize \<rightharpoonup> 'w \<times> u64 \<times> u64) \<Rightarrow> u64 set" where
  "deadlines m = (\<lambda>(k, t, g). t) ` ran m"

text \<open>
  \<open>svc_advance\<close> may leave a due timer pending, but only one that is less than 63 ticks overdue.
\<close>

inductive service_step :: "'w service \<Rightarrow> 'w wheel_event \<Rightarrow> 'w service \<Rightarrow> bool" where
  svc_insert: "svc_now a < t \<Longrightarrow> pending a (slab_index h) = None \<Longrightarrow>
     \<forall>i k' t' g. pending a i = Some (k', t', g) \<longrightarrow> g < h_generation h \<Longrightarrow>
     service_step a (Inserted k t h) (a\<lparr>pending := (pending a)(slab_index h \<mapsto> (k, t, h_generation h))\<rparr>)"
| svc_remove: "service_step a (Removed h)
     (a\<lparr>pending := if \<exists>k t. pending a (slab_index h) = Some (k, t, h_generation h)
                    then (pending a)(slab_index h := None) else pending a\<rparr>)"
| svc_advance: "distinct is \<Longrightarrow> ex = map (\<lambda>i. fst (the (pending a i))) is \<Longrightarrow>
     \<forall>i \<in> set is. \<exists>k t g. pending a i = Some (k, t, g) \<and> t \<le> svc_now a + d \<Longrightarrow>
     \<forall>i k t g. pending a i = Some (k, t, g) \<longrightarrow> t + 63 \<le> svc_now a + d \<longrightarrow> i \<in> set is \<Longrightarrow>
     service_step a (Advanced d ex)
       (a\<lparr>svc_now := svc_now a + d, pending := pending a |` (- set is)\<rparr>)"
| svc_nearest: "r = (if pending a = Map.empty then None else Some (Min (deadlines (pending a)))) \<Longrightarrow>
     service_step a (Nearest (if r = Some 0 then None else r)) a"

definition service_of :: "('s, 'w) wheel_ops \<Rightarrow> 's timing_wheel \<Rightarrow> 'w service" where
  "service_of ops w = \<lparr>svc_now = current_tick w, pending = timers ops w\<rparr>"

section \<open>Each call is a step of the service\<close>

context timer_slab
begin

lemma timers_Some: "timers ops w i = Some (k, t, g) \<longleftrightarrow>
    (\<exists>e. live w i = Some e \<and> te_waker e = k \<and> expiration_tick e = t \<and> te_generation e = g)"
  by (auto simp: timers_def)

lemma timers_insert:
  assumes "wheel_insert ops k t w = (h, w')" and "generation_counter w + 1 < U64_LIMIT"
  shows "timers ops w' = (timers ops w)(slab_index h \<mapsto> (k, t, h_generation h))"
    and "timers ops w (slab_index h) = None" and "h_generation h = generation_counter w + 1"
    and "current_tick w' = current_tick w"
proof -
  obtain l s where ls: "calculate_level_and_slot (t - current_tick w) = (l, s)" by force
  note ins = wheel_insert_unfold[OF assms(1) ls assms(2)]
  show "timers ops w' = (timers ops w)(slab_index h \<mapsto> (k, t, h_generation h))"
    by (simp add: timers_def fun_eq_iff ins(1,2))
  show "timers ops w (slab_index h) = None" by (simp add: timers_def ins(1) get_vacant)
  show "h_generation h = generation_counter w + 1" by (simp add: ins(1))
  show "current_tick w' = current_tick w" by (rule ins(4))
qed

lemma generation_le_counter:
  assumes "wheel_inv ops w" and "timers ops w i = Some (k, t, g)"
  shows "g \<le> generation_counter w"
proof -
  obtain e where "live w i = Some e" and g: "te_generation e = g" using assms(2) by (auto simp: timers_Some)
  then have "(expiration_tick e, i, te_generation e) \<in> set (expiration_heap w)"
    using assms(1) unfolding wheel_inv_def heap_covers_def by blast
  then show ?thesis using assms(1) g unfolding wheel_inv_def heap_covers_def by blast
qed

lemma timers_remove:
  "timers ops (wheel_remove ops h w) =
    (if \<exists>k t. timers ops w (slab_index h) = Some (k, t, h_generation h)
     then (timers ops w)(slab_index h := None) else timers ops w)"
  using live_wheel_remove[of h w] by (auto simp: timers_def fun_eq_iff)

lemma wheel_remove_tick [simp]: "current_tick (wheel_remove ops h w) = current_tick w"
  by (auto simp: wheel_remove_def Let_def split: option.splits)

text \<open>The fired timers of one \<open>advance\<close>, and what stays.\<close>

lemma timers_advance:
  assumes "wheel_inv ops w" and "current_tick w + d < U64_LIMIT" and "wheel_advance ops d w = (ex, w')"
  obtains "is" where "distinct is" and "ex = map (\<lambda>i. fst (the (timers ops w i))) is"
    and "\<forall>i \<in> set is. \<exists>k t g. timers ops w i = Some (k, t, g) \<and> t \<le> current_tick w + d"
    and "timers ops w' = timers ops w |` (- set is)" and "current_tick w' = current_tick w + d"
proof (cases "d = 0")
  case True
  moreover have "timers ops w |` (- set []) = timers ops w"
    by (simp add: restrict_map_def)
  ultimately show thesis
    using assms(3) by (intro that[of "[]"]) (simp_all add: wheel_advance_def)
next
  case False
  then have d: "0 < d" by simp
  obtain w3 "is" where w': "w' = refresh_min_expiration ops w3" and "placed ops w3 []"
    and f: "fired ops (w\<lparr>current_tick := current_tick w + d\<rparr>) [] w3 ex is"
    and "due_in ops w3 [] ({0} \<times> ({..<64} - set (level_0_scan (current_tick w) (current_tick w + d) d)))"
    by (rule wheel_advance_core[OF assms(1) d assms(2,3)])
  show thesis
  proof (rule that[of "is"])
    show "distinct is" and "current_tick w' = current_tick w + d" using f w' by (simp_all add: fired_def)
  qed (use fired_timers[OF f] w' in simp_all)
qed

lemma deadlines_timers: "deadlines (timers ops w) = expiration_tick ` ran (live w)"
proof -
  have "ran (timers ops w) = (\<lambda>e. (te_waker e, expiration_tick e, te_generation e)) ` ran (live w)"
    by (auto simp: timers_def ran_def image_def)
  then show ?thesis by (simp add: deadlines_def image_image)
qed

lemma timers_empty_iff: "timers ops w = Map.empty \<longleftrightarrow> live w = Map.empty"
  by (auto simp: timers_def fun_eq_iff)

lemma nearest_wakeup_value:
  assumes "wheel_inv ops w"
  defines "r \<equiv> if timers ops w = Map.empty then None else Some (Min (deadlines (timers ops w)))"
  shows "fst (nearest_wakeup ops w) = (if r = Some 0 then None else r)"
    and "timers ops (snd (nearest_wakeup ops w)) = timers ops w"
    and "current_tick (snd (nearest_wakeup ops w)) = current_tick w"
proof -
  have "min_expiration_tick (refresh_min_expiration ops w) = r"
    using assms(1) refresh_correct(2)[of w] unfolding r_def deadlines_timers
    by (simp add: wheel_inv_def least_expiration_def timers_empty_iff Let_def ran_eq_empty)
  then show "fst (nearest_wakeup ops w) = (if r = Some 0 then None else r)"
    by (auto simp: nearest_wakeup_def Let_def split: option.splits)
  show "timers ops (snd (nearest_wakeup ops w)) = timers ops w"
    "current_tick (snd (nearest_wakeup ops w)) = current_tick w"
    by (simp_all add: nearest_wakeup_def Let_def)
qed

lemma advance_leaves_fresh:
  assumes "wheel_reach ops w" and "timers ops w i = Some (k, t, g)"
  shows "current_tick w < t + 63"
  using overdue_bound[OF assms(1)] assms(2) by (auto simp: timers_Some)

lemma refines_service:
  assumes "wheel_reach ops w" and "wheel_step ops w ev w'"
  shows "service_step (service_of ops w) ev (service_of ops w')"
proof -
  have inv: "wheel_inv ops w" by (rule wheel_reach_inv[OF assms(1)])
  have reach': "wheel_reach ops w'" using assms by (rule reach_step)
  from assms(2) show ?thesis
  proof cases
    case (do_insert t k h)
    note ins = timers_insert[OF do_insert(5,4)]
    have "service_of ops w' =
        (service_of ops w)\<lparr>pending := (pending (service_of ops w))(slab_index h \<mapsto> (k, t, h_generation h))\<rparr>"
      by (simp add: service_of_def ins)
    moreover have "service_step (service_of ops w) (Inserted k t h) \<dots>"
    proof (rule svc_insert)
      show "\<forall>i k' t' g. pending (service_of ops w) i = Some (k', t', g) \<longrightarrow> g < h_generation h"
        using generation_le_counter[OF inv] ins(3) by (auto simp: service_of_def less_Suc_eq_le)
    qed (use do_insert ins(2) in \<open>simp_all add: service_of_def\<close>)
    ultimately show ?thesis using do_insert(1) by simp
  next
    case (do_remove h)
    then have "service_of ops w' = (service_of ops w)\<lparr>pending :=
        if \<exists>k t. pending (service_of ops w) (slab_index h) = Some (k, t, h_generation h)
        then (pending (service_of ops w))(slab_index h := None) else pending (service_of ops w)\<rparr>"
      by (simp add: service_of_def timers_remove)
    then show ?thesis using do_remove(1) by (simp only: svc_remove)
  next
    case (do_advance d ex)
    obtain "is" where adv: "distinct is" "ex = map (\<lambda>i. fst (the (timers ops w i))) is"
      "\<forall>i \<in> set is. \<exists>k t g. timers ops w i = Some (k, t, g) \<and> t \<le> current_tick w + d"
      "timers ops w' = timers ops w |` (- set is)" "current_tick w' = current_tick w + d"
      by (rule timers_advance[OF inv do_advance(2,3)])
    have "i \<in> set is" if "timers ops w i = Some (k, t, g)" "t + 63 \<le> current_tick w + d" for i k t g
      using advance_leaves_fresh[OF reach', of i k t g] that adv(4,5)
      by (cases "i \<in> set is") (auto simp: restrict_map_def)
    then have "service_step (service_of ops w) (Advanced d ex) ((service_of ops w)
        \<lparr>svc_now := svc_now (service_of ops w) + d, pending := pending (service_of ops w) |` (- set is)\<rparr>)"
      using adv by (intro svc_advance) (auto simp: service_of_def)
    then show ?thesis using do_advance adv(4,5) by (simp add: service_of_def)
  next
    case (do_nearest r)
    have same: "service_of ops w' = service_of ops w"
      using do_nearest nearest_wakeup_value(2,3)[OF inv] by (simp add: service_of_def)
    show ?thesis
      using do_nearest svc_nearest[OF refl, of "service_of ops w"] nearest_wakeup_value(1)[OF inv]
      unfolding same by (simp only: service_of_def service.select_convs fst_conv)
  qed
qed

end

interpretation vec_timers: timer_slab "vec_slab_ops :: ('w timer_entry option list, 'w timer_entry) slab_ops"
  by unfold_locales

lemma timer_slabI: "slab ops \<Longrightarrow> timer_slab ops"
  by (simp add: timer_slab_def)

section \<open>Properties of the wheel\<close>

text \<open>
  \<open>demo_wheel\<close> is a run used in the witnesses: two timers, due at ticks 15 and 200, inserted when
  the clock stands at tick 10.
\<close>

type_synonym demo_state = "nat timer_entry option list"

definition demo_start :: "demo_state timing_wheel" where
  "demo_start = (wheel_new (vec_slab_ops :: (demo_state, nat) wheel_ops))\<lparr>current_tick := 10\<rparr>"

definition demo_wheel :: "demo_state timing_wheel" where
  "demo_wheel = snd (wheel_insert vec_slab_ops (2::nat) 200 (snd (wheel_insert vec_slab_ops 7 15 demo_start)))"

lemma level_0: "d < 64 \<Longrightarrow> calculate_level_and_slot d = (0, d)"
  by (simp add: calculate_level_and_slot_def level_and_slot_from.simps[of 0] and_63
      NUM_LEVELS_def SLOTS_PER_LEVEL_def)

lemma level_1: "64 \<le> d \<Longrightarrow> d < 4096 \<Longrightarrow> calculate_level_and_slot d = (1, d div 64)"
  by (simp add: calculate_level_and_slot_def level_and_slot_from.simps[of 0]
      level_and_slot_from.simps[of "Suc 0"] and_63 NUM_LEVELS_def SLOTS_PER_LEVEL_def
      drop_bit_eq_div push_bit_eq_mult)

lemmas demo_simps = demo_start_def demo_wheel_def wheel_insert_def Let_def level_0 level_1
  update_min_on_insert_def timers_def wheel_new_def vec_slab_ops_def vec_get_def vec_vacant_def
  vec_insert_def u64_add_def

lemma demo_ticks: "current_tick demo_start = 10" "current_tick demo_wheel = 10"
  "generation_counter demo_start = 0" "generation_counter demo_wheel = 2"
  by (simp_all add: demo_simps)

lemma demo_timers: "timers vec_slab_ops demo_wheel 0 = Some (7, 15, 1)"
  "timers vec_slab_ops demo_wheel (Suc 0) = Some (2, 200, 2)"
  by (simp_all add: demo_simps)

text \<open>A stretch of expiry loops over empty slots changes nothing.\<close>

lemma settle_slots_idle:
  assumes "\<forall>(l, s) \<in> set lss. slot_of w l s = [] \<and> l < length (wheels w) \<and> s < length (wheels w ! l)"
  shows "fold (\<lambda>(l, s). settle_slot ops l s) lss (w, ex) = (w, ex)"
  using assms
proof (induction lss)
  case (Cons p lss)
  obtain l s where p: "p = (l, s)" by force
  have empty: "slot_of w l s = []" using Cons.prems p by auto
  then have "(wheels w ! l)[s := []] = wheels w ! l" unfolding slot_of_def by (metis list_update_id)
  then have "set_slot w l s [] = w" by (cases w) (simp add: set_slot_def)
  moreover note empty
  ultimately have "settle_slot ops l s (w, ex) = (w, ex)" by (simp add: settle_slot_def)
  then show ?case using Cons p by simp
qed simp

lemma advance_idle:
  assumes "0 < d" and "current_tick w + d < U64_LIMIT" and "wheel_dims w"
    and "\<And>l s. 0 < l \<Longrightarrow> l < 7 \<Longrightarrow> s < 64 \<Longrightarrow> slot_of w l s = []"
    and "\<And>s. s \<in> set (level_0_scan (current_tick w) (current_tick w + d) d) \<Longrightarrow> slot_of w 0 s = []"
  shows "wheel_advance ops d w = ([], refresh_min_expiration ops (w\<lparr>current_tick := current_tick w + d\<rparr>))"
proof -
  let ?w = "w\<lparr>current_tick := current_tick w + d\<rparr>"
  let ?scan = "level_0_scan (current_tick w) (current_tick w + d) d"
  have scan: "s < 64" if "s \<in> set ?scan" for s
    using that by (auto simp: level_0_scan_def SLOTS_PER_LEVEL_def and_63 Let_def split: if_splits)
  have "fold (\<lambda>(l, s). settle_slot ops l s)
      (List.product (rev [1..<NUM_LEVELS]) [0..<SLOTS_PER_LEVEL] @ map (Pair 0) ?scan) (?w, []) = (?w, [])"
    by (rule settle_slots_idle)
      (use assms(3-5) scan in \<open>auto simp: NUM_LEVELS_def SLOTS_PER_LEVEL_def wheel_dims_def\<close>)
  then show ?thesis using assms(1,2) by (simp add: wheel_advance_def Let_def advance_loops)
qed

lemma demo_start_reach: "wheel_reach vec_slab_ops demo_start"
proof -
  have "wheel_advance (vec_slab_ops :: (demo_state, nat) wheel_ops) 10 (wheel_new vec_slab_ops) = ([], demo_start)"
    by (subst advance_idle)
      (auto simp: wheel_new_def wheel_dims_def slot_of_def NUM_LEVELS_def SLOTS_PER_LEVEL_def demo_start_def
        refresh_min_expiration_def level_0_scan_def and_63)
  then have "wheel_step vec_slab_ops (wheel_new vec_slab_ops) (Advanced 10 []) demo_start"
    by (intro do_advance) (simp_all add: wheel_new_def)
  then show ?thesis by (rule reach_step[OF reach_new])
qed

lemma demo_insert_step:
  "wheel_step vec_slab_ops demo_start (Inserted 7 15 \<lparr>slab_index = 0, h_generation = 1\<rparr>)
     (snd (wheel_insert vec_slab_ops (7::nat) 15 demo_start))"
  by (rule do_insert) (simp_all add: demo_simps)

lemma demo_reach: "wheel_reach vec_slab_ops demo_wheel"
proof -
  let ?w = "snd (wheel_insert vec_slab_ops (7::nat) 15 demo_start)"
  have "wheel_step vec_slab_ops ?w (Inserted 2 200 \<lparr>slab_index = 1, h_generation = 2\<rparr>) demo_wheel"
    by (rule do_insert) (simp_all add: demo_simps)
  with reach_step[OF demo_start_reach demo_insert_step] show ?thesis by (rule reach_step)
qed

lemmas demo_inv = vec_timers.wheel_reach_inv[OF demo_reach]

text \<open>
  C6: Refinement. On every wheel that \<open>Timer\<close> can build, each call of \<open>insert\<close>, \<open>remove\<close>,
  \<open>advance\<close> and \<open>nearest_wakeup\<close> is a step of the abstract timer service: insertion returns a
  handle that is fresh among all pending timers, removal cancels exactly the timer its handle
  names, \<open>advance\<close> fires due timers only and every timer overdue by 63 ticks or more, and the
  reported deadline is the least pending one.
\<close>

theorem wheel_refines_service:
  assumes "slab ops" and "wheel_reach ops w" and "wheel_step ops w ev w'"
  shows "service_step (service_of ops w) ev (service_of ops w')"
  using timer_slab.refines_service[OF timer_slabI[OF assms(1)] assms(2,3)] .

theorem wheel_refines_service_witness:
  "wheel_reach (vec_slab_ops :: (demo_state, nat) wheel_ops) demo_start \<and>
   service_step (service_of vec_slab_ops demo_start)
     (Inserted (7::nat) 15 \<lparr>slab_index = 0, h_generation = 1\<rparr>)
     (service_of vec_slab_ops (snd (wheel_insert vec_slab_ops 7 15 demo_start)))"
  using demo_start_reach wheel_refines_service[OF vec_slab.slab_axioms demo_start_reach demo_insert_step]
  by (rule conjI)

text \<open>
  Invariant. Every reachable wheel is well formed: each live timer sits once, in the slot
  its entry names, no slot holds a dead index, the heap holds the triple of every live timer
  in ascending order, and \<open>min_expiration_tick\<close> is the least live expiration.
\<close>

theorem wheel_reachable_invariant:
  assumes "slab ops" and "wheel_reach ops w"
  shows "wheel_inv ops w"
  using timer_slab.wheel_reach_inv[OF timer_slabI[OF assms(1)] assms(2)] .

theorem wheel_reachable_invariant_witness: "wheel_inv (vec_slab_ops :: (demo_state, nat) wheel_ops) demo_wheel"
  by (rule wheel_reachable_invariant[OF vec_slab.slab_axioms demo_reach])



context timer_slab
begin

lemma advance_complete:
  assumes "wheel_inv ops w" and "current_tick w + d < U64_LIMIT" and "0 < d"
    and "wheel_advance ops d w = (ex, w')" and "live w i = Some e"
    and "expiration_tick e \<le> current_tick w + d"
    and "te_level e \<noteq> 0 \<or> te_slot e \<in> set (level_0_scan (current_tick w) (current_tick w + d) d)"
  shows "timers ops w' i = None"
proof -
  obtain w3 "is" where w': "w' = refresh_min_expiration ops w3" and "placed ops w3 []"
    and f: "fired ops (w\<lparr>current_tick := current_tick w + d\<rparr>) [] w3 ex is"
    and due: "due_in ops w3 [] ({0} \<times> ({..<64} - set (level_0_scan (current_tick w) (current_tick w + d) d)))"
    by (rule wheel_advance_core[OF assms(1,3,2,4)])
  have tick: "current_tick w3 = current_tick w + d" using f by (simp add: fired_def)
  have "live w3 i = None"
  proof (rule ccontr)
    assume "live w3 i \<noteq> None"
    then obtain e' where e': "live w3 i = Some e'" by blast
    have "e' = e" by (rule fired_same[OF f e']) (use assms(5,6) in auto)
    then show False using due e' assms(6,7) tick by (auto simp: due_in_def)
  qed
  then show ?thesis by (simp add: w' timers_def)
qed

end

text \<open>
  Completeness of \<open>advance\<close>. A timer that is due at the new tick is fired whenever it sits
  above level 0 or in a level-0 slot that the call scans; in particular a call that advances
  by 64 ticks or more leaves no due timer behind.
\<close>

theorem advance_fires_every_scanned_due_timer:
  assumes "slab ops" and "wheel_inv ops w" and "current_tick w + d < U64_LIMIT" and "0 < d"
    and "wheel_advance ops d w = (ex, w')" and "sl_get ops (entries w) i = Some e"
    and "expiration_tick e \<le> current_tick w + d"
    and "64 \<le> d \<or> te_level e \<noteq> 0 \<or>
         te_slot e \<in> set (level_0_scan (current_tick w) (current_tick w + d) d)"
  shows "timers ops w' i = None"
proof -
  have "te_slot e < 64"
    using timer_slab.placedD(2)[OF timer_slabI[OF assms(1)] _ assms(6)] assms(2) by (auto simp: wheel_inv_def)
  then have "te_level e \<noteq> 0 \<or> te_slot e \<in> set (level_0_scan (current_tick w) (current_tick w + d) d)"
    using assms(8) by (auto simp: level_0_scan_def SLOTS_PER_LEVEL_def)
  then show ?thesis using timer_slab.advance_complete[OF timer_slabI[OF assms(1)] assms(2-7)] by blast
qed

theorem advance_fires_every_scanned_due_timer_witness:
  "timers vec_slab_ops (snd (wheel_advance vec_slab_ops 300 demo_wheel)) 0 = None"
proof -
  obtain e where e: "sl_get vec_slab_ops (entries demo_wheel) 0 = Some e" "expiration_tick e = 15"
    using demo_timers(1) by (auto simp: timers_def)
  show ?thesis
    using advance_fires_every_scanned_due_timer[OF vec_slab.slab_axioms demo_inv _ _ _ e(1), of 300] e(2)
    by (simp add: demo_ticks prod_eq_iff)
qed

text \<open>
  C35: Bounded lateness. On every reachable wheel, a timer that is still pending is less than
  63 ticks past its expiration, whatever the sequence of calls and however the ticks were
  split between them.
\<close>

theorem pending_timer_lateness_bound:
  assumes "slab ops" and "wheel_reach ops w" and "timers ops w i = Some (k, t, g)"
  shows "current_tick w < t + 63"
  using timer_slab.advance_leaves_fresh[OF timer_slabI[OF assms(1)] assms(2,3)] .

theorem pending_timer_lateness_bound_witness: "current_tick demo_wheel < (15::nat) + 63"
  by (rule pending_timer_lateness_bound[OF vec_slab.slab_axioms demo_reach demo_timers(1)])

text \<open>
  A due timer can be missed. Slots of level 0 are chosen from the remaining delay
  (\<open>calculate_level_and_slot\<close>) but scanned by absolute tick (\<open>advance\<close>): from a wheel at tick
  10, a timer inserted for tick 15 goes to slot 5, and the call that advances to tick 15 scans
  slots 10 to 15, fires nothing and leaves the due timer pending.
\<close>

theorem advance_can_miss_a_due_timer:
  "\<exists>w h w1 w2. wheel_reach (vec_slab_ops :: (demo_state, nat) wheel_ops) w \<and> current_tick w = 10 \<and>
     wheel_insert vec_slab_ops (7::nat) 15 w = (h, w1) \<and> wheel_advance vec_slab_ops 5 w1 = ([], w2) \<and>
     current_tick w2 = 15 \<and> timers vec_slab_ops w2 (slab_index h) = Some (7, 15, 1)"
proof -
  let ?w1 = "snd (wheel_insert vec_slab_ops (7::nat) 15 demo_start)"
  let ?w2 = "refresh_min_expiration vec_slab_ops (?w1\<lparr>current_tick := 15\<rparr>)"
  have tick: "current_tick ?w1 = 10" by (simp add: demo_simps)
  have dims: "wheel_dims ?w1"
    using vec_timers.wheel_reach_inv[OF reach_step[OF demo_start_reach demo_insert_step]]
    by (auto simp: wheel_inv_def intro: vec_timers.placed_dims)
  have slots: "slot_of ?w1 l s = (if l = 0 \<and> s = 5 then [0] else [])" if "l < 7" "s < 64" for l s
    using that by (simp add: demo_simps slot_of_def set_slot_def nth_list_update nth_Cons'
        NUM_LEVELS_def SLOTS_PER_LEVEL_def)
  have "wheel_advance vec_slab_ops 5 ?w1 = ([], ?w2)"
    by (subst advance_idle)
      (auto simp: dims slots tick level_0_scan_def SLOTS_PER_LEVEL_def and_63 Let_def)
  moreover have "wheel_insert vec_slab_ops (7::nat) 15 demo_start = (\<lparr>slab_index = 0, h_generation = 1\<rparr>, ?w1)"
    by (simp add: demo_simps)
  moreover have "timers vec_slab_ops ?w2 0 = Some (7, 15, 1)" "current_tick ?w2 = 15"
    by (simp_all only: vec_timers.timers_frame vec_timers.refresh_frame) (simp_all add: demo_simps)
  ultimately show ?thesis
    using demo_start_reach demo_ticks(1) by (metis timer_handle.select_convs(1))
qed

text \<open>
  \<open>nearest_wakeup\<close> returns the least expiration of all pending timers, \<open>None\<close> when there is
  none (or when it is tick 0, which \<open>NonZeroU64\<close> cannot hold), and changes no timer.
\<close>

theorem nearest_wakeup_is_least_deadline:
  assumes "slab ops" and "wheel_inv ops w" and "nearest_wakeup ops w = (r, w')"
  shows "timers ops w' = timers ops w \<and> (timers ops w = Map.empty \<longrightarrow> r = None) \<and>
    (timers ops w \<noteq> Map.empty \<longrightarrow> 0 < Min (deadlines (timers ops w)) \<longrightarrow>
      r = Some (Min (deadlines (timers ops w))))"
  using timer_slab.nearest_wakeup_value[OF timer_slabI[OF assms(1)] assms(2)] assms(3) by auto

theorem nearest_wakeup_is_least_deadline_witness:
  "fst (nearest_wakeup vec_slab_ops demo_start) = None"
  using nearest_wakeup_is_least_deadline[OF vec_slab.slab_axioms
      vec_timers.wheel_reach_inv[OF demo_start_reach], of "fst (nearest_wakeup vec_slab_ops demo_start)"
      "snd (nearest_wakeup vec_slab_ops demo_start)"]
  by (simp add: timers_def demo_start_def wheel_new_def vec_slab.get_new fun_eq_iff)

text \<open>
  Generations make stale handles harmless. After an insertion, removing with any handle
  issued earlier (its generation does not exceed the counter before the insertion) leaves the
  new timer pending, even when the slab reuses the index of that handle.
\<close>

theorem stale_handle_keeps_new_timer:
  assumes "slab ops" and "generation_counter w + 1 < U64_LIMIT" and "wheel_insert ops k t w = (h, w')"
    and "h_generation old \<le> generation_counter w"
  shows "timers ops (wheel_remove ops old w') (slab_index h) = Some (k, t, h_generation h)"
  using timer_slab.timers_insert[OF timer_slabI[OF assms(1)] assms(3,2)] assms(4)
    timer_slab.timers_remove[OF timer_slabI[OF assms(1)], of old w'] by auto

theorem stale_handle_keeps_new_timer_witness:
  "timers vec_slab_ops (wheel_remove vec_slab_ops \<lparr>slab_index = 0, h_generation = 0\<rparr>
      (snd (wheel_insert vec_slab_ops (7::nat) 15 demo_start))) 0 = Some (7, 15, 1)"
  using stale_handle_keeps_new_timer[OF vec_slab.slab_axioms, of demo_start "7::nat" 15
      "\<lparr>slab_index = 0, h_generation = 1\<rparr>" "snd (wheel_insert vec_slab_ops (7::nat) 15 demo_start)"
      "\<lparr>slab_index = 0, h_generation = 0\<rparr>"]
  by (simp add: demo_simps)

text \<open>
  Round trip. Removing a timer with the handle its insertion returned restores the pending
  timers, and the insertion itself adds exactly that timer.
\<close>

theorem insert_then_remove_restores_timers:
  assumes "slab ops" and "generation_counter w + 1 < U64_LIMIT" and "wheel_insert ops k t w = (h, w')"
  shows "timers ops w' = (timers ops w)(slab_index h \<mapsto> (k, t, h_generation h)) \<and>
    timers ops w (slab_index h) = None \<and> timers ops (wheel_remove ops h w') = timers ops w"
  using timer_slab.timers_insert[OF timer_slabI[OF assms(1)] assms(3,2)]
    timer_slab.timers_remove[OF timer_slabI[OF assms(1)], of h w'] by (auto simp: fun_eq_iff)

theorem insert_then_remove_restores_timers_witness:
  "timers vec_slab_ops (wheel_remove vec_slab_ops \<lparr>slab_index = 0, h_generation = 1\<rparr>
     (snd (wheel_insert vec_slab_ops (7::nat) 15 demo_start))) = timers vec_slab_ops demo_start"
  using insert_then_remove_restores_timers[OF vec_slab.slab_axioms, of demo_start "7::nat" 15
      "\<lparr>slab_index = 0, h_generation = 1\<rparr>" "snd (wheel_insert vec_slab_ops (7::nat) 15 demo_start)"]
  by (simp add: demo_ticks) (simp add: demo_simps)

text \<open>
  \<open>calculate_level_and_slot\<close> picks the lowest level whose 64 slots reach the delay (level 6
  beyond that) and the slot of the delay's base-64 digit at that level; both indices are
  within the wheel, so no index panics.
\<close>

theorem level_and_slot_of_delay:
  assumes "calculate_level_and_slot d = (l, s)"
  shows "l < NUM_LEVELS \<and> s < SLOTS_PER_LEVEL \<and> s = d div 64 ^ l mod 64 \<and>
    (l < 6 \<longrightarrow> d < 64 ^ Suc l) \<and> (0 < l \<longrightarrow> 64 ^ l \<le> d)"
  using calculate_level_and_slot_bounds[OF assms] calculate_level_and_slot_exact[OF assms]
  by (simp add: NUM_LEVELS_def SLOTS_PER_LEVEL_def)

theorem level_and_slot_of_delay_witness: "(2::nat) = 190 div 64 ^ 1 mod 64 \<and> (190::nat) < 64 ^ Suc 1"
  using level_and_slot_of_delay[of 190 1 2] by (simp add: level_1)

end
