(* ===== verification/Timer.thy ===== *)
theory Timer
  imports Timer_Service
begin

text \<open>
  The runtime's \<open>Timer\<close> (\<open>timer.rs\<close>): a timing wheel and the instant at which it was last
  advanced. The clock is an argument of the operations (the value that \<open>Instant::now()\<close>
  returned), and the wakers an operation calls are part of its result, in order. A panic is
  \<open>None\<close>.
\<close>

record 's timer =
  tm_wheel :: "'s timing_wheel"
  tm_instant :: instant

definition timer_new :: "('s, 'w) wheel_ops \<Rightarrow> instant \<Rightarrow> 's timer" where
  "timer_new ops now = \<lparr>tm_wheel = wheel_new ops, tm_instant = now\<rparr>"

text \<open>
  \<open>submit\<close> returns the handle, the wakers it woke and the new state. A deadline whose distance
  does not fit in 64 bits of milliseconds gives no handle and wakes nobody; one less than a
  millisecond away wakes the task at once.
\<close>

definition timer_submit ::
  "('s, 'w) wheel_ops \<Rightarrow> instant \<Rightarrow> 'w \<Rightarrow> 's timer \<Rightarrow> timer_handle option \<times> 'w list \<times> 's timer" where
  "timer_submit ops deadline waker tm =
     (case try_u64 (as_millis (saturating_duration_since deadline (tm_instant tm))) of
        None \<Rightarrow> (None, [], tm)
      | Some millis \<Rightarrow>
          if millis < 1 then (None, [waker], tm)
          else (let now = wheel_now (tm_wheel tm);
                    (h, w) = wheel_insert ops waker (u64_add now millis) (tm_wheel tm)
                in (Some h, [], tm\<lparr>tm_wheel := w\<rparr>)))"

definition timer_cancel :: "('s, 'w) wheel_ops \<Rightarrow> timer_handle \<Rightarrow> 's timer \<Rightarrow> 's timer" where
  "timer_cancel ops h tm = tm\<lparr>tm_wheel := wheel_remove ops h (tm_wheel tm)\<rparr>"

definition spin_and_get_deadline ::
  "('s, 'w) wheel_ops \<Rightarrow> instant \<Rightarrow> 's timer \<Rightarrow> ((duration option \<times> bool) \<times> 'w list \<times> 's timer) option" where
  "spin_and_get_deadline ops now tm =
     (if wheel_is_empty ops (tm_wheel tm) then Some ((None, False), [], tm\<lparr>tm_instant := now\<rparr>)
      else
        (let elapsed = saturating_duration_since now (tm_instant tm) in
         case try_u64 (as_millis elapsed) of
           None \<Rightarrow> None
         | Some ticks \<Rightarrow>
             (let (woken, w1) = wheel_advance ops ticks (tm_wheel tm);
                  now_tick = wheel_now w1;
                  (near, w2) = nearest_wakeup ops w1
              in Some ((map_option (\<lambda>t. from_millis (max (t - now_tick) 1)) near, woken \<noteq> []),
                       woken, \<lparr>tm_wheel = w2, tm_instant = now\<rparr>))))"

text \<open>Repeated spins, as the scheduler loop makes them, at the given clock readings.\<close>

fun spins ::
  "('s, 'w) wheel_ops \<Rightarrow> instant list \<Rightarrow> 's timer \<Rightarrow> ('w list \<times> 's timer) option" where
  "spins ops [] tm = Some ([], tm)"
| "spins ops (now # nows) tm =
     (case spin_and_get_deadline ops now tm of
        None \<Rightarrow> None
      | Some (_, woken, tm') \<Rightarrow> map_option (\<lambda>(ws, tm''). (woken @ ws, tm'')) (spins ops nows tm'))"

abbreviation timer_timers :: "('s, 'w) wheel_ops \<Rightarrow> 's timer \<Rightarrow> usize \<Rightarrow> ('w \<times> u64 \<times> u64) option" where
  "timer_timers ops tm \<equiv> timers ops (tm_wheel tm)"

section \<open>One spin\<close>

context timer_slab
begin

lemma spin_cases:
  assumes "wheel_inv ops (tm_wheel tm)" and "tm_instant tm \<le> now"
    and "current_tick (tm_wheel tm) + as_millis (now - tm_instant tm) < U64_LIMIT"
    and "spin_and_get_deadline ops now tm = Some ((dl, flag), woken, tm')"
  obtains "is" where "wheel_inv ops (tm_wheel tm')" and "tm_instant tm' = now"
    and "current_tick (tm_wheel tm') \<le> current_tick (tm_wheel tm) + as_millis (now - tm_instant tm)"
    and "current_tick (tm_wheel tm) \<le> current_tick (tm_wheel tm')"
    and "woken = map (\<lambda>i. fst (the (timer_timers ops tm i))) is" and "flag = (woken \<noteq> [])"
    and "\<forall>i \<in> set is. \<exists>k t g. timer_timers ops tm i = Some (k, t, g) \<and> t \<le> current_tick (tm_wheel tm')"
    and "timer_timers ops tm' = timer_timers ops tm |` (- set is)" and "distinct is"
proof (cases "wheel_is_empty ops (tm_wheel tm)")
  case True
  then have "tm' = tm\<lparr>tm_instant := now\<rparr>" "woken = []" "flag = False"
    using assms(4) by (auto simp: spin_and_get_deadline_def)
  moreover have "m |` (- set []) = m" for m :: "usize \<rightharpoonup> 'w \<times> u64 \<times> u64"
    by (simp add: restrict_map_def)
  ultimately show thesis using assms(1) by (intro that[of "[]"]) simp_all
next
  case False
  let ?d = "as_millis (now - tm_instant tm)"
  have "try_u64 ?d = Some ?d" using assms(3) by (simp add: try_u64_def)
  then obtain w1 r w2 where adv: "wheel_advance ops ?d (tm_wheel tm) = (woken, w1)"
    and near: "nearest_wakeup ops w1 = (r, w2)" and tm': "tm' = \<lparr>tm_wheel = w2, tm_instant = now\<rparr>"
    and flag: "flag = (woken \<noteq> [])"
    using assms(4) False
    by (auto simp: spin_and_get_deadline_def saturating_duration_since_def Let_def split: prod.splits)
  have inv1: "wheel_inv ops w1" by (rule wheel_inv_advance[OF assms(1,3) adv])
  note nv = nearest_wakeup_value(2,3)[OF inv1]
  show thesis
  proof (rule timers_advance[OF assms(1,3) adv], goal_cases)
    case (1 "is")
    show thesis
      by (rule that[of "is"]) (use 1 nv near tm' flag wheel_inv_nearest[OF inv1 near] in auto)
  qed
qed

lemma as_millis_split: "as_millis a + as_millis b \<le> as_millis (a + b)"
  unfolding as_millis_def by (rule div_add_le)

lemma spins_clock:
  assumes "wheel_inv ops (tm_wheel tm)" and "sorted (tm_instant tm # nows)"
    and "current_tick (tm_wheel tm) + as_millis (last (tm_instant tm # nows) - tm_instant tm) < U64_LIMIT"
    and "spins ops nows tm = Some (ws, tm')"
  shows "wheel_inv ops (tm_wheel tm') \<and> current_tick (tm_wheel tm) \<le> current_tick (tm_wheel tm') \<and>
    current_tick (tm_wheel tm') \<le> current_tick (tm_wheel tm) + as_millis (last (tm_instant tm # nows) - tm_instant tm) \<and>
    (\<forall>i k t g. timer_timers ops tm i = Some (k, t, g) \<longrightarrow> timer_timers ops tm' i \<noteq> Some (k, t, g) \<longrightarrow>
       t \<le> current_tick (tm_wheel tm'))"
  using assms
proof (induction nows arbitrary: tm ws)
  case Nil
  then show ?case by auto
next
  case (Cons now nows)
  let ?T = "\<lambda>tm. current_tick (tm_wheel tm)" and ?fin = "last (now # nows)"
  obtain r woken tm1 ws1 where sp: "spin_and_get_deadline ops now tm = Some (r, woken, tm1)"
    and rest: "spins ops nows tm1 = Some (ws1, tm')"
    using Cons.prems(4) by (auto split: option.splits prod.splits)
  obtain dl flag where r: "r = (dl, flag)" by force
  have le: "tm_instant tm \<le> now" and srt: "sorted (now # nows)" using Cons.prems(2) by auto
  then have nl: "now \<le> ?fin" by (simp add: sorted_le_last del: last.simps)
  have split: "as_millis (now - tm_instant tm) + as_millis (?fin - now) \<le> as_millis (?fin - tm_instant tm)"
    using as_millis_split[of "now - tm_instant tm" "?fin - now"] le nl by simp
  have lim: "?T tm + as_millis (?fin - tm_instant tm) < U64_LIMIT" using Cons.prems(3) by simp
  have lim0: "?T tm + as_millis (now - tm_instant tm) < U64_LIMIT" using lim split by linarith
  obtain "is" where inv1: "wheel_inv ops (tm_wheel tm1)" and inst: "tm_instant tm1 = now"
    and up: "?T tm1 \<le> ?T tm + as_millis (now - tm_instant tm)" and mono: "?T tm \<le> ?T tm1"
    and "woken = map (\<lambda>i. fst (the (timer_timers ops tm i))) is" and "flag = (woken \<noteq> [])"
    and due: "\<forall>i \<in> set is. \<exists>k t g. timer_timers ops tm i = Some (k, t, g) \<and> t \<le> ?T tm1"
    and left: "timer_timers ops tm1 = timer_timers ops tm |` (- set is)" and "distinct is"
    by (rule spin_cases[OF Cons.prems(1) le lim0 sp[unfolded r]])
  have lim1: "?T tm1 + as_millis (last (tm_instant tm1 # nows) - tm_instant tm1) < U64_LIMIT"
    using up split lim inst by simp
  note IH = Cons.IH[OF inv1 _ lim1 rest]
  have fired: "t \<le> ?T tm'" if t: "timer_timers ops tm i = Some (k, t, g)"
    and gone: "timer_timers ops tm' i \<noteq> Some (k, t, g)" for i k t g
  proof (cases "i \<in> set is")
    case True
    then have "t \<le> ?T tm1" using due t by fastforce
    then show ?thesis using IH srt inst by auto
  next
    case False
    then have "timer_timers ops tm1 i = Some (k, t, g)" using left t by simp
    then show ?thesis using IH srt inst gone by auto
  qed
  have "?T tm' \<le> ?T tm + as_millis (last (tm_instant tm # now # nows) - tm_instant tm)"
    using IH srt inst up split by simp
  moreover have "wheel_inv ops (tm_wheel tm')" "?T tm \<le> ?T tm'" using IH srt inst mono by auto
  ultimately show ?case using fired by blast
qed

lemma submit_Some:
  assumes "timer_submit ops deadline waker tm = (Some h, wk, tm')"
    and "current_tick (tm_wheel tm) + as_millis (deadline - tm_instant tm) < U64_LIMIT"
    and "generation_counter (tm_wheel tm) + 1 < U64_LIMIT"
  shows "wk = []" and "1 \<le> as_millis (deadline - tm_instant tm)" and "tm_instant tm' = tm_instant tm"
    and "current_tick (tm_wheel tm') = current_tick (tm_wheel tm)"
    and "timer_timers ops tm' = (timer_timers ops tm)(slab_index h \<mapsto>
       (waker, current_tick (tm_wheel tm) + as_millis (deadline - tm_instant tm), h_generation h))"
    and "wheel_inv ops (tm_wheel tm) \<Longrightarrow> wheel_inv ops (tm_wheel tm')"
proof -
  let ?ms = "as_millis (deadline - tm_instant tm)"
  obtain w' where ins: "wheel_insert ops waker (current_tick (tm_wheel tm) + ?ms) (tm_wheel tm) = (h, w')"
    and tm': "tm' = tm\<lparr>tm_wheel := w'\<rparr>" and ms: "1 \<le> ?ms" and wk: "wk = []"
    using assms(1,2)
    by (auto simp: timer_submit_def saturating_duration_since_def wheel_now_def try_u64_def Let_def
        split: option.splits if_splits prod.splits)
  note ti = timers_insert[OF ins assms(3)]
  show "wk = []" and "1 \<le> ?ms" by (fact wk ms)+
  show "tm_instant tm' = tm_instant tm" "current_tick (tm_wheel tm') = current_tick (tm_wheel tm)"
    "timer_timers ops tm' = (timer_timers ops tm)(slab_index h \<mapsto>
       (waker, current_tick (tm_wheel tm) + ?ms, h_generation h))"
    by (simp_all add: tm' ti)
  show "wheel_inv ops (tm_wheel tm')" if "wheel_inv ops (tm_wheel tm)"
    using wheel_inv_insert[OF that assms(3) ins] by (simp add: tm')
qed

end

section \<open>Properties\<close>

text \<open>
  A timer never fires more than a millisecond early. Submit a deadline, then spin at any
  non-decreasing clock readings: if the timer is no longer pending afterwards, the last
  reading is later than the deadline minus one millisecond. (Wheel ticks are whole elapsed
  milliseconds, so the tick count never runs ahead of the clock.)
\<close>

theorem timer_not_early:
  assumes "slab ops" and "wheel_inv ops (tm_wheel tm)" and "generation_counter (tm_wheel tm) + 1 < U64_LIMIT"
    and "timer_submit ops deadline waker tm = (Some h, wk, tm1)"
    and "sorted (tm_instant tm # nows)" and "spins ops nows tm1 = Some (ws, tm2)"
    and "current_tick (tm_wheel tm) + as_millis (max deadline (last (tm_instant tm # nows)) - tm_instant tm) < U64_LIMIT"
    and "timer_timers ops tm2 (slab_index h) = None"
  shows "deadline < last (tm_instant tm # nows) + 1000000"
proof -
  note tsl = timer_slabI[OF assms(1)]
  let ?fin = "last (tm_instant tm # nows)" and ?T = "current_tick (tm_wheel tm)"
  have mono: "as_millis (x - tm_instant tm) \<le> as_millis (max deadline ?fin - tm_instant tm)"
    if "x \<le> max deadline ?fin" for x
    using that by (intro as_millis_mono diff_le_mono)
  have "?T + as_millis (deadline - tm_instant tm) < U64_LIMIT"
    using assms(7) mono[of deadline] by linarith
  note sub = timer_slab.submit_Some[OF tsl assms(4) this assms(3)]
  have lim: "current_tick (tm_wheel tm1) + as_millis (last (tm_instant tm1 # nows) - tm_instant tm1) < U64_LIMIT"
    using assms(7) mono[of ?fin] sub(3,4) by simp
  have "sorted (tm_instant tm1 # nows)" using assms(5) sub(3) by simp
  note run = timer_slab.spins_clock[OF tsl sub(6)[OF assms(2)] this lim assms(6)]
  have "?T + as_millis (deadline - tm_instant tm) \<le> current_tick (tm_wheel tm2)"
    using run assms(8) sub(5) by (metis fun_upd_same option.distinct(1))
  then have "as_millis (deadline - tm_instant tm) \<le> as_millis (?fin - tm_instant tm)"
    using run sub(3,4) by simp
  moreover have "tm_instant tm \<le> ?fin"
    using assms(5) by (rule sorted_le_last)
  ultimately show ?thesis by (simp add: as_millis_def)
qed

definition demo_timer :: "demo_state timer" where
  "demo_timer = \<lparr>tm_wheel = demo_start, tm_instant = 0\<rparr>"

definition demo_timer1 :: "demo_state timer" where
  "demo_timer1 = snd (snd (timer_submit vec_slab_ops 5000000 (7::nat) demo_timer))"

lemma demo_submit: "timer_submit vec_slab_ops 5000000 (7::nat) demo_timer =
    (Some \<lparr>slab_index = 0, h_generation = 1\<rparr>, [], demo_timer1)"
  and demo_timer1_simps: "tm_instant demo_timer1 = 0"
    "tm_wheel demo_timer1 = snd (wheel_insert vec_slab_ops (7::nat) 15 demo_start)"
  by (simp_all add: demo_timer1_def demo_timer_def timer_submit_def as_millis_def try_u64_def
      saturating_duration_since_def wheel_now_def demo_simps)

lemma demo_spin:
  obtains tm2 where "spins vec_slab_ops [80000000] demo_timer1 =
      Some (fst (wheel_advance vec_slab_ops 80 (tm_wheel demo_timer1)), tm2)"
    and "timer_timers vec_slab_ops tm2 0 = None"
proof -
  let ?w = "tm_wheel demo_timer1"
  have inv: "wheel_inv vec_slab_ops ?w"
    unfolding demo_timer1_simps
    by (rule vec_timers.wheel_reach_inv[OF reach_step[OF demo_start_reach demo_insert_step]])
  have tick: "current_tick ?w = 10" by (simp add: demo_timer1_simps demo_simps)
  obtain ex w' where adv: "wheel_advance vec_slab_ops 80 ?w = (ex, w')" by force
  have e: "sl_get vec_slab_ops (entries ?w) 0 = Some \<lparr>te_waker = 7, expiration_tick = 15,
      te_generation = 1, te_level = 0, te_slot = 5\<rparr>"
    by (simp add: demo_timer1_simps demo_simps)
  have gone: "timers vec_slab_ops w' 0 = None"
    by (rule vec_timers.advance_complete[OF inv _ _ adv e]) (simp_all add: tick level_0_scan_def SLOTS_PER_LEVEL_def)
  have ne: "\<not> wheel_is_empty vec_slab_ops ?w"
    using e by (auto simp: wheel_is_empty_def vec_slab.is_empty_iff)
  obtain r w2 where near: "nearest_wakeup vec_slab_ops w' = (r, w2)" by force
  have "timers vec_slab_ops w2 = timers vec_slab_ops w'"
    using vec_timers.nearest_wakeup_value(2)[OF vec_timers.wheel_inv_advance[OF inv _ adv]] near by (simp add: tick)
  then show thesis
    using that[of "\<lparr>tm_wheel = w2, tm_instant = 80000000\<rparr>"] gone ne adv near
    by (simp add: spin_and_get_deadline_def demo_timer1_simps(1) saturating_duration_since_def
        as_millis_def try_u64_def Let_def)
qed

theorem timer_not_early_witness: "(5000000::nat) < last [0, 80000000] + 1000000"
proof (rule demo_spin)
  fix tm2
  assume "spins vec_slab_ops [80000000] demo_timer1 =
      Some (fst (wheel_advance vec_slab_ops 80 (tm_wheel demo_timer1)), tm2)"
    and "timer_timers vec_slab_ops tm2 0 = None"
  then show ?thesis
    using timer_not_early[OF vec_slab.slab_axioms _ _ demo_submit, of "[80000000]"
        "fst (wheel_advance vec_slab_ops 80 (tm_wheel demo_timer1))" tm2]
      vec_timers.wheel_reach_inv[OF demo_start_reach]
    by (simp add: demo_timer_def demo_ticks as_millis_def)
qed

text \<open>A spin within a millisecond of the last one only refreshes the cached minimum.\<close>

lemma spin_zero:
  assumes "as_millis (now - tm_instant tm) = 0"
  shows "\<exists>r. spin_and_get_deadline ops now tm = Some (r, [],
    \<lparr>tm_wheel = (if wheel_is_empty ops (tm_wheel tm) then tm_wheel tm
                 else refresh_min_expiration ops (tm_wheel tm)), tm_instant = now\<rparr>)"
  using assms by (cases tm) (auto simp: spin_and_get_deadline_def saturating_duration_since_def
      try_u64_def wheel_advance_def nearest_wakeup_def Let_def)

lemma refresh_keeps:
  "timers ops (refresh_min_expiration ops w) = timers ops w"
  "current_tick (refresh_min_expiration ops w) = current_tick w"
  by (simp_all add: refresh_min_expiration_def timers_def fun_eq_iff split: prod.splits)

text \<open>
  Spins less than a millisecond apart starve the wheel. \<open>spin_and_get_deadline\<close> advances by
  the whole elapsed milliseconds and then restarts the measurement at the current instant, so
  the rest is dropped: over any number of spins whose gaps are each below one millisecond the
  tick count stays where it was, nobody is woken and every timer stays pending, however much
  time passes in total.
\<close>

theorem submillisecond_spins_starve:
  assumes "sorted (tm_instant tm # nows)"
    and "\<forall>i < length nows. nows ! i < (tm_instant tm # nows) ! i + 1000000"
  shows "\<exists>tm'. spins ops nows tm = Some ([], tm') \<and> timer_timers ops tm' = timer_timers ops tm \<and>
    current_tick (tm_wheel tm') = current_tick (tm_wheel tm) \<and>
    tm_instant tm' = last (tm_instant tm # nows)"
  using assms
proof (induction nows arbitrary: tm)
  case Nil
  then show ?case by simp
next
  case (Cons now nows)
  have "tm_instant tm \<le> now" and "now < tm_instant tm + 1000000"
    using Cons.prems(1) Cons.prems(2)[rule_format, of 0] by auto
  then have "as_millis (now - tm_instant tm) = 0" by (simp add: as_millis_def)
  then obtain r tm1 where sp: "spin_and_get_deadline ops now tm = Some (r, [], tm1)"
    and keep: "tm_instant tm1 = now" "timer_timers ops tm1 = timer_timers ops tm"
      "current_tick (tm_wheel tm1) = current_tick (tm_wheel tm)"
    using spin_zero[of now tm ops] by (auto simp: refresh_keeps)
  have "\<forall>i < length nows. nows ! i < (tm_instant tm1 # nows) ! i + 1000000"
    using Cons.prems(2) keep(1) by fastforce
  then show ?case
    using Cons.IH[of tm1] Cons.prems(1) keep sp by auto
qed

theorem submillisecond_spins_starve_witness:
  "\<exists>tm'. spins vec_slab_ops (map (\<lambda>i. (i + 1) * 900000) [0..<100]) demo_timer1 = Some ([], tm') \<and>
     timer_timers vec_slab_ops tm' 0 = Some (7, 15, 1) \<and> tm_instant tm' = 90000000"
proof -
  have "\<exists>tm'. spins vec_slab_ops (map (\<lambda>i. (i + 1) * 900000) [0..<100]) demo_timer1 = Some ([], tm') \<and>
      timer_timers vec_slab_ops tm' = timer_timers vec_slab_ops demo_timer1 \<and>
      current_tick (tm_wheel tm') = current_tick (tm_wheel demo_timer1) \<and>
      tm_instant tm' = last (tm_instant demo_timer1 # map (\<lambda>i. (i + 1) * 900000) [0..<100])"
  proof (rule submillisecond_spins_starve)
    show "sorted (tm_instant demo_timer1 # map (\<lambda>i. (i + 1) * 900000) [0..<100])"
      by (simp add: demo_timer1_simps sorted_map sorted_wrt_mono_rel[OF _ sorted_upt] del: upt_rec_numeral)
  qed (auto simp: demo_timer1_simps nth_Cons' simp del: upt_rec_numeral)
  moreover have "timer_timers vec_slab_ops demo_timer1 0 = Some (7, 15, 1)"
    by (simp add: demo_timer1_simps demo_simps)
  ultimately show ?thesis
    by (auto simp: demo_timer1_simps(1) last_map simp del: upt_rec_numeral)
qed

context timer_slab
begin

lemma spin_deadline:
  assumes "wheel_inv ops (tm_wheel tm)" and "tm_instant tm \<le> now"
    and "current_tick (tm_wheel tm) + as_millis (now - tm_instant tm) < U64_LIMIT"
    and "spin_and_get_deadline ops now tm = Some ((dl, flag), woken, tm')"
  defines "D \<equiv> deadlines (timer_timers ops tm')"
  shows "dl = (if D = {} \<or> Min D = 0 then None
               else Some (from_millis (max (Min D - current_tick (tm_wheel tm')) 1)))"
proof (cases "wheel_is_empty ops (tm_wheel tm)")
  case True
  then have "dl = None" and "timer_timers ops tm' = Map.empty"
    using assms(4) by (auto simp: spin_and_get_deadline_def wheel_is_empty_def is_empty_iff timers_def)
  then show ?thesis by (simp add: D_def deadlines_def)
next
  case False
  let ?d = "as_millis (now - tm_instant tm)"
  have "try_u64 ?d = Some ?d" using assms(3) by (simp add: try_u64_def)
  then obtain w1 r w2 where adv: "wheel_advance ops ?d (tm_wheel tm) = (woken, w1)"
    and near: "nearest_wakeup ops w1 = (r, w2)" and tm': "tm_wheel tm' = w2"
    and dl: "dl = map_option (\<lambda>t. from_millis (max (t - current_tick w1) 1)) r"
    using assms(4) False
    by (auto simp: spin_and_get_deadline_def saturating_duration_since_def Let_def wheel_now_def split: prod.splits)
  have inv1: "wheel_inv ops w1" by (rule wheel_inv_advance[OF assms(1,3) adv])
  note nv = nearest_wakeup_value[OF inv1, unfolded near fst_conv snd_conv]
  have "D = {} \<longleftrightarrow> timers ops w1 = Map.empty"
    by (simp add: D_def tm' nv(2) deadlines_timers timers_empty_iff ran_eq_empty)
  then show ?thesis using nv dl by (auto simp: D_def tm')
qed

lemma finite_deadlines: "finite (deadlines (timers ops w))"
  unfolding deadlines_timers using finite_values by simp

end

text \<open>
  The reported wait is never zero and never too long. A timeout returned by a spin is at
  least one millisecond (so the scheduler does not busy-loop on an overdue timer) and reaches no
  further than any pending timer's expiration, or than the next tick when that timer is
  overdue already; with pending timers of positive expiration there is a timeout.
\<close>

theorem spin_timeout_bounds:
  assumes "slab ops" and "wheel_inv ops (tm_wheel tm)" and "tm_instant tm \<le> now"
    and "current_tick (tm_wheel tm) + as_millis (now - tm_instant tm) < U64_LIMIT"
    and "spin_and_get_deadline ops now tm = Some ((dl, flag), woken, tm')"
    and "timer_timers ops tm' i = Some (k, t, g)"
    and "\<And>j k' t' g'. timer_timers ops tm' j = Some (k', t', g') \<Longrightarrow> 0 < t'"
  shows "\<exists>d. dl = Some d \<and> 1000000 \<le> d \<and>
    current_tick (tm_wheel tm') + as_millis d \<le> max t (current_tick (tm_wheel tm') + 1)"
proof -
  note tsl = timer_slabI[OF assms(1)]
  let ?D = "deadlines (timer_timers ops tm')"
  have fin: "finite ?D" by (rule timer_slab.finite_deadlines[OF tsl])
  have t: "t \<in> ?D" using assms(6) by (force simp: deadlines_def ran_def)
  then have "Min ?D \<le> t" and "Min ?D \<in> ?D" using fin by (auto intro: Min_in)
  moreover have "0 < x" if "x \<in> ?D" for x using that assms(7) by (auto simp: deadlines_def ran_def)
  ultimately have "dl = Some (from_millis (max (Min ?D - current_tick (tm_wheel tm')) 1))"
    using timer_slab.spin_deadline[OF tsl assms(2-5)] t by auto
  then show ?thesis using \<open>Min ?D \<le> t\<close> by (auto simp: from_millis_def as_millis_def)
qed

theorem spin_timeout_bounds_witness:
  "\<exists>dl flag woken tm'. spin_and_get_deadline vec_slab_ops 900000 demo_timer1 = Some ((dl, flag), woken, tm') \<and>
     (\<exists>d. dl = Some d \<and> 1000000 \<le> d \<and>
        current_tick (tm_wheel tm') + as_millis d \<le> max 15 (current_tick (tm_wheel tm') + 1))"
proof -
  obtain dl flag tm' where sp: "spin_and_get_deadline vec_slab_ops 900000 demo_timer1 = Some ((dl, flag), [], tm')"
    and tm: "timer_timers vec_slab_ops tm' = timer_timers vec_slab_ops demo_timer1"
    using spin_zero[of 900000 demo_timer1 vec_slab_ops]
    by (auto simp: demo_timer1_simps(1) as_millis_def refresh_keeps)
  have t: "timer_timers vec_slab_ops demo_timer1 i = (if i = 0 then Some (7, 15, 1) else None)" for i
    by (simp add: demo_timer1_simps demo_simps)
  have inv: "wheel_inv vec_slab_ops (tm_wheel demo_timer1)"
    unfolding demo_timer1_simps
    by (rule vec_timers.wheel_reach_inv[OF reach_step[OF demo_start_reach demo_insert_step]])
  have "current_tick (tm_wheel demo_timer1) = 10" by (simp add: demo_timer1_simps demo_simps)
  then have "\<exists>d. dl = Some d \<and> 1000000 \<le> d \<and>
      current_tick (tm_wheel tm') + as_millis d \<le> max 15 (current_tick (tm_wheel tm') + 1)"
    by (intro spin_timeout_bounds[OF vec_slab.slab_axioms inv _ _ sp, of 0 7 15 1])
      (simp_all add: demo_timer1_simps(1) tm t as_millis_def split: if_splits)
  then show ?thesis using sp by blast
qed

end
