(* ===== verification/Time_Futures.thy ===== *)
theory Time_Futures
  imports Timer
begin

text \<open>
  The futures of \<open>time/\<close>: \<open>Sleep\<close> over the runtime timer, \<open>Timeout\<close> over an inner future, and
  \<open>Interval\<close>. A poll takes the clock reading, the task's waker and the timer, and returns the
  outcome, the wakers it called, the new future and the new timer; \<open>None\<close> is a panic.
  \<open>in_rt\<close> says whether the caller runs inside a runtime (\<open>current_timer()\<close> is \<open>Some\<close>).
\<close>

section \<open>Sleep\<close>

datatype zero_behavior = Immediate | Yield

record sleep =
  sp_handle :: "timer_handle option"
  sp_fired :: bool
  yield_scheduled :: bool
  sp_zero_behavior :: zero_behavior
  sp_deadline :: instant
  sp_timer :: bool

definition sleep_new_with_zero_behavior :: "instant \<Rightarrow> duration \<Rightarrow> zero_behavior \<Rightarrow> sleep" where
  "sleep_new_with_zero_behavior now dur zb =
     \<lparr>sp_handle = None, sp_fired = False, yield_scheduled = False, sp_zero_behavior = zb,
      sp_deadline = now + dur, sp_timer = False\<rparr>"

definition sleep_new :: "instant \<Rightarrow> duration \<Rightarrow> sleep" where
  "sleep_new now dur =
     \<lparr>sp_handle = None, sp_fired = False, yield_scheduled = False, sp_zero_behavior = Immediate,
      sp_deadline = now + dur, sp_timer = False\<rparr>"

definition sleep_until :: "instant \<Rightarrow> sleep" where
  "sleep_until deadline =
     \<lparr>sp_handle = None, sp_fired = False, yield_scheduled = False, sp_zero_behavior = Immediate,
      sp_deadline = deadline, sp_timer = False\<rparr>"

definition sleep_reset ::
  "('s, 'w) wheel_ops \<Rightarrow> bool \<Rightarrow> instant \<Rightarrow> sleep \<Rightarrow> 's timer \<Rightarrow> sleep \<times> 's timer" where
  "sleep_reset ops in_rt deadline sp tm =
     (let sp1 = sp\<lparr>sp_deadline := deadline, sp_fired := False, yield_scheduled := False\<rparr>
      in case sp_handle sp1 of
           None \<Rightarrow> (sp1, tm)
         | Some h \<Rightarrow> (sp1\<lparr>sp_handle := None\<rparr>, if in_rt then timer_cancel ops h tm else tm))"

definition handle_immediate_wakeup :: "'w \<Rightarrow> sleep \<Rightarrow> unit poll \<times> 'w list \<times> sleep" where
  "handle_immediate_wakeup waker sp =
     (case sp_zero_behavior sp of
        Immediate \<Rightarrow> (Ready (), [], sp\<lparr>sp_fired := True\<rparr>)
      | Yield \<Rightarrow>
          if yield_scheduled sp then (Ready (), [], sp\<lparr>sp_fired := True\<rparr>)
          else (Pending, [waker], sp\<lparr>yield_scheduled := True\<rparr>))"

definition sleep_poll ::
  "('s, 'w) wheel_ops \<Rightarrow> bool \<Rightarrow> instant \<Rightarrow> 'w \<Rightarrow> sleep \<Rightarrow> 's timer
   \<Rightarrow> (unit poll \<times> 'w list \<times> sleep \<times> 's timer) option" where
  "sleep_poll ops in_rt now waker sp tm =
     (if sp_fired sp then Some (Ready (), [], sp, tm)
      else if \<not> sp_timer sp \<and> \<not> in_rt then None
      else
        (let sp1 = sp\<lparr>sp_timer := True\<rparr> in
         case sp_handle sp1 of
           None \<Rightarrow>
             (case timer_submit ops (sp_deadline sp1) waker tm of
                (Some h, woken, tm1) \<Rightarrow> Some (Pending, woken, sp1\<lparr>sp_handle := Some h\<rparr>, tm1)
              | (None, woken, tm1) \<Rightarrow>
                  (case handle_immediate_wakeup waker sp1 of
                     (r, woken2, sp2) \<Rightarrow> Some (r, woken @ woken2, sp2, tm1)))
         | Some h \<Rightarrow>
             if sp_deadline sp1 \<le> now
             then Some (Ready (), [], sp1\<lparr>sp_fired := True, sp_handle := None\<rparr>, tm)
             else if \<not> in_rt then Some (Pending, [], sp1\<lparr>sp_handle := None\<rparr>, tm)
             else
               (case timer_submit ops (sp_deadline sp1) waker (timer_cancel ops h tm) of
                  (Some h', woken, tm1) \<Rightarrow> Some (Pending, woken, sp1\<lparr>sp_handle := Some h'\<rparr>, tm1)
                | (None, woken, tm1) \<Rightarrow>
                    Some (Ready (), woken, sp1\<lparr>sp_handle := None, sp_fired := True\<rparr>, tm1))))"

definition sleep_drop :: "('s, 'w) wheel_ops \<Rightarrow> sleep \<Rightarrow> 's timer \<Rightarrow> 's timer" where
  "sleep_drop ops sp tm =
     (case sp_handle sp of
        None \<Rightarrow> tm
      | Some h \<Rightarrow> if sp_timer sp then timer_cancel ops h tm else tm)"

section \<open>Timeout\<close>

text \<open>The inner future belongs to the caller; \<open>inner\<close> is what its poll returned this time.\<close>

record timeout_fut =
  to_sleep :: sleep
  timed_out :: bool

datatype timeout_error = TimeoutError

definition timeout_new :: "instant \<Rightarrow> duration \<Rightarrow> timeout_fut" where
  "timeout_new now dur = \<lparr>to_sleep = sleep_new now dur, timed_out = False\<rparr>"

definition timeout_poll ::
  "('s, 'w) wheel_ops \<Rightarrow> bool \<Rightarrow> instant \<Rightarrow> 'w \<Rightarrow> 'a poll \<Rightarrow> timeout_fut \<Rightarrow> 's timer
   \<Rightarrow> ((timeout_error + 'a) poll \<times> 'w list \<times> timeout_fut \<times> 's timer) option" where
  "timeout_poll ops in_rt now waker inner to tm =
     (if timed_out to then Some (Ready (Inl TimeoutError), [], to, tm)
      else case inner of
             Ready output \<Rightarrow> Some (Ready (Inr output), [], to, tm)
           | Pending \<Rightarrow>
               (case sleep_poll ops in_rt now waker (to_sleep to) tm of
                  None \<Rightarrow> None
                | Some (Ready _, woken, sp, tm1) \<Rightarrow>
                    Some (Ready (Inl TimeoutError), woken, to\<lparr>to_sleep := sp, timed_out := True\<rparr>, tm1)
                | Some (Pending, woken, sp, tm1) \<Rightarrow> Some (Pending, woken, to\<lparr>to_sleep := sp\<rparr>, tm1)))"

section \<open>Interval\<close>

datatype missed_tick_behavior = Skip | CatchUp

record interval =
  period :: duration
  next_deadline :: "instant option"
  iv_behavior :: missed_tick_behavior

definition interval_new :: "duration \<Rightarrow> interval" where
  "interval_new p = \<lparr>period = p, next_deadline = None, iv_behavior = Skip\<rparr>"

definition interval_at :: "instant \<Rightarrow> duration \<Rightarrow> interval" where
  "interval_at first p = (interval_new p)\<lparr>next_deadline := Some first\<rparr>"

definition set_missed_tick_behavior :: "missed_tick_behavior \<Rightarrow> interval \<Rightarrow> interval" where
  "set_missed_tick_behavior b iv = iv\<lparr>iv_behavior := b\<rparr>"

definition interval_reset :: "interval \<Rightarrow> interval" where
  "interval_reset iv = iv\<lparr>next_deadline := None\<rparr>"

text \<open>
  The \<open>while target <= now\<close> loop of the skip branch; the counter saturates and stops the loop at
  \<open>u64::MAX\<close>. A zero period is handled before the loop.
\<close>

function skip_loop :: "duration \<Rightarrow> instant \<Rightarrow> instant \<Rightarrow> u64 \<Rightarrow> instant" where
  "skip_loop p now target cnt =
     (if target \<le> now \<and> 0 < p then
        (let target' = target + p; cnt' = min (cnt + 1) (U64_LIMIT - 1)
         in if cnt' = U64_LIMIT - 1 then target' else skip_loop p now target' cnt')
      else target)"
  by pat_completeness auto
termination
  by (relation "measure (\<lambda>(p, now, target, cnt). Suc now - target)") auto

declare skip_loop.simps [simp del]

text \<open>The sleep that \<open>tick\<close> awaits, if any: its duration and zero-length behaviour.\<close>

definition tick_sleep :: "instant \<Rightarrow> instant \<Rightarrow> duration \<times> zero_behavior" where
  "tick_sleep target now2 =
     (let remaining = saturating_duration_since target now2
      in (remaining, if as_millis remaining = 0 then Yield else Immediate))"

text \<open>
  \<open>tick\<close> with its two clock readings: the awaited sleep, the ticks to process and the new
  schedule; \<open>None\<close> is the documented panic on more than \<open>u64::MAX\<close> missed ticks.
\<close>

definition interval_tick ::
  "instant \<Rightarrow> instant \<Rightarrow> interval \<Rightarrow> ((duration \<times> zero_behavior) option \<times> u64 \<times> interval) option" where
  "interval_tick now now2 iv =
     (let base_next = (case next_deadline iv of Some d \<Rightarrow> d | None \<Rightarrow> now + period iv) in
      case iv_behavior iv of
        Skip \<Rightarrow>
          (let target = (if base_next \<le> now
                         then if period iv = 0 then now else skip_loop (period iv) now base_next 0
                         else base_next)
           in Some (Some (tick_sleep target now2), 1, iv\<lparr>next_deadline := Some (target + period iv)\<rparr>))
      | CatchUp \<Rightarrow>
          if now < base_next
          then Some (Some (tick_sleep base_next now2), 1, iv\<lparr>next_deadline := Some (base_next + period iv)\<rparr>)
          else if period iv = 0 then Some (None, 1, iv\<lparr>next_deadline := Some (now2 + period iv)\<rparr>)
          else (case try_u64 ((now - base_next) div period iv) of
                  None \<Rightarrow> None
                | Some q \<Rightarrow>
                    (let missed = u64_add q 1;
                         new_next = fold (\<lambda>_ t. t + period iv) [0..<missed] base_next
                     in Some (None, missed, iv\<lparr>next_deadline := Some (new_next + period iv)\<rparr>))))"

section \<open>Lemmas on sleeping\<close>

lemma wheel_remove_generation [simp]: "generation_counter (wheel_remove ops h w) = generation_counter w"
  by (auto simp: wheel_remove_def refresh_min_expiration_def Let_def split: option.splits prod.splits)

lemma wheel_remove_now [simp]: "current_tick (wheel_remove ops h w) = current_tick w"
  by (auto simp: wheel_remove_def refresh_min_expiration_def Let_def split: option.splits prod.splits)

lemma timer_cancel_frame [simp]:
  "tm_instant (timer_cancel ops h tm) = tm_instant tm"
  "tm_wheel (timer_cancel ops h tm) = wheel_remove ops h (tm_wheel tm)"
  by (simp_all add: timer_cancel_def)

lemma submit_None:
  assumes "timer_submit ops deadline waker tm = (None, woken, tm')"
  shows "tm' = tm" and "as_millis (deadline - tm_instant tm) < U64_LIMIT \<Longrightarrow>
    as_millis (deadline - tm_instant tm) = 0 \<and> woken = [waker]"
    and "U64_LIMIT \<le> as_millis (deadline - tm_instant tm) \<Longrightarrow> woken = []"
  using assms
  by (auto simp: timer_submit_def saturating_duration_since_def try_u64_def
      split: option.splits if_splits prod.splits)

lemma submit_far:
  "U64_LIMIT \<le> as_millis (deadline - tm_instant tm) \<Longrightarrow> timer_submit ops deadline waker tm = (None, [], tm)"
  by (simp add: timer_submit_def saturating_duration_since_def try_u64_def)

lemma millis_zero: "as_millis (a - b) = 0 \<Longrightarrow> a < b + 1000000"
  by (auto simp: as_millis_def div_eq_0_iff)

text \<open>A sleep that is armed: its handle names a pending timer that carries this task's waker.\<close>

definition armed :: "('s, 'w) wheel_ops \<Rightarrow> 'w \<Rightarrow> sleep \<Rightarrow> 's timer \<Rightarrow> bool" where
  "armed ops waker sp tm \<longleftrightarrow>
     (\<exists>h t. sp_handle sp = Some h \<and> timer_timers ops tm (slab_index h) = Some (waker, t, h_generation h))"

context timer_slab
begin

lemma submit_arms:
  assumes "timer_submit ops deadline waker tm = (Some h, woken, tm')"
    and "current_tick (tm_wheel tm) + as_millis (deadline - tm_instant tm) < U64_LIMIT"
    and "generation_counter (tm_wheel tm) + 1 < U64_LIMIT"
  shows "armed ops waker (sp\<lparr>sp_handle := Some h\<rparr>) tm'"
  using submit_Some[OF assms] by (simp add: armed_def)

lemma sleep_poll_pending:
  assumes "sleep_poll ops True now waker sp tm = Some (Pending, woken, sp', tm')"
    and "current_tick (tm_wheel tm) + as_millis (sp_deadline sp - tm_instant tm) < U64_LIMIT"
    and "generation_counter (tm_wheel tm) + 1 < U64_LIMIT"
  shows "armed ops waker sp' tm' \<or> waker \<in> set woken"
proof (cases "sp_handle sp")
  case None
  show ?thesis
  proof (cases "timer_submit ops (sp_deadline sp) waker tm")
    case (fields ho wk tm1)
    show ?thesis
    proof (cases ho)
      case None
      then show ?thesis
        using fields assms(1) \<open>sp_handle sp = None\<close>
        by (auto simp: sleep_poll_def handle_immediate_wakeup_def Let_def
            split: if_splits zero_behavior.splits)
    next
      case (Some h)
      then have "sp' = (sp\<lparr>sp_timer := True\<rparr>)\<lparr>sp_handle := Some h\<rparr>" "tm' = tm1"
        using fields assms(1) \<open>sp_handle sp = None\<close>
        by (auto simp: sleep_poll_def Let_def split: if_splits)
      then show ?thesis using submit_arms[OF _ assms(2,3)] fields Some by blast
    qed
  qed
next
  case (Some h0)
  let ?tm = "timer_cancel ops h0 tm"
  obtain h wk where sub: "timer_submit ops (sp_deadline sp) waker ?tm = (Some h, wk, tm')"
    and "sp' = (sp\<lparr>sp_timer := True\<rparr>)\<lparr>sp_handle := Some h\<rparr>"
    using assms(1) Some
    by (auto simp: sleep_poll_def Let_def split: if_splits option.splits prod.splits)
  then show ?thesis using submit_arms[OF sub] assms(2,3) by auto
qed

end

lemma sleep_poll_ready:
  assumes "sleep_poll ops in_rt now waker sp tm = Some (Ready (), woken, sp', tm')" and "\<not> sp_fired sp"
    and "as_millis (sp_deadline sp - tm_instant tm) < U64_LIMIT"
  shows "sp_deadline sp \<le> now \<or> sp_deadline sp < tm_instant tm + 1000000"
proof (cases "sp_handle sp")
  case None
  then obtain wk tm1 where "timer_submit ops (sp_deadline sp) waker tm = (None, wk, tm1)"
    using assms(1,2) by (auto simp: sleep_poll_def Let_def split: if_splits option.splits prod.splits)
  from submit_None(2)[OF this assms(3)] show ?thesis using millis_zero by blast
next
  case (Some h0)
  show ?thesis
  proof (cases "sp_deadline sp \<le> now")
    case False
    then obtain wk tm1 where "timer_submit ops (sp_deadline sp) waker (timer_cancel ops h0 tm) = (None, wk, tm1)"
      using assms(1,2) Some by (auto simp: sleep_poll_def Let_def split: if_splits option.splits prod.splits)
    from submit_None(2)[OF this] assms(3) show ?thesis using millis_zero by simp
  qed simp
qed

section \<open>Lemmas on intervals\<close>

lemma skip_loop_grid:
  assumes "0 < p" and "target \<le> now" and "cnt + (now - target) div p + 1 < U64_LIMIT - 1"
  shows "skip_loop p now target cnt = target + ((now - target) div p + 1) * p"
  using assms
proof (induction p now target cnt rule: skip_loop.induct)
  case (1 p now target cnt)
  have cnt: "min (cnt + 1) (U64_LIMIT - 1) = cnt + 1" "cnt + 1 \<noteq> U64_LIMIT - 1" using "1.prems" by auto
  have unfold: "skip_loop p now target cnt = skip_loop p now (target + p) (cnt + 1)"
    using "1.prems" cnt by (subst skip_loop.simps) (simp add: Let_def)
  show ?case
  proof (cases "target + p \<le> now")
    case True
    then have q: "(now - target) div p = (now - (target + p)) div p + 1"
      using "1.prems"(1) le_div_geq[of p "now - target"] by simp
    have "cnt + 1 + (now - (target + p)) div p + 1 < U64_LIMIT - 1" using "1.prems"(3) q by simp
    then have "skip_loop p now (target + p) (cnt + 1) = target + p + ((now - (target + p)) div p + 1) * p"
      using "1.IH"[OF _ refl refl] True "1.prems"(1,2) cnt by (simp add: Let_def)
    then show ?thesis using unfold q by (simp add: algebra_simps)
  next
    case False
    then have "(now - target) div p = 0" using "1.prems"(2) by simp
    moreover have "skip_loop p now (target + p) (cnt + 1) = target + p"
      using False by (subst skip_loop.simps) simp
    ultimately show ?thesis using unfold by simp
  qed
qed

lemma fold_add_const: "fold (\<lambda>_ t. t + p) [0..<n] (b::nat) = b + n * p"
  by (induction n) (auto simp: algebra_simps)

section \<open>Properties\<close>

text \<open>
  No lost sleeper. When polling a \<open>Sleep\<close> inside the runtime returns \<open>Pending\<close>, either the
  runtime timer holds a pending timer with this task's waker under the sleep's handle, or the
  poll has already woken the task: a pending sleep is always polled again.
\<close>

theorem sleep_pending_is_armed_or_woken:
  assumes "slab ops" and "sleep_poll ops True now waker sp tm = Some (Pending, woken, sp', tm')"
    and "current_tick (tm_wheel tm) + as_millis (sp_deadline sp - tm_instant tm) < U64_LIMIT"
    and "generation_counter (tm_wheel tm) + 1 < U64_LIMIT"
  shows "armed ops waker sp' tm' \<or> waker \<in> set woken"
  using timer_slab.sleep_poll_pending[OF timer_slabI[OF assms(1)] assms(2-4)] .

theorem sleep_pending_is_armed_or_woken_witness:
  "armed vec_slab_ops (7::nat) \<lparr>sp_handle = Some \<lparr>slab_index = 0, h_generation = 1\<rparr>, sp_fired = False,
      yield_scheduled = False, sp_zero_behavior = Immediate, sp_deadline = 5000000, sp_timer = True\<rparr> demo_timer1
   \<or> (7::nat) \<in> set []"
proof -
  have "sleep_poll vec_slab_ops True 0 (7::nat) (sleep_new 0 5000000) demo_timer = Some (Pending, [],
      \<lparr>sp_handle = Some \<lparr>slab_index = 0, h_generation = 1\<rparr>, sp_fired = False, yield_scheduled = False,
       sp_zero_behavior = Immediate, sp_deadline = 5000000, sp_timer = True\<rparr>, demo_timer1)"
    by (simp add: sleep_poll_def sleep_new_def demo_submit Let_def)
  then show ?thesis
    by (rule sleep_pending_is_armed_or_woken[OF vec_slab.slab_axioms])
      (simp_all add: demo_timer_def demo_ticks as_millis_def sleep_new_def)
qed

text \<open>
  A \<open>Sleep\<close> is not ready early. If a sleep that had not fired becomes ready, the clock has
  reached its deadline, or the deadline is less than a millisecond (the timer's resolution)
  after the timer's last reading of the clock.
\<close>

theorem sleep_ready_not_early:
  assumes "sleep_poll ops in_rt now waker sp tm = Some (Ready (), woken, sp', tm')" and "\<not> sp_fired sp"
    and "as_millis (sp_deadline sp - tm_instant tm) < U64_LIMIT" and "tm_instant tm \<le> now"
  shows "sp_deadline sp < now + 1000000"
  using sleep_poll_ready[OF assms(1-3)] assms(4) by linarith

theorem sleep_ready_not_early_witness: "sp_deadline (sleep_new 0 900000) < (0::nat) + 1000000"
  by (rule sleep_ready_not_early[of "vec_slab_ops :: (demo_state, nat) wheel_ops" True 0 7 _ demo_timer "[7]"
        "(sleep_new 0 900000)\<lparr>sp_timer := True, sp_fired := True\<rparr>" demo_timer])
    (simp_all add: sleep_poll_def sleep_new_def timer_submit_def saturating_duration_since_def try_u64_def
      as_millis_def demo_timer_def handle_immediate_wakeup_def)

text \<open>
  A very long sleep completes at once. \<open>Timer::submit\<close> answers \<open>None\<close> both for a deadline
  within the current millisecond and for one too far to count in 64-bit milliseconds, and
  \<open>Sleep::poll\<close> takes every \<open>None\<close> for an immediate wake-up: the first poll of such a sleep
  returns \<open>Ready\<close>.
\<close>

theorem far_sleep_completes_at_once:
  assumes "U64_LIMIT \<le> as_millis (deadline - tm_instant tm)"
  shows "sleep_poll ops True now waker (sleep_until deadline) tm =
    Some (Ready (), [], (sleep_until deadline)\<lparr>sp_timer := True, sp_fired := True\<rparr>, tm)"
  by (simp add: sleep_poll_def sleep_until_def handle_immediate_wakeup_def Let_def submit_far[OF assms])

theorem far_sleep_completes_at_once_witness:
  "sleep_poll (vec_slab_ops :: (demo_state, nat) wheel_ops) True 0 7 (sleep_until (U64_LIMIT * 1000000)) demo_timer =
    Some (Ready (), [], (sleep_until (U64_LIMIT * 1000000))\<lparr>sp_timer := True, sp_fired := True\<rparr>, demo_timer)"
  by (rule far_sleep_completes_at_once) (simp add: as_millis_def demo_timer_def)

text \<open>
  Dropping a pending \<open>Sleep\<close> cancels its timer: after \<open>Drop\<close> the timer that the sleep armed is
  no longer pending and every other timer is untouched.
\<close>

theorem sleep_drop_cancels_timer:
  assumes "slab ops" and "armed ops waker sp tm" and "sp_timer sp"
  shows "\<exists>h. sp_handle sp = Some h \<and>
    timer_timers ops (sleep_drop ops sp tm) = (timer_timers ops tm)(slab_index h := None)"
  using assms(2,3) timer_slab.timers_remove[OF timer_slabI[OF assms(1)]]
  by (auto simp: armed_def sleep_drop_def)

theorem sleep_drop_cancels_timer_witness:
  "\<exists>h. Some \<lparr>slab_index = 0, h_generation = 1\<rparr> = Some h \<and>
    timer_timers vec_slab_ops (sleep_drop vec_slab_ops
      ((sleep_new 0 5000000)\<lparr>sp_handle := Some \<lparr>slab_index = 0, h_generation = 1\<rparr>, sp_timer := True\<rparr>) demo_timer1)
    = (timer_timers vec_slab_ops demo_timer1)(slab_index h := None)"
  using sleep_drop_cancels_timer[OF vec_slab.slab_axioms, of "7::nat"
      "(sleep_new 0 5000000)\<lparr>sp_handle := Some \<lparr>slab_index = 0, h_generation = 1\<rparr>, sp_timer := True\<rparr>" demo_timer1]
  by (simp add: armed_def) (simp add: demo_timer1_simps demo_simps)

text \<open>
  A sleep that completes on the clock keeps its wheel entry. When the deadline has passed but
  the wheel has not fired the timer yet (it may be late), \<open>poll\<close> forgets the handle without
  cancelling it, and \<open>Drop\<close> then cancels nothing: the entry and its waker stay in the wheel.
\<close>

theorem sleep_ready_keeps_wheel_entry:
  assumes "sp_handle sp = Some h" and "\<not> sp_fired sp" and "sp_timer sp" and "sp_deadline sp \<le> now"
  shows "\<exists>sp'. sleep_poll ops in_rt now waker sp tm = Some (Ready (), [], sp', tm) \<and>
    sleep_drop ops sp' tm = tm"
  using assms by (simp add: sleep_poll_def sleep_drop_def Let_def)

theorem sleep_ready_keeps_wheel_entry_witness:
  "\<exists>sp'. sleep_poll (vec_slab_ops :: (demo_state, nat) wheel_ops) True 5000000 7
      ((sleep_new 0 5000000)\<lparr>sp_handle := Some \<lparr>slab_index = 0, h_generation = 1\<rparr>, sp_timer := True\<rparr>) demo_timer1
      = Some (Ready (), [], sp', demo_timer1) \<and>
    sleep_drop (vec_slab_ops :: (demo_state, nat) wheel_ops) sp' demo_timer1 = demo_timer1"
  by (rule sleep_ready_keeps_wheel_entry) (simp_all add: sleep_new_def)

text \<open>
  \<open>Timeout\<close> outcomes. A result of the inner future wins over the timer; an elapsed timer gives
  the error, marks the future as timed out, and from then on every poll returns the error; a
  pending timeout has armed its timer or woken the task.
\<close>

theorem timeout_poll_outcomes:
  assumes "slab ops" and "timeout_poll ops True now waker inner to tm = Some (r, woken, to', tm')"
    and "current_tick (tm_wheel tm) + as_millis (sp_deadline (to_sleep to) - tm_instant tm) < U64_LIMIT"
    and "generation_counter (tm_wheel tm) + 1 < U64_LIMIT"
  shows "(\<forall>x. r = Ready (Inr x) \<longleftrightarrow> \<not> timed_out to \<and> inner = Ready x) \<and>
    (r = Ready (Inl TimeoutError) \<longleftrightarrow> timed_out to') \<and>
    (timed_out to \<longrightarrow> r = Ready (Inl TimeoutError)) \<and>
    (r = Pending \<longrightarrow> armed ops waker (to_sleep to') tm' \<or> waker \<in> set woken)"
proof (cases "timed_out to \<or> inner \<noteq> Pending")
  case True
  then show ?thesis using assms(2) by (cases inner) (auto simp: timeout_poll_def split: if_splits)
next
  case False
  then obtain ps sp where sp: "sleep_poll ops True now waker (to_sleep to) tm = Some (ps, woken, sp, tm')"
    and r: "r = (case ps of Pending \<Rightarrow> Pending | Ready _ \<Rightarrow> Ready (Inl TimeoutError))"
    and to': "to' = to\<lparr>to_sleep := sp, timed_out := (ps \<noteq> Pending)\<rparr>"
    using assms(2) by (cases to) (auto simp: timeout_poll_def split: option.splits poll.splits prod.splits)
  then show ?thesis
    using False timer_slab.sleep_poll_pending[OF timer_slabI[OF assms(1)] _ assms(3,4)]
    by (cases ps) auto
qed

theorem timeout_poll_outcomes_witness:
  "(\<forall>x::nat. Ready (Inr (3::nat)) = Ready (Inr x) \<longleftrightarrow> \<not> timed_out (timeout_new 0 5000000) \<and> Ready 3 = Ready x)"
proof -
  have "timeout_poll (vec_slab_ops :: (demo_state, nat) wheel_ops) True 0 7 (Ready (3::nat))
      (timeout_new 0 5000000) demo_timer = Some (Ready (Inr 3), [], timeout_new 0 5000000, demo_timer)"
    by (simp add: timeout_poll_def timeout_new_def)
  from timeout_poll_outcomes[OF vec_slab.slab_axioms this] show ?thesis
    by (simp add: demo_timer_def demo_ticks timeout_new_def sleep_new_def as_millis_def)
qed

text \<open>
  \<open>Interval::tick\<close> in skip mode waits for a grid point in the future. The awaited target is the
  scheduled deadline plus a whole number of periods, later than now and at most one period
  away when ticks were missed; the next deadline is one period after it and one tick is
  reported. The loop that finds it terminates.
\<close>

theorem interval_skip_stays_on_grid:
  assumes "iv_behavior iv = Skip" and "0 < period iv"
    and "base = (case next_deadline iv of Some d \<Rightarrow> d | None \<Rightarrow> now + period iv)"
    and "(now - base) div period iv + 1 < U64_LIMIT - 1"
  shows "\<exists>k. let target = base + k * period iv in
    interval_tick now now2 iv =
      Some (Some (tick_sleep target now2), 1, iv\<lparr>next_deadline := Some (target + period iv)\<rparr>) \<and>
    now < target \<and> (base \<le> now \<longrightarrow> target \<le> now + period iv)"
proof (cases "base \<le> now")
  case True
  let ?k = "(now - base) div period iv + 1"
  have "skip_loop (period iv) now base 0 = base + ?k * period iv"
    using skip_loop_grid[OF assms(2) True, of 0] assms(4) by simp
  then have "interval_tick now now2 iv = Some (Some (tick_sleep (base + ?k * period iv) now2), 1,
      iv\<lparr>next_deadline := Some (base + ?k * period iv + period iv)\<rparr>)"
    using True assms(1,2) by (simp add: interval_tick_def Let_def assms(3)[symmetric])
  moreover have "now - base < ?k * period iv" using assms(2) by (simp add: dividend_less_div_times)
  then have "now < base + ?k * period iv" using True by linarith
  moreover have "base + ?k * period iv \<le> now + period iv"
    using True div_times_less_eq_dividend[of "now - base" "period iv"] unfolding distrib_right by linarith
  ultimately show ?thesis unfolding Let_def by blast
next
  case False
  then show ?thesis using assms(1-3) by (intro exI[of _ 0]) (auto simp: interval_tick_def Let_def)
qed

theorem interval_skip_stays_on_grid_witness:
  "\<exists>k. let target = (100::nat) + k * 30 in
    interval_tick 175 176 (interval_at 100 30) =
      Some (Some (tick_sleep target 176), 1, (interval_at 100 30)\<lparr>next_deadline := Some (target + 30)\<rparr>) \<and>
    175 < target \<and> (100 \<le> (175::nat) \<longrightarrow> target \<le> 175 + 30)"
  using interval_skip_stays_on_grid[of "interval_at 100 30" 100 175 176]
  by (simp add: interval_at_def interval_new_def)

text \<open>
  \<open>Interval::tick\<close> in catch-up mode reports exactly the grid points up to now, and then skips
  the next one: \<open>missed\<close> is the number of points \<open>base + j * period\<close> not after now, the point
  \<open>base + missed * period\<close> is still in the future, but the next deadline is set a whole period
  after it.
\<close>

theorem interval_catch_up_skips_a_tick:
  assumes "iv_behavior iv = CatchUp" and "0 < period iv" and "next_deadline iv = Some base" and "base \<le> now"
    and "(now - base) div period iv + 1 < U64_LIMIT"
  shows "\<exists>missed. interval_tick now now2 iv =
      Some (None, missed, iv\<lparr>next_deadline := Some (base + (missed + 1) * period iv)\<rparr>) \<and>
    missed = card {j. base + j * period iv \<le> now} \<and> now < base + missed * period iv"
proof -
  let ?q = "(now - base) div period iv"
  have "{j. base + j * period iv \<le> now} = {..?q}"
    using assms(2,4) by (auto simp: less_eq_div_iff_mult_less_eq)
  moreover have "now - base < (?q + 1) * period iv" using assms(2) by (simp add: dividend_less_div_times)
  moreover have "try_u64 ?q = Some ?q" using assms(5) by (simp add: try_u64_def)
  ultimately show ?thesis
    using assms by (intro exI[of _ "?q + 1"]) (auto simp: interval_tick_def fold_add_const Let_def algebra_simps)
qed

theorem interval_catch_up_skips_a_tick_witness:
  "\<exists>missed. interval_tick 175 176 (set_missed_tick_behavior CatchUp (interval_at 100 30)) =
      Some (None, missed, (set_missed_tick_behavior CatchUp (interval_at 100 30))
        \<lparr>next_deadline := Some (100 + (missed + 1) * 30)\<rparr>) \<and>
    missed = card {j::nat. 100 + j * 30 \<le> (175::nat)} \<and> 175 < (100::nat) + missed * 30"
  using interval_catch_up_skips_a_tick[of "set_missed_tick_behavior CatchUp (interval_at 100 30)" 100 175 176]
  by (simp add: interval_at_def interval_new_def set_missed_tick_behavior_def)

end
