(* ===== verification/Executor.thy ===== *)
theory Executor
  imports Timer
begin

text \<open>
  The single-threaded executor: \<open>task.rs\<close> (tasks, their \<open>queued\<close> flag and the wake path),
  \<open>RuntimeInner\<close> (the three ready queues, \<open>drain_ready\<close>, \<open>spawn\<close>), the join state between
  \<open>SpawnFuture\<close> and \<open>JoinHandle\<close>, \<open>BlockOnNotify\<close> and one iteration of the \<open>block_on\<close> loop.
  Tasks and join states live in explicit stores (\<open>Arc\<close> and \<open>Rc\<close> cells, addressed by number).
  What is not the executor's own code is a parameter: the remote queue (\<open>crossbeam\<close>'s
  \<open>SegQueue\<close>), the timer wheel's slab, the driver the runtime was built with, and the futures of
  the application (\<open>poll_user\<close>), which reach the runtime through its public operations only.
\<close>

section \<open>The remote queue\<close>

record ('q, 'a) seg_ops =
  sq_push :: "'a \<Rightarrow> 'q \<Rightarrow> 'q"
  sq_pop :: "'q \<Rightarrow> ('a \<times> 'q) option"
  sq_is_empty :: "'q \<Rightarrow> bool"

text \<open>The documented behaviour of \<open>SegQueue\<close> under its linearised operations: a FIFO queue.\<close>

locale seg_queue =
  fixes sq :: "('q, 'a) seg_ops" and contents :: "'q \<Rightarrow> 'a list"
  assumes contents_push: "contents (sq_push sq x q) = contents q @ [x]"
    and pop_None: "sq_pop sq q = None \<longleftrightarrow> contents q = []"
    and pop_Some: "sq_pop sq q = Some (x, q') \<Longrightarrow> contents q = x # contents q'"
    and is_empty_contents: "sq_is_empty sq q \<longleftrightarrow> contents q = []"

definition list_seg_ops :: "('a list, 'a) seg_ops" where
  "list_seg_ops = \<lparr>sq_push = (\<lambda>x q. q @ [x]),
     sq_pop = (\<lambda>q. case q of [] \<Rightarrow> None | x # q' \<Rightarrow> Some (x, q')), sq_is_empty = (\<lambda>q. q = [])\<rparr>"

interpretation list_seg: seg_queue "list_seg_ops :: ('a list, 'a) seg_ops" "\<lambda>q. q"
  by unfold_locales (auto simp: list_seg_ops_def split: list.splits)

section \<open>State\<close>

type_synonym task_id = nat
type_synonym join_id = nat

datatype waker = RootWaker | TaskWaker task_id | ForeignWaker nat

record 'o join_state =
  js_output :: "'o option"
  js_waker :: "waker option"
  js_canceled :: bool

datatype 'u task_future = SpawnFuture 'u join_id | DetachedFuture 'u

record 'u task =
  t_future :: "'u task_future option"
  t_queued :: bool

record ('u, 'o, 'q, 's, 'd) exec =
  ready_queue :: "task_id list"
  next_task :: "task_id list"
  remote_queue :: 'q
  tasks :: "task_id \<Rightarrow> 'u task option"
  joins :: "join_id \<Rightarrow> 'o join_state option"
  next_task_id :: task_id
  next_join_id :: join_id
  waiting :: bool
  interrupt_pending :: bool
  interrupts :: nat
  root_ready :: bool
  batch_size :: usize
  rt_timer :: "'s timer option"
  rt_driver :: 'd
  alive :: bool

record ('q, 's, 'd) exec_cfg =
  c_seg :: "('q, task_id) seg_ops"
  c_wheel :: "('s, waker) wheel_ops"
  c_wait :: "duration option \<Rightarrow> 'd \<Rightarrow> waker list \<times> 'd"
  c_flush :: "'d \<Rightarrow> waker list \<times> 'd"
  c_should_flush :: "'d \<Rightarrow> bool"

definition NEXT_TASK_INLINE_CAP :: usize where
  "NEXT_TASK_INLINE_CAP = 8"

section \<open>Waking a task\<close>

text \<open>
  \<open>Waker::will_wake\<close> compares the data pointer and the vtable: equal wakers of the model wake
  the same task.
\<close>

definition update_waker_slot :: "waker option \<Rightarrow> waker \<Rightarrow> waker option" where
  "update_waker_slot slot w =
     (if \<not> (case slot of Some x \<Rightarrow> x = w | None \<Rightarrow> False) then Some w else slot)"

definition set_queued :: "task_id \<Rightarrow> bool \<Rightarrow> ('u, 'o, 'q, 's, 'd) exec \<Rightarrow> ('u, 'o, 'q, 's, 'd) exec" where
  "set_queued i b st = st\<lparr>tasks := (tasks st)(i := map_option (\<lambda>t. t\<lparr>t_queued := b\<rparr>) (tasks st i))\<rparr>"

text \<open>
  \<open>interrupt_if_waiting\<close> is the end of both wake paths: if the scheduler waits and no interrupt
  is pending, mark one and signal the driver.
\<close>

definition interrupt_if_waiting :: "('u, 'o, 'q, 's, 'd) exec \<Rightarrow> ('u, 'o, 'q, 's, 'd) exec" where
  "interrupt_if_waiting st =
     (if waiting st \<and> \<not> interrupt_pending st
      then st\<lparr>interrupt_pending := True, interrupts := interrupts st + 1\<rparr> else st)"

text \<open>
  \<open>enqueue_if_needed\<close>: \<open>same_thread\<close> compares the thread ids; the queues are weak references that
  upgrade as long as the runtime is alive. A number that names no task has no waker.
\<close>

definition enqueue_if_needed ::
  "('q, 's, 'd) exec_cfg \<Rightarrow> bool \<Rightarrow> task_id \<Rightarrow> ('u, 'o, 'q, 's, 'd) exec \<Rightarrow> ('u, 'o, 'q, 's, 'd) exec" where
  "enqueue_if_needed cfg same_thread i st =
     (case tasks st i of
        None \<Rightarrow> st
      | Some t \<Rightarrow>
          if same_thread then
            (if t_queued t then st
             else (let st1 = set_queued i True st in
                   if alive st1 \<and> length (next_task st1) < NEXT_TASK_INLINE_CAP
                   then st1\<lparr>next_task := next_task st1 @ [i]\<rparr>
                   else if alive st1 then st1\<lparr>ready_queue := ready_queue st1 @ [i]\<rparr>
                   else st1))
          else
            (let st1 = (if t_queued t then st
                        else (let st1 = set_queued i True st in
                              if alive st1
                              then st1\<lparr>remote_queue := sq_push (c_seg cfg) i (remote_queue st1)\<rparr>
                              else st1))
             in interrupt_if_waiting st1))"

text \<open>\<open>BlockOnNotify::wake_by_ref\<close>.\<close>

definition root_wake :: "bool \<Rightarrow> ('u, 'o, 'q, 's, 'd) exec \<Rightarrow> ('u, 'o, 'q, 's, 'd) exec" where
  "root_wake same_thread st =
     (let st1 = st\<lparr>root_ready := True\<rparr>
      in if same_thread then st1 else interrupt_if_waiting st1)"

fun wake ::
  "('q, 's, 'd) exec_cfg \<Rightarrow> bool \<Rightarrow> waker \<Rightarrow> ('u, 'o, 'q, 's, 'd) exec \<Rightarrow> ('u, 'o, 'q, 's, 'd) exec" where
  "wake cfg same_thread RootWaker st = root_wake same_thread st"
| "wake cfg same_thread (TaskWaker i) st = enqueue_if_needed cfg same_thread i st"
| "wake cfg same_thread (ForeignWaker n) st = st"

definition wake_all ::
  "('q, 's, 'd) exec_cfg \<Rightarrow> waker list \<Rightarrow> ('u, 'o, 'q, 's, 'd) exec \<Rightarrow> ('u, 'o, 'q, 's, 'd) exec" where
  "wake_all cfg ws st = fold (wake cfg True) ws st"

section \<open>Spawning, joining, draining\<close>

definition enqueue :: "task_id \<Rightarrow> ('u, 'o, 'q, 's, 'd) exec \<Rightarrow> ('u, 'o, 'q, 's, 'd) exec" where
  "enqueue i st = st\<lparr>ready_queue := ready_queue st @ [i]\<rparr>"

definition spawn ::
  "'u \<Rightarrow> ('u, 'o, 'q, 's, 'd) exec \<Rightarrow> join_id \<times> ('u, 'o, 'q, 's, 'd) exec" where
  "spawn u st =
     (let j = next_join_id st; i = next_task_id st;
          st1 = st\<lparr>joins := (joins st)(j \<mapsto> \<lparr>js_output = None, js_waker = None, js_canceled = False\<rparr>),
                   next_join_id := j + 1,
                   tasks := (tasks st)(i \<mapsto> \<lparr>t_future = Some (SpawnFuture u j), t_queued = True\<rparr>),
                   next_task_id := i + 1\<rparr>
      in (j, enqueue i st1))"

definition spawn_detached ::
  "'u \<Rightarrow> ('u, 'o, 'q, 's, 'd) exec \<Rightarrow> ('u, 'o, 'q, 's, 'd) exec" where
  "spawn_detached u st =
     (let i = next_task_id st;
          st1 = st\<lparr>tasks := (tasks st)(i \<mapsto> \<lparr>t_future = Some (DetachedFuture u), t_queued = True\<rparr>),
                   next_task_id := i + 1\<rparr>
      in enqueue i st1)"

definition join_cancel :: "join_id \<Rightarrow> ('u, 'o, 'q, 's, 'd) exec \<Rightarrow> ('u, 'o, 'q, 's, 'd) exec" where
  "join_cancel j st = st\<lparr>joins := (joins st)(j := map_option (\<lambda>s. s\<lparr>js_canceled := True\<rparr>) (joins st j))\<rparr>"

text \<open>\<open>JoinHandle::poll\<close>; a number that names no join state is no handle.\<close>

definition join_poll ::
  "join_id \<Rightarrow> waker \<Rightarrow> ('u, 'o, 'q, 's, 'd) exec \<Rightarrow> 'o poll \<times> ('u, 'o, 'q, 's, 'd) exec" where
  "join_poll j w st =
     (case joins st j of
        None \<Rightarrow> (Pending, st)
      | Some s \<Rightarrow>
          (case js_output s of
             Some out \<Rightarrow> (Ready out, st\<lparr>joins := (joins st)(j \<mapsto> s\<lparr>js_output := None\<rparr>)\<rparr>)
           | None \<Rightarrow> (Pending,
               st\<lparr>joins := (joins st)(j \<mapsto> s\<lparr>js_waker := update_waker_slot (js_waker s) w\<rparr>)\<rparr>)))"

text \<open>
  The three loops of \<open>drain_ready\<close> over the inline queue, the remote queue and the main queue:
  each moves tasks to the batch and clears their \<open>queued\<close> flag while there is budget.
\<close>

fun drain_next ::
  "nat \<Rightarrow> task_id list \<Rightarrow> ('u, 'o, 'q, 's, 'd) exec \<Rightarrow> nat \<times> task_id list \<times> ('u, 'o, 'q, 's, 'd) exec" where
  "drain_next 0 batch st = (0, batch, st)"
| "drain_next (Suc budget) batch st =
     (case next_task st of
        [] \<Rightarrow> (Suc budget, batch, st)
      | i # rest \<Rightarrow> drain_next budget (batch @ [i]) (set_queued i False (st\<lparr>next_task := rest\<rparr>)))"

fun drain_remote ::
  "('q, 's, 'd) exec_cfg \<Rightarrow> nat \<Rightarrow> task_id list \<Rightarrow> ('u, 'o, 'q, 's, 'd) exec
   \<Rightarrow> nat \<times> task_id list \<times> ('u, 'o, 'q, 's, 'd) exec" where
  "drain_remote cfg 0 batch st = (0, batch, st)"
| "drain_remote cfg (Suc budget) batch st =
     (case sq_pop (c_seg cfg) (remote_queue st) of
        None \<Rightarrow> (Suc budget, batch, st)
      | Some (i, q) \<Rightarrow> drain_remote cfg budget (batch @ [i]) (set_queued i False (st\<lparr>remote_queue := q\<rparr>)))"

fun drain_local ::
  "nat \<Rightarrow> task_id list \<Rightarrow> ('u, 'o, 'q, 's, 'd) exec \<Rightarrow> nat \<times> task_id list \<times> ('u, 'o, 'q, 's, 'd) exec" where
  "drain_local 0 batch st = (0, batch, st)"
| "drain_local (Suc budget) batch st =
     (case ready_queue st of
        [] \<Rightarrow> (Suc budget, batch, st)
      | i # rest \<Rightarrow> drain_local budget (batch @ [i]) (set_queued i False (st\<lparr>ready_queue := rest\<rparr>)))"

definition drain_ready ::
  "('q, 's, 'd) exec_cfg \<Rightarrow> nat \<Rightarrow> ('u, 'o, 'q, 's, 'd) exec \<Rightarrow> task_id list \<times> ('u, 'o, 'q, 's, 'd) exec" where
  "drain_ready cfg budget st =
     (let (b1, batch1, st1) = drain_next budget [] st;
          (b2, batch2, st2) = drain_remote cfg b1 batch1 st1;
          (b3, batch3, st3) = drain_local b2 batch2 st2
      in (batch3, st3))"

definition stop_waiting :: "('u, 'o, 'q, 's, 'd) exec \<Rightarrow> ('u, 'o, 'q, 's, 'd) exec" where
  "stop_waiting st = st\<lparr>waiting := False, interrupt_pending := False\<rparr>"

definition should_skip_wait :: "('q, 's, 'd) exec_cfg \<Rightarrow> ('u, 'o, 'q, 's, 'd) exec \<Rightarrow> bool" where
  "should_skip_wait cfg st \<longleftrightarrow>
     next_task st \<noteq> [] \<or> \<not> sq_is_empty (c_seg cfg) (remote_queue st) \<or> ready_queue st \<noteq> []"

section \<open>Polling\<close>

type_synonym ('u, 'o, 'q, 's, 'd) poll_user =
  "'u \<Rightarrow> waker \<Rightarrow> ('u, 'o, 'q, 's, 'd) exec \<Rightarrow> 'u \<times> 'o poll \<times> ('u, 'o, 'q, 's, 'd) exec"

text \<open>\<open>SpawnFuture::poll\<close> and \<open>DetachedFuture::poll\<close>: the new future, readiness and the state.\<close>

fun poll_task_future ::
  "('q, 's, 'd) exec_cfg \<Rightarrow> ('u, 'o, 'q, 's, 'd) poll_user \<Rightarrow> 'u task_future \<Rightarrow> waker
   \<Rightarrow> ('u, 'o, 'q, 's, 'd) exec \<Rightarrow> 'u task_future \<times> unit poll \<times> ('u, 'o, 'q, 's, 'd) exec" where
  "poll_task_future cfg pu (SpawnFuture u j) w st =
     (if \<exists>s. joins st j = Some s \<and> js_canceled s then (SpawnFuture u j, Ready (), st)
      else case pu u w st of
             (u', Pending, st1) \<Rightarrow> (SpawnFuture u' j, Pending, st1)
           | (u', Ready out, st1) \<Rightarrow>
               (case joins st1 j of
                  None \<Rightarrow> (SpawnFuture u' j, Ready (), st1)
                | Some s \<Rightarrow>
                    (let st2 = st1\<lparr>joins := (joins st1)(j \<mapsto> s\<lparr>js_output := Some out, js_waker := None\<rparr>)\<rparr>
                     in (SpawnFuture u' j, Ready (),
                         case js_waker s of None \<Rightarrow> st2 | Some jw \<Rightarrow> wake cfg True jw st2))))"
| "poll_task_future cfg pu (DetachedFuture u) w st =
     (case pu u w st of
        (u', Ready out, st1) \<Rightarrow> (DetachedFuture u', Ready (), st1)
      | (u', Pending, st1) \<Rightarrow> (DetachedFuture u', Pending, st1))"

definition set_future ::
  "task_id \<Rightarrow> 'u task_future option \<Rightarrow> ('u, 'o, 'q, 's, 'd) exec \<Rightarrow> ('u, 'o, 'q, 's, 'd) exec" where
  "set_future i f st = st\<lparr>tasks := (tasks st)(i := map_option (\<lambda>t. t\<lparr>t_future := f\<rparr>) (tasks st i))\<rparr>"

text \<open>The body of the batch loop: take the future out, poll it, put it back if pending.\<close>

definition run_task ::
  "('q, 's, 'd) exec_cfg \<Rightarrow> ('u, 'o, 'q, 's, 'd) poll_user \<Rightarrow> task_id
   \<Rightarrow> ('u, 'o, 'q, 's, 'd) exec \<Rightarrow> ('u, 'o, 'q, 's, 'd) exec" where
  "run_task cfg pu i st =
     (case tasks st i of
        None \<Rightarrow> st
      | Some t \<Rightarrow>
          (case t_future t of
             None \<Rightarrow> st
           | Some f \<Rightarrow>
               (case poll_task_future cfg pu f (TaskWaker i) (set_future i None st) of
                  (f', Pending, st1) \<Rightarrow> set_future i (Some f') st1
                | (f', Ready _, st1) \<Rightarrow> st1)))"

text \<open>A spin of the runtime's timer wakes the tasks of the fired timers; \<open>None\<close> is a panic.\<close>

definition spin_timer ::
  "('q, 's, 'd) exec_cfg \<Rightarrow> instant \<Rightarrow> ('u, 'o, 'q, 's, 'd) exec
   \<Rightarrow> ((duration option \<times> bool) \<times> ('u, 'o, 'q, 's, 'd) exec) option" where
  "spin_timer cfg now st =
     (case rt_timer st of
        None \<Rightarrow> Some ((None, False), st)
      | Some tm \<Rightarrow>
          (case spin_and_get_deadline (c_wheel cfg) now tm of
             None \<Rightarrow> None
           | Some (res, woken, tm') \<Rightarrow> Some (res, wake_all cfg woken (st\<lparr>rt_timer := Some tm'\<rparr>))))"

text \<open>
  One iteration of the loop of \<open>block_on\<close>, with the clock readings of its two spins: the root's
  output if it completed, the timeout of the driver wait if the iteration waited, the root
  future and the state. \<open>None\<close> is a panic.
\<close>

datatype ('u, 'o) iteration = Finished 'o | Continued 'u | Waited "duration option" 'u

definition block_on_iter ::
  "('q, 's, 'd) exec_cfg \<Rightarrow> ('u, 'o, 'q, 's, 'd) poll_user \<Rightarrow> instant \<Rightarrow> instant \<Rightarrow> 'u
   \<Rightarrow> ('u, 'o, 'q, 's, 'd) exec \<Rightarrow> (('u, 'o) iteration \<times> ('u, 'o, 'q, 's, 'd) exec) option" where
  "block_on_iter cfg pu now1 now2 root st =
     (let (root1, r, st1) = (if root_ready st then pu root RootWaker (st\<lparr>root_ready := False\<rparr>)
                             else (root, Pending, st)) in
      case r of
        Ready out \<Rightarrow> Some (Finished out, st1)
      | Pending \<Rightarrow>
          (case spin_timer cfg now1 st1 of
             None \<Rightarrow> None
           | Some (_, st2) \<Rightarrow>
               (let (batch, st3) = drain_ready cfg (batch_size st2) st2 in
                if batch = [] then
                  (if root_ready st3 then Some (Continued root1, st3)
                   else
                     (let st4 = st3\<lparr>interrupt_pending := False, waiting := True\<rparr> in
                      if root_ready st4 \<or> should_skip_wait cfg st4
                      then Some (Continued root1, stop_waiting st4)
                      else
                        (case spin_timer cfg now2 st4 of
                           None \<Rightarrow> None
                         | Some ((deadline, woken_up), st5) \<Rightarrow>
                             if woken_up then Some (Continued root1, stop_waiting st5)
                             else
                               (let (ws, d) = c_wait cfg deadline (rt_driver st5)
                                in Some (Waited deadline root1,
                                     stop_waiting (wake_all cfg ws (st5\<lparr>rt_driver := d\<rparr>)))))))
                else
                  (let st4 = fold (run_task cfg pu) batch st3 in
                   if c_should_flush cfg (rt_driver st4) \<and> should_skip_wait cfg st4
                   then (let (ws, d) = c_flush cfg (rt_driver st4)
                         in Some (Continued root1, wake_all cfg ws (st4\<lparr>rt_driver := d\<rparr>)))
                   else Some (Continued root1, st4)))))"

end
