(* ===== verification/Executor_Invariant.thy ===== *)
theory Executor_Invariant
  imports Executor
begin

text \<open>
  What the queues of the executor promise: a task is in exactly one of the three queues, and at
  most once, exactly when its \<open>queued\<close> flag is set. The invariant is kept by every public
  operation a future can reach the runtime through (\<open>api_step\<close>) and by every iteration of
  \<open>block_on\<close>; draining is a \<open>take\<close> on the concatenation of the queues.
\<close>

section \<open>What a future can do to the runtime\<close>

inductive api_step ::
  "('q, 's, 'd) exec_cfg \<Rightarrow> ('u, 'o, 'q, 's, 'd) exec \<Rightarrow> ('u, 'o, 'q, 's, 'd) exec \<Rightarrow> bool"
  for cfg where
  api_wake: "api_step cfg st (wake cfg same_thread w st)"
| api_spawn: "api_step cfg st (snd (spawn u st))"
| api_spawn_detached: "api_step cfg st (spawn_detached u st)"
| api_join_poll: "api_step cfg st (snd (join_poll j w st))"
| api_join_cancel: "api_step cfg st (join_cancel j st)"
| api_timer: "api_step cfg st (st\<lparr>rt_timer := tm\<rparr>)"
| api_driver: "api_step cfg st (st\<lparr>rt_driver := d\<rparr>)"

abbreviation api_steps ::
  "('q, 's, 'd) exec_cfg \<Rightarrow> ('u, 'o, 'q, 's, 'd) exec \<Rightarrow> ('u, 'o, 'q, 's, 'd) exec \<Rightarrow> bool" where
  "api_steps cfg \<equiv> (api_step cfg)\<^sup>*\<^sup>*"

text \<open>
  The assumption on the application: polling one of its futures is a sequence of public
  operations (wakes of other threads during the poll are among them).
\<close>

definition uses_api :: "('q, 's, 'd) exec_cfg \<Rightarrow> ('u, 'o, 'q, 's, 'd) poll_user \<Rightarrow> bool" where
  "uses_api cfg pu \<longleftrightarrow> (\<forall>u w st. api_steps cfg st (snd (snd (pu u w st))))"

text \<open>A fresh runtime, \<open>Runtime::with_options\<close>: empty queues and, if enabled, a new timer.\<close>

definition with_options ::
  "('s, waker) wheel_ops \<Rightarrow> 'q \<Rightarrow> instant \<Rightarrow> 'd \<Rightarrow> bool \<Rightarrow> usize \<Rightarrow> ('u, 'o, 'q, 's, 'd) exec" where
  "with_options wops empty_seg now driver enable_timer bs =
     \<lparr>ready_queue = [], next_task = [], remote_queue = empty_seg, tasks = Map.empty,
      joins = Map.empty, next_task_id = 0, next_join_id = 0, waiting = False,
      interrupt_pending = False, interrupts = 0, root_ready = True, batch_size = bs,
      rt_timer = (if enable_timer then Some (timer_new wops now) else None),
      rt_driver = driver, alive = True\<rparr>"

section \<open>The invariant\<close>

definition is_queued :: "('u, 'o, 'q, 's, 'd) exec \<Rightarrow> task_id \<Rightarrow> bool" where
  "is_queued st i \<longleftrightarrow> (case tasks st i of None \<Rightarrow> False | Some t \<Rightarrow> t_queued t)"

definition queue_of :: "('q \<Rightarrow> task_id list) \<Rightarrow> ('u, 'o, 'q, 's, 'd) exec \<Rightarrow> task_id list" where
  "queue_of contents st = next_task st @ contents (remote_queue st) @ ready_queue st"

definition exec_inv :: "('q \<Rightarrow> task_id list) \<Rightarrow> ('u, 'o, 'q, 's, 'd) exec \<Rightarrow> bool" where
  "exec_inv contents st \<longleftrightarrow>
     alive st \<and> distinct (queue_of contents st) \<and>
     (\<forall>i. i \<in> set (queue_of contents st) \<longleftrightarrow> is_queued st i) \<and>
     length (next_task st) \<le> NEXT_TASK_INLINE_CAP \<and>
     (\<forall>i. next_task_id st \<le> i \<longrightarrow> tasks st i = None) \<and>
     (\<forall>j. next_join_id st \<le> j \<longrightarrow> joins st j = None)"

lemmas inv_unfold = exec_inv_def queue_of_def is_queued_def

lemma set_queued_simps [exec_simps, simp]:
  "ready_queue (set_queued i b st) = ready_queue st"
  "next_task (set_queued i b st) = next_task st"
  "remote_queue (set_queued i b st) = remote_queue st"
  "joins (set_queued i b st) = joins st"
  "next_task_id (set_queued i b st) = next_task_id st"
  "next_join_id (set_queued i b st) = next_join_id st"
  "alive (set_queued i b st) = alive st"
  "root_ready (set_queued i b st) = root_ready st"
  "batch_size (set_queued i b st) = batch_size st"
  "waiting (set_queued i b st) = waiting st"
  "rt_timer (set_queued i b st) = rt_timer st"
  "rt_driver (set_queued i b st) = rt_driver st"
  "interrupts (set_queued i b st) = interrupts st"
  "interrupt_pending (set_queued i b st) = interrupt_pending st"
  by (simp_all add: set_queued_def)

lemma tasks_set_queued [simp]:
  "tasks (set_queued i b st) = (tasks st)(i := map_option (\<lambda>t. t\<lparr>t_queued := b\<rparr>) (tasks st i))"
  by (simp add: set_queued_def)

lemma is_queued_set_queued:
  "is_queued (set_queued i b st) k \<longleftrightarrow> (if k = i then b \<and> tasks st i \<noteq> None else is_queued st k)"
  by (auto simp: is_queued_def split: option.splits)

lemma is_queued_upd [simp]:
  "is_queued (st\<lparr>next_task := a\<rparr>) k = is_queued st k"
  "is_queued (st\<lparr>ready_queue := b\<rparr>) k = is_queued st k"
  "is_queued (st\<lparr>remote_queue := c\<rparr>) k = is_queued st k"
  by (simp_all add: is_queued_def)

lemma interrupt_simps [exec_simps, simp]:
  "ready_queue (interrupt_if_waiting st) = ready_queue st"
  "next_task (interrupt_if_waiting st) = next_task st"
  "remote_queue (interrupt_if_waiting st) = remote_queue st"
  "tasks (interrupt_if_waiting st) = tasks st"
  "joins (interrupt_if_waiting st) = joins st"
  "next_task_id (interrupt_if_waiting st) = next_task_id st"
  "next_join_id (interrupt_if_waiting st) = next_join_id st"
  "alive (interrupt_if_waiting st) = alive st"
  "root_ready (interrupt_if_waiting st) = root_ready st"
  "batch_size (interrupt_if_waiting st) = batch_size st"
  "waiting (interrupt_if_waiting st) = waiting st"
  "rt_timer (interrupt_if_waiting st) = rt_timer st"
  "rt_driver (interrupt_if_waiting st) = rt_driver st"
  by (simp_all add: interrupt_if_waiting_def)

lemma enqueue_frame [exec_simps, simp]:
  "joins (enqueue_if_needed cfg same i st) = joins st"
  "next_task_id (enqueue_if_needed cfg same i st) = next_task_id st"
  "next_join_id (enqueue_if_needed cfg same i st) = next_join_id st"
  "alive (enqueue_if_needed cfg same i st) = alive st"
  "root_ready (enqueue_if_needed cfg same i st) = root_ready st"
  "batch_size (enqueue_if_needed cfg same i st) = batch_size st"
  "waiting (enqueue_if_needed cfg same i st) = waiting st"
  "rt_timer (enqueue_if_needed cfg same i st) = rt_timer st"
  "rt_driver (enqueue_if_needed cfg same i st) = rt_driver st"
  "(tasks (enqueue_if_needed cfg same i st) k = None) = (tasks st k = None)"
  by (simp_all add: enqueue_if_needed_def Let_def split: option.split)

lemma enqueue_cap:
  "length (next_task st) \<le> NEXT_TASK_INLINE_CAP \<Longrightarrow>
   length (next_task (enqueue_if_needed cfg same i st)) \<le> NEXT_TASK_INLINE_CAP"
  by (simp add: enqueue_if_needed_def Let_def split: option.split)

text \<open>The invariant only reads the queues, the tasks, the joins and the counters.\<close>

lemma exec_inv_cong:
  assumes "next_task st' = next_task st" and "remote_queue st' = remote_queue st"
    and "ready_queue st' = ready_queue st" and "alive st' = alive st"
    and "next_task_id st' = next_task_id st" and "next_join_id st' = next_join_id st"
    and "\<And>i. (tasks st' i = None) = (tasks st i = None)" and "\<And>i. is_queued st' i = is_queued st i"
    and "\<And>j. (joins st' j = None) = (joins st j = None)"
  shows "exec_inv c st' \<longleftrightarrow> exec_inv c st"
  using assms by (simp add: exec_inv_def queue_of_def)

lemma exec_inv_frame [simp]:
  "exec_inv c (st\<lparr>rt_timer := tm\<rparr>) = exec_inv c st"
  "exec_inv c (st\<lparr>rt_driver := d\<rparr>) = exec_inv c st"
  "exec_inv c (st\<lparr>root_ready := b\<rparr>) = exec_inv c st"
  "exec_inv c (st\<lparr>waiting := b\<rparr>) = exec_inv c st"
  "exec_inv c (st\<lparr>interrupt_pending := b\<rparr>) = exec_inv c st"
  "exec_inv c (st\<lparr>interrupts := k\<rparr>) = exec_inv c st"
  "exec_inv c (interrupt_if_waiting st) = exec_inv c st"
  "exec_inv c (stop_waiting st) = exec_inv c st"
  by (rule exec_inv_cong; simp add: is_queued_def stop_waiting_def)+

lemma exec_inv_joins:
  assumes "exec_inv c st" and "\<And>k. next_join_id st \<le> k \<Longrightarrow> f k = None"
  shows "exec_inv c (st\<lparr>joins := f\<rparr>)"
  using assms by (simp add: inv_unfold)

lemma exec_inv_set_future: "exec_inv c (set_future i f st) = exec_inv c st"
  by (rule exec_inv_cong) (auto simp: set_future_def is_queued_def split: option.splits)

lemma exec_inv_bounds:
  assumes "exec_inv c st"
  shows "next_task_id st \<le> i \<Longrightarrow> tasks st i = None" and "next_join_id st \<le> j \<Longrightarrow> joins st j = None"
  using assms by (auto simp: exec_inv_def)

section \<open>Public operations keep the invariant\<close>

lemma join_cancel_inv: "exec_inv c st \<Longrightarrow> exec_inv c (join_cancel j st)"
  unfolding join_cancel_def by (rule exec_inv_joins) (auto simp: exec_inv_def)

lemma join_poll_inv: "exec_inv c st \<Longrightarrow> exec_inv c (snd (join_poll j w st))"
  unfolding join_poll_def
  by (auto intro!: exec_inv_joins split: option.splits) (auto simp: exec_inv_def)

text \<open>Adding a fresh or previously dequeued task at one place of the three queues.\<close>

lemma exec_inv_add:
  assumes inv: "exec_inv c st" and new: "i \<notin> set (queue_of c st)"
    and q: "set (queue_of c st') = insert i (set (queue_of c st))"
    and len: "length (queue_of c st') = Suc (length (queue_of c st))"
    and cap: "length (next_task st') \<le> NEXT_TASK_INLINE_CAP"
    and fl: "\<And>k. is_queued st' k \<longleftrightarrow> k = i \<or> is_queued st k"
    and rest: "alive st'" "\<And>k. next_task_id st' \<le> k \<Longrightarrow> tasks st' k = None"
      "\<And>k. next_join_id st' \<le> k \<Longrightarrow> joins st' k = None"
  shows "exec_inv c st'"
proof -
  have d: "distinct (queue_of c st)" and s: "\<And>k. k \<in> set (queue_of c st) \<longleftrightarrow> is_queued st k"
    using inv by (simp_all add: exec_inv_def)
  have "card (set (queue_of c st')) = length (queue_of c st')"
    using d new by (simp add: q len distinct_card)
  then have "distinct (queue_of c st')" by (rule card_distinct)
  then show ?thesis using cap fl rest q s by (auto simp: exec_inv_def)
qed

lemma spawn_inv: "exec_inv c st \<Longrightarrow> exec_inv c (snd (spawn u st))"
proof -
  assume inv: "exec_inv c st"
  have "next_task_id st \<notin> set (queue_of c st)" using inv by (auto simp: exec_inv_def is_queued_def)
  then show ?thesis using inv
    by (intro exec_inv_add[OF inv, of "next_task_id st"])
      (auto simp: spawn_def enqueue_def Let_def inv_unfold)
qed

lemma spawn_detached_inv: "exec_inv c st \<Longrightarrow> exec_inv c (spawn_detached u st)"
proof -
  assume inv: "exec_inv c st"
  have "next_task_id st \<notin> set (queue_of c st)" using inv by (auto simp: exec_inv_def is_queued_def)
  then show ?thesis using inv
    by (intro exec_inv_add[OF inv, of "next_task_id st"])
      (auto simp: spawn_detached_def enqueue_def Let_def inv_unfold)
qed

locale exec_queues = seg_queue "c_seg cfg" contents
  for cfg :: "('q, 's, 'd) exec_cfg" and contents :: "'q \<Rightarrow> task_id list"
begin

text \<open>A wake of a task that is not queued adds it at the end of one queue.\<close>

lemma enqueue_idle:
  assumes "alive st" and "tasks st i = Some t" and "\<not> t_queued t"
  shows "\<exists>a b. queue_of contents st = a @ b \<and>
      queue_of contents (enqueue_if_needed cfg same i st) = a @ i # b"
    and "is_queued (enqueue_if_needed cfg same i st) k \<longleftrightarrow> k = i \<or> is_queued st k"
proof -
  let ?n = "next_task st" and ?r = "contents (remote_queue st)" and ?l = "ready_queue st"
  let ?q = "queue_of contents (enqueue_if_needed cfg same i st)"
  have "?q = (if same \<and> length ?n < NEXT_TASK_INLINE_CAP then ?n @ i # (?r @ ?l)
     else if same then (?n @ ?r @ ?l) @ i # [] else (?n @ ?r) @ i # ?l)"
    using assms by (simp add: enqueue_if_needed_def Let_def queue_of_def contents_push)
  moreover have "queue_of contents st = ?n @ (?r @ ?l)" "queue_of contents st = (?n @ ?r @ ?l) @ []"
    "queue_of contents st = (?n @ ?r) @ ?l" by (simp_all add: queue_of_def)
  ultimately show "\<exists>a b. queue_of contents st = a @ b \<and> ?q = a @ i # b" by metis
  show "is_queued (enqueue_if_needed cfg same i st) k \<longleftrightarrow> k = i \<or> is_queued st k"
    using assms by (auto simp: enqueue_if_needed_def Let_def is_queued_def split: option.splits)
qed

lemma enqueue_inv:
  assumes inv: "exec_inv contents st"
  shows "exec_inv contents (enqueue_if_needed cfg same i st)"
proof (cases "\<exists>t. tasks st i = Some t \<and> \<not> t_queued t")
  case False
  then show ?thesis using inv
    by (auto simp: enqueue_if_needed_def Let_def split: option.splits)
next
  case True
  then obtain t where t: "tasks st i = Some t" "\<not> t_queued t" by blast
  have al: "alive st" using inv by (simp add: exec_inv_def)
  obtain a b where ab: "queue_of contents st = a @ b"
      "queue_of contents (enqueue_if_needed cfg same i st) = a @ i # b"
    using enqueue_idle(1)[OF al t] by blast
  have "i \<notin> set (queue_of contents st)" using inv t by (simp add: exec_inv_def is_queued_def)
  then show ?thesis using inv t al
    by (intro exec_inv_add[OF inv, of i])
      (simp_all add: ab enqueue_idle(2)[OF al t] enqueue_cap exec_inv_bounds,
       simp add: exec_inv_def enqueue_cap)
qed

lemma wake_inv: "exec_inv contents st \<Longrightarrow> exec_inv contents (wake cfg same w st)"
  by (cases w) (simp_all add: enqueue_inv root_wake_def Let_def)

lemma wake_all_inv: "exec_inv contents st \<Longrightarrow> exec_inv contents (wake_all cfg ws st)"
  unfolding wake_all_def by (induction ws arbitrary: st) (simp_all add: wake_inv)

lemma api_step_inv: "api_step cfg st st' \<Longrightarrow> exec_inv contents st \<Longrightarrow> exec_inv contents st'"
  by (induction rule: api_step.induct)
    (simp_all add: wake_inv spawn_inv spawn_detached_inv join_poll_inv join_cancel_inv)

lemma api_steps_inv: "api_steps cfg st st' \<Longrightarrow> exec_inv contents st \<Longrightarrow> exec_inv contents st'"
  by (induction rule: rtranclp_induct) (auto dest: api_step_inv)

end

section \<open>Draining\<close>

text \<open>
  Each draining loop moves a prefix of its queue to the batch; \<open>clear_queued\<close> is what happens
  to the flags.
\<close>

definition clear_queued ::
  "task_id list \<Rightarrow> ('u, 'o, 'q, 's, 'd) exec \<Rightarrow> ('u, 'o, 'q, 's, 'd) exec" where
  "clear_queued is st = fold (\<lambda>i. set_queued i False) is st"

lemma clear_queued_Nil [simp]: "clear_queued [] st = st"
  by (simp add: clear_queued_def)

lemma clear_queued_Cons: "clear_queued (i # is) st = clear_queued is (set_queued i False st)"
  by (simp add: clear_queued_def)

lemma clear_queued_append: "clear_queued (xs @ ys) st = clear_queued ys (clear_queued xs st)"
  by (simp add: clear_queued_def)

lemma set_queued_commute [simp]:
  "set_queued i b (st\<lparr>next_task := x\<rparr>) = (set_queued i b st)\<lparr>next_task := x\<rparr>"
  "set_queued i b (st\<lparr>remote_queue := y\<rparr>) = (set_queued i b st)\<lparr>remote_queue := y\<rparr>"
  "set_queued i b (st\<lparr>ready_queue := x\<rparr>) = (set_queued i b st)\<lparr>ready_queue := x\<rparr>"
  by (simp_all add: set_queued_def)

lemma clear_queued_simps [exec_simps, simp]:
  "ready_queue (clear_queued is st) = ready_queue st"
  "next_task (clear_queued is st) = next_task st"
  "remote_queue (clear_queued is st) = remote_queue st"
  "joins (clear_queued is st) = joins st"
  "next_task_id (clear_queued is st) = next_task_id st"
  "next_join_id (clear_queued is st) = next_join_id st"
  "alive (clear_queued is st) = alive st"
  "root_ready (clear_queued is st) = root_ready st"
  "batch_size (clear_queued is st) = batch_size st"
  "(tasks (clear_queued is st) k = None) = (tasks st k = None)"
  by (induction "is" arbitrary: st) (simp_all add: clear_queued_Cons)

lemma is_queued_clear: "is_queued (clear_queued is st) k \<longleftrightarrow> k \<notin> set is \<and> is_queued st k"
  by (induction "is" arbitrary: st) (auto simp: clear_queued_Cons is_queued_set_queued)

lemma drain_next_eq:
  "drain_next n batch st = (n - length (next_task st), batch @ take n (next_task st),
     clear_queued (take n (next_task st)) (st\<lparr>next_task := drop n (next_task st)\<rparr>))"
proof (induction n batch st rule: drain_next.induct)
  case (2 n batch st)
  then show ?case by (cases "next_task st") (simp_all add: clear_queued_Cons)
qed simp

lemma drain_local_eq:
  "drain_local n batch st = (n - length (ready_queue st), batch @ take n (ready_queue st),
     clear_queued (take n (ready_queue st)) (st\<lparr>ready_queue := drop n (ready_queue st)\<rparr>))"
proof (induction n batch st rule: drain_local.induct)
  case (2 n batch st)
  then show ?case by (cases "ready_queue st") (simp_all add: clear_queued_Cons)
qed simp

context exec_queues
begin

lemma drain_remote_eq:
  "\<exists>q. drain_remote cfg n batch st = (n - length (contents (remote_queue st)),
       batch @ take n (contents (remote_queue st)),
       clear_queued (take n (contents (remote_queue st))) (st\<lparr>remote_queue := q\<rparr>)) \<and>
     contents q = drop n (contents (remote_queue st))"
proof (induction n arbitrary: batch st)
  case 0
  then show ?case by (intro exI[of _ "remote_queue st"]) simp
next
  case (Suc n)
  show ?case
  proof (cases "sq_pop (c_seg cfg) (remote_queue st)")
    case None
    then have "contents (remote_queue st) = []" by (simp add: pop_None)
    then show ?thesis using None by (intro exI[of _ "remote_queue st"]) simp
  next
    case (Some p)
    obtain i q where p: "p = (i, q)" by (cases p)
    have c: "contents (remote_queue st) = i # contents q" using Some by (intro pop_Some) (simp add: p)
    show ?thesis using Suc[of "batch @ [i]" "set_queued i False (st\<lparr>remote_queue := q\<rparr>)"] Some
      by (simp add: p c clear_queued_Cons)
  qed
qed

lemma drain_ready_eq:
  "\<exists>st'. drain_ready cfg n st = (take n (queue_of contents st), clear_queued (take n (queue_of contents st)) st') \<and>
     (\<exists>q. st' = st\<lparr>next_task := drop n (next_task st), remote_queue := q,
           ready_queue := drop (n - length (next_task st) - length (contents (remote_queue st))) (ready_queue st)\<rparr> \<and>
         contents q = drop (n - length (next_task st)) (contents (remote_queue st)))"
proof -
  let ?st1 = "clear_queued (take n (next_task st)) (st\<lparr>next_task := drop n (next_task st)\<rparr>)"
  obtain q where q: "drain_remote cfg (n - length (next_task st)) (take n (next_task st)) ?st1 =
      (n - length (next_task st) - length (contents (remote_queue st)),
       take n (next_task st) @ take (n - length (next_task st)) (contents (remote_queue st)),
       clear_queued (take (n - length (next_task st)) (contents (remote_queue st))) (?st1\<lparr>remote_queue := q\<rparr>))"
    and c: "contents q = drop (n - length (next_task st)) (contents (remote_queue st))"
    using drain_remote_eq[of "n - length (next_task st)" "take n (next_task st)" ?st1] by auto
  have comm: "clear_queued xs (s\<lparr>remote_queue := y\<rparr>) = (clear_queued xs s)\<lparr>remote_queue := y\<rparr>"
    "clear_queued xs (s\<lparr>ready_queue := z\<rparr>) = (clear_queued xs s)\<lparr>ready_queue := z\<rparr>" for xs s y z
    by (induction xs arbitrary: s) (simp_all add: clear_queued_Cons)
  show ?thesis using c
    by (intro exI conjI[rotated]) (auto simp: drain_ready_def drain_next_eq q drain_local_eq
      queue_of_def clear_queued_append comm)
qed

lemma drain_ready_queue:
  assumes "drain_ready cfg n st = (batch, st')"
  shows "batch = take n (queue_of contents st)" and "queue_of contents st' = drop n (queue_of contents st)"
    and "is_queued st' k \<longleftrightarrow> k \<notin> set batch \<and> is_queued st k"
    and "(tasks st' k = None) = (tasks st k = None)" and "root_ready st' = root_ready st"
    and "length (next_task st') \<le> length (next_task st)"
    and "alive st' = alive st" and "next_task_id st' = next_task_id st"
    and "joins st' = joins st" and "next_join_id st' = next_join_id st" and "batch_size st' = batch_size st"
proof -
  obtain s q where d: "drain_ready cfg n st =
        (take n (queue_of contents st), clear_queued (take n (queue_of contents st)) s)"
    and s: "s = st\<lparr>next_task := drop n (next_task st), remote_queue := q,
           ready_queue := drop (n - length (next_task st) - length (contents (remote_queue st))) (ready_queue st)\<rparr>"
    and q: "contents q = drop (n - length (next_task st)) (contents (remote_queue st))"
    using drain_ready_eq[of n st] by blast
  have b: "batch = take n (queue_of contents st)" using assms d by simp
  have st': "st' = clear_queued batch s" using assms d unfolding b by simp
  show "batch = take n (queue_of contents st)" by (rule b)
  show "(tasks st' k = None) = (tasks st k = None)"
    and "root_ready st' = root_ready st" and "length (next_task st') \<le> length (next_task st)"
    and "alive st' = alive st" and "next_task_id st' = next_task_id st"
    and "joins st' = joins st" and "next_join_id st' = next_join_id st" and "batch_size st' = batch_size st"
    by (simp_all add: s st')
  show "queue_of contents st' = drop n (queue_of contents st)"
    by (simp add: queue_of_def st' s q)
  have "is_queued s k = is_queued st k" by (simp add: s is_queued_def)
  then show "is_queued st' k \<longleftrightarrow> k \<notin> set batch \<and> is_queued st k"
    by (simp only: st' is_queued_clear)
qed

lemma drain_ready_inv:
  assumes inv: "exec_inv contents st" and d: "drain_ready cfg n st = (batch, st')"
  shows "exec_inv contents st'"
proof -
  note D = drain_ready_queue[OF d]
  have dist: "distinct (queue_of contents st)" and s: "\<And>k. k \<in> set (queue_of contents st) \<longleftrightarrow> is_queued st k"
    using inv by (simp_all add: exec_inv_def)
  have "k \<in> set (drop n (queue_of contents st)) \<longleftrightarrow> k \<notin> set batch \<and> is_queued st k" for k
    using dist s[of k] set_take_disj_set_drop_if_distinct[OF dist, of n n]
      set_append[of "take n (queue_of contents st)" "drop n (queue_of contents st)"]
    by (auto simp: D(1) simp del: set_append)
  then show ?thesis using inv dist le_trans[OF D(6)]
    by (simp add: exec_inv_def D)
qed

end

end
