(* ===== verification/Scheduler.thy ===== *)
theory Scheduler
  imports Executor_Invariant
begin

text \<open>
  Properties of the scheduler loop: every iteration keeps the queues well formed, no wake is
  lost, batches are served in the order of the queues, the driver is waited on only when
  nothing is runnable, and the join handshake delivers each output once.
\<close>

section \<open>Polling keeps the invariant\<close>

context exec_queues
begin

lemma poll_user_inv:
  assumes "uses_api cfg pu" and "exec_inv contents st" and "pu u w st = (u', r, st')"
  shows "exec_inv contents st'"
proof -
  have "api_steps cfg st st'" using assms(1,3) unfolding uses_api_def by (metis snd_conv)
  then show ?thesis using assms(2) by (rule api_steps_inv)
qed

lemma poll_task_future_inv:
  assumes api: "uses_api cfg pu" and inv: "exec_inv contents st"
    and p: "poll_task_future cfg pu f w st = (f', r, st')"
  shows "exec_inv contents st'"
proof (cases f)
  case (DetachedFuture u)
  obtain u' r1 st1 where pu: "pu u w st = (u', r1, st1)" by (cases "pu u w st")
  then have "st' = st1" using p DetachedFuture by (cases r1) simp_all
  then show ?thesis using poll_user_inv[OF api inv pu] by simp
next
  case (SpawnFuture u j)
  obtain u' r1 st1 where pu: "pu u w st = (u', r1, st1)" by (cases "pu u w st")
  have i1: "exec_inv contents st1" by (rule poll_user_inv[OF api inv pu])
  have i2: "exec_inv contents (st1\<lparr>joins := (joins st1)(j \<mapsto> s)\<rparr>)" if "joins st1 j = Some x" for s x
    using i1 that by (intro exec_inv_joins) (auto simp: exec_inv_def)
  show ?thesis
  proof (cases "\<exists>s. joins st j = Some s \<and> js_canceled s")
    case True
    then show ?thesis using p SpawnFuture inv by (auto split: if_splits)
  next
    case False
    then show ?thesis using p SpawnFuture i1 i2 pu
      by (auto simp: Let_def wake_inv split: poll.splits option.splits if_splits)
  qed
qed

lemma run_task_inv:
  assumes "uses_api cfg pu" and inv: "exec_inv contents st"
  shows "exec_inv contents (run_task cfg pu i st)"
proof -
  have "exec_inv contents (set_future i None st)" using inv by (simp add: exec_inv_set_future)
  from poll_task_future_inv[OF assms(1) this] show ?thesis using inv
    unfolding run_task_def
    by (auto simp: exec_inv_set_future split: option.split prod.split poll.split)
qed

lemma fold_run_task_inv:
  assumes "uses_api cfg pu"
  shows "exec_inv contents st \<Longrightarrow> exec_inv contents (fold (run_task cfg pu) is st)"
  by (induction "is" arbitrary: st) (simp_all add: run_task_inv[OF assms])

lemma spin_timer_inv:
  assumes "exec_inv contents st" and "spin_timer cfg now st = Some (res, st')"
  shows "exec_inv contents st'"
  using assms by (auto simp: spin_timer_def wake_all_inv split: option.splits)

lemma block_on_iter_inv:
  assumes api: "uses_api cfg pu" and inv: "exec_inv contents st"
    and it: "block_on_iter cfg pu now1 now2 root st = Some (r, st')"
  shows "exec_inv contents st'"
proof -
  define p where "p = (if root_ready st then pu root RootWaker (st\<lparr>root_ready := False\<rparr>) else (root, Pending, st))"
  obtain root1 r1 st1 where p1: "p = (root1, r1, st1)" by (cases p)
  have i1: "exec_inv contents st1"
    using p1 inv poll_user_inv[OF api, of "st\<lparr>root_ready := False\<rparr>"] unfolding p_def by (auto split: if_splits)
  note it' = it[unfolded block_on_iter_def p_def[symmetric] p1 Let_def prod.case]
  show ?thesis
  proof (cases r1)
    case (Ready out)
    then show ?thesis using it' i1 by simp
  next
    case Pending
    then obtain res st2 where s2: "spin_timer cfg now1 st1 = Some (res, st2)"
      using it' by (auto split: option.splits)
    have i2: "exec_inv contents st2" by (rule spin_timer_inv[OF i1 s2])
    obtain batch st3 where d: "drain_ready cfg (batch_size st2) st2 = (batch, st3)" by fastforce
    have i3: "exec_inv contents st3" by (rule drain_ready_inv[OF i2 d])
    have w: "exec_inv contents (st3\<lparr>interrupt_pending := False, waiting := True\<rparr>)" using i3 by simp
    note spin_timer_inv[OF w, of now2]
    moreover note fold_run_task_inv[OF api i3, of batch]
    ultimately show ?thesis using it' Pending s2 d i3
      by (auto simp: wake_all_inv split: if_splits option.splits prod.splits)
  qed
qed

end

section \<open>Reachable runtimes\<close>

text \<open>
  The states of a runtime during a \<open>block_on\<close>: built by \<open>with_options\<close>, then changed by public
  operations (between iterations other threads wake tasks) and by iterations of the loop.
\<close>

inductive exec_reach ::
  "('q, 's, 'd) exec_cfg \<Rightarrow> ('u, 'o, 'q, 's, 'd) poll_user \<Rightarrow> 'q \<Rightarrow> usize \<Rightarrow> ('u, 'o, 'q, 's, 'd) exec \<Rightarrow> bool"
  for cfg pu q0 bs where
  reach_new: "exec_reach cfg pu q0 bs (with_options (c_wheel cfg) q0 now d enable_timer bs)"
| reach_api: "exec_reach cfg pu q0 bs st \<Longrightarrow> api_step cfg st st' \<Longrightarrow> exec_reach cfg pu q0 bs st'"
| reach_iter: "exec_reach cfg pu q0 bs st \<Longrightarrow> block_on_iter cfg pu now1 now2 root st = Some (r, st') \<Longrightarrow>
    exec_reach cfg pu q0 bs st'"

context exec_queues
begin

lemma with_options_inv:
  "contents q0 = [] \<Longrightarrow> exec_inv contents (with_options wops q0 now d enable_timer bs)"
  by (simp add: with_options_def inv_unfold)

lemma exec_reach_inv:
  assumes "uses_api cfg pu" and "contents q0 = []"
  shows "exec_reach cfg pu q0 bs st \<Longrightarrow> exec_inv contents st"
  by (induction rule: exec_reach.induct)
    (auto simp: with_options_inv assms(2) dest: api_step_inv block_on_iter_inv[OF assms(1)])

end

section \<open>A concrete runtime for the witnesses\<close>

text \<open>
  Futures that count down: at zero they are ready, before that they wake themselves and stay
  pending. The remote queue is a list, the driver has nothing to do.
\<close>

definition demo_cfg :: "(task_id list, (waker timer_entry) option list, unit) exec_cfg" where
  "demo_cfg = \<lparr>c_seg = list_seg_ops, c_wheel = vec_slab_ops, c_wait = (\<lambda>_ d. ([], d)),
     c_flush = (\<lambda>d. ([], d)), c_should_flush = (\<lambda>_. False)\<rparr>"

type_synonym demo_exec = "(nat, nat, task_id list, (waker timer_entry) option list, unit) exec"

fun demo_poll :: "nat \<Rightarrow> waker \<Rightarrow> demo_exec \<Rightarrow> nat \<times> nat poll \<times> demo_exec" where
  "demo_poll 0 w st = (0, Ready 42, st)"
| "demo_poll (Suc n) w st = (n, Pending, wake demo_cfg True w st)"

definition demo_rt :: "usize \<Rightarrow> demo_exec" where
  "demo_rt bs = with_options (c_wheel demo_cfg) [] 0 () False bs"

lemma demo_cfg_simps:
  "c_seg demo_cfg = list_seg_ops" "c_wheel demo_cfg = vec_slab_ops"
  "c_wait demo_cfg dl d = ([], d)" "c_flush demo_cfg d = ([], d)" "c_should_flush demo_cfg d = False"
  by (simp_all add: demo_cfg_def)

interpretation demo_queues: exec_queues demo_cfg "\<lambda>q. q"
  unfolding exec_queues_def demo_cfg_simps by (rule list_seg.seg_queue_axioms)

lemma demo_poll_uses_api: "uses_api demo_cfg demo_poll"
proof -
  have "api_steps demo_cfg st (snd (snd (demo_poll u w st)))" for u w st
    by (cases u) (auto intro: api_wake)
  then show ?thesis by (simp add: uses_api_def)
qed

lemma demo_rt_reach: "exec_reach demo_cfg demo_poll [] bs (demo_rt bs)"
  unfolding demo_rt_def by (rule reach_new)

lemmas demo_seg = demo_queues.exec_queues_axioms[unfolded exec_queues_def]

lemmas demo_eval = demo_rt_def with_options_def spawn_def spawn_detached_def enqueue_def Let_def
  queue_of_def is_queued_def enqueue_if_needed_def set_queued_def NEXT_TASK_INLINE_CAP_def

section \<open>Queues and wakes\<close>

text \<open>
  C4: Well-formed queues. In every state a runtime reaches through its public operations and
  through iterations of \<open>block_on\<close>, whatever futures it polls, each task is in the three
  ready queues together at most once, is there exactly when its \<open>queued\<close> flag is set, the
  inline queue never exceeds its capacity of eight, and task and join numbers in use are below
  the counters.
\<close>

theorem runtime_queues_well_formed:
  assumes "seg_queue (c_seg cfg) contents" and "contents q0 = []" and "uses_api cfg pu"
    and "exec_reach cfg pu q0 bs st"
  shows "exec_inv contents st"
  using assms by (intro exec_queues.exec_reach_inv[of cfg contents pu q0 bs]) (simp_all add: exec_queues_def)

theorem runtime_queues_well_formed_witness:
  "\<exists>st r. block_on_iter demo_cfg demo_poll 0 0 3 (snd (spawn 1 (demo_rt 256))) = Some (r, st) \<and>
     exec_inv (\<lambda>q. q) st \<and> queue_of (\<lambda>q. q) st = [0]"
proof -
  let ?s = "snd (spawn 1 (demo_rt 256))"
  obtain r st where it: "block_on_iter demo_cfg demo_poll 0 0 3 ?s = Some (r, st)"
    and q: "queue_of (\<lambda>q. q) st = [0]"
    by (simp add: block_on_iter_def demo_eval numeral_3_eq_3 root_wake_def spin_timer_def
        drain_ready_def drain_next_eq drain_local_eq demo_cfg_simps list_seg_ops_def clear_queued_def
        run_task_def set_future_def eval_nat_numeral)
  have "exec_reach demo_cfg demo_poll [] 256 st"
    by (rule reach_iter[OF reach_api[OF demo_rt_reach api_spawn] it])
  then have "exec_inv (\<lambda>q. q) st"
    by (rule runtime_queues_well_formed[OF demo_seg refl demo_poll_uses_api])
  then show ?thesis using it q by blast
qed

text \<open>
  No wake is lost or duplicated. Waking an existing task, from the scheduler's thread or
  from another one, leaves it exactly once in the queues, keeps all other queued tasks in their
  order, changes nothing but a pending interrupt if the task was queued already, and, from
  another thread while the scheduler waits, leaves an interrupt of the driver pending.
\<close>

theorem wake_queues_task_once:
  assumes "seg_queue (c_seg cfg) contents" and "exec_inv contents st" and "tasks st i = Some t"
    and "wake cfg same (TaskWaker i) st = st'"
  shows "count_list (queue_of contents st') i = 1 \<and>
    removeAll i (queue_of contents st') = removeAll i (queue_of contents st) \<and>
    (t_queued t \<longrightarrow> queue_of contents st' = queue_of contents st) \<and>
    (\<not> same \<and> waiting st \<longrightarrow> interrupt_pending st')"
proof -
  have eq: "exec_queues cfg contents" using assms(1) by (simp add: exec_queues_def)
  have st': "st' = enqueue_if_needed cfg same i st" using assms(4) by simp
  have inv': "exec_inv contents st'" using exec_queues.enqueue_inv[OF eq assms(2)] st' by simp
  have int: "\<not> same \<and> waiting st \<longrightarrow> interrupt_pending st'"
    using assms(3) by (simp add: st' enqueue_if_needed_def Let_def interrupt_if_waiting_def)
  have q: "t_queued t \<longrightarrow> queue_of contents st' = queue_of contents st"
    using assms(3) by (simp add: st' enqueue_if_needed_def Let_def queue_of_def)
  have "i \<in> set (queue_of contents st') \<and>
      removeAll i (queue_of contents st') = removeAll i (queue_of contents st)"
  proof (cases "t_queued t")
    case True
    then show ?thesis using q assms(2,3) by (simp add: exec_inv_def is_queued_def)
  next
    case False
    have "alive st" using assms(2) by (simp add: exec_inv_def)
    then show ?thesis using exec_queues.enqueue_idle(1)[OF eq _ assms(3) False, of same]
      unfolding st' by auto
  qed
  moreover have "count_list (queue_of contents st') i = 1" if "i \<in> set (queue_of contents st')"
    using that inv' by (simp add: exec_inv_def count_list_distinct)
  ultimately show ?thesis using int q by simp
qed

theorem wake_queues_task_once_witness:
  "count_list (queue_of (\<lambda>q. q) (wake demo_cfg False (TaskWaker 0)
      ((snd (spawn 1 (demo_rt 256)))\<lparr>waiting := True\<rparr>))) 0 = 1 \<and>
   interrupt_pending (wake demo_cfg False (TaskWaker 0) ((snd (spawn 1 (demo_rt 256)))\<lparr>waiting := True\<rparr>))"
proof -
  let ?s = "snd (spawn 1 (demo_rt 256))"
  have "exec_inv (\<lambda>q. q) ?s"
    by (rule demo_queues.exec_reach_inv[OF demo_poll_uses_api refl reach_api[OF demo_rt_reach api_spawn]])
  then have "exec_inv (\<lambda>q. q) (?s\<lparr>waiting := True\<rparr>)" by simp
  moreover have "tasks (?s\<lparr>waiting := True\<rparr>) 0 = Some \<lparr>t_future = Some (SpawnFuture 1 0), t_queued = True\<rparr>"
    by (simp add: demo_eval)
  moreover have "waiting (?s\<lparr>waiting := True\<rparr>)" by simp
  ultimately show ?thesis
    using wake_queues_task_once[OF demo_seg, of "?s\<lparr>waiting := True\<rparr>" 0 _ False] by blast
qed

text \<open>
  A batch is a prefix of the queues. \<open>drain_ready\<close> with a budget takes the first \<open>budget\<close>
  tasks of the inline queue, then the remote queue, then the main queue, leaves the rest in
  place and clears exactly the \<open>queued\<close> flags of the tasks it took.
\<close>

theorem drain_ready_takes_prefix:
  assumes "seg_queue (c_seg cfg) contents" and "drain_ready cfg budget st = (batch, st')"
  shows "batch = take budget (queue_of contents st) \<and>
    queue_of contents st' = drop budget (queue_of contents st) \<and>
    (\<forall>k. is_queued st' k \<longleftrightarrow> k \<notin> set batch \<and> is_queued st k)"
proof -
  have eq: "exec_queues cfg contents" using assms(1) by (simp add: exec_queues_def)
  show ?thesis using exec_queues.drain_ready_queue(1-3)[OF eq assms(2)] by blast
qed

theorem drain_ready_takes_prefix_witness:
  "\<exists>batch st'. drain_ready demo_cfg 2 ((demo_rt 2)\<lparr>next_task := [4], remote_queue := [5], ready_queue := [6]\<rparr>)
     = (batch, st') \<and> batch = [4, 5] \<and> queue_of (\<lambda>q. q) st' = [6]"
proof -
  let ?s = "(demo_rt 2)\<lparr>next_task := [4], remote_queue := [5], ready_queue := [6]\<rparr>"
  obtain batch st' where d: "drain_ready demo_cfg 2 ?s = (batch, st')" by fastforce
  have "queue_of (\<lambda>q. q) ?s = [4, 5, 6]" by (simp add: queue_of_def)
  then show ?thesis using drain_ready_takes_prefix[OF demo_seg d] d by (simp add: numeral_2_eq_2)
qed

section \<open>Waiting\<close>

lemma api_step_keeps: "api_step cfg st st' \<Longrightarrow> batch_size st' = batch_size st"
proof (induction rule: api_step.induct)
  case (api_wake st same w)
  then show ?case by (cases w) (simp_all add: root_wake_def Let_def)
next
  case (api_join_poll st j w)
  then show ?case by (simp add: join_poll_def split: option.split)
qed (simp_all add: spawn_def spawn_detached_def join_cancel_def enqueue_def Let_def)

lemma api_steps_keep: "api_steps cfg st st' \<Longrightarrow> batch_size st' = batch_size st"
  by (induction rule: rtranclp_induct) (simp_all add: api_step_keeps)

lemma wake_keeps: "batch_size (wake cfg same w st) = batch_size st"
  by (rule api_step_keeps[OF api_wake])

lemma wake_all_keeps: "batch_size (wake_all cfg ws st) = batch_size st"
  unfolding wake_all_def by (induction ws arbitrary: st) (simp_all add: wake_keeps)

lemma spin_timer_keeps: "spin_timer cfg now st = Some (r, st') \<Longrightarrow> batch_size st' = batch_size st"
  by (auto simp: spin_timer_def wake_all_keeps split: option.splits)

lemma spin_timer_quiet:
  assumes "spin_timer cfg now st = Some ((dl, False), st')"
  shows "\<exists>tm. st' = st\<lparr>rt_timer := tm\<rparr>"
proof (cases "rt_timer st")
  case None
  then show ?thesis using assms by (intro exI[of _ "rt_timer st"]) (simp add: spin_timer_def)
next
  case (Some tm)
  then show ?thesis using assms
    by (auto simp: spin_timer_def spin_and_get_deadline_def wake_all_def Let_def
        split: option.splits if_splits prod.splits)
qed

lemma wake_driver [simp]: "rt_driver (wake cfg same w st) = rt_driver st"
  by (cases w) (simp_all add: root_wake_def Let_def)

lemma wake_all_driver [simp]: "rt_driver (wake_all cfg ws st) = rt_driver st"
  unfolding wake_all_def by (induction ws arbitrary: st) simp_all

lemma wake_task_exists: "(tasks (wake cfg same w st) k = None) = (tasks st k = None)"
  by (cases w) (simp_all add: root_wake_def Let_def)

lemma wake_all_task_exists: "(tasks (wake_all cfg ws st) k = None) = (tasks st k = None)"
  unfolding wake_all_def by (induction ws arbitrary: st) (simp_all add: wake_task_exists)

lemma spin_timer_frame:
  assumes "spin_timer cfg now st = Some (r, st')"
  shows "rt_driver st' = rt_driver st" and "(tasks st' k = None) = (tasks st k = None)"
  using assms by (auto simp: spin_timer_def wake_all_task_exists split: option.splits)

text \<open>The state an iteration reaches by polling the root future, if that is marked ready.\<close>

definition after_root ::
  "('u, 'o, 'q, 's, 'd) poll_user \<Rightarrow> 'u \<Rightarrow> ('u, 'o, 'q, 's, 'd) exec \<Rightarrow> ('u, 'o, 'q, 's, 'd) exec" where
  "after_root pu root st =
     (if root_ready st then snd (snd (pu root RootWaker (st\<lparr>root_ready := False\<rparr>))) else st)"

text \<open>What an iteration that waits has done before: the idle state in which it calls the driver.\<close>

definition waited_from ::
  "('q, 's, 'd) exec_cfg \<Rightarrow> instant \<Rightarrow> duration option \<Rightarrow> ('u, 'o, 'q, 's, 'd) exec
   \<Rightarrow> ('u, 'o, 'q, 's, 'd) exec \<Rightarrow> bool" where
  "waited_from cfg now dl idle st' \<longleftrightarrow> \<not> root_ready idle \<and> waiting idle \<and>
     (\<exists>before. spin_timer cfg now before = Some ((dl, False), idle)) \<and>
     (\<exists>ws d. c_wait cfg dl (rt_driver idle) = (ws, d) \<and>
        st' = stop_waiting (wake_all cfg ws (idle\<lparr>rt_driver := d\<rparr>)))"

context exec_queues
begin

lemma after_root_api:
  assumes "uses_api cfg pu"
  shows "batch_size (after_root pu root st) = batch_size st"
    and "exec_inv contents st \<Longrightarrow> exec_inv contents (after_root pu root st)"
proof -
  have "api_steps cfg (st\<lparr>root_ready := False\<rparr>) (snd (snd (pu root RootWaker (st\<lparr>root_ready := False\<rparr>))))"
    using assms unfolding uses_api_def by blast
  from api_steps_keep[OF this] api_steps_inv[OF this]
  show "batch_size (after_root pu root st) = batch_size st"
    and "exec_inv contents st \<Longrightarrow> exec_inv contents (after_root pu root st)"
    by (simp_all add: after_root_def)
qed

lemma drain_nothing:
  assumes "drain_ready cfg n st = ([], st')"
  shows "rt_driver st' = rt_driver st"
proof -
  obtain s where "drain_ready cfg n st = (take n (queue_of contents st), clear_queued (take n (queue_of contents st)) s)"
    and "rt_driver s = rt_driver st"
    using drain_ready_eq[of n st] by auto
  then show ?thesis using assms by auto
qed

lemma waited_iteration:
  assumes "uses_api cfg pu" and "0 < batch_size st"
    and "block_on_iter cfg pu now1 now2 root st = Some (Waited dl root', st')"
  shows "\<exists>idle. queue_of contents idle = [] \<and> waited_from cfg now2 dl idle st' \<and>
    rt_driver idle = rt_driver (after_root pu root st) \<and>
    (\<forall>k. (tasks idle k = None) = (tasks (after_root pu root st) k = None)) \<and>
    (exec_inv contents st \<longrightarrow> exec_inv contents idle)"
proof -
  define p where "p = (if root_ready st then pu root RootWaker (st\<lparr>root_ready := False\<rparr>) else (root, Pending, st))"
  obtain root1 r1 st1 where p1: "p = (root1, r1, st1)" by (cases p)
  have st1: "st1 = after_root pu root st" using p1 by (auto simp: p_def after_root_def split: if_splits)
  note it = assms(3)[unfolded block_on_iter_def p_def[symmetric] p1 Let_def prod.case]
  have r1: "r1 = Pending" using it by (cases r1) simp_all
  then obtain res st2 where s2: "spin_timer cfg now1 st1 = Some (res, st2)"
    using it by (auto split: option.splits)
  obtain batch st3 where d: "drain_ready cfg (batch_size st2) st2 = (batch, st3)" by fastforce
  note D = drain_ready_queue[OF d]
  let ?w = "st3\<lparr>interrupt_pending := False, waiting := True\<rparr>"
  have batch: "batch = []" and ws: "\<not> root_ready ?w" "\<not> should_skip_wait cfg ?w"
    using it r1 s2 d by (auto split: if_splits prod.splits)
  obtain idle where sp: "spin_timer cfg now2 ?w = Some ((dl, False), idle)"
    and fin: "st' = stop_waiting (wake_all cfg (fst (c_wait cfg dl (rt_driver idle)))
      (idle\<lparr>rt_driver := snd (c_wait cfg dl (rt_driver idle))\<rparr>))"
    using it r1 s2 d batch ws by (auto split: if_splits prod.splits option.splits)
  obtain tm where idle: "idle = ?w\<lparr>rt_timer := tm\<rparr>" using spin_timer_quiet[OF sp] by blast
  have q2: "queue_of contents st2 = []"
    using D(1) batch spin_timer_keeps[OF s2] after_root_api(1)[OF assms(1)] assms(2) by (simp add: st1)
  have "queue_of contents idle = []" using D(2) q2 by (simp add: idle queue_of_def)
  moreover have "rt_driver idle = rt_driver st1" "(tasks idle k = None) = (tasks st1 k = None)" for k
    using drain_nothing[OF d[unfolded batch]] spin_timer_frame[OF s2] D(4) by (simp_all add: idle)
  moreover have "exec_inv contents idle" if "exec_inv contents st"
    using drain_ready_inv[OF spin_timer_inv[OF _ s2] d] after_root_api(2)[OF assms(1) that]
    by (simp add: idle st1)
  moreover have "waited_from cfg now2 dl idle st'"
    using ws(1) sp fin by (auto simp: waited_from_def idle intro: prod.collapse[symmetric])
  ultimately show ?thesis using st1 by blast
qed

end

text \<open>
  C21: The scheduler sleeps only when it is idle. With a positive batch size, an iteration of
  \<open>block_on\<close> that waits on the driver does so in a state in which all three queues are empty,
  the root future is not marked ready and the timer spin just before woke nobody; the wait gets
  the timeout that spin reported, and the tasks the driver woke are queued afterwards.
\<close>

theorem waits_only_when_idle:
  assumes "seg_queue (c_seg cfg) contents" and "uses_api cfg pu" and "0 < batch_size st"
    and "block_on_iter cfg pu now1 now2 root st = Some (Waited dl root', st')"
  shows "\<exists>idle. queue_of contents idle = [] \<and> \<not> root_ready idle \<and> waiting idle \<and>
    (\<exists>before. spin_timer cfg now2 before = Some ((dl, False), idle)) \<and>
    (\<exists>ws d. c_wait cfg dl (rt_driver idle) = (ws, d) \<and>
       st' = stop_waiting (wake_all cfg ws (idle\<lparr>rt_driver := d\<rparr>)))"
proof -
  have "exec_queues cfg contents" using assms(1) by (simp add: exec_queues_def)
  from exec_queues.waited_iteration[OF this assms(2-4)] show ?thesis unfolding waited_from_def by metis
qed

theorem waits_only_when_idle_witness:
  "\<exists>st'. block_on_iter demo_cfg demo_poll 0 0 3 ((demo_rt 256)\<lparr>root_ready := False\<rparr>) = Some (Waited None 3, st') \<and>
     (\<exists>idle. queue_of (\<lambda>q. q) idle = [] \<and> \<not> root_ready idle \<and> waiting idle \<and>
       (\<exists>ws d. c_wait demo_cfg None (rt_driver idle) = (ws, d) \<and>
          st' = stop_waiting (wake_all demo_cfg ws (idle\<lparr>rt_driver := d\<rparr>))))"
proof -
  let ?s = "(demo_rt 256)\<lparr>root_ready := False\<rparr>"
  obtain st' where it: "block_on_iter demo_cfg demo_poll 0 0 3 ?s = Some (Waited None 3, st')"
    by (simp add: block_on_iter_def demo_eval spin_timer_def drain_ready_def drain_next_eq
        drain_local_eq demo_cfg_simps list_seg_ops_def should_skip_wait_def eval_nat_numeral)
  have "0 < batch_size ?s" by (simp add: demo_eval)
  from waits_only_when_idle[OF demo_seg demo_poll_uses_api this it] it show ?thesis by blast
qed

text \<open>
  A batch size of zero disables the scheduler. \<open>RuntimeBuilder::batch_size\<close> accepts zero,
  and then an iteration with a queued task and no timer neither polls a task nor waits: it
  returns to the same state, so \<open>block_on\<close> spins without progress.
\<close>

theorem zero_batch_size_never_polls:
  assumes "seg_queue (c_seg cfg) contents" and "batch_size st = 0" and "\<not> root_ready st"
    and "rt_timer st = None" and "queue_of contents st \<noteq> []"
  shows "block_on_iter cfg pu now1 now2 root st =
    Some (Continued root, st\<lparr>waiting := False, interrupt_pending := False\<rparr>)"
proof -
  have "should_skip_wait cfg (st\<lparr>interrupt_pending := False, waiting := True\<rparr>)"
    using assms(5) by (auto simp: should_skip_wait_def queue_of_def seg_queue.is_empty_contents[OF assms(1)])
  moreover have "drain_ready cfg 0 st = ([], st)" by (simp add: drain_ready_def)
  ultimately show ?thesis using assms(2-4)
    by (simp add: block_on_iter_def spin_timer_def stop_waiting_def)
qed

theorem zero_batch_size_never_polls_witness:
  "block_on_iter demo_cfg demo_poll 0 0 3 ((snd (spawn 0 (demo_rt 0)))\<lparr>root_ready := False\<rparr>) =
     Some (Continued 3, (snd (spawn 0 (demo_rt 0)))\<lparr>root_ready := False, waiting := False, interrupt_pending := False\<rparr>)"
  by (subst zero_batch_size_never_polls[OF demo_seg]) (simp_all add: demo_eval)

text \<open>
  A small batch size starves the other queues. The inline queue is drained first, and a
  task that wakes itself while it is polled goes back to it. With a batch size of one such a
  task makes every iteration return to the state it started from, whatever waits in the
  remote and main queues.
\<close>

theorem self_waking_task_starves_small_batch:
  assumes "batch_size st = 1" and "\<not> root_ready st" and "rt_timer st = None" and "alive st"
    and "next_task st = [i]"
    and "tasks st i = Some \<lparr>t_future = Some (DetachedFuture u), t_queued = True\<rparr>"
    and "\<And>s. pu u (TaskWaker i) s = (u, Pending, wake cfg True (TaskWaker i) s)"
    and "\<not> c_should_flush cfg (rt_driver st)"
  shows "block_on_iter cfg pu now1 now2 root st = Some (Continued root, st)"
proof -
  let ?s = "clear_queued [i] (st\<lparr>next_task := []\<rparr>)"
  have d: "drain_ready cfg 1 st = ([i], ?s)"
    using assms(5) by (simp add: drain_ready_def drain_next_eq)
  have "run_task cfg pu i ?s = st"
    using assms(4-6)
    by (cases st) (simp add: run_task_def assms(7) set_future_def enqueue_if_needed_def
        clear_queued_def set_queued_def Let_def NEXT_TASK_INLINE_CAP_def fun_eq_iff)
  then show ?thesis using assms(1-3,8) d by (simp add: block_on_iter_def spin_timer_def)
qed

definition starving_poll :: "nat \<Rightarrow> waker \<Rightarrow> demo_exec \<Rightarrow> nat \<times> nat poll \<times> demo_exec" where
  "starving_poll u w st = (u, Pending, wake demo_cfg True w st)"

definition starving_rt :: demo_exec where
  "starving_rt = (spawn_detached 5 (demo_rt 1))\<lparr>root_ready := False, ready_queue := [], next_task := [0],
     remote_queue := [7]\<rparr>"

theorem self_waking_task_starves_small_batch_witness:
  "block_on_iter demo_cfg starving_poll 0 0 9 starving_rt = Some (Continued 9, starving_rt)"
  by (rule self_waking_task_starves_small_batch[of _ 0 5])
    (simp_all add: starving_rt_def starving_poll_def demo_eval demo_cfg_simps)

section \<open>Tasks and their joins\<close>

text \<open>
  A task woken while it is polled runs again. If a poll of a task's future is pending and
  the task was woken during that poll, then afterwards the task is in the queues and its
  future, as the poll left it, is back in place for the next poll.
\<close>

theorem wake_during_poll_reschedules:
  assumes "seg_queue (c_seg cfg) contents" and "uses_api cfg pu" and "exec_inv contents st"
    and "tasks st i = Some t" and "t_future t = Some f"
    and "poll_task_future cfg pu f (TaskWaker i) (set_future i None st) = (f', Pending, st1)"
    and "is_queued st1 i"
  shows "i \<in> set (queue_of contents (run_task cfg pu i st)) \<and>
    map_option t_future (tasks (run_task cfg pu i st) i) = Some (Some f')"
proof -
  have eq: "exec_queues cfg contents" using assms(1) by (simp add: exec_queues_def)
  have r: "run_task cfg pu i st = set_future i (Some f') st1" using assms(4-6) by (simp add: run_task_def)
  have "exec_inv contents (run_task cfg pu i st)" by (rule exec_queues.run_task_inv[OF eq assms(2,3)])
  moreover obtain t1 where t1: "tasks st1 i = Some t1" "t_queued t1"
    using assms(7) by (auto simp: is_queued_def split: option.splits)
  ultimately show ?thesis by (simp add: exec_inv_def) (simp add: r is_queued_def set_future_def)
qed

theorem wake_during_poll_reschedules_witness:
  "0 \<in> set (queue_of (\<lambda>q. q) (run_task demo_cfg demo_poll 0 (snd (drain_ready demo_cfg 4 (spawn_detached 3 (demo_rt 4)))))) \<and>
   map_option t_future (tasks (run_task demo_cfg demo_poll 0
     (snd (drain_ready demo_cfg 4 (spawn_detached 3 (demo_rt 4))))) 0) = Some (Some (DetachedFuture 2))"
proof -
  let ?s = "snd (drain_ready demo_cfg 4 (spawn_detached 3 (demo_rt 4)))"
  have inv: "exec_inv (\<lambda>q. q) ?s"
    by (rule demo_queues.drain_ready_inv[OF demo_queues.exec_reach_inv[OF demo_poll_uses_api refl
          reach_api[OF demo_rt_reach api_spawn_detached]] prod.collapse[symmetric]])
  have s: "?s = (demo_rt 4)\<lparr>tasks := [0 \<mapsto> \<lparr>t_future = Some (DetachedFuture 3), t_queued = False\<rparr>], next_task_id := 1\<rparr>"
    by (simp add: demo_eval drain_ready_def drain_next_eq drain_local_eq demo_cfg_simps
        list_seg_ops_def clear_queued_def eval_nat_numeral)
  have p: "\<exists>st1. poll_task_future demo_cfg demo_poll (DetachedFuture 3) (TaskWaker 0) (set_future 0 None ?s) =
      (DetachedFuture 2, Pending, st1) \<and> is_queued st1 0"
    unfolding s by (simp add: numeral_3_eq_3 numeral_2_eq_2 set_future_def demo_eval)
  have "tasks ?s 0 = Some \<lparr>t_future = Some (DetachedFuture 3), t_queued = False\<rparr>" unfolding s by simp
  from wake_during_poll_reschedules[OF demo_seg demo_poll_uses_api inv this] p show ?thesis by auto
qed

text \<open>Public operations never remove a join state nor touch the future of an existing task.\<close>

lemma wake_futures: "map_option t_future (tasks (wake cfg same w st) k) = map_option t_future (tasks st k)"
  by (cases w) (simp_all add: enqueue_if_needed_def root_wake_def Let_def map_option.compositionality
      comp_def split: option.split)

lemma wake_joins [simp]: "joins (wake cfg same w st) = joins st"
  by (cases w) (simp_all add: root_wake_def Let_def)

lemma api_step_joins: "api_step cfg st st' \<Longrightarrow> joins st j \<noteq> None \<Longrightarrow> joins st' j \<noteq> None"
proof (induction rule: api_step.induct)
  case (api_join_poll st k w)
  then show ?case by (auto simp: join_poll_def split: option.splits)
qed (auto simp: spawn_def spawn_detached_def join_cancel_def enqueue_def Let_def)

lemma api_step_futures:
  assumes "api_step cfg st st'" and "exec_inv contents st" and "tasks st k \<noteq> None"
  shows "map_option t_future (tasks st' k) = map_option t_future (tasks st k)"
  using assms(1)
proof cases
  case (api_join_poll j w)
  then show ?thesis by (simp add: join_poll_def split: option.split)
qed (use assms(2,3) in \<open>auto simp: wake_futures spawn_def spawn_detached_def join_cancel_def enqueue_def
      Let_def exec_inv_def\<close>)

context exec_queues
begin

lemma api_steps_keep_tasks:
  assumes "api_steps cfg st st'" and "exec_inv contents st" and "tasks st k = Some t"
  shows "\<exists>t'. tasks st' k = Some t' \<and> t_future t' = t_future t"
  using assms(1)
proof (induction rule: rtranclp_induct)
  case (step y z)
  then obtain t' where t': "tasks y k = Some t'" "t_future t' = t_future t" by blast
  have "exec_inv contents y" by (rule api_steps_inv[OF step(1) assms(2)])
  from api_step_futures[OF step(2) this, of k] show ?case using t' by auto
qed (use assms(3) in simp)

lemma api_steps_keep_joins: "api_steps cfg st st' \<Longrightarrow> joins st j \<noteq> None \<Longrightarrow> joins st' j \<noteq> None"
  by (induction rule: rtranclp_induct) (auto dest: api_step_joins)

end

text \<open>
  The output of a task is delivered exactly once and its joiner is woken. When the future of
  a task that was not canceled completes with an output, then afterwards the task has no future
  left, the task whose waker the handle had registered is queued, the next poll of the handle
  is ready with the output, and the poll after that is pending.
\<close>

theorem completed_task_wakes_joiner:
  assumes "seg_queue (c_seg cfg) contents" and "uses_api cfg pu" and "exec_inv contents st"
    and "tasks st i = Some t" and "t_future t = Some (SpawnFuture u j)"
    and "joins st j = Some s" and "\<not> js_canceled s"
    and "pu u (TaskWaker i) (set_future i None st) = (u', Ready out, st1)"
    and "joins st1 j = Some s1" and "js_waker s1 = Some (TaskWaker k)" and "tasks st1 k \<noteq> None"
    and "run_task cfg pu i st = st'"
  shows "map_option t_future (tasks st' i) = Some None \<and> k \<in> set (queue_of contents st') \<and>
    fst (join_poll j w st') = Ready out \<and> fst (join_poll j w (snd (join_poll j w st'))) = Pending"
proof -
  have eq: "exec_queues cfg contents" using assms(1) by (simp add: exec_queues_def)
  let ?s0 = "set_future i None st"
  let ?s2 = "st1\<lparr>joins := (joins st1)(j \<mapsto> s1\<lparr>js_output := Some out, js_waker := None\<rparr>)\<rparr>"
  have "joins ?s0 j = Some s" using assms(6) by (simp add: set_future_def)
  then have st': "st' = wake cfg True (TaskWaker k) ?s2"
    using assms(4,5,7-10,12) by (simp add: run_task_def Let_def)
  have api: "api_steps cfg ?s0 st1" using assms(2,8) unfolding uses_api_def by (metis snd_conv)
  have i0: "exec_inv contents ?s0" using assms(3) by (simp add: exec_inv_set_future)
  have "tasks ?s0 i = Some (t\<lparr>t_future := None\<rparr>)" using assms(4) by (simp add: set_future_def)
  from exec_queues.api_steps_keep_tasks[OF eq api i0 this]
  have "map_option t_future (tasks st1 i) = Some None" by auto
  then have fut: "map_option t_future (tasks st' i) = Some None" by (simp add: st' wake_futures del: wake.simps)
  have inv': "exec_inv contents st'"
    using exec_queues.run_task_inv[OF eq assms(2,3), of i] assms(12) by simp
  obtain tk where "tasks ?s2 k = Some tk" using assms(11) by auto
  then have "is_queued st' k"
    by (auto simp: st' is_queued_def enqueue_if_needed_def Let_def split: option.splits)
  then have "k \<in> set (queue_of contents st')" using inv' by (simp add: exec_inv_def)
  moreover have "joins st' j = Some (s1\<lparr>js_output := Some out, js_waker := None\<rparr>)" by (simp add: st')
  ultimately show ?thesis using fut by (simp add: join_poll_def)
qed

text \<open>A runtime with one task that joins another: task 0 is joined by task 1.\<close>

definition joined_rt :: demo_exec where
  "joined_rt = snd (join_poll 0 (TaskWaker 1) (spawn_detached 4 (snd (spawn 0 (demo_rt 8)))))"

lemma joined_rt_inv: "exec_inv (\<lambda>q. q) joined_rt"
  unfolding joined_rt_def
  by (intro demo_queues.api_step_inv[OF api_join_poll] demo_queues.api_step_inv[OF api_spawn_detached]
      demo_queues.api_step_inv[OF api_spawn] demo_queues.exec_reach_inv[OF demo_poll_uses_api refl demo_rt_reach])

theorem completed_task_wakes_joiner_witness:
  "1 \<in> set (queue_of (\<lambda>q. q) (run_task demo_cfg demo_poll 0 joined_rt)) \<and>
   fst (join_poll 0 RootWaker (run_task demo_cfg demo_poll 0 joined_rt)) = Ready 42"
proof -
  let ?t = "\<lparr>t_future = Some (SpawnFuture 0 0), t_queued = True\<rparr>"
  let ?s = "\<lparr>js_output = None, js_waker = Some (TaskWaker 1), js_canceled = False\<rparr>"
  have a: "tasks joined_rt 0 = Some ?t" and b: "joins joined_rt 0 = Some ?s" and c: "tasks joined_rt 1 \<noteq> None"
    by (simp_all add: joined_rt_def demo_eval join_poll_def update_waker_slot_def)
  have j: "joins (set_future 0 None joined_rt) 0 = Some ?s" and k: "tasks (set_future 0 None joined_rt) 1 \<noteq> None"
    using b c by (simp_all add: set_future_def)
  show ?thesis
    using completed_task_wakes_joiner[OF demo_seg demo_poll_uses_api joined_rt_inv a _ b _ _ j _ k refl,
        of 0 0 42 RootWaker] by simp
qed

text \<open>
  A canceled task is never resumed. After \<open>JoinHandle::cancel\<close> the next run of the task
  drops its future without polling the application: the result is the same for every \<open>pu\<close>, the
  task has no future, and no other part of the runtime changes.
\<close>

theorem canceled_task_is_dropped_unpolled:
  assumes "tasks st i = Some t" and "t_future t = Some (SpawnFuture u j)" and "joins st j = Some s"
  shows "run_task cfg pu i (join_cancel j st) = set_future i None (join_cancel j st)"
  using assms by (simp add: run_task_def join_cancel_def set_future_def)

theorem canceled_task_is_dropped_unpolled_witness:
  "run_task demo_cfg demo_poll 0 (join_cancel 0 joined_rt) = set_future 0 None (join_cancel 0 joined_rt)"
  by (rule canceled_task_is_dropped_unpolled[of _ _ "\<lparr>t_future = Some (SpawnFuture 0 0), t_queued = True\<rparr>" 0 _
      "\<lparr>js_output = None, js_waker = Some (TaskWaker 1), js_canceled = False\<rparr>"])
    (simp_all add: joined_rt_def demo_eval join_poll_def update_waker_slot_def)

end
