(* ===== verification/Wake_Protocol.thy ===== *)
theory Wake_Protocol
  imports Prelude
begin

text \<open>
  The handshake between the scheduler thread and wakers on other threads, one atomic access per
  step: \<open>Task::enqueue_if_needed\<close> and \<open>BlockOnNotify::wake_by_ref\<close> on the waker side, and on the
  scheduler side the parts of \<open>block_on\<close> that touch the shared flags (\<open>take_ready\<close>,
  \<open>drain_ready\<close> on the remote queue, the reset of \<open>interrupt_pending\<close>, the store of \<open>waiting\<close>,
  \<open>should_skip_wait\<close>, the wait on the driver, \<open>stop_waiting\<close>). Work that stays on the scheduler's
  thread is in the theory of the executor.

  The scheduler's stores to \<open>waiting\<close> and \<open>interrupt_pending\<close> have release ordering, which on a
  machine with store buffers is a plain store. The parameter \<open>tso\<close> chooses the memory: without
  it every store is visible at once (sequential consistency); with it these stores go through
  the scheduler's store buffer, which drains in order at any time and is empty whenever the
  scheduler performs a read-modify-write or a fence (the swap of \<open>take_ready\<close>, the pop of the
  remote queue, and cloning the task's \<open>Arc\<close> before a poll).
\<close>

datatype store = StoreWaiting bool | StorePending bool

datatype sched_pc =
    TakeReady
  | DrainRemote bool
  | MarkDequeued nat
  | RecheckRoot
  | ResetPending
  | SetWaiting
  | CheckRoot
  | CheckQueue
  | DriverWait
  | ClearWaiting
  | ClearPending

datatype wake_pc = Idle | PushTask nat | LoadWaiting | SwapPending | Interrupting

record proto =
  p_pc :: sched_pc
  p_queue :: "nat list"
  p_queued :: "nat \<Rightarrow> bool"
  p_ready :: bool
  p_waiting :: bool
  p_pending :: bool
  p_signal :: bool
  p_buffer :: "store list"
  p_wakers :: "nat \<Rightarrow> wake_pc"

definition proto_init :: proto where
  "proto_init = \<lparr>p_pc = TakeReady, p_queue = [], p_queued = (\<lambda>_. False), p_ready = True,
     p_waiting = False, p_pending = False, p_signal = False, p_buffer = [], p_wakers = (\<lambda>_. Idle)\<rparr>"

fun commit :: "store \<Rightarrow> proto \<Rightarrow> proto" where
  "commit (StoreWaiting b) s = s\<lparr>p_waiting := b\<rparr>"
| "commit (StorePending b) s = s\<lparr>p_pending := b\<rparr>"

definition do_store :: "bool \<Rightarrow> store \<Rightarrow> proto \<Rightarrow> proto" where
  "do_store tso w s = (if tso then s\<lparr>p_buffer := p_buffer s @ [w]\<rparr> else commit w s)"

abbreviation set_waker :: "nat \<Rightarrow> wake_pc \<Rightarrow> proto \<Rightarrow> proto" where
  "set_waker k w s \<equiv> s\<lparr>p_wakers := (p_wakers s)(k := w)\<rparr>"

inductive proto_step :: "bool \<Rightarrow> proto \<Rightarrow> proto \<Rightarrow> bool" for tso where
  flush_store: "p_buffer s = w # ws \<Longrightarrow> proto_step tso s (commit w (s\<lparr>p_buffer := ws\<rparr>))"
| take_ready: "p_pc s = TakeReady \<Longrightarrow> p_buffer s = [] \<Longrightarrow>
    proto_step tso s (s\<lparr>p_pc := DrainRemote False, p_ready := False\<rparr>)"
| pop_task: "p_pc s = DrainRemote got \<Longrightarrow> p_buffer s = [] \<Longrightarrow> p_queue s = i # q \<Longrightarrow>
    proto_step tso s (s\<lparr>p_pc := MarkDequeued i, p_queue := q\<rparr>)"
| mark_dequeued: "p_pc s = MarkDequeued i \<Longrightarrow>
    proto_step tso s (s\<lparr>p_pc := DrainRemote True, p_queued := (p_queued s)(i := False)\<rparr>)"
| run_batch: "p_pc s = DrainRemote True \<Longrightarrow> p_buffer s = [] \<Longrightarrow> proto_step tso s (s\<lparr>p_pc := TakeReady\<rparr>)"
| batch_empty: "p_pc s = DrainRemote False \<Longrightarrow> p_buffer s = [] \<Longrightarrow> p_queue s = [] \<Longrightarrow>
    proto_step tso s (s\<lparr>p_pc := RecheckRoot\<rparr>)"
| recheck_root: "p_pc s = RecheckRoot \<Longrightarrow>
    proto_step tso s (s\<lparr>p_pc := (if p_ready s then TakeReady else ResetPending)\<rparr>)"
| reset_pending: "p_pc s = ResetPending \<Longrightarrow>
    proto_step tso s (do_store tso (StorePending False) (s\<lparr>p_pc := SetWaiting\<rparr>))"
| set_waiting: "p_pc s = SetWaiting \<Longrightarrow>
    proto_step tso s (do_store tso (StoreWaiting True) (s\<lparr>p_pc := CheckRoot\<rparr>))"
| check_root: "p_pc s = CheckRoot \<Longrightarrow>
    proto_step tso s (s\<lparr>p_pc := (if p_ready s then ClearWaiting else CheckQueue)\<rparr>)"
| check_queue: "p_pc s = CheckQueue \<Longrightarrow>
    proto_step tso s (s\<lparr>p_pc := (if p_queue s \<noteq> [] then ClearWaiting else DriverWait)\<rparr>)"
| interrupted: "p_pc s = DriverWait \<Longrightarrow> p_signal s \<Longrightarrow>
    proto_step tso s (s\<lparr>p_pc := ClearWaiting, p_signal := False\<rparr>)"
| driver_event: "p_pc s = DriverWait \<Longrightarrow> proto_step tso s (s\<lparr>p_pc := ClearWaiting\<rparr>)"
| clear_waiting: "p_pc s = ClearWaiting \<Longrightarrow>
    proto_step tso s (do_store tso (StoreWaiting False) (s\<lparr>p_pc := ClearPending\<rparr>))"
| clear_pending: "p_pc s = ClearPending \<Longrightarrow>
    proto_step tso s (do_store tso (StorePending False) (s\<lparr>p_pc := TakeReady\<rparr>))"
| flush_driver: "p_pc s = TakeReady \<Longrightarrow> proto_step tso s (s\<lparr>p_signal := False\<rparr>)"
| wake_root: "p_wakers s k = Idle \<Longrightarrow>
    proto_step tso s (set_waker k LoadWaiting (s\<lparr>p_ready := True\<rparr>))"
| wake_task: "p_wakers s k = Idle \<Longrightarrow>
    proto_step tso s (set_waker k (if p_queued s i then LoadWaiting else PushTask i)
      (s\<lparr>p_queued := (p_queued s)(i := True)\<rparr>))"
| push_task: "p_wakers s k = PushTask i \<Longrightarrow>
    proto_step tso s (set_waker k LoadWaiting (s\<lparr>p_queue := p_queue s @ [i]\<rparr>))"
| load_waiting: "p_wakers s k = LoadWaiting \<Longrightarrow>
    proto_step tso s (set_waker k (if p_waiting s then SwapPending else Idle) s)"
| swap_pending: "p_wakers s k = SwapPending \<Longrightarrow>
    proto_step tso s (set_waker k (if p_pending s then Idle else Interrupting) (s\<lparr>p_pending := True\<rparr>))"
| interrupt_driver: "p_wakers s k = Interrupting \<Longrightarrow>
    proto_step tso s (set_waker k Idle (s\<lparr>p_signal := True\<rparr>))"

inductive proto_reach :: "bool \<Rightarrow> proto \<Rightarrow> bool" for tso where
  proto_start: "proto_reach tso proto_init"
| proto_next: "proto_reach tso s \<Longrightarrow> proto_step tso s s' \<Longrightarrow> proto_reach tso s'"

section \<open>The invariant under sequential consistency\<close>

definition in_flight :: "proto \<Rightarrow> wake_pc set \<Rightarrow> bool" where
  "in_flight s W \<longleftrightarrow> (\<exists>k. p_wakers s k \<in> W)"

text \<open>
  An announced wait is visible; a pending interrupt after the reset has a signal or an
  interrupting waker behind it; runnable work the scheduler's checks have passed over has a
  signal or a waker that is still to signal; queued flags are accounted for.
\<close>

definition announced :: "proto \<Rightarrow> bool" where
  "announced s \<longleftrightarrow> (p_pc s \<in> {CheckRoot, CheckQueue, DriverWait} \<longrightarrow> p_waiting s)"

definition backed :: "proto \<Rightarrow> bool" where
  "backed s \<longleftrightarrow> (p_pc s \<in> {SetWaiting, CheckRoot, CheckQueue, DriverWait} \<and> p_pending s \<longrightarrow>
     p_signal s \<or> in_flight s {Interrupting})"

definition covered :: "proto \<Rightarrow> bool" where
  "covered s \<longleftrightarrow>
     (p_pc s \<in> {CheckQueue, DriverWait} \<and> p_ready s \<or> p_pc s = DriverWait \<and> p_queue s \<noteq> [] \<longrightarrow>
        p_signal s \<or> in_flight s {LoadWaiting, SwapPending, Interrupting})"

definition accounted :: "proto \<Rightarrow> bool" where
  "accounted s \<longleftrightarrow> (\<forall>i. p_queued s i \<longrightarrow> i \<in> set (p_queue s) \<or> p_pc s = MarkDequeued i \<or>
     in_flight s {PushTask i})"

definition proto_inv :: "proto \<Rightarrow> bool" where
  "proto_inv s \<longleftrightarrow> p_buffer s = [] \<and> announced s \<and> backed s \<and> covered s \<and> accounted s"

lemmas proto_defs = announced_def backed_def covered_def accounted_def in_flight_def

lemma proto_inv_init: "proto_inv proto_init"
  by (simp add: proto_inv_def proto_defs proto_init_def)

lemma in_flight_new: "p_wakers s' = (p_wakers s)(k := w) \<Longrightarrow> w \<in> W \<Longrightarrow> in_flight s' W"
  unfolding in_flight_def by (rule exI[of _ k]) simp

lemma in_flight_keep:
  assumes "p_wakers s' = (p_wakers s)(k := w)" and "in_flight s W"
  shows "in_flight s' W \<or> p_wakers s k \<in> W"
  using assms unfolding in_flight_def by (metis fun_upd_other)

lemma in_flight_frame [simp]:
  "in_flight (s\<lparr>p_pc := a\<rparr>) W = in_flight s W" "in_flight (s\<lparr>p_queue := q\<rparr>) W = in_flight s W"
  "in_flight (s\<lparr>p_queued := f\<rparr>) W = in_flight s W" "in_flight (s\<lparr>p_ready := b\<rparr>) W = in_flight s W"
  "in_flight (s\<lparr>p_waiting := b\<rparr>) W = in_flight s W" "in_flight (s\<lparr>p_pending := b\<rparr>) W = in_flight s W"
  "in_flight (s\<lparr>p_signal := b\<rparr>) W = in_flight s W" "in_flight (s\<lparr>p_buffer := c\<rparr>) W = in_flight s W"
  by (simp_all add: in_flight_def)

lemmas flags = proto_inv_def announced_def backed_def covered_def accounted_def do_store_def

text \<open>The three groups of wakers the invariant counts.\<close>

abbreviation late :: "wake_pc set" where
  "late \<equiv> {LoadWaiting, SwapPending, Interrupting}"

lemma proto_inv_waker:
  assumes inv: "proto_inv s" and w: "p_wakers s' = (p_wakers s)(k := w)"
    and same: "p_buffer s' = p_buffer s" "p_pc s' = p_pc s" "p_waiting s' = p_waiting s"
    and mono: "p_signal s \<Longrightarrow> p_signal s'" "p_pending s \<Longrightarrow> p_pending s'" "set (p_queue s) \<subseteq> set (p_queue s')"
    and int: "p_wakers s k = Interrupting \<Longrightarrow> p_signal s'"
    and lat: "p_wakers s k \<in> late \<Longrightarrow> w \<in> late \<or> p_signal s' \<or> \<not> p_waiting s \<or> p_pending s"
    and work: "p_ready s' \<noteq> p_ready s \<or> p_queue s' \<noteq> p_queue s \<Longrightarrow> w \<in> late"
    and pend: "\<not> p_pending s \<Longrightarrow> p_pending s' \<Longrightarrow> w = Interrupting"
    and queued: "\<And>i. p_queued s' i \<Longrightarrow> p_queued s i \<or> w = PushTask i"
    and push: "\<And>i. p_wakers s k = PushTask i \<Longrightarrow> i \<in> set (p_queue s')"
  shows "proto_inv s'"
proof -
  have i: "announced s" "backed s" "covered s" "accounted s" using inv by (simp_all add: proto_inv_def)
  have int': "p_signal s' \<or> in_flight s' {Interrupting}" if "p_signal s \<or> in_flight s {Interrupting}"
    using that in_flight_keep[OF w, of "{Interrupting}"] int mono(1) by auto
  have up: "in_flight s' late" if "in_flight s' {Interrupting}" using that by (auto simp: in_flight_def)
  have "announced s'" using i(1) by (simp add: announced_def same)
  moreover have b: "backed s'"
  proof (cases "p_pending s")
    case True
    then show ?thesis using i(2) int' unfolding backed_def same by blast
  next
    case False
    then show ?thesis using pend in_flight_new[OF w, of "{Interrupting}"] by (auto simp: backed_def)
  qed
  moreover have "covered s'"
  proof (cases "w \<in> late")
    case True
    then show ?thesis using in_flight_new[OF w] by (simp add: covered_def)
  next
    case False
    then have same': "p_ready s' = p_ready s" "p_queue s' = p_queue s" using work by blast+
    have "p_signal s' \<or> in_flight s' late"
      if "p_pc s \<in> {CheckQueue, DriverWait}" "p_signal s \<or> in_flight s late"
    proof (cases "in_flight s' late")
      case nl: False
      have "p_waiting s" using i(1) that(1) by (auto simp: announced_def)
      then have "p_signal s' \<or> p_pending s"
        using that(2) nl in_flight_keep[OF w, of late] lat False mono(1) by blast
      moreover have "p_signal s' \<or> in_flight s' late" if "p_pending s"
        using b \<open>p_pc s \<in> {CheckQueue, DriverWait}\<close> mono(2)[OF that] up unfolding backed_def same by blast
      ultimately show ?thesis by blast
    qed simp
    then show ?thesis using i(3) unfolding covered_def same same' by blast
  qed
  moreover have "accounted s'"
    unfolding accounted_def same
  proof (intro allI impI)
    fix i assume "p_queued s' i"
    then consider "w = PushTask i" | "p_queued s i" using queued by blast
    then show "i \<in> set (p_queue s') \<or> p_pc s = MarkDequeued i \<or> in_flight s' {PushTask i}"
    proof cases
      case 1
      then show ?thesis using in_flight_new[OF w, of "{PushTask i}"] by simp
    next
      case 2
      then show ?thesis using i(4) in_flight_keep[OF w, of "{PushTask i}"] push mono(3)
        unfolding accounted_def by blast
    qed
  qed
  ultimately show ?thesis using inv by (simp add: proto_inv_def same)
qed

lemma proto_inv_step:
  assumes "proto_step False s s'" and "proto_inv s"
  shows "proto_inv s'"
  using assms(1)
proof cases
  case (wake_root k)
  then show ?thesis by (intro proto_inv_waker[OF assms(2), of _ k LoadWaiting]) auto
next
  case (wake_task k i)
  then show ?thesis
    by (intro proto_inv_waker[OF assms(2), of _ k "if p_queued s i then LoadWaiting else PushTask i"])
      (auto split: if_splits)
next
  case (push_task k i)
  then show ?thesis by (intro proto_inv_waker[OF assms(2), of _ k LoadWaiting]) auto
next
  case (load_waiting k)
  then show ?thesis
    by (intro proto_inv_waker[OF assms(2), of _ k "if p_waiting s then SwapPending else Idle"]) auto
next
  case (swap_pending k)
  then show ?thesis
    by (intro proto_inv_waker[OF assms(2), of _ k "if p_pending s then Idle else Interrupting"]) auto
next
  case (interrupt_driver k)
  then show ?thesis by (intro proto_inv_waker[OF assms(2), of _ k Idle]) auto
qed (use assms(2) in \<open>auto simp: flags\<close>)

lemma proto_reach_inv: "proto_reach False s \<Longrightarrow> proto_inv s"
  by (induction rule: proto_reach.induct) (auto intro: proto_inv_init proto_inv_step)

section \<open>No lost wake-up, and what the memory order leaves open\<close>

text \<open>
  C1: No lost wake-up under sequential consistency. Whenever the scheduler is blocked in the
  driver wait with no interrupt signalled and every waker on another thread has finished, the
  remote queue is empty, no task is marked queued and the root future is not marked ready: every
  interleaving of any number of wakers with the scheduler's loop delivers each wake.
\<close>

theorem no_lost_wakeup:
  assumes "proto_reach False s" and "p_pc s = DriverWait" and "\<not> p_signal s"
    and "\<And>k. p_wakers s k = Idle"
  shows "p_queue s = [] \<and> \<not> p_ready s \<and> (\<forall>i. \<not> p_queued s i)"
proof -
  have "proto_inv s" by (rule proto_reach_inv[OF assms(1)])
  then have c: "covered s" and a: "accounted s" by (simp_all add: proto_inv_def)
  have none: "\<not> in_flight s W" if "Idle \<notin> W" for W using assms(4) that by (simp add: in_flight_def)
  have q: "p_queue s = []" and r: "\<not> p_ready s"
    using c none[of late] assms(2,3) unfolding covered_def by auto
  then show ?thesis using a none assms(2) unfolding accounted_def by auto
qed

text \<open>A run in which the scheduler, with nothing to do, reaches the driver wait.\<close>

definition idle_wait :: "bool \<Rightarrow> proto" where
  "idle_wait tso = proto_init\<lparr>p_pc := DriverWait, p_ready := False, p_waiting := \<not> tso,
     p_buffer := (if tso then [StorePending False, StoreWaiting True] else [])\<rparr>"

lemmas idle_wait_eval = idle_wait_def proto_init_def do_store_def

lemma reach_wait: "proto_reach tso (idle_wait tso)"
proof -
  have "proto_reach tso (proto_init\<lparr>p_pc := DrainRemote False, p_ready := False\<rparr>)"
    by (rule proto_next[OF proto_start take_ready]) (simp_all add: idle_wait_eval)
  from proto_next[OF this batch_empty] have "proto_reach tso (proto_init\<lparr>p_pc := RecheckRoot, p_ready := False\<rparr>)"
    by (simp add: idle_wait_eval)
  from proto_next[OF this recheck_root] have "proto_reach tso (proto_init\<lparr>p_pc := ResetPending, p_ready := False\<rparr>)"
    by (simp add: idle_wait_eval)
  from proto_next[OF this reset_pending]
  have "proto_reach tso (proto_init\<lparr>p_pc := SetWaiting, p_ready := False,
      p_buffer := (if tso then [StorePending False] else [])\<rparr>)"
    by (auto simp: idle_wait_eval split: if_splits)
  from proto_next[OF this set_waiting] have "proto_reach tso ((idle_wait tso)\<lparr>p_pc := CheckRoot\<rparr>)"
    by (auto simp: idle_wait_eval split: if_splits)
  from proto_next[OF this check_root] have "proto_reach tso ((idle_wait tso)\<lparr>p_pc := CheckQueue\<rparr>)"
    by (simp add: idle_wait_eval)
  from proto_next[OF this check_queue] show ?thesis by (simp add: idle_wait_eval)
qed

theorem no_lost_wakeup_witness:
  "p_queue (idle_wait False) = [] \<and> \<not> p_ready (idle_wait False) \<and> (\<forall>i. \<not> p_queued (idle_wait False) i)"
  by (rule no_lost_wakeup[OF reach_wait]) (simp_all add: idle_wait_eval)

text \<open>
  C36: With store buffers a wake can be lost. The store of \<open>waiting\<close> is a release store and the
  loads of \<open>should_skip_wait\<close> that follow it may be performed before it is visible: the
  scheduler finds the remote queue empty, a waker then pushes a task and still reads \<open>waiting\<close>
  as false, so it does not interrupt. The scheduler then blocks in the driver wait with a task
  in its queue, no signal, no waker in flight and every store visible.
\<close>

theorem store_buffer_loses_wakeup:
  "\<exists>s. proto_reach True s \<and> p_pc s = DriverWait \<and> p_queue s = [7] \<and> p_queued s 7 \<and>
     \<not> p_signal s \<and> p_buffer s = [] \<and> p_waiting s \<and> (\<forall>k. p_wakers s k = Idle)"
proof -
  let ?s = "(idle_wait True)\<lparr>p_queued := (\<lambda>_. False)(7 := True)\<rparr>"
  have "proto_reach True (set_waker 0 (PushTask 7) ?s)"
    using proto_next[OF reach_wait[of True] wake_task[of _ 0 _ 7]] by (simp add: idle_wait_eval)
  from proto_next[OF this push_task[of _ 0 7]]
  have "proto_reach True (set_waker 0 LoadWaiting (?s\<lparr>p_queue := [7]\<rparr>))" by (simp add: idle_wait_eval)
  from proto_next[OF this load_waiting[of _ 0]]
  have "proto_reach True (set_waker 0 Idle (?s\<lparr>p_queue := [7]\<rparr>))" by (simp add: idle_wait_eval)
  from proto_next[OF this flush_store[of _ "StorePending False"]]
  have "proto_reach True (set_waker 0 Idle (?s\<lparr>p_queue := [7], p_buffer := [StoreWaiting True]\<rparr>))"
    by (simp add: idle_wait_eval)
  from proto_next[OF this flush_store[of _ "StoreWaiting True"]] show ?thesis
    by (intro exI conjI) (assumption | simp add: idle_wait_eval)+
qed

end
