(* ===== verification/Driver_Base.thy ===== *)
theory Driver_Base
  imports Slab Executor
begin

text \<open>
  What the drivers share (\<open>driver/mod.rs\<close>): interests, registration modes, the outcome of a
  completion submission and the default errors of the \<open>Driver\<close> trait. Operating-system and
  \<open>mio\<close> calls are not in the sources: their answers are arguments of the operations.
\<close>

text \<open>\<open>mio::Interest\<close> is a non-empty set; the sources use its readable and writable members.\<close>

datatype interest = READABLE | WRITABLE | READ_WRITE

fun is_readable :: "interest \<Rightarrow> bool" where
  "is_readable READABLE = True" | "is_readable WRITABLE = False" | "is_readable READ_WRITE = True"

fun is_writable :: "interest \<Rightarrow> bool" where
  "is_writable READABLE = False" | "is_writable WRITABLE = True" | "is_writable READ_WRITE = True"

definition interest_add :: "interest \<Rightarrow> interest \<Rightarrow> interest" where
  "interest_add a b = (if a = b then a else READ_WRITE)"

lemma interest_add_simps [simp]:
  "is_readable (interest_add a b) \<longleftrightarrow> is_readable a \<or> is_readable b"
  "is_writable (interest_add a b) \<longleftrightarrow> is_writable a \<or> is_writable b"
  by (cases a; cases b; simp add: interest_add_def)+

type_synonym token = usize
type_synonym raw_fd = nat

datatype registration_mode = PollMode | CompletionMode

datatype completion_io_result = CompletionOk int | Retry token | SubmitErr io_error

definition unsupported_completion_error :: io_error where
  "unsupported_completion_error = Simple Unsupported"

definition unsupported_poll_error :: io_error where
  "unsupported_poll_error = Simple Unsupported"

text \<open>An operating-system call that returns nothing on success.\<close>

type_synonym os_answer = "io_error option"

definition update_waiter :: "waker option \<Rightarrow> waker \<Rightarrow> waker option" where
  "update_waiter slot w = update_waker_slot slot w"

lemma update_waiter_eq [simp]: "update_waiter slot w = Some w"
  by (cases slot) (simp_all add: update_waiter_def update_waker_slot_def)

section \<open>What operations rely on\<close>

text \<open>
  The contract of \<open>submit_poll\<close>: \<open>waits d k dir\<close> is the waker that the driver state \<open>d\<close> holds for
  handle \<open>k\<close> in one direction (true for writing). A successful submission for one direction
  stores the waker in this slot; no submission touches another slot. Both drivers have these
  laws, and so has the driver a runtime is built with.
\<close>

locale poll_driver =
  fixes waits :: "'d \<Rightarrow> token \<Rightarrow> bool \<Rightarrow> waker option"
    and submit :: "os_answer \<Rightarrow> token \<Rightarrow> waker \<Rightarrow> interest \<Rightarrow> 'd \<Rightarrow> unit io_result \<times> 'd"
  assumes submit_stores: "submit ans k w want d = (Inr u, d') \<Longrightarrow> want \<noteq> READ_WRITE \<Longrightarrow>
      waits d' k (is_writable want) = Some w"
    and submit_other: "submit ans k w want d = (res, d') \<Longrightarrow> want \<noteq> READ_WRITE \<Longrightarrow>
      (k', dir) \<noteq> (k, is_writable want) \<Longrightarrow> waits d' k' dir = waits d k' dir"
begin

lemma submissions_other:
  assumes "\<And>a k w i. (a, k, w, i) \<in> set xs \<Longrightarrow> i \<noteq> READ_WRITE \<and> (k', dir) \<noteq> (k, is_writable i)"
  shows "waits (fold (\<lambda>(a, k, w, i) d. snd (submit a k w i d)) xs d) k' dir = waits d k' dir"
  using assms
proof (induction xs arbitrary: d)
  case (Cons x xs)
  obtain a k w i where x: "x = (a, k, w, i)" by (metis prod_cases4)
  have "waits (snd (submit a k w i d)) k' dir = waits d k' dir"
    using submit_other[OF prod.collapse[symmetric]] Cons.prems[of a k w i] x by simp
  moreover have "waits (fold (\<lambda>(a, k, w, i) d. snd (submit a k w i d)) xs (snd (submit a k w i d))) k' dir =
      waits (snd (submit a k w i d)) k' dir"
    by (rule Cons.IH) (rule Cons.prems, erule list.set_intros(2))
  ultimately show ?case by (simp add: x)
qed simp

lemma last_submitter_waits:
  assumes "submit ans k w want d = (Inr u, d')" and "want \<noteq> READ_WRITE"
    and "\<And>a k' w' i. (a, k', w', i) \<in> set xs \<Longrightarrow> i \<noteq> READ_WRITE \<and> (k, is_writable want) \<noteq> (k', is_writable i)"
  shows "waits (fold (\<lambda>(a, k, w, i) d. snd (submit a k w i d)) xs d') k (is_writable want) = Some w"
  using submissions_other[of xs k "is_writable want" d', OF assms(3)] submit_stores[OF assms(1,2)] by simp

end

end
