(* ===== verification/Driver_Mio.thy ===== *)
theory Driver_Mio
  imports Driver_Base
begin

text \<open>
  The readiness driver (\<open>driver/mio.rs\<close>). A registration keeps one waker per direction and the
  interest it last armed. \<open>md_armed\<close> records what the driver asked the poller for, the last
  successful \<open>register\<close> or \<open>reregister\<close> call of each token, so that the proofs can say which
  events the kernel was told to report.
\<close>

record registration =
  r_fd :: raw_fd
  waiter_read :: "waker option"
  waiter_write :: "waker option"
  r_interest :: "interest option"

record 's mio_driver =
  md_regs :: 's
  md_waiter_count :: usize
  md_armed :: "token \<Rightarrow> interest option"

type_synonym 's reg_ops = "('s, registration) slab_ops"

record mio_event =
  ev_token :: token
  ev_readable :: bool
  ev_read_closed :: bool
  ev_writable :: bool
  ev_write_closed :: bool
  ev_error :: bool

text \<open>The interrupt event of \<open>MioWaker\<close> carries the token \<open>usize::MAX\<close>.\<close>

definition interrupt_token :: token where
  "interrupt_token = 2 ^ 64 - 1"

definition mio_new :: "'s reg_ops \<Rightarrow> 's mio_driver" where
  "mio_new ops = \<lparr>md_regs = sl_new ops, md_waiter_count = 0, md_armed = Map.empty\<rparr>"

definition interest_contains :: "interest \<Rightarrow> interest \<Rightarrow> bool" where
  "interest_contains current needed \<longleftrightarrow>
     (\<not> is_readable needed \<or> is_readable current) \<and> (\<not> is_writable needed \<or> is_writable current)"

definition register_handle ::
  "'s reg_ops \<Rightarrow> os_answer \<Rightarrow> raw_fd \<Rightarrow> interest \<Rightarrow> 's mio_driver \<Rightarrow> token io_result \<times> 's mio_driver" where
  "register_handle ops ans fd want d =
     (let k = sl_vacant_key ops (md_regs d);
          regs = sl_insert ops (md_regs d)
            \<lparr>r_fd = fd, waiter_read = None, waiter_write = None, r_interest = Some want\<rparr>
      in case ans of
           Some err \<Rightarrow> (Inl err, d\<lparr>md_regs := sl_remove ops regs k\<rparr>)
         | None \<Rightarrow> (Inr k, d\<lparr>md_regs := regs, md_armed := (md_armed d)(k \<mapsto> want)\<rparr>))"

definition reregister_handle ::
  "'s reg_ops \<Rightarrow> os_answer \<Rightarrow> token \<Rightarrow> interest \<Rightarrow> 's mio_driver \<Rightarrow> unit io_result \<times> 's mio_driver" where
  "reregister_handle ops ans k want d =
     (case sl_get ops (md_regs d) k of
        None \<Rightarrow> (Inl (Simple NotFound), d)
      | Some r \<Rightarrow>
          (case ans of
             Some err \<Rightarrow> (Inl err, d)
           | None \<Rightarrow> (Inr (), d\<lparr>md_regs := sl_set ops (md_regs d) k (r\<lparr>r_interest := Some want\<rparr>),
                                md_armed := (md_armed d)(k \<mapsto> want)\<rparr>)))"

text \<open>The number of wakers a registration holds; \<open>usize\<close> subtraction wraps.\<close>

definition n_waiters :: "registration \<Rightarrow> nat" where
  "n_waiters r = (if waiter_read r = None then 0 else 1) + (if waiter_write r = None then 0 else 1)"

definition count_sub :: "usize \<Rightarrow> usize \<Rightarrow> usize" where
  "count_sub a b = (if b \<le> a then a - b else U64_LIMIT + a - b)"

definition deregister_handle ::
  "'s reg_ops \<Rightarrow> os_answer \<Rightarrow> token \<Rightarrow> 's mio_driver \<Rightarrow> unit io_result \<times> 's mio_driver" where
  "deregister_handle ops ans k d =
     (case sl_get ops (md_regs d) k of
        None \<Rightarrow> (Inl (Simple NotFound), d)
      | Some r \<Rightarrow>
          (case ans of
             Some err \<Rightarrow> (Inl err, d)
           | None \<Rightarrow> (Inr (), d\<lparr>md_regs := sl_remove ops (md_regs d) k,
                                md_waiter_count := count_sub (md_waiter_count d) (n_waiters r),
                                md_armed := (md_armed d)(k := None)\<rparr>)))"

text \<open>
  The interest \<open>submit_poll\<close> needs armed: what is asked for now and what still has a waiter.
\<close>

definition wanted_interest :: "registration \<Rightarrow> interest \<Rightarrow> interest" where
  "wanted_interest r want =
     (let w1 = (if waiter_read r \<noteq> None then interest_add want READABLE else want)
      in if waiter_write r \<noteq> None then interest_add w1 WRITABLE else w1)"

definition set_waiters :: "interest \<Rightarrow> waker \<Rightarrow> registration \<Rightarrow> registration" where
  "set_waiters want w r =
     (let r1 = (if is_writable want then r\<lparr>waiter_write := update_waiter (waiter_write r) w\<rparr> else r)
      in if is_readable want then r1\<lparr>waiter_read := update_waiter (waiter_read r1) w\<rparr> else r1)"

definition new_waiters :: "interest \<Rightarrow> registration \<Rightarrow> nat" where
  "new_waiters want r = (if is_writable want \<and> waiter_write r = None then 1 else 0) +
     (if is_readable want \<and> waiter_read r = None then 1 else 0)"

definition submit_poll ::
  "'s reg_ops \<Rightarrow> os_answer \<Rightarrow> token \<Rightarrow> waker \<Rightarrow> interest \<Rightarrow> 's mio_driver \<Rightarrow> unit io_result \<times> 's mio_driver" where
  "submit_poll ops ans k w want d =
     (case sl_get ops (md_regs d) k of
        None \<Rightarrow> (Inl (Simple NotFound), d)
      | Some r \<Rightarrow>
          (let wanted = wanted_interest r want;
               rearm = (case r_interest r of None \<Rightarrow> True | Some i \<Rightarrow> \<not> interest_contains i wanted);
               r1 = (if rearm then r\<lparr>r_interest := Some wanted\<rparr> else r);
               armed = (if rearm then (md_armed d)(k \<mapsto> wanted) else md_armed d)
           in case (if rearm then ans else None) of
                Some err \<Rightarrow> (Inl err, d)
              | None \<Rightarrow> (Inr (), d\<lparr>md_regs := sl_set ops (md_regs d) k (set_waiters want w r1),
                                   md_waiter_count := u64_add (md_waiter_count d) (new_waiters want r1),
                                   md_armed := armed\<rparr>)))"

text \<open>The body of the event loop of \<open>wait_timeout\<close>; the woken wakers in order.\<close>

definition read_ready :: "mio_event \<Rightarrow> bool" where
  "read_ready e \<longleftrightarrow> ev_readable e \<or> ev_read_closed e \<or> ev_error e"

definition write_ready :: "mio_event \<Rightarrow> bool" where
  "write_ready e \<longleftrightarrow> ev_writable e \<or> ev_write_closed e \<or> ev_error e"

definition woken_by :: "mio_event \<Rightarrow> registration \<Rightarrow> waker list" where
  "woken_by e r =
     (if read_ready e then case waiter_read r of None \<Rightarrow> [] | Some w \<Rightarrow> [w] else []) @
     (if write_ready e then case waiter_write r of None \<Rightarrow> [] | Some w \<Rightarrow> [w] else [])"

definition after_event :: "mio_event \<Rightarrow> registration \<Rightarrow> registration" where
  "after_event e r = r\<lparr>r_interest := None,
     waiter_read := (if read_ready e then None else waiter_read r),
     waiter_write := (if write_ready e then None else waiter_write r)\<rparr>"

definition handle_event ::
  "'s reg_ops \<Rightarrow> mio_event \<Rightarrow> 's mio_driver \<Rightarrow> waker list \<times> 's mio_driver" where
  "handle_event ops e d =
     (if ev_token e = interrupt_token then ([], d)
      else case sl_get ops (md_regs d) (ev_token e) of
             None \<Rightarrow> ([], d)
           | Some r \<Rightarrow>
               (woken_by e r, d\<lparr>md_regs := sl_set ops (md_regs d) (ev_token e) (after_event e r),
                  md_waiter_count := count_sub (md_waiter_count d) (length (woken_by e r))\<rparr>))"

fun handle_events ::
  "'s reg_ops \<Rightarrow> mio_event list \<Rightarrow> 's mio_driver \<Rightarrow> waker list \<times> 's mio_driver" where
  "handle_events ops [] d = ([], d)"
| "handle_events ops (e # es) d =
     (let (ws, d1) = handle_event ops e d; (ws', d2) = handle_events ops es d1 in (ws @ ws', d2))"

text \<open>
  \<open>wait_timeout\<close> with the answer of \<open>Poll::poll\<close>: an error other than an interruption is a
  panic (\<open>None\<close>), and an interrupted poll reports no events.
\<close>

definition wait_timeout ::
  "'s reg_ops \<Rightarrow> mio_event list io_result \<Rightarrow> 's mio_driver \<Rightarrow> (waker list \<times> 's mio_driver) option" where
  "wait_timeout ops ans d =
     (case ans of
        Inr es \<Rightarrow> Some (handle_events ops es d)
      | Inl err \<Rightarrow> if kind_of err = Interrupted then Some ([], d) else None)"

definition should_flush :: "'s mio_driver \<Rightarrow> bool" where
  "should_flush d \<longleftrightarrow> 0 < md_waiter_count d"

section \<open>Reachable driver states\<close>

text \<open>
  The calls the runtime makes. \<open>reregister_handle\<close> has no caller in the crate; it replaces the
  armed interest whoever waits, so it is left out of the relation on purpose.
\<close>

inductive mio_step :: "'s reg_ops \<Rightarrow> 's mio_driver \<Rightarrow> waker list \<Rightarrow> 's mio_driver \<Rightarrow> bool" for ops where
  mio_register: "register_handle ops ans fd want d = (res, d') \<Longrightarrow> mio_step ops d [] d'"
| mio_deregister: "deregister_handle ops ans k d = (res, d') \<Longrightarrow> mio_step ops d [] d'"
| mio_submit: "submit_poll ops ans k w want d = (res, d') \<Longrightarrow> md_waiter_count d + 2 < U64_LIMIT \<Longrightarrow>
    mio_step ops d [] d'"
| mio_wait: "wait_timeout ops evs d = Some (ws, d') \<Longrightarrow> mio_step ops d ws d'"

inductive mio_reach :: "'s reg_ops \<Rightarrow> 's mio_driver \<Rightarrow> bool" for ops where
  mio_start: "mio_reach ops (mio_new ops)"
| mio_next: "mio_reach ops d \<Longrightarrow> mio_step ops d ws d' \<Longrightarrow> mio_reach ops d'"

section \<open>Invariants\<close>

text \<open>
  The waiter count is exact, the cached interest is the armed one, and what has a waiter is
  armed.
\<close>

definition total_waiters :: "'s reg_ops \<Rightarrow> 's \<Rightarrow> nat" where
  "total_waiters ops s = (\<Sum>k \<in> dom (sl_get ops s). n_waiters (the (sl_get ops s k)))"

definition covers :: "interest option \<Rightarrow> registration \<Rightarrow> bool" where
  "covers a r \<longleftrightarrow>
     (waiter_read r \<noteq> None \<longrightarrow> (\<exists>i. a = Some i \<and> is_readable i)) \<and>
     (waiter_write r \<noteq> None \<longrightarrow> (\<exists>i. a = Some i \<and> is_writable i)) \<and>
     (\<forall>i. r_interest r = Some i \<longrightarrow> a = Some i)"

definition mio_inv :: "'s reg_ops \<Rightarrow> 's mio_driver \<Rightarrow> bool" where
  "mio_inv ops d \<longleftrightarrow> md_waiter_count d = total_waiters ops (md_regs d) \<and>
     total_waiters ops (md_regs d) < U64_LIMIT \<and>
     (\<forall>k r. sl_get ops (md_regs d) k = Some r \<longrightarrow> covers (md_armed d k) r)"

lemma count_sub_exact [simp]: "b \<le> a \<Longrightarrow> count_sub a b = a - b"
  by (simp add: count_sub_def)

lemma n_waiters_set: "n_waiters (set_waiters want w r) = n_waiters r + new_waiters want r"
  by (cases want) (auto simp: set_waiters_def n_waiters_def new_waiters_def Let_def)

lemma new_waiters_le: "new_waiters want r \<le> 2"
  by (simp add: new_waiters_def)

lemma n_waiters_after: "n_waiters (after_event e r) = n_waiters r - length (woken_by e r)"
  and woken_le: "length (woken_by e r) \<le> n_waiters r"
  by (auto simp: after_event_def woken_by_def n_waiters_def split: option.splits)

lemma sum_fun_upd:
  fixes m :: "nat \<rightharpoonup> registration"
  assumes "finite (dom m)" and "m k = Some r"
  shows "(\<Sum>j \<in> dom (m(k \<mapsto> r')). n_waiters (the ((m(k \<mapsto> r')) j))) + n_waiters r =
    (\<Sum>j \<in> dom m. n_waiters (the (m j))) + n_waiters r'"
proof -
  have k: "k \<in> dom m" using assms(2) by auto
  have "(\<Sum>j \<in> dom m. n_waiters (the ((m(k \<mapsto> r')) j))) =
      n_waiters r' + (\<Sum>j \<in> dom m - {k}. n_waiters (the (m j)))"
    by (subst sum.remove[OF assms(1) k]) (auto intro: sum.cong)
  moreover have "(\<Sum>j \<in> dom m. n_waiters (the (m j))) =
      n_waiters r + (\<Sum>j \<in> dom m - {k}. n_waiters (the (m j)))"
    by (subst sum.remove[OF assms(1) k]) (simp add: assms(2))
  moreover have "dom (m(k \<mapsto> r')) = dom m" using k by auto
  ultimately show ?thesis by simp
qed

locale mio_slab = slab ops for ops :: "'s reg_ops"
begin

lemma total_new [simp]: "total_waiters ops (sl_new ops) = 0"
  by (simp add: total_waiters_def get_new)

lemma total_set:
  assumes "sl_get ops s k = Some r"
  shows "total_waiters ops (sl_set ops s k r') + n_waiters r = total_waiters ops s + n_waiters r'"
  unfolding total_waiters_def get_set[OF assms] by (rule sum_fun_upd[OF finite_keys assms])

lemma total_insert:
  "total_waiters ops (sl_insert ops s r) = total_waiters ops s + n_waiters r"
proof -
  let ?m = "sl_get ops s" and ?k = "sl_vacant_key ops s"
  have k: "?k \<notin> dom ?m" by (simp add: get_vacant domIff)
  have "(\<Sum>j \<in> dom ?m. n_waiters (the ((?m(?k \<mapsto> r)) j))) = (\<Sum>j \<in> dom ?m. n_waiters (the (?m j)))"
    using k by (intro sum.cong) auto
  then show ?thesis using k by (simp add: total_waiters_def get_insert finite_keys)
qed

lemma total_remove:
  assumes "sl_get ops s k = Some r"
  shows "total_waiters ops (sl_remove ops s k) + n_waiters r = total_waiters ops s"
proof -
  let ?m = "sl_get ops s"
  have k: "k \<in> dom ?m" using assms by auto
  have "total_waiters ops s = n_waiters r + (\<Sum>j \<in> dom ?m - {k}. n_waiters (the (?m j)))"
    unfolding total_waiters_def by (subst sum.remove[OF finite_keys k]) (simp add: assms)
  moreover have "(\<Sum>j \<in> dom (?m(k := None)). n_waiters (the ((?m(k := None)) j))) =
      (\<Sum>j \<in> dom ?m - {k}. n_waiters (the (?m j)))"
    by (rule sum.cong) auto
  ultimately show ?thesis by (simp add: total_waiters_def get_remove[OF assms])
qed

lemma total_ge: "sl_get ops s k = Some r \<Longrightarrow> n_waiters r \<le> total_waiters ops s"
  using total_remove[of s k r] by simp

lemma register_inv:
  assumes "mio_inv ops d" and "register_handle ops ans fd want d = (res, d')"
  shows "mio_inv ops d'"
proof -
  let ?k = "sl_vacant_key ops (md_regs d)"
  let ?r = "\<lparr>r_fd = fd, waiter_read = None, waiter_write = None, r_interest = Some want\<rparr>"
  have g: "sl_get ops (sl_insert ops (md_regs d) ?r) ?k = Some ?r" by (simp add: get_insert)
  have n: "n_waiters ?r = 0" by (simp add: n_waiters_def)
  show ?thesis
  proof (cases ans)
    case None
    then have "d' = d\<lparr>md_regs := sl_insert ops (md_regs d) ?r, md_armed := (md_armed d)(?k \<mapsto> want)\<rparr>"
      using assms(2) by (simp add: register_handle_def Let_def)
    then show ?thesis using assms(1) get_vacant[of "md_regs d"]
      by (auto simp: mio_inv_def total_insert n get_insert covers_def)
  next
    case (Some e)
    then have d': "d' = d\<lparr>md_regs := sl_remove ops (sl_insert ops (md_regs d) ?r) ?k\<rparr>"
      using assms(2) by (simp add: register_handle_def Let_def)
    have "sl_get ops (md_regs d') = sl_get ops (md_regs d)"
      unfolding d' by (simp add: get_remove[OF g] get_insert fun_upd_idem_iff get_vacant)
    moreover have "total_waiters ops (md_regs d') = total_waiters ops (md_regs d)"
      using total_remove[OF g] by (simp add: d' total_insert n)
    ultimately show ?thesis using assms(1) by (simp add: mio_inv_def d')
  qed
qed

lemma deregister_inv:
  assumes "mio_inv ops d" and "deregister_handle ops ans k d = (res, d')"
  shows "mio_inv ops d'"
proof (cases "sl_get ops (md_regs d) k")
  case None
  then show ?thesis using assms by (simp add: deregister_handle_def)
next
  case (Some r)
  show ?thesis
  proof (cases ans)
    case None
    then have d': "d' = d\<lparr>md_regs := sl_remove ops (md_regs d) k,
        md_waiter_count := count_sub (md_waiter_count d) (n_waiters r), md_armed := (md_armed d)(k := None)\<rparr>"
      using assms(2) Some by (simp add: deregister_handle_def)
    have "md_waiter_count d' = total_waiters ops (md_regs d')"
      using assms(1) total_remove[OF Some] total_ge[OF Some] by (simp add: d' mio_inv_def)
    then show ?thesis using assms(1) total_remove[OF Some] get_remove[OF Some]
      by (auto simp: mio_inv_def d')
  qed (use assms Some in \<open>simp add: deregister_handle_def\<close>)
qed

lemma wanted_covers:
  "is_readable (wanted_interest r want) \<longleftrightarrow> is_readable want \<or> waiter_read r \<noteq> None"
  "is_writable (wanted_interest r want) \<longleftrightarrow> is_writable want \<or> waiter_write r \<noteq> None"
  by (auto simp: wanted_interest_def Let_def)

lemma covers_after_submit:
  assumes "covers a r" and "r1 = (if rearm then r\<lparr>r_interest := Some (wanted_interest r want)\<rparr> else r)"
    and "rearm = (case r_interest r of None \<Rightarrow> True | Some i \<Rightarrow> \<not> interest_contains i (wanted_interest r want))"
  shows "covers (if rearm then Some (wanted_interest r want) else a) (set_waiters want w r1)"
  using assms
  by (auto simp: covers_def set_waiters_def wanted_covers interest_contains_def Let_def split: option.splits)

lemma submit_inv:
  assumes inv: "mio_inv ops d" and "submit_poll ops ans k w want d = (res, d')"
    and "md_waiter_count d + 2 < U64_LIMIT"
  shows "mio_inv ops d'"
proof (cases "sl_get ops (md_regs d) k")
  case None
  then show ?thesis using assms by (simp add: submit_poll_def)
next
  case (Some r)
  define rearm where "rearm = (case r_interest r of None \<Rightarrow> True | Some i \<Rightarrow> \<not> interest_contains i (wanted_interest r want))"
  define r1 where "r1 = (if rearm then r\<lparr>r_interest := Some (wanted_interest r want)\<rparr> else r)"
  have nw: "new_waiters want r1 = new_waiters want r" "n_waiters r1 = n_waiters r"
    by (simp_all add: r1_def new_waiters_def n_waiters_def)
  show ?thesis
  proof (cases "if rearm then ans else None")
    case None
    let ?a = "if rearm then (md_armed d)(k \<mapsto> wanted_interest r want) else md_armed d"
    have d': "d' = d\<lparr>md_regs := sl_set ops (md_regs d) k (set_waiters want w r1),
        md_waiter_count := u64_add (md_waiter_count d) (new_waiters want r1), md_armed := ?a\<rparr>"
      using assms(2) Some None
      by (simp add: submit_poll_def Let_def rearm_def[symmetric] r1_def[symmetric] del: if_split_asm)
    have lt: "md_waiter_count d + new_waiters want r1 < U64_LIMIT"
      using new_waiters_le[of want r1] assms(3) by linarith
    have tot: "total_waiters ops (md_regs d') = total_waiters ops (md_regs d) + new_waiters want r1"
      using total_set[OF Some, of "set_waiters want w r1"] by (simp add: d' n_waiters_set nw)
    have "covers (md_armed d' j) r'" if "sl_get ops (md_regs d') j = Some r'" for j r'
    proof (cases "j = k")
      case True
      have "covers (md_armed d k) r" using inv Some by (simp add: mio_inv_def)
      from covers_after_submit[OF this r1_def rearm_def] show ?thesis
        using that True by (auto simp: d' get_set[OF Some])
    next
      case False
      then show ?thesis using that inv by (auto simp: d' get_set[OF Some] mio_inv_def)
    qed
    then show ?thesis using inv tot u64_add_exact[OF lt] lt by (auto simp: mio_inv_def d')
  next
    case (Some e)
    then have "d' = d" using assms(2) \<open>sl_get ops (md_regs d) k = Some r\<close>
      by (simp add: submit_poll_def Let_def rearm_def[symmetric])
    then show ?thesis using inv by simp
  qed
qed

lemma handle_event_inv:
  assumes inv: "mio_inv ops d" and h: "handle_event ops e d = (ws, d')"
  shows "mio_inv ops d'"
proof (cases "ev_token e = interrupt_token \<or> sl_get ops (md_regs d) (ev_token e) = None")
  case True
  then have "d' = d" using h by (auto simp: handle_event_def split: if_splits)
  then show ?thesis using inv by simp
next
  case False
  then obtain r where r: "sl_get ops (md_regs d) (ev_token e) = Some r" by auto
  have d': "d' = d\<lparr>md_regs := sl_set ops (md_regs d) (ev_token e) (after_event e r),
       md_waiter_count := count_sub (md_waiter_count d) (length (woken_by e r))\<rparr>"
    using h False r by (auto simp: handle_event_def)
  have tot: "total_waiters ops (md_regs d') + length (woken_by e r) = total_waiters ops (md_regs d)"
    using total_set[OF r, of "after_event e r"] n_waiters_after[of e r] woken_le[of e r] by (simp add: d')
  then have "md_waiter_count d' = total_waiters ops (md_regs d')"
    using inv by (simp add: d' mio_inv_def)
  moreover have "covers (md_armed d j) r'" if "sl_get ops (md_regs d') j = Some r'" for j r'
    using that inv r by (auto simp: d' get_set[OF r] mio_inv_def covers_def after_event_def split: if_splits)
  ultimately show ?thesis using inv tot by (simp add: mio_inv_def) (simp add: d')
qed

lemma handle_events_inv:
  "mio_inv ops d \<Longrightarrow> handle_events ops es d = (ws, d') \<Longrightarrow> mio_inv ops d'"
proof (induction es arbitrary: d ws)
  case (Cons e es)
  obtain ws1 d1 where e: "handle_event ops e d = (ws1, d1)" by fastforce
  obtain ws2 d2 where es: "handle_events ops es d1 = (ws2, d2)" by fastforce
  have "handle_events ops es d1 = (ws2, d')" using Cons(3) es by (simp add: e)
  then show ?case by (rule Cons(1)[OF handle_event_inv[OF Cons(2) e]])
qed simp

lemma mio_step_inv: "mio_step ops d ws d' \<Longrightarrow> mio_inv ops d \<Longrightarrow> mio_inv ops d'"
proof (induction rule: mio_step.induct)
  case (mio_wait evs d ws d')
  then show ?case
    by (auto simp: wait_timeout_def split: sum.splits if_splits intro: handle_events_inv)
qed (auto intro: register_inv deregister_inv submit_inv)

lemma mio_reach_inv: "mio_reach ops d \<Longrightarrow> mio_inv ops d"
proof (induction rule: mio_reach.induct)
  case mio_start
  show ?case by (simp add: mio_inv_def mio_new_def get_new)
qed (rule mio_step_inv)

end

lemma mio_slabI: "slab ops \<Longrightarrow> mio_slab ops"
  by (simp add: mio_slab_def)

definition mio_waits :: "'s reg_ops \<Rightarrow> 's mio_driver \<Rightarrow> token \<Rightarrow> bool \<Rightarrow> waker option" where
  "mio_waits ops d k dir = Option.bind (sl_get ops (md_regs d) k) (if dir then waiter_write else waiter_read)"

sublocale mio_slab \<subseteq> mio_polls: poll_driver "mio_waits ops" "submit_poll ops"
proof
  fix ans k w want and d d' :: "'s mio_driver" and u :: unit
  assume s: "submit_poll ops ans k w want d = (Inr u, d')" and "want \<noteq> READ_WRITE"
  then show "mio_waits ops d' k (is_writable want) = Some w"
    by (cases want) (auto simp: submit_poll_def mio_waits_def set_waiters_def Let_def get_set
        split: option.splits if_splits)
next
  fix ans k w want and d d' :: "'s mio_driver" and res k' dir
  assume s: "submit_poll ops ans k w want d = (res, d')" and "want \<noteq> READ_WRITE"
    and "(k', dir) \<noteq> (k, is_writable want)"
  then show "mio_waits ops d' k' dir = mio_waits ops d k' dir"
    by (cases want; cases dir) (auto simp: submit_poll_def mio_waits_def set_waiters_def Let_def get_set
        split: option.splits if_splits)
qed

interpretation vec_mio: mio_slab "vec_slab_ops :: (registration option list, registration) slab_ops"
  by (rule mio_slabI[OF vec_slab.slab_axioms])

section \<open>Properties\<close>

text \<open>
  The waiter count of the readiness driver is exact. After any sequence of registrations,
  deregistrations, poll submissions and waits the counter equals the number of wakers stored in
  the registrations, so its subtractions never wrap and \<open>should_flush\<close> holds exactly when some
  task waits.
\<close>

theorem waiter_count_exact:
  assumes "slab ops" and "mio_reach ops d"
  shows "md_waiter_count d = total_waiters ops (md_regs d) \<and>
    (should_flush d \<longleftrightarrow> (\<exists>k r. sl_get ops (md_regs d) k = Some r \<and>
       (waiter_read r \<noteq> None \<or> waiter_write r \<noteq> None)))"
proof -
  have eq: "md_waiter_count d = total_waiters ops (md_regs d)"
    using mio_slab.mio_reach_inv[OF mio_slabI[OF assms(1)] assms(2)] by (simp add: mio_inv_def)
  have "0 < n_waiters r \<longleftrightarrow> waiter_read r \<noteq> None \<or> waiter_write r \<noteq> None" for r
    by (simp add: n_waiters_def)
  then have "0 < total_waiters ops (md_regs d) \<longleftrightarrow> (\<exists>k r. sl_get ops (md_regs d) k = Some r \<and>
       (waiter_read r \<noteq> None \<or> waiter_write r \<noteq> None))"
    using sum_eq_0_iff[OF slab.finite_keys[OF assms(1), of "md_regs d"]]
    unfolding total_waiters_def neq0_conv[symmetric]
    by (metis (no_types, lifting) domD domI neq0_conv option.sel)
  then show ?thesis using eq by (simp add: should_flush_def)
qed

text \<open>
  C10: Whoever waits is armed. In every reachable state the poller was last asked to report
  readability for each registration with a read waiter and writability for each one with a
  write waiter, also when one direction is submitted while the other is still waiting.
\<close>

theorem waiting_directions_are_armed:
  assumes "slab ops" and "mio_reach ops d" and "sl_get ops (md_regs d) k = Some r"
  shows "(waiter_read r \<noteq> None \<longrightarrow> (\<exists>i. md_armed d k = Some i \<and> is_readable i)) \<and>
    (waiter_write r \<noteq> None \<longrightarrow> (\<exists>i. md_armed d k = Some i \<and> is_writable i))"
  using mio_slab.mio_reach_inv[OF mio_slabI[OF assms(1)] assms(2)] assms(3)
  by (simp add: mio_inv_def covers_def)

text \<open>
  An event wakes the side it is for. For a registered token, handling an event wakes the
  read waiter exactly if the event is readable, read-closed or an error, the write waiter
  exactly if it is writable, write-closed or an error, keeps the waiter of the other side, and
  forgets the cached interest, so that the next submission arms the poller again.
\<close>

theorem event_wakes_its_side:
  assumes "slab ops" and "sl_get ops (md_regs d) k = Some r" and "ev_token e = k"
    and "k \<noteq> interrupt_token" and "handle_event ops e d = (ws, d')"
  shows "set ws = (if read_ready e then set_option (waiter_read r) else {}) \<union>
      (if write_ready e then set_option (waiter_write r) else {}) \<and>
    (\<exists>r'. sl_get ops (md_regs d') = (sl_get ops (md_regs d))(k \<mapsto> r') \<and> r_interest r' = None \<and>
       waiter_read r' = (if read_ready e then None else waiter_read r) \<and>
       waiter_write r' = (if write_ready e then None else waiter_write r))"
proof -
  have ws: "ws = woken_by e r" and d': "md_regs d' = sl_set ops (md_regs d) k (after_event e r)"
    using assms(2-5) by (auto simp: handle_event_def)
  have "set (woken_by e r) = (if read_ready e then set_option (waiter_read r) else {}) \<union>
      (if write_ready e then set_option (waiter_write r) else {})"
    unfolding woken_by_def by (cases "read_ready e"; cases "write_ready e") (simp_all add: set_case_option)
  moreover have "sl_get ops (md_regs d') = (sl_get ops (md_regs d))(k \<mapsto> after_event e r)"
    unfolding d' by (rule slab.get_set[OF assms(1,2)])
  ultimately show ?thesis unfolding ws
    by (intro conjI exI[of _ "after_event e r"]) (simp_all add: after_event_def)
qed

definition demo_mio0 :: "registration option list mio_driver" where
  "demo_mio0 = snd (register_handle vec_slab_ops None 5 READ_WRITE (mio_new vec_slab_ops))"

definition demo_mio :: "registration option list mio_driver" where
  "demo_mio = snd (submit_poll vec_slab_ops None 0 (TaskWaker 3) READABLE demo_mio0)"

lemmas demo_mio_eval = demo_mio_def demo_mio0_def register_handle_def submit_poll_def mio_new_def
  vec_slab_ops_def vec_insert_def vec_vacant_def vec_get_def Let_def wanted_interest_def
  interest_contains_def set_waiters_def new_waiters_def u64_add_def

lemma demo_mio_reach: "mio_reach vec_slab_ops demo_mio"
proof -
  have "mio_reach vec_slab_ops demo_mio0" unfolding demo_mio0_def
    by (rule mio_next[OF mio_start mio_register[OF prod.collapse[symmetric]]])
  then show ?thesis unfolding demo_mio_def
    by (rule mio_next[OF _ mio_submit[OF prod.collapse[symmetric]]]) (simp add: demo_mio_eval)
qed

theorem waiter_count_exact_witness:
  "md_waiter_count demo_mio = total_waiters vec_slab_ops (md_regs demo_mio) \<and> md_waiter_count demo_mio = 1"
  using waiter_count_exact[OF vec_slab.slab_axioms demo_mio_reach] by (simp add: demo_mio_eval)

lemma demo_mio_get: "sl_get vec_slab_ops (md_regs demo_mio) 0 =
    Some \<lparr>r_fd = 5, waiter_read = Some (TaskWaker 3), waiter_write = None, r_interest = Some READ_WRITE\<rparr>"
  by (simp add: demo_mio_eval)

theorem waiting_directions_are_armed_witness:
  "\<exists>i. md_armed demo_mio 0 = Some i \<and> is_readable i"
  using waiting_directions_are_armed[OF vec_slab.slab_axioms demo_mio_reach demo_mio_get] by simp

theorem event_wakes_its_side_witness:
  "set (fst (handle_event vec_slab_ops \<lparr>ev_token = 0, ev_readable = True, ev_read_closed = False,
     ev_writable = False, ev_write_closed = False, ev_error = False\<rparr> demo_mio)) = {TaskWaker 3}"
  using event_wakes_its_side[OF vec_slab.slab_axioms demo_mio_get _ _ prod.collapse[symmetric]]
  by (simp add: interrupt_token_def read_ready_def write_ready_def)

end
