(* ===== verification/Driver_Uring.thy ===== *)
theory Driver_Uring
  imports Driver_Base "HOL-Library.Word"
begin

unbundle bit_operations_syntax

text \<open>
  The completion driver (\<open>driver/uring.rs\<close>). The \<open>io_uring\<close> crate and the kernel are a
  parameter: the record \<open>ring_ops\<close> of the ring operations the driver calls, with the locale
  \<open>uring_ring\<close> for what their documentation says of the submission queue. Keys are 64-bit words.
\<close>

section \<open>Keys\<close>

abbreviation (input) KEY_KIND_BITS :: nat where "KEY_KIND_BITS \<equiv> 2"

definition KEY_KIND_MASK :: "64 word" where
  "KEY_KIND_MASK = push_bit KEY_KIND_BITS 1 - 1"

definition POLL_READ_KEY_KIND :: nat where "POLL_READ_KEY_KIND = 0"
definition COMPLETION_KEY_KIND :: nat where "COMPLETION_KEY_KIND = 1"
definition POLL_WRITE_KEY_KIND :: nat where "POLL_WRITE_KEY_KIND = 2"

definition encode_completion_key :: "token \<Rightarrow> 64 word" where
  "encode_completion_key k = push_bit KEY_KIND_BITS (of_nat k) OR of_nat COMPLETION_KEY_KIND"

definition encode_poll_key :: "token \<Rightarrow> bool \<Rightarrow> 64 word" where
  "encode_poll_key k write =
     push_bit KEY_KIND_BITS (of_nat k) OR of_nat (if write then POLL_WRITE_KEY_KIND else POLL_READ_KEY_KIND)"

definition decode_token :: "64 word \<Rightarrow> token" where
  "decode_token key = unat (drop_bit KEY_KIND_BITS key)"

definition decode_key_kind :: "64 word \<Rightarrow> nat" where
  "decode_key_kind key = unat (key AND KEY_KIND_MASK)"

text \<open>The keys of the interrupt read and of the emulated timeout, \<open>u64::MAX\<close> and one less.\<close>

definition interrupt_key :: "64 word" where "interrupt_key = - 1"
definition timeout_key :: "64 word" where "timeout_key = - 1 - 1"

definition interest_to_poll_mask :: "interest \<Rightarrow> 32 word" where
  "interest_to_poll_mask i = (if is_readable i then 1 else 0) OR (if is_writable i then 4 else 0)"

section \<open>The ring\<close>

datatype 'op sqe_op = PollAdd raw_fd "32 word" | ReadEventfd raw_fd | TimeoutSqe duration | OpSqe 'op

record 'op sqe =
  sqe_op :: "'op sqe_op"
  sqe_key :: "64 word"

record cqe =
  cqe_key :: "64 word"
  cqe_result :: int

record ('r, 'op) ring_ops =
  rg_sq_full :: "'r \<Rightarrow> bool"
  rg_sq_empty :: "'r \<Rightarrow> bool"
  rg_push :: "'op sqe \<Rightarrow> 'r \<Rightarrow> 'r option"
  rg_submit :: "'r \<Rightarrow> nat io_result \<times> 'r"
  rg_submit_and_wait :: "'r \<Rightarrow> nat io_result \<times> 'r"
  rg_submit_with_timeout :: "duration \<Rightarrow> 'r \<Rightarrow> nat io_result \<times> 'r"
  rg_completions :: "'r \<Rightarrow> cqe list \<times> 'r"
  rg_cancel_fd :: "raw_fd \<Rightarrow> 'r \<Rightarrow> 'r"

text \<open>The submission queue is a bounded queue; submitting takes entries from its front.\<close>

locale uring_ring =
  fixes rg :: "('r, 'op) ring_ops" and sq :: "'r \<Rightarrow> 'op sqe list"
  assumes push_Some: "rg_push rg e r = Some r' \<Longrightarrow> sq r' = sq r @ [e]"
    and push_room: "\<not> rg_sq_full rg r \<Longrightarrow> rg_push rg e r \<noteq> None"
    and sq_empty: "rg_sq_empty rg r \<longleftrightarrow> sq r = []"
    and submit_front: "rg_submit rg r = (res, r') \<Longrightarrow> \<exists>n. sq r' = drop n (sq r)"

record poll_registration =
  pr_fd :: raw_fd
  pr_waiter_read :: "waker option"
  poll_read_armed :: bool
  pr_waiter_write :: "waker option"
  poll_write_armed :: bool

datatype handle_registration = CompletionReg | PollReg poll_registration

record 'data completion =
  cp_waiter :: "waker option"
  cp_completed :: "int option"
  cp_ignored_data :: "'data option"

record ('r, 's, 'c) uring_driver =
  ud_ring :: 'r
  ud_regs :: 's
  ud_comps :: 'c
  ud_eventfd :: raw_fd
  ud_pending_submissions :: bool
  ud_ext_arg :: bool

record ('r, 's, 'c, 'op, 'data) uring_cfg =
  u_ring :: "('r, 'op) ring_ops"
  u_regs :: "('s, handle_registration) slab_ops"
  u_comps :: "('c, 'data completion) slab_ops"

section \<open>Submission\<close>

definition submitter_call_result :: "nat io_result \<Rightarrow> unit io_result" where
  "submitter_call_result res =
     (case res of
        Inr _ \<Rightarrow> Inr ()
      | Inl err \<Rightarrow> if raw_os_error err = Some EBUSY then Inr ()
                   else if raw_os_error err = Some ETIME then Inr () else Inl err)"

definition push_entry ::
  "('r, 's, 'c, 'op, 'data) uring_cfg \<Rightarrow> 'op sqe \<Rightarrow> ('r, 's, 'c) uring_driver
   \<Rightarrow> unit io_result \<times> ('r, 's, 'c) uring_driver" where
  "push_entry cfg e d =
     (let (res, r1) = (if rg_sq_full (u_ring cfg) (ud_ring d)
                       then (let (res, r1) = rg_submit (u_ring cfg) (ud_ring d) in (submitter_call_result res, r1))
                       else (Inr (), ud_ring d))
      in case res of
           Inl err \<Rightarrow> (Inl err, d\<lparr>ud_ring := r1\<rparr>)
         | Inr _ \<Rightarrow>
             (case rg_push (u_ring cfg) e r1 of
                None \<Rightarrow> (Inl (Simple OtherKind), d\<lparr>ud_ring := r1\<rparr>)
              | Some r2 \<Rightarrow> (Inr (), d\<lparr>ud_ring := r2, ud_pending_submissions := True\<rparr>)))"

definition push_poll_add ::
  "('r, 's, 'c, 'op, 'data) uring_cfg \<Rightarrow> token \<Rightarrow> raw_fd \<Rightarrow> 32 word \<Rightarrow> bool
   \<Rightarrow> ('r, 's, 'c) uring_driver \<Rightarrow> unit io_result \<times> ('r, 's, 'c) uring_driver" where
  "push_poll_add cfg k fd pmask write d =
     push_entry cfg \<lparr>sqe_op = PollAdd fd pmask, sqe_key = encode_poll_key k write\<rparr> d"

text \<open>\<open>submit_interrupt\<close> arms the read of the eventfd; a failure is a panic (\<open>None\<close>).\<close>

definition submit_interrupt ::
  "('r, 's, 'c, 'op, 'data) uring_cfg \<Rightarrow> ('r, 's, 'c) uring_driver \<Rightarrow> ('r, 's, 'c) uring_driver option" where
  "submit_interrupt cfg d =
     (case push_entry cfg \<lparr>sqe_op = ReadEventfd (ud_eventfd d), sqe_key = interrupt_key\<rparr> d of
        (Inl _, _) \<Rightarrow> None
      | (Inr _, d') \<Rightarrow> Some d')"

definition uring_new ::
  "('r, 's, 'c, 'op, 'data) uring_cfg \<Rightarrow> raw_fd io_result \<Rightarrow> 'r io_result \<Rightarrow> bool
   \<Rightarrow> (('r, 's, 'c) uring_driver) io_result option" where
  "uring_new cfg eventfd ring ext_arg =
     (case eventfd of
        Inl err \<Rightarrow> Some (Inl err)
      | Inr fd \<Rightarrow>
          (case ring of
             Inl err \<Rightarrow> Some (Inl err)
           | Inr r \<Rightarrow> map_option Inr (submit_interrupt cfg
               \<lparr>ud_ring = r, ud_regs = sl_new (u_regs cfg), ud_comps = sl_new (u_comps cfg),
                ud_eventfd = fd, ud_pending_submissions = False, ud_ext_arg = ext_arg\<rparr>)))"

section \<open>Completions\<close>

text \<open>One entry of the completion queue: the registrations, the completions, the wakers to wake
  and whether the interrupt read completed.\<close>

definition take_poll_waiter :: "bool \<Rightarrow> poll_registration \<Rightarrow> waker option \<times> poll_registration" where
  "take_poll_waiter write p =
     (if write then (pr_waiter_write p, p\<lparr>poll_write_armed := False, pr_waiter_write := None\<rparr>)
      else (pr_waiter_read p, p\<lparr>poll_read_armed := False, pr_waiter_read := None\<rparr>))"

definition process_cqe ::
  "('r, 's, 'c, 'op, 'data) uring_cfg \<Rightarrow> cqe \<Rightarrow> 's \<times> 'c \<times> waker list \<times> bool \<Rightarrow> 's \<times> 'c \<times> waker list \<times> bool" where
  "process_cqe cfg e acc =
     (case acc of (regs, comps, wakers, interrupt) \<Rightarrow>
      if cqe_key e = interrupt_key then (regs, comps, wakers, True)
      else if cqe_key e = timeout_key then (regs, comps, wakers, interrupt)
      else
        (let k = decode_token (cqe_key e); kind = decode_key_kind (cqe_key e) in
         if kind = POLL_READ_KEY_KIND \<or> kind = POLL_WRITE_KEY_KIND then
           (case sl_get (u_regs cfg) regs k of
              Some (PollReg p) \<Rightarrow>
                (let (w, p') = take_poll_waiter (kind = POLL_WRITE_KEY_KIND) p
                 in (sl_set (u_regs cfg) regs k (PollReg p'), comps,
                     wakers @ (case w of None \<Rightarrow> [] | Some x \<Rightarrow> [x]), interrupt))
            | _ \<Rightarrow> (regs, comps, wakers, interrupt))
         else
           (case sl_get (u_comps cfg) comps k of
              None \<Rightarrow> (regs, comps, wakers, interrupt)
            | Some c \<Rightarrow>
                (let comps1 = sl_set (u_comps cfg) comps k
                       (c\<lparr>cp_completed := Some (cqe_result e), cp_waiter := None\<rparr>)
                 in (regs,
                     if cp_ignored_data c \<noteq> None then sl_remove (u_comps cfg) comps1 k else comps1,
                     wakers @ (case cp_waiter c of None \<Rightarrow> [] | Some x \<Rightarrow> [x]), interrupt)))))"

definition drain_cq ::
  "('r, 's, 'c, 'op, 'data) uring_cfg \<Rightarrow> cqe list \<Rightarrow> ('r, 's, 'c) uring_driver
   \<Rightarrow> waker list \<times> bool \<times> ('r, 's, 'c) uring_driver" where
  "drain_cq cfg cqes d =
     (case fold (process_cqe cfg) cqes (ud_regs d, ud_comps d, [], False) of
        (regs, comps, wakers, interrupt) \<Rightarrow>
          (wakers, interrupt, d\<lparr>ud_regs := regs, ud_comps := comps\<rparr>))"

text \<open>
  The submission part of \<open>collect_completions\<close>: what was submitted and how, with the emulated
  timeout entry on kernels without the extended argument.
\<close>

definition submit_and_collect ::
  "('r, 's, 'c, 'op, 'data) uring_cfg \<Rightarrow> bool \<Rightarrow> duration option \<Rightarrow> ('r, 's, 'c) uring_driver
   \<Rightarrow> nat io_result \<times> 'r" where
  "submit_and_collect cfg wait_for_one timeout d =
     (if \<not> wait_for_one then rg_submit (u_ring cfg) (ud_ring d)
      else case timeout of
             None \<Rightarrow> rg_submit_and_wait (u_ring cfg) (ud_ring d)
           | Some t \<Rightarrow>
               if ud_ext_arg d then rg_submit_with_timeout (u_ring cfg) t (ud_ring d)
               else (case push_entry cfg \<lparr>sqe_op = TimeoutSqe t, sqe_key = timeout_key\<rparr> d of
                       (Inl err, d1) \<Rightarrow> (Inl err, ud_ring d1)
                     | (Inr _, d1) \<Rightarrow> rg_submit_and_wait (u_ring cfg) (ud_ring d1)))"

definition collect_completions ::
  "('r, 's, 'c, 'op, 'data) uring_cfg \<Rightarrow> bool \<Rightarrow> duration option \<Rightarrow> ('r, 's, 'c) uring_driver
   \<Rightarrow> (unit io_result \<times> waker list \<times> ('r, 's, 'c) uring_driver) option" where
  "collect_completions cfg wait_for_one timeout d =
     (let should_submit = wait_for_one \<or> \<not> rg_sq_empty (u_ring cfg) (ud_ring d);
          (res, r1) = (if should_submit then submit_and_collect cfg wait_for_one timeout d
                       else (Inr 0, ud_ring d))
      in case submitter_call_result res of
           Inl err \<Rightarrow> Some (Inl err, [], d\<lparr>ud_ring := r1\<rparr>)
         | Inr _ \<Rightarrow>
             (let d1 = d\<lparr>ud_ring := r1,
                    ud_pending_submissions := should_submit \<and> \<not> rg_sq_empty (u_ring cfg) r1\<rparr>;
                  (cqes, r2) = rg_completions (u_ring cfg) r1;
                  (wakers, interrupt, d2) = drain_cq cfg cqes (d1\<lparr>ud_ring := r2\<rparr>)
              in if interrupt then map_option (\<lambda>d3. (Inr (), wakers, d3)) (submit_interrupt cfg d2)
                 else Some (Inr (), wakers, d2)))"

definition uring_collect_or_panic ::
  "(unit io_result \<times> waker list \<times> ('r, 's, 'c) uring_driver) option
   \<Rightarrow> (waker list \<times> ('r, 's, 'c) uring_driver) option" where
  "uring_collect_or_panic res =
     (case res of
        None \<Rightarrow> None
      | Some (Inr _, wakers, d) \<Rightarrow> Some (wakers, d)
      | Some (Inl err, wakers, d) \<Rightarrow> if kind_of err = Interrupted then Some (wakers, d) else None)"

definition uring_flush ::
  "('r, 's, 'c, 'op, 'data) uring_cfg \<Rightarrow> ('r, 's, 'c) uring_driver \<Rightarrow> (waker list \<times> ('r, 's, 'c) uring_driver) option" where
  "uring_flush cfg d = uring_collect_or_panic (collect_completions cfg False None d)"

definition uring_wait ::
  "('r, 's, 'c, 'op, 'data) uring_cfg \<Rightarrow> duration option \<Rightarrow> ('r, 's, 'c) uring_driver
   \<Rightarrow> (waker list \<times> ('r, 's, 'c) uring_driver) option" where
  "uring_wait cfg timeout d = uring_collect_or_panic (collect_completions cfg True timeout d)"

definition uring_should_flush :: "('r, 's, 'c) uring_driver \<Rightarrow> bool" where
  "uring_should_flush d = ud_pending_submissions d"

section \<open>Handles, polls and operations\<close>

definition uring_register_with_mode ::
  "('r, 's, 'c, 'op, 'data) uring_cfg \<Rightarrow> raw_fd \<Rightarrow> registration_mode \<Rightarrow> ('r, 's, 'c) uring_driver
   \<Rightarrow> token io_result \<times> ('r, 's, 'c) uring_driver" where
  "uring_register_with_mode cfg fd mode d =
     (let k = sl_vacant_key (u_regs cfg) (ud_regs d);
          reg = (case mode of
                   CompletionMode \<Rightarrow> CompletionReg
                 | PollMode \<Rightarrow> PollReg \<lparr>pr_fd = fd, pr_waiter_read = None, poll_read_armed = False,
                                       pr_waiter_write = None, poll_write_armed = False\<rparr>)
      in (Inr k, d\<lparr>ud_regs := sl_insert (u_regs cfg) (ud_regs d) reg\<rparr>))"

definition uring_reregister ::
  "('r, 's, 'c, 'op, 'data) uring_cfg \<Rightarrow> token \<Rightarrow> ('r, 's, 'c) uring_driver \<Rightarrow> unit io_result" where
  "uring_reregister cfg k d =
     (case sl_get (u_regs cfg) (ud_regs d) k of Some _ \<Rightarrow> Inr () | None \<Rightarrow> Inl (Simple NotFound))"

definition uring_deregister ::
  "('r, 's, 'c, 'op, 'data) uring_cfg \<Rightarrow> raw_fd \<Rightarrow> token \<Rightarrow> ('r, 's, 'c) uring_driver
   \<Rightarrow> unit io_result \<times> ('r, 's, 'c) uring_driver" where
  "uring_deregister cfg fd k d =
     (let d1 = d\<lparr>ud_ring := rg_cancel_fd (u_ring cfg) fd (ud_ring d)\<rparr> in
      case sl_get (u_regs cfg) (ud_regs d1) k of
        None \<Rightarrow> (Inl (Simple NotFound), d1)
      | Some _ \<Rightarrow> (Inr (), d1\<lparr>ud_regs := sl_remove (u_regs cfg) (ud_regs d1) k\<rparr>))"

definition arm_poll :: "bool \<Rightarrow> waker \<Rightarrow> poll_registration \<Rightarrow> poll_registration" where
  "arm_poll write w p =
     (if write then p\<lparr>pr_waiter_write := update_waiter (pr_waiter_write p) w, poll_write_armed := True\<rparr>
      else p\<lparr>pr_waiter_read := update_waiter (pr_waiter_read p) w, poll_read_armed := True\<rparr>)"

definition disarm_poll :: "bool \<Rightarrow> poll_registration \<Rightarrow> poll_registration" where
  "disarm_poll write p =
     (if write then p\<lparr>poll_write_armed := False, pr_waiter_write := None\<rparr>
      else p\<lparr>poll_read_armed := False, pr_waiter_read := None\<rparr>)"

definition uring_submit_poll ::
  "('r, 's, 'c, 'op, 'data) uring_cfg \<Rightarrow> token \<Rightarrow> waker \<Rightarrow> interest \<Rightarrow> ('r, 's, 'c) uring_driver
   \<Rightarrow> unit io_result \<times> ('r, 's, 'c) uring_driver" where
  "uring_submit_poll cfg k w want d =
     (let write = is_writable want in
      case sl_get (u_regs cfg) (ud_regs d) k of
        None \<Rightarrow> (Inl (Simple NotFound), d)
      | Some CompletionReg \<Rightarrow> (Inl (Simple Unsupported), d)
      | Some (PollReg p) \<Rightarrow>
          (let was_armed = (if write then poll_write_armed p else poll_read_armed p);
               p1 = arm_poll write w p;
               d1 = d\<lparr>ud_regs := sl_set (u_regs cfg) (ud_regs d) k (PollReg p1)\<rparr>
           in if was_armed then (Inr (), d1)
              else (case push_poll_add cfg k (pr_fd p) (interest_to_poll_mask want) write d1 of
                      (Inr _, d2) \<Rightarrow> (Inr (), d2)
                    | (Inl err, d2) \<Rightarrow>
                        (Inl err, d2\<lparr>ud_regs := sl_set (u_regs cfg) (ud_regs d2) k
                                       (PollReg (disarm_poll write p1))\<rparr>))))"

text \<open>\<open>build\<close> is the operation's \<open>build_completion_entry\<close>.\<close>

definition uring_submit_completion ::
  "('r, 's, 'c, 'op, 'data) uring_cfg \<Rightarrow> (64 word \<Rightarrow> 'op sqe io_result) \<Rightarrow> waker
   \<Rightarrow> ('r, 's, 'c) uring_driver \<Rightarrow> completion_io_result \<times> ('r, 's, 'c) uring_driver" where
  "uring_submit_completion cfg build w d =
     (let k = sl_vacant_key (u_comps cfg) (ud_comps d) in
      case build (encode_completion_key k) of
        Inl err \<Rightarrow> (SubmitErr err, d)
      | Inr e \<Rightarrow>
          (case push_entry cfg e d of
             (Inl err, d1) \<Rightarrow> (SubmitErr err, d1)
           | (Inr _, d1) \<Rightarrow>
               (Retry k, d1\<lparr>ud_comps := sl_insert (u_comps cfg) (ud_comps d1)
                  \<lparr>cp_waiter = Some w, cp_completed = None, cp_ignored_data = None\<rparr>\<rparr>)))"

definition uring_get_completion_result ::
  "('r, 's, 'c, 'op, 'data) uring_cfg \<Rightarrow> token \<Rightarrow> ('r, 's, 'c) uring_driver
   \<Rightarrow> int option \<times> ('r, 's, 'c) uring_driver" where
  "uring_get_completion_result cfg k d =
     (case Option.bind (sl_get (u_comps cfg) (ud_comps d) k) cp_completed of
        None \<Rightarrow> (None, d)
      | Some r \<Rightarrow> (Some r, d\<lparr>ud_comps := sl_remove (u_comps cfg) (ud_comps d) k\<rparr>))"

definition uring_set_completion_waker ::
  "('r, 's, 'c, 'op, 'data) uring_cfg \<Rightarrow> token \<Rightarrow> waker \<Rightarrow> ('r, 's, 'c) uring_driver \<Rightarrow> ('r, 's, 'c) uring_driver" where
  "uring_set_completion_waker cfg k w d =
     (case sl_get (u_comps cfg) (ud_comps d) k of
        None \<Rightarrow> d
      | Some c \<Rightarrow> d\<lparr>ud_comps := sl_set (u_comps cfg) (ud_comps d) k
                   (c\<lparr>cp_waiter := update_waiter (cp_waiter c) w\<rparr>)\<rparr>)"

definition uring_ignore_completion ::
  "('r, 's, 'c, 'op, 'data) uring_cfg \<Rightarrow> token \<Rightarrow> 'data \<Rightarrow> ('r, 's, 'c) uring_driver \<Rightarrow> ('r, 's, 'c) uring_driver" where
  "uring_ignore_completion cfg k data d =
     (case sl_get (u_comps cfg) (ud_comps d) k of
        None \<Rightarrow> d
      | Some c \<Rightarrow> d\<lparr>ud_comps := sl_set (u_comps cfg) (ud_comps d) k (c\<lparr>cp_ignored_data := Some data\<rparr>)\<rparr>)"

end
