(* ===== verification/Uring_Completions.thy ===== *)
theory Uring_Completions
  imports Driver_Uring
begin

unbundle bit_operations_syntax

text \<open>
  Properties of the completion driver: keys determine the token and the kind, a completion is
  delivered to its operation exactly once, abandoned operations are freed when their entry
  arrives (and never when it had arrived before), polls in flight stay behind their waiters, and
  the error handling of waits.
\<close>

section \<open>Keys\<close>

definition make_key :: "token \<Rightarrow> nat \<Rightarrow> 64 word" where
  "make_key k kind = push_bit KEY_KIND_BITS (of_nat k) OR of_nat kind"

lemma encode_make_key:
  "encode_completion_key k = make_key k COMPLETION_KEY_KIND"
  "encode_poll_key k write = make_key k (if write then POLL_WRITE_KEY_KIND else POLL_READ_KEY_KIND)"
  by (simp_all add: encode_completion_key_def encode_poll_key_def make_key_def)

lemma KEY_KIND_MASK_mask: "KEY_KIND_MASK = mask 2"
  by (simp add: KEY_KIND_MASK_def mask_eq_exp_minus_1 push_bit_of_1)

lemma take_bit_small: "k < 2 ^ 62 \<Longrightarrow> take_bit 62 (of_nat k :: 64 word) = of_nat k"
  by (simp add: take_bit_of_nat flip: take_bit_nat_def) (simp add: take_bit_nat_eq_self)

lemma drop_bit_push_bit_64: "drop_bit 2 (push_bit 2 (w :: 64 word)) = take_bit 62 w"
  by (rule bit_word_eqI) (auto simp: bit_simps)

lemma drop_bit_kind: "kind < 4 \<Longrightarrow> drop_bit 2 (of_nat kind :: 64 word) = 0"
proof -
  assume "kind < 4"
  then have "kind \<in> {0, 1, 2, 3}" by auto
  then show ?thesis by (auto simp: drop_bit_eq_div word_eq_iff_unsigned)
qed

lemma unat_of_small: "n < 2 ^ 64 \<Longrightarrow> unat (of_nat n :: 64 word) = n"
  by (simp add: unat_of_nat take_bit_nat_eq_self)

lemma decode_token_make_key:
  assumes "k < 2 ^ 62" and "kind < 4"
  shows "decode_token (make_key k kind) = k"
proof -
  have "drop_bit 2 (make_key k kind) = of_nat k"
    using assms by (simp add: make_key_def drop_bit_push_bit_64 take_bit_small drop_bit_kind)
  moreover have "unat (of_nat k :: 64 word) = k"
    using assms(1) by (intro unat_of_small) simp
  ultimately show ?thesis by (simp add: decode_token_def)
qed

lemma decode_kind_make_key:
  assumes "kind < 4"
  shows "decode_key_kind (make_key k kind) = kind"
proof -
  have "make_key k kind AND KEY_KIND_MASK = take_bit 2 (push_bit 2 (of_nat k)) OR take_bit 2 (of_nat kind :: 64 word)"
    by (simp add: make_key_def KEY_KIND_MASK_mask flip: take_bit_eq_mask)
  also have "\<dots> = of_nat kind"
    using assms by (simp add: take_bit_push_bit take_bit_of_nat take_bit_nat_eq_self)
  finally show ?thesis using assms by (simp add: decode_key_kind_def unat_of_small)
qed

lemma special_keys:
  "decode_key_kind interrupt_key = 3" "decode_token timeout_key = 2 ^ 62 - 1"
proof -
  have "KEY_KIND_MASK = 3" by (simp add: KEY_KIND_MASK_def)
  then have "interrupt_key AND KEY_KIND_MASK = of_nat 3" by (simp add: interrupt_key_def)
  then show "decode_key_kind interrupt_key = 3" using unat_of_small[of 3]
    by (simp only: decode_key_kind_def) simp
  have "timeout_key = of_nat (2 ^ 64 - 2)" by (simp add: timeout_key_def)
  then have "unat timeout_key = 2 ^ 64 - 2" using unat_of_small[of "2 ^ 64 - 2"] by simp
  then show "decode_token timeout_key = 2 ^ 62 - 1"
    by (simp add: decode_token_def unat_drop_bit_eq)
qed

text \<open>
  Keys of in-flight operations are unambiguous. For every token below \<open>2 ^ 62 - 1\<close> the key of
  its completion, of its read poll and of its write poll decode to that token and to their own
  kind, and none of them is the key of the interrupt read or of the emulated timeout.
\<close>

theorem uring_key_roundtrip:
  assumes "k < 2 ^ 62 - 1"
  shows "decode_token (encode_completion_key k) = k \<and> decode_key_kind (encode_completion_key k) = COMPLETION_KEY_KIND \<and>
    decode_token (encode_poll_key k write) = k \<and>
    decode_key_kind (encode_poll_key k write) = (if write then POLL_WRITE_KEY_KIND else POLL_READ_KEY_KIND) \<and>
    encode_completion_key k \<notin> {interrupt_key, timeout_key} \<and> encode_poll_key k write \<notin> {interrupt_key, timeout_key}"
proof -
  let ?kind = "if write then POLL_WRITE_KEY_KIND else POLL_READ_KEY_KIND"
  have kinds: "COMPLETION_KEY_KIND < 3" "?kind < 3"
    by (simp_all add: COMPLETION_KEY_KIND_def POLL_WRITE_KEY_KIND_def POLL_READ_KEY_KIND_def)
  have k: "k < 2 ^ 62" using assms by simp
  have "make_key k kind \<noteq> interrupt_key \<and> make_key k kind \<noteq> timeout_key" if "kind < 3" for kind
    using decode_kind_make_key[of kind k] decode_token_make_key[OF k, of kind] special_keys assms that by auto
  then show ?thesis using kinds decode_kind_make_key[of COMPLETION_KEY_KIND k] decode_kind_make_key[of ?kind k]
      decode_token_make_key[OF k, of COMPLETION_KEY_KIND] decode_token_make_key[OF k, of ?kind]
    unfolding encode_make_key by simp
qed

theorem uring_key_roundtrip_witness:
  "decode_token (encode_completion_key 4095) = 4095 \<and> decode_key_kind (encode_poll_key 4095 True) = POLL_WRITE_KEY_KIND"
  using uring_key_roundtrip[of 4095 True] by simp

section \<open>The life of a completion\<close>

text \<open>The entries that \<open>drain_cq\<close> takes as the completion of token \<open>k\<close>.\<close>

definition completes :: "token \<Rightarrow> cqe \<Rightarrow> bool" where
  "completes k e \<longleftrightarrow> cqe_key e \<notin> {interrupt_key, timeout_key} \<and>
     decode_key_kind (cqe_key e) \<notin> {POLL_READ_KEY_KIND, POLL_WRITE_KEY_KIND} \<and> decode_token (cqe_key e) = k"

locale uring_slabs = regs: slab "u_regs cfg" + comps: slab "u_comps cfg"
  for cfg :: "('r, 's, 'c, 'op, 'data) uring_cfg"
begin

lemma process_other:
  assumes "\<not> completes k e" and "process_cqe cfg e (rs, cs, ws, b) = (rs', cs', ws', b')"
  shows "sl_get (u_comps cfg) cs' k = sl_get (u_comps cfg) cs k" and "set ws \<subseteq> set ws'"
  using assms
  by (auto simp: process_cqe_def completes_def Let_def comps.get_set comps.get_remove
      split: if_splits option.splits handle_registration.splits prod.splits)

lemma process_completes:
  assumes "completes k e" and "sl_get (u_comps cfg) cs k = Some c"
    and "process_cqe cfg e (rs, cs, ws, b) = (rs', cs', ws', b')"
  shows "sl_get (u_comps cfg) cs' k = (if cp_ignored_data c \<noteq> None then None
      else Some (c\<lparr>cp_completed := Some (cqe_result e), cp_waiter := None\<rparr>))"
    and "set ws' = set ws \<union> set_option (cp_waiter c)"
  using assms
  by (auto simp: process_cqe_def completes_def Let_def comps.get_set comps.get_remove set_case_option)

lemma fold_other:
  assumes "\<And>e. e \<in> set es \<Longrightarrow> \<not> completes k e"
    and "fold (process_cqe cfg) es (rs, cs, ws, b) = (rs', cs', ws', b')"
  shows "sl_get (u_comps cfg) cs' k = sl_get (u_comps cfg) cs k \<and> set ws \<subseteq> set ws'"
  using assms
proof (induction es arbitrary: rs cs ws b)
  case (Cons e es)
  obtain rs1 cs1 ws1 b1 where p: "process_cqe cfg e (rs, cs, ws, b) = (rs1, cs1, ws1, b1)"
    by (metis prod_cases4)
  have "sl_get (u_comps cfg) cs' k = sl_get (u_comps cfg) cs1 k \<and> set ws1 \<subseteq> set ws'"
    by (rule Cons(1)) (use Cons(2,3) p in auto)
  moreover have "\<not> completes k e" using Cons(2) by simp
  ultimately show ?case using process_other[OF _ p] by auto
qed simp

lemma drain_completes:
  assumes "sl_get (u_comps cfg) (ud_comps d) k = Some c" and "completes k e"
    and "\<And>x. x \<in> set xs \<union> set ys \<Longrightarrow> \<not> completes k x"
    and "drain_cq cfg (xs @ e # ys) d = (ws, b, d')"
  shows "sl_get (u_comps cfg) (ud_comps d') k = (if cp_ignored_data c \<noteq> None then None
      else Some (c\<lparr>cp_completed := Some (cqe_result e), cp_waiter := None\<rparr>))"
    and "set_option (cp_waiter c) \<subseteq> set ws"
proof -
  obtain rs1 cs1 ws1 b1 where f1: "fold (process_cqe cfg) xs (ud_regs d, ud_comps d, [], False) = (rs1, cs1, ws1, b1)"
    by (metis prod_cases4)
  obtain rs2 cs2 ws2 b2 where f2: "process_cqe cfg e (rs1, cs1, ws1, b1) = (rs2, cs2, ws2, b2)"
    by (metis prod_cases4)
  obtain rs3 cs3 ws3 b3 where f3: "fold (process_cqe cfg) ys (rs2, cs2, ws2, b2) = (rs3, cs3, ws3, b3)"
    by (metis prod_cases4)
  have "sl_get (u_comps cfg) cs1 k = Some c" using fold_other[OF _ f1] assms(1,3) by auto
  note e = process_completes[OF assms(2) this f2]
  have "sl_get (u_comps cfg) cs3 k = sl_get (u_comps cfg) cs2 k \<and> set ws2 \<subseteq> set ws3"
    using fold_other[OF _ f3] assms(3) by auto
  moreover have "ws = ws3" "ud_comps d' = cs3" using assms(4) by (auto simp: drain_cq_def f1 f2 f3)
  ultimately show "sl_get (u_comps cfg) (ud_comps d') k = (if cp_ignored_data c \<noteq> None then None
      else Some (c\<lparr>cp_completed := Some (cqe_result e), cp_waiter := None\<rparr>))"
    and "set_option (cp_waiter c) \<subseteq> set ws" using e by auto
qed

lemma drain_other:
  assumes "\<And>x. x \<in> set cqes \<Longrightarrow> \<not> completes k x" and "drain_cq cfg cqes d = (ws, b, d')"
  shows "sl_get (u_comps cfg) (ud_comps d') k = sl_get (u_comps cfg) (ud_comps d) k"
proof -
  obtain rs1 cs1 ws1 b1 where f1: "fold (process_cqe cfg) cqes (ud_regs d, ud_comps d, [], False) = (rs1, cs1, ws1, b1)"
    by (metis prod_cases4)
  then have "ud_comps d' = cs1" using assms(2) by (auto simp: drain_cq_def)
  then show ?thesis using fold_other[OF assms(1) f1] by simp
qed

end

text \<open>
  A result is delivered to its operation exactly once. When the completion queue holds the
  one entry of an operation still in flight, draining it wakes the operation's waker, the next
  \<open>get_completion_result\<close> returns the entry's result and frees the token, and asking again
  returns nothing.
\<close>

theorem completion_result_delivered_once:
  assumes "slab (u_regs cfg)" and "slab (u_comps cfg)"
    and "sl_get (u_comps cfg) (ud_comps d) k = Some c" and "cp_ignored_data c = None"
    and "completes k e" and "\<And>x. x \<in> set xs \<union> set ys \<Longrightarrow> \<not> completes k x"
    and "drain_cq cfg (xs @ e # ys) d = (ws, b, d')"
    and "uring_get_completion_result cfg k d' = (res, d'')"
  shows "set_option (cp_waiter c) \<subseteq> set ws \<and> res = Some (cqe_result e) \<and>
    sl_get (u_comps cfg) (ud_comps d'') k = None \<and> uring_get_completion_result cfg k d'' = (None, d'')"
proof -
  have sl: "uring_slabs cfg" using assms(1,2) by (simp add: uring_slabs_def)
  note D = uring_slabs.drain_completes[OF sl assms(3,5,6,7)]
  have g: "sl_get (u_comps cfg) (ud_comps d') k = Some (c\<lparr>cp_completed := Some (cqe_result e), cp_waiter := None\<rparr>)"
    using D(1) assms(4) by simp
  then have r: "res = Some (cqe_result e)" and d'': "ud_comps d'' = sl_remove (u_comps cfg) (ud_comps d') k"
    using assms(8) by (auto simp: uring_get_completion_result_def)
  have "sl_get (u_comps cfg) (ud_comps d'') k = None"
    unfolding d'' by (simp add: slab.get_remove[OF assms(2) g])
  then show ?thesis using D(2) r by (simp add: uring_get_completion_result_def)
qed

text \<open>
  An operation dropped while in flight is cleaned up by its completion. After
  \<open>ignore_completion\<close> of an operation that has no result yet, draining its entry frees the
  token together with the data kept alive for the kernel.
\<close>

theorem ignored_operation_freed_on_completion:
  assumes "slab (u_regs cfg)" and "slab (u_comps cfg)"
    and "sl_get (u_comps cfg) (ud_comps d) k = Some c"
    and "completes k e" and "\<And>x. x \<in> set xs \<union> set ys \<Longrightarrow> \<not> completes k x"
    and "drain_cq cfg (xs @ e # ys) (uring_ignore_completion cfg k data d) = (ws, b, d')"
  shows "sl_get (u_comps cfg) (ud_comps d') k = None"
proof -
  have sl: "uring_slabs cfg" using assms(1,2) by (simp add: uring_slabs_def)
  have "sl_get (u_comps cfg) (ud_comps (uring_ignore_completion cfg k data d)) k =
      Some (c\<lparr>cp_ignored_data := Some data\<rparr>)"
    using assms(3) by (simp add: uring_ignore_completion_def slab.get_set[OF assms(2,3)])
  from uring_slabs.drain_completes(1)[OF sl this assms(4,5,6)] show ?thesis by simp
qed

text \<open>
  An operation dropped after its completion arrived is never freed. If the entry was drained
  before \<open>ignore_completion\<close>, the token stays occupied, with the data, through every later drain
  that has no second entry for it, and the kernel posts one entry per submission.
\<close>

theorem ignore_after_completion_leaks:
  assumes "slab (u_regs cfg)" and "slab (u_comps cfg)"
    and "sl_get (u_comps cfg) (ud_comps d) k = Some c" and "cp_completed c = Some r"
    and "\<And>x. x \<in> set cqes \<Longrightarrow> \<not> completes k x"
    and "drain_cq cfg cqes (uring_ignore_completion cfg k data d) = (ws, b, d')"
  shows "\<exists>c'. sl_get (u_comps cfg) (ud_comps d') k = Some c' \<and> cp_completed c' = Some r \<and>
    cp_ignored_data c' = Some data"
proof -
  have sl: "uring_slabs cfg" using assms(1,2) by (simp add: uring_slabs_def)
  have "sl_get (u_comps cfg) (ud_comps (uring_ignore_completion cfg k data d)) k =
      Some (c\<lparr>cp_ignored_data := Some data\<rparr>)"
    using assms(3) by (simp add: uring_ignore_completion_def slab.get_set[OF assms(2,3)])
  then show ?thesis using uring_slabs.drain_other[OF sl assms(5,6)] assms(4) by simp
qed

section \<open>Polls\<close>

text \<open>A direction with a waiter has its poll in flight.\<close>

definition polls_armed :: "handle_registration \<Rightarrow> bool" where
  "polls_armed h = (case h of CompletionReg \<Rightarrow> True
     | PollReg p \<Rightarrow> (pr_waiter_read p \<noteq> None \<longrightarrow> poll_read_armed p) \<and>
                    (pr_waiter_write p \<noteq> None \<longrightarrow> poll_write_armed p))"

definition poll_inv :: "('r, 's, 'c, 'op, 'data) uring_cfg \<Rightarrow> ('r, 's, 'c) uring_driver \<Rightarrow> bool" where
  "poll_inv cfg d \<longleftrightarrow> (\<forall>k h. sl_get (u_regs cfg) (ud_regs d) k = Some h \<longrightarrow> polls_armed h)"

text \<open>The calls the runtime makes on the driver.\<close>

inductive uring_step ::
  "('r, 's, 'c, 'op, 'data) uring_cfg \<Rightarrow> ('r, 's, 'c) uring_driver \<Rightarrow> ('r, 's, 'c) uring_driver \<Rightarrow> bool" for cfg where
  us_register: "uring_register_with_mode cfg fd mode d = (res, d') \<Longrightarrow> uring_step cfg d d'"
| us_deregister: "uring_deregister cfg fd k d = (res, d') \<Longrightarrow> uring_step cfg d d'"
| us_submit_poll: "uring_submit_poll cfg k w want d = (res, d') \<Longrightarrow> uring_step cfg d d'"
| us_submit: "uring_submit_completion cfg build w d = (cres, d') \<Longrightarrow> uring_step cfg d d'"
| us_result: "uring_get_completion_result cfg k d = (r, d') \<Longrightarrow> uring_step cfg d d'"
| us_waker: "uring_step cfg d (uring_set_completion_waker cfg k w d)"
| us_ignore: "uring_step cfg d (uring_ignore_completion cfg k data d)"
| us_flush: "uring_flush cfg d = Some (ws, d') \<Longrightarrow> uring_step cfg d d'"
| us_wait: "uring_wait cfg timeout d = Some (ws, d') \<Longrightarrow> uring_step cfg d d'"

inductive uring_reach ::
  "('r, 's, 'c, 'op, 'data) uring_cfg \<Rightarrow> ('r, 's, 'c) uring_driver \<Rightarrow> bool" for cfg where
  uring_start: "uring_new cfg eventfd ring ext_arg = Some (Inr d) \<Longrightarrow> uring_reach cfg d"
| uring_next: "uring_reach cfg d \<Longrightarrow> uring_step cfg d d' \<Longrightarrow> uring_reach cfg d'"

lemma push_entry_frame:
  assumes "push_entry cfg e d = (res, d')"
  shows "ud_regs d' = ud_regs d" and "ud_comps d' = ud_comps d"
  using assms by (auto simp: push_entry_def Let_def split: sum.splits option.splits prod.splits)

lemma submit_interrupt_frame:
  assumes "submit_interrupt cfg d = Some d'"
  shows "ud_regs d' = ud_regs d"
  using assms by (auto simp: submit_interrupt_def dest: push_entry_frame split: prod.splits sum.splits)

lemma poll_inv_cong: "ud_regs d' = ud_regs d \<Longrightarrow> poll_inv cfg d' = poll_inv cfg d"
  by (simp add: poll_inv_def)

context uring_slabs
begin

lemma poll_inv_set:
  assumes "poll_inv cfg d" and "sl_get (u_regs cfg) (ud_regs d) k = Some u" and "polls_armed h"
    and "ud_regs d' = sl_set (u_regs cfg) (ud_regs d) k h"
  shows "poll_inv cfg d'"
  using assms by (auto simp: poll_inv_def regs.get_set)

lemma process_cqe_inv:
  assumes "\<And>k h. sl_get (u_regs cfg) rs k = Some h \<Longrightarrow> polls_armed h"
    and "process_cqe cfg e (rs, cs, ws, b) = (rs', cs', ws', b')"
    and "sl_get (u_regs cfg) rs' k = Some h"
  shows "polls_armed h"
proof -
  have "polls_armed (PollReg (snd (take_poll_waiter wr p)))" if "polls_armed (PollReg p)" for wr p
    using that by (auto simp: polls_armed_def take_poll_waiter_def)
  then show ?thesis using assms
    by (auto simp: process_cqe_def Let_def regs.get_set
        split: if_splits option.splits handle_registration.splits prod.splits) (metis snd_conv)+
qed

lemma drain_cq_inv:
  assumes "poll_inv cfg d" and "drain_cq cfg cqes d = (ws, b, d')"
  shows "poll_inv cfg d'"
proof -
  have "polls_armed h" if "fold (process_cqe cfg) es (rs, cs, w0, b0) = (rs', cs', w', b')"
    "\<And>k h. sl_get (u_regs cfg) rs k = Some h \<Longrightarrow> polls_armed h" "sl_get (u_regs cfg) rs' k = Some h"
    for es rs cs w0 b0 rs' cs' w' b' k h
    using that
  proof (induction es arbitrary: rs cs w0 b0)
    case (Cons e es)
    obtain rs1 cs1 ws1 b1 where p: "process_cqe cfg e (rs, cs, w0, b0) = (rs1, cs1, ws1, b1)"
      by (metis prod_cases4)
    show ?case
      by (rule Cons(1)[of rs1 cs1 ws1 b1]) (use Cons(2-4) p process_cqe_inv[OF Cons(3) p] in auto)
  qed auto
  then show ?thesis using assms by (auto simp: drain_cq_def poll_inv_def split: prod.splits)
qed

lemma collect_inv:
  assumes "poll_inv cfg d" and "collect_completions cfg wt t d = Some (res, ws, d')"
  shows "poll_inv cfg d'"
proof -
  define p where "p = (if wt \<or> \<not> rg_sq_empty (u_ring cfg) (ud_ring d) then submit_and_collect cfg wt t d else (Inr 0, ud_ring d))"
  obtain sres r1 where pr: "p = (sres, r1)" by (cases p)
  note c = assms(2)[unfolded collect_completions_def Let_def p_def[symmetric] pr prod.case]
  show ?thesis
  proof (cases "submitter_call_result sres")
    case (Inl err)
    then show ?thesis using c assms(1) by (auto simp: poll_inv_def)
  next
    case (Inr u)
    define d1 where "d1 = d\<lparr>ud_pending_submissions := (wt \<or> \<not> rg_sq_empty (u_ring cfg) (ud_ring d)) \<and>
      \<not> rg_sq_empty (u_ring cfg) r1, ud_ring := snd (rg_completions (u_ring cfg) r1)\<rparr>"
    obtain ws2 b d2 where dr: "drain_cq cfg (fst (rg_completions (u_ring cfg) r1)) d1 = (ws2, b, d2)"
      by (metis prod_cases3)
    have "poll_inv cfg d1" using assms(1) by (simp add: poll_inv_def d1_def)
    then have i2: "poll_inv cfg d2" by (rule drain_cq_inv[OF _ dr])
    have "d' = d2 \<or> submit_interrupt cfg d2 = Some d'"
      using c Inr dr by (auto simp: d1_def split: if_splits prod.splits)
    then show ?thesis using i2 submit_interrupt_frame poll_inv_cong by metis
  qed
qed

lemma collect_or_panic_inv:
  assumes "poll_inv cfg d" and "uring_collect_or_panic (collect_completions cfg wt t d) = Some (ws, d')"
  shows "poll_inv cfg d'"
  using assms collect_inv[OF assms(1)]
  by (auto simp: uring_collect_or_panic_def split: option.splits sum.splits prod.splits if_splits)

lemma submit_poll_inv:
  assumes inv: "poll_inv cfg d" and s: "uring_submit_poll cfg k w want d = (res, d')"
  shows "poll_inv cfg d'"
proof (cases "\<exists>p. sl_get (u_regs cfg) (ud_regs d) k = Some (PollReg p)")
  case False
  then show ?thesis using s inv
    by (auto simp: uring_submit_poll_def Let_def split: option.splits handle_registration.splits)
next
  case True
  then obtain p where p: "sl_get (u_regs cfg) (ud_regs d) k = Some (PollReg p)" by blast
  let ?wr = "is_writable want"
  let ?d1 = "d\<lparr>ud_regs := sl_set (u_regs cfg) (ud_regs d) k (PollReg (arm_poll ?wr w p))\<rparr>"
  have old: "polls_armed (PollReg p)" using inv p by (simp add: poll_inv_def)
  then have arm: "polls_armed (PollReg (arm_poll ?wr w p))"
    "polls_armed (PollReg (disarm_poll ?wr (arm_poll ?wr w p)))"
    by (auto simp: polls_armed_def arm_poll_def disarm_poll_def)
  have i1: "poll_inv cfg ?d1" by (rule poll_inv_set[OF inv p arm(1)]) simp
  have g1: "sl_get (u_regs cfg) (ud_regs ?d1) k = Some (PollReg (arm_poll ?wr w p))"
    by (simp add: regs.get_set[OF p])
  obtain res2 d2 where pp: "push_poll_add cfg k (pr_fd p) (interest_to_poll_mask want) ?wr ?d1 = (res2, d2)"
    by fastforce
  have f2: "ud_regs d2 = ud_regs ?d1" by (rule push_entry_frame(1)[OF pp[unfolded push_poll_add_def]])
  have i2: "poll_inv cfg d2" using i1 by (simp only: poll_inv_def f2)
  have "poll_inv cfg (d2\<lparr>ud_regs := sl_set (u_regs cfg) (ud_regs d2) k (PollReg (disarm_poll ?wr (arm_poll ?wr w p)))\<rparr>)"
    by (rule poll_inv_set[OF i2 _ arm(2)]) (use g1 f2 in auto)
  then show ?thesis using s p i1 i2 pp
    by (auto simp: uring_submit_poll_def Let_def split: if_splits sum.splits)
qed

lemma uring_step_inv: "uring_step cfg d d' \<Longrightarrow> poll_inv cfg d \<Longrightarrow> poll_inv cfg d'"
proof (induction rule: uring_step.induct)
  case (us_register fd mode d res d')
  then show ?case
    by (cases mode) (auto simp: uring_register_with_mode_def Let_def poll_inv_def regs.get_insert polls_armed_def
        split: if_splits)
next
  case (us_deregister fd k d res d')
  then show ?case
    by (auto simp: uring_deregister_def Let_def poll_inv_def regs.get_remove split: option.splits if_splits)
next
  case (us_submit_poll k w want d res d')
  then show ?case using submit_poll_inv by blast
next
  case (us_submit build w d cres d')
  then show ?case
    by (auto simp: uring_submit_completion_def Let_def poll_inv_def dest!: push_entry_frame(1)
        split: sum.splits prod.splits)
next
  case (us_result k d r d')
  then show ?case by (auto simp: uring_get_completion_result_def poll_inv_def split: option.splits)
next
  case (us_waker d k w)
  then show ?case by (auto simp: uring_set_completion_waker_def poll_inv_def split: option.splits)
next
  case (us_ignore d k data)
  then show ?case by (auto simp: uring_ignore_completion_def poll_inv_def split: option.splits)
qed (auto simp: uring_flush_def uring_wait_def dest: collect_or_panic_inv)

lemma uring_reach_inv: "uring_reach cfg d \<Longrightarrow> poll_inv cfg d"
proof (induction rule: uring_reach.induct)
  case (uring_start eventfd ring ext_arg d)
  then show ?case
    by (auto simp: uring_new_def poll_inv_def regs.get_new split: sum.splits dest!: submit_interrupt_frame)
qed (rule uring_step_inv)

end


section \<open>Waiting\<close>

lemma process_cqe_interrupt:
  "process_cqe cfg e (rs, cs, ws, b) = (rs', cs', ws', b') \<Longrightarrow> b' \<longleftrightarrow> b \<or> cqe_key e = interrupt_key"
  by (auto simp: process_cqe_def Let_def
      split: if_splits option.splits handle_registration.splits prod.splits)

lemma fold_interrupt:
  "fold (process_cqe cfg) es (rs, cs, ws, b) = (rs', cs', ws', b') \<Longrightarrow>
   b' \<longleftrightarrow> b \<or> interrupt_key \<in> cqe_key ` set es"
proof (induction es arbitrary: rs cs ws b)
  case (Cons e es)
  obtain rs1 cs1 ws1 b1 where p: "process_cqe cfg e (rs, cs, ws, b) = (rs1, cs1, ws1, b1)"
    by (metis prod_cases4)
  have "b' \<longleftrightarrow> b1 \<or> interrupt_key \<in> cqe_key ` set es" by (rule Cons(1)) (use Cons(2) p in simp)
  then show ?case using process_cqe_interrupt[OF p] by auto
qed simp

lemma drain_interrupt: "drain_cq cfg es d = (ws, b, d') \<Longrightarrow> b \<longleftrightarrow> interrupt_key \<in> cqe_key ` set es"
  by (auto simp: drain_cq_def dest!: fold_interrupt split: prod.splits)

lemma push_entry_queued:
  assumes "uring_ring (u_ring cfg) sq" and "push_entry cfg e d = (Inr u, d')"
  shows "last (sq (ud_ring d')) = e \<and> sq (ud_ring d') \<noteq> [] \<and> ud_pending_submissions d'"
  using assms(2)
  by (auto simp: push_entry_def Let_def uring_ring.push_Some[OF assms(1)]
      split: if_splits sum.splits option.splits prod.splits)

text \<open>
  The wake-up channel stays open. When a wait drains the completion of the eventfd read by
  which other threads interrupt it, and returns, a new read of the eventfd is the last entry of
  the submission queue and submissions are marked pending, so the next wait can be interrupted.
\<close>

theorem interrupt_read_is_rearmed:
  assumes "uring_ring (u_ring cfg) sq"
    and "submit_and_collect cfg True timeout d = (Inr n, r1)"
    and "interrupt_key \<in> cqe_key ` set (fst (rg_completions (u_ring cfg) r1))"
    and "uring_wait cfg timeout d = Some (ws, d')"
  shows "last (sq (ud_ring d')) = \<lparr>sqe_op = ReadEventfd (ud_eventfd d), sqe_key = interrupt_key\<rparr> \<and>
    sq (ud_ring d') \<noteq> [] \<and> uring_should_flush d'"
proof -
  obtain cqes r2 where rc: "rg_completions (u_ring cfg) r1 = (cqes, r2)" by fastforce
  define d1 where "d1 = d\<lparr>ud_pending_submissions := \<not> rg_sq_empty (u_ring cfg) r1, ud_ring := r2\<rparr>"
  obtain ws2 b d2 where dr: "drain_cq cfg cqes d1 = (ws2, b, d2)" by (metis prod_cases3)
  have b: "b" using drain_interrupt[OF dr] assms(3) rc by simp
  have "submit_interrupt cfg d2 = Some d'"
    using assms(2,4) rc dr b
    by (auto simp: uring_wait_def uring_collect_or_panic_def collect_completions_def Let_def
        submitter_call_result_def d1_def[symmetric] split: option.splits)
  then obtain u where "push_entry cfg \<lparr>sqe_op = ReadEventfd (ud_eventfd d2), sqe_key = interrupt_key\<rparr> d2 = (Inr u, d')"
    by (auto simp: submit_interrupt_def split: prod.splits sum.splits)
  moreover have "ud_eventfd d2 = ud_eventfd d" using dr by (auto simp: drain_cq_def d1_def split: prod.splits)
  ultimately show ?thesis using push_entry_queued[OF assms(1)] by (auto simp: uring_should_flush_def)
qed

text \<open>
  How a wait treats errors of the ring. An interrupted system call returns without waking
  anyone and without losing state; an expired timeout (\<open>ETIME\<close>) or a busy completion queue
  (\<open>EBUSY\<close>) still drains the completions; any other error is a panic.
\<close>

theorem uring_wait_error_classes:
  assumes "submit_and_collect cfg True timeout d = (Inl (Os code), r1)"
  shows "(code = EINTR \<longrightarrow> uring_wait cfg timeout d = Some ([], d\<lparr>ud_ring := r1\<rparr>)) \<and>
    (code \<in> {EBUSY, ETIME} \<longrightarrow> uring_wait cfg timeout d =
       (let (cqes, r2) = rg_completions (u_ring cfg) r1;
            (wakers, interrupt, d2) = drain_cq cfg cqes
              (d\<lparr>ud_ring := r2, ud_pending_submissions := \<not> rg_sq_empty (u_ring cfg) r1\<rparr>)
        in if interrupt then map_option (\<lambda>d3. (wakers, d3)) (submit_interrupt cfg d2) else Some (wakers, d2))) \<and>
    (code \<notin> {EINTR, EBUSY, ETIME} \<longrightarrow> uring_wait cfg timeout d = None)"
proof -
  have upd: "d\<lparr>ud_pending_submissions := x, ud_ring := y\<rparr> = d\<lparr>ud_ring := y, ud_pending_submissions := x\<rparr>" for x y
    by (cases d) simp
  have po: "uring_collect_or_panic (map_option (\<lambda>d3. (Inr (), wk, d3)) x) = map_option (\<lambda>d3. (wk, d3)) x"
    "uring_collect_or_panic (Some (Inr (), wk, d2)) = Some (wk, d2)" for wk x d2
    by (cases x; simp add: uring_collect_or_panic_def)+
  show ?thesis
    using assms by (auto simp: uring_wait_def collect_completions_def Let_def submitter_call_result_def upd
        uring_collect_or_panic_def split: prod.splits if_splits option.splits)
qed

section \<open>The driver as a poll driver\<close>

definition uring_waits ::
  "('r, 's, 'c, 'op, 'data) uring_cfg \<Rightarrow> ('r, 's, 'c) uring_driver \<Rightarrow> token \<Rightarrow> bool \<Rightarrow> waker option" where
  "uring_waits cfg d k dir =
     (case sl_get (u_regs cfg) (ud_regs d) k of
        Some (PollReg p) \<Rightarrow> (if dir then pr_waiter_write p else pr_waiter_read p)
      | _ \<Rightarrow> None)"

context uring_slabs
begin

text \<open>A submission that reaches a poll registration changes one slot of it.\<close>

lemma submit_poll_slot:
  assumes "uring_submit_poll cfg k w want d = (res, d')"
    and "sl_get (u_regs cfg) (ud_regs d) k = Some (PollReg p)"
  obtains p' where "sl_get (u_regs cfg) (ud_regs d') = (sl_get (u_regs cfg) (ud_regs d))(k \<mapsto> PollReg p')"
    and "(if is_writable want then pr_waiter_read p' = pr_waiter_read p else pr_waiter_write p' = pr_waiter_write p)"
    and "res = Inr u \<Longrightarrow> (if is_writable want then pr_waiter_write p' else pr_waiter_read p') = Some w"
proof -
  let ?wr = "is_writable want"
  let ?p1 = "arm_poll ?wr w p"
  let ?d1 = "d\<lparr>ud_regs := sl_set (u_regs cfg) (ud_regs d) k (PollReg ?p1)\<rparr>"
  have g1: "sl_get (u_regs cfg) (ud_regs ?d1) = (sl_get (u_regs cfg) (ud_regs d))(k \<mapsto> PollReg ?p1)"
    using regs.get_set[OF assms(2)] by simp
  have a: "if ?wr then pr_waiter_read ?p1 = pr_waiter_read p else pr_waiter_write ?p1 = pr_waiter_write p"
    "(if ?wr then pr_waiter_write ?p1 else pr_waiter_read ?p1) = Some w"
    by (simp_all add: arm_poll_def)
  show thesis
  proof (cases "if ?wr then poll_write_armed p else poll_read_armed p")
    case True
    then have "d' = ?d1" using assms by (auto simp: uring_submit_poll_def Let_def split: if_splits)
    then show thesis using that[of ?p1] g1 a by simp
  next
    case False
    obtain r2 d2 where p: "push_poll_add cfg k (pr_fd p) (interest_to_poll_mask want) ?wr ?d1 = (r2, d2)" by fastforce
    have g2: "ud_regs d2 = ud_regs ?d1" using push_entry_frame(1)[OF p[unfolded push_poll_add_def]] .
    show thesis
    proof (cases r2)
      case (Inl err)
      let ?p2 = "disarm_poll ?wr ?p1"
      have d': "d' = d2\<lparr>ud_regs := sl_set (u_regs cfg) (ud_regs d2) k (PollReg ?p2)\<rparr>" and r: "res = Inl err"
        using False Inl p assms by (auto simp: uring_submit_poll_def Let_def split: if_splits)
      have "sl_get (u_regs cfg) (ud_regs d') = (sl_get (u_regs cfg) (ud_regs d))(k \<mapsto> PollReg ?p2)"
        using regs.get_set[of "ud_regs ?d1" k "PollReg ?p1"] g1 by (simp add: d' g2)
      then show thesis using that[of ?p2] a(1) r by (simp add: disarm_poll_def split: if_splits)
    next
      case (Inr x)
      then have "d' = d2" using False p assms by (auto simp: uring_submit_poll_def Let_def split: if_splits)
      then show thesis using that[of ?p1] g1 g2 a by simp
    qed
  qed
qed

lemma submit_poll_other_reg:
  assumes "uring_submit_poll cfg k w want d = (res, d')"
    and "\<And>p. sl_get (u_regs cfg) (ud_regs d) k \<noteq> Some (PollReg p)"
  shows "d' = d" and "res \<noteq> Inr u"
  using assms by (auto simp: uring_submit_poll_def Let_def split: option.splits handle_registration.splits)

end

sublocale uring_slabs \<subseteq> uring_polls: poll_driver "uring_waits cfg" "\<lambda>ans. uring_submit_poll cfg"
proof
  fix k w want and d d' :: "('r, 's, 'c) uring_driver" and u :: unit
  assume s: "uring_submit_poll cfg k w want d = (Inr u, d')"
  then obtain p where "sl_get (u_regs cfg) (ud_regs d) k = Some (PollReg p)"
    using submit_poll_other_reg(2)[OF s] by blast
  from submit_poll_slot[OF s this, of u] obtain p' where
    "sl_get (u_regs cfg) (ud_regs d') = (sl_get (u_regs cfg) (ud_regs d))(k \<mapsto> PollReg p')"
    "(if is_writable want then pr_waiter_write p' else pr_waiter_read p') = Some w" by metis
  then show "uring_waits cfg d' k (is_writable want) = Some w" by (simp add: uring_waits_def)
next
  fix k w want and d d' :: "('r, 's, 'c) uring_driver" and res k' dir
  assume s: "uring_submit_poll cfg k w want d = (res, d')" and o: "(k', dir) \<noteq> (k, is_writable want)"
  show "uring_waits cfg d' k' dir = uring_waits cfg d k' dir"
  proof (cases "\<exists>p. sl_get (u_regs cfg) (ud_regs d) k = Some (PollReg p)")
    case True
    then obtain p where p: "sl_get (u_regs cfg) (ud_regs d) k = Some (PollReg p)" by blast
    from submit_poll_slot[OF s p] obtain p' where
      "sl_get (u_regs cfg) (ud_regs d') = (sl_get (u_regs cfg) (ud_regs d))(k \<mapsto> PollReg p')"
      "if is_writable want then pr_waiter_read p' = pr_waiter_read p else pr_waiter_write p' = pr_waiter_write p"
      by metis
    then show ?thesis using o p by (cases dir) (auto simp: uring_waits_def split: if_splits)
  next
    case False
    then show ?thesis using submit_poll_other_reg(1)[OF s] by simp
  qed
qed

section \<open>A concrete driver for the witnesses\<close>

type_synonym demo_ring = "nat sqe list \<times> cqe list"

definition demo_ring_ops :: "('op sqe list \<times> cqe list, 'op) ring_ops" where
  "demo_ring_ops = \<lparr>rg_sq_full = (\<lambda>(sq, cq). length sq \<ge> 8), rg_sq_empty = (\<lambda>(sq, cq). sq = []),
     rg_push = (\<lambda>e (sq, cq). if length sq \<ge> 8 then None else Some (sq @ [e], cq)),
     rg_submit = (\<lambda>(sq, cq). (Inr (length sq), ([], cq))),
     rg_submit_and_wait = (\<lambda>(sq, cq). (Inr (length sq), ([], cq))),
     rg_submit_with_timeout = (\<lambda>t (sq, cq). (Inl (Os 62), ([], cq))),
     rg_completions = (\<lambda>(sq, cq). (cq, (sq, []))), rg_cancel_fd = (\<lambda>fd r. r)\<rparr>"

interpretation demo_ring: uring_ring "demo_ring_ops :: ('op sqe list \<times> cqe list, 'op) ring_ops" fst
  by unfold_locales (auto simp: demo_ring_ops_def split: if_splits intro: exI[of _ 0] exI[of _ "length _"])

definition demo_ucfg ::
  "(demo_ring, handle_registration option list, nat completion option list, nat, nat) uring_cfg" where
  "demo_ucfg = \<lparr>u_ring = demo_ring_ops, u_regs = vec_slab_ops, u_comps = vec_slab_ops\<rparr>"

lemma demo_ucfg_slabs: "slab (u_regs demo_ucfg)" "slab (u_comps demo_ucfg)"
  by (simp_all add: demo_ucfg_def vec_slab.slab_axioms)

interpretation demo_uring: uring_slabs demo_ucfg
  by (simp add: uring_slabs_def demo_ucfg_slabs)

definition demo_uring0 :: "(demo_ring, handle_registration option list, nat completion option list) uring_driver" where
  "demo_uring0 = \<lparr>ud_ring = ([], [\<lparr>cqe_key = interrupt_key, cqe_result = 8\<rparr>]), ud_regs = [],
     ud_comps = [Some \<lparr>cp_waiter = Some (TaskWaker 3), cp_completed = None, cp_ignored_data = None\<rparr>],
     ud_eventfd = 9, ud_pending_submissions = True, ud_ext_arg = True\<rparr>"

lemmas demo_uring_eval = demo_uring0_def demo_ucfg_def vec_slab_ops_def vec_get_def demo_ring_ops_def

definition demo_cqe :: cqe where
  "demo_cqe = \<lparr>cqe_key = make_key 0 COMPLETION_KEY_KIND, cqe_result = 17\<rparr>"

lemma demo_cqe_completes: "completes 0 demo_cqe" and demo_cqe_result: "cqe_result demo_cqe = 17"
proof -
  have "make_key 0 1 = 1" by (simp add: make_key_def)
  moreover have "decode_token (make_key 0 1) = 0" and "decode_key_kind (make_key 0 1) = 1"
    by (simp_all add: decode_token_make_key decode_kind_make_key)
  ultimately show "completes 0 demo_cqe" by (simp add: completes_def demo_cqe_def interrupt_key_def timeout_key_def
        POLL_READ_KEY_KIND_def POLL_WRITE_KEY_KIND_def COMPLETION_KEY_KIND_def)
qed (simp add: demo_cqe_def)

lemma demo_comp: "sl_get (u_comps demo_ucfg) (ud_comps demo_uring0) 0 =
    Some \<lparr>cp_waiter = Some (TaskWaker 3), cp_completed = None, cp_ignored_data = None\<rparr>"
  by (simp add: demo_uring_eval)

theorem completion_result_delivered_once_witness:
  "\<exists>ws b d' d''. drain_cq demo_ucfg [demo_cqe] demo_uring0 = (ws, b, d') \<and> TaskWaker 3 \<in> set ws \<and>
     uring_get_completion_result demo_ucfg 0 d' = (Some 17, d'')"
proof -
  obtain ws b d' where d: "drain_cq demo_ucfg ([] @ demo_cqe # []) demo_uring0 = (ws, b, d')" by (metis prod_cases3)
  obtain res d'' where g: "uring_get_completion_result demo_ucfg 0 d' = (res, d'')" by fastforce
  from completion_result_delivered_once[OF demo_ucfg_slabs demo_comp _ demo_cqe_completes _ d g] d g
  show ?thesis by (auto simp: demo_cqe_result)
qed

theorem ignored_operation_freed_on_completion_witness:
  "\<exists>ws b d'. drain_cq demo_ucfg [demo_cqe] (uring_ignore_completion demo_ucfg 0 5 demo_uring0) = (ws, b, d') \<and>
     sl_get (u_comps demo_ucfg) (ud_comps d') 0 = None"
proof -
  obtain ws b d' where d: "drain_cq demo_ucfg ([] @ demo_cqe # []) (uring_ignore_completion demo_ucfg 0 5 demo_uring0)
      = (ws, b, d')" by (metis prod_cases3)
  from ignored_operation_freed_on_completion[OF demo_ucfg_slabs demo_comp demo_cqe_completes _ d] d
  show ?thesis by auto
qed

theorem ignore_after_completion_leaks_witness:
  "\<exists>ws b d' c'. drain_cq demo_ucfg [] (uring_ignore_completion demo_ucfg 0 5
       (demo_uring0\<lparr>ud_comps := [Some \<lparr>cp_waiter = None, cp_completed = Some 17, cp_ignored_data = None\<rparr>]\<rparr>))
       = (ws, b, d') \<and> sl_get (u_comps demo_ucfg) (ud_comps d') 0 = Some c' \<and> cp_ignored_data c' = Some 5"
proof -
  let ?d = "demo_uring0\<lparr>ud_comps := [Some \<lparr>cp_waiter = None, cp_completed = Some 17, cp_ignored_data = None\<rparr>]\<rparr>"
  obtain ws b d' where d: "drain_cq demo_ucfg [] (uring_ignore_completion demo_ucfg 0 5 ?d) = (ws, b, d')"
    by (metis prod_cases3)
  have "sl_get (u_comps demo_ucfg) (ud_comps ?d) 0 =
      Some \<lparr>cp_waiter = None, cp_completed = Some 17, cp_ignored_data = None\<rparr>" by (simp add: demo_uring_eval)
  from ignore_after_completion_leaks[OF demo_ucfg_slabs this _ _ d, of 17] d show ?thesis by auto
qed

lemma demo_uring_start: "uring_new demo_ucfg (Inr 9) (Inr ([], [])) True = Some (Inr
    \<lparr>ud_ring = ([\<lparr>sqe_op = ReadEventfd 9, sqe_key = interrupt_key\<rparr>], []), ud_regs = [], ud_comps = [],
     ud_eventfd = 9, ud_pending_submissions = True, ud_ext_arg = True\<rparr>)"
  by (simp add: uring_new_def submit_interrupt_def push_entry_def demo_ucfg_def demo_ring_ops_def vec_slab_ops_def)


theorem interrupt_read_is_rearmed_witness:
  "\<exists>ws d'. uring_wait demo_ucfg None demo_uring0 = Some (ws, d') \<and>
     last (fst (ud_ring d')) = \<lparr>sqe_op = ReadEventfd 9, sqe_key = interrupt_key\<rparr>"
proof -
  have sub: "submit_and_collect demo_ucfg True None demo_uring0 =
      (Inr 0, ([], [\<lparr>cqe_key = interrupt_key, cqe_result = 8\<rparr>]))"
    by (simp add: submit_and_collect_def demo_uring_eval)
  obtain ws d' where w: "uring_wait demo_ucfg None demo_uring0 = Some (ws, d')"
    by (simp add: uring_wait_def uring_collect_or_panic_def collect_completions_def submit_and_collect_def submitter_call_result_def
        demo_uring_eval drain_cq_def process_cqe_def submit_interrupt_def push_entry_def Let_def)
  have ring: "u_ring demo_ucfg = demo_ring_ops" by (simp add: demo_ucfg_def)
  have "uring_ring (u_ring demo_ucfg) fst" unfolding ring by (rule demo_ring.uring_ring_axioms)
  from interrupt_read_is_rearmed[OF this sub _ w] w show ?thesis
    by (simp add: ring) (simp add: demo_ring_ops_def demo_uring0_def)
qed

theorem uring_wait_error_classes_witness:
  "\<exists>d2. uring_wait demo_ucfg (Some 5) (demo_uring0\<lparr>ud_ring := ([], [])\<rparr>) = Some ([], d2)"
proof -
  let ?d = "demo_uring0\<lparr>ud_ring := ([], [])\<rparr>"
  have "submit_and_collect demo_ucfg True (Some 5) ?d = (Inl (Os 62), ([], []))"
    by (simp add: submit_and_collect_def demo_uring_eval)
  from uring_wait_error_classes[OF this] show ?thesis
    by (simp add: demo_uring_eval drain_cq_def)
qed

end
