(* ===== verification/Any_Driver.thy ===== *)
theory Any_Driver
  imports Driver_Mio Uring_Completions
begin

text \<open>
  The driver a runtime is built with (\<open>AnyDriver\<close>, \<open>driver/mod.rs\<close>, with the \<open>Driver\<close> trait's
  default methods and \<open>driver/mock.rs\<close>), the registered handle (\<open>InnerRawHandle\<close>,
  \<open>fd_inner.rs\<close>) and the builder (\<open>builder.rs\<close>). The \<open>ans\<close> and \<open>evs\<close> arguments are the answers
  of the operating system to the calls of the readiness driver.
\<close>

datatype ('ms, 'r, 's, 'c) any_driver =
    MockDriver
  | Mio "'ms mio_driver"
  | IoUring "('r, 's, 'c) uring_driver"

record ('ms, 'r, 's, 'c, 'op, 'data) driver_cfg =
  dc_mio :: "'ms reg_ops"
  dc_uring :: "('r, 's, 'c, 'op, 'data) uring_cfg"

section \<open>Dispatch\<close>

fun any_flush ::
  "('ms, 'r, 's, 'c, 'op, 'data) driver_cfg \<Rightarrow> mio_event list io_result \<Rightarrow> ('ms, 'r, 's, 'c) any_driver
   \<Rightarrow> (waker list \<times> ('ms, 'r, 's, 'c) any_driver) option" where
  "any_flush cfg evs (Mio d) = map_option (map_prod id Mio) (wait_timeout (dc_mio cfg) evs d)"
| "any_flush cfg evs MockDriver = Some ([], MockDriver)"
| "any_flush cfg evs (IoUring d) = map_option (map_prod id IoUring) (uring_flush (dc_uring cfg) d)"

fun any_should_flush :: "('ms, 'r, 's, 'c) any_driver \<Rightarrow> bool" where
  "any_should_flush (Mio d) = should_flush d"
| "any_should_flush MockDriver = True"
| "any_should_flush (IoUring d) = uring_should_flush d"

fun any_wait ::
  "('ms, 'r, 's, 'c, 'op, 'data) driver_cfg \<Rightarrow> mio_event list io_result \<Rightarrow> duration option
   \<Rightarrow> ('ms, 'r, 's, 'c) any_driver \<Rightarrow> (waker list \<times> ('ms, 'r, 's, 'c) any_driver) option" where
  "any_wait cfg evs timeout (Mio d) = map_option (map_prod id Mio) (wait_timeout (dc_mio cfg) evs d)"
| "any_wait cfg evs timeout MockDriver = Some ([], MockDriver)"
| "any_wait cfg evs timeout (IoUring d) = map_option (map_prod id IoUring) (uring_wait (dc_uring cfg) timeout d)"

fun any_register_handle_with_mode ::
  "('ms, 'r, 's, 'c, 'op, 'data) driver_cfg \<Rightarrow> os_answer \<Rightarrow> raw_fd \<Rightarrow> interest \<Rightarrow> registration_mode
   \<Rightarrow> ('ms, 'r, 's, 'c) any_driver \<Rightarrow> token io_result \<times> ('ms, 'r, 's, 'c) any_driver" where
  "any_register_handle_with_mode cfg ans fd want mode (Mio d) =
     map_prod id Mio (register_handle (dc_mio cfg) ans fd want d)"
| "any_register_handle_with_mode cfg ans fd want mode MockDriver = (Inl (Simple Unsupported), MockDriver)"
| "any_register_handle_with_mode cfg ans fd want mode (IoUring d) =
     map_prod id IoUring (uring_register_with_mode (dc_uring cfg) fd mode d)"

fun any_register_handle ::
  "('ms, 'r, 's, 'c, 'op, 'data) driver_cfg \<Rightarrow> os_answer \<Rightarrow> raw_fd \<Rightarrow> interest
   \<Rightarrow> ('ms, 'r, 's, 'c) any_driver \<Rightarrow> token io_result \<times> ('ms, 'r, 's, 'c) any_driver" where
  "any_register_handle cfg ans fd want (Mio d) = map_prod id Mio (register_handle (dc_mio cfg) ans fd want d)"
| "any_register_handle cfg ans fd want MockDriver = (Inl (Simple Unsupported), MockDriver)"
| "any_register_handle cfg ans fd want (IoUring d) =
     map_prod id IoUring (uring_register_with_mode (dc_uring cfg) fd CompletionMode d)"

fun any_reregister_handle ::
  "('ms, 'r, 's, 'c, 'op, 'data) driver_cfg \<Rightarrow> os_answer \<Rightarrow> token \<Rightarrow> interest
   \<Rightarrow> ('ms, 'r, 's, 'c) any_driver \<Rightarrow> unit io_result \<times> ('ms, 'r, 's, 'c) any_driver" where
  "any_reregister_handle cfg ans k want (Mio d) = map_prod id Mio (reregister_handle (dc_mio cfg) ans k want d)"
| "any_reregister_handle cfg ans k want MockDriver = (Inl (Simple Unsupported), MockDriver)"
| "any_reregister_handle cfg ans k want (IoUring d) = (uring_reregister (dc_uring cfg) k d, IoUring d)"

fun any_deregister_handle ::
  "('ms, 'r, 's, 'c, 'op, 'data) driver_cfg \<Rightarrow> os_answer \<Rightarrow> raw_fd \<Rightarrow> token
   \<Rightarrow> ('ms, 'r, 's, 'c) any_driver \<Rightarrow> unit io_result \<times> ('ms, 'r, 's, 'c) any_driver" where
  "any_deregister_handle cfg ans fd k (Mio d) = map_prod id Mio (deregister_handle (dc_mio cfg) ans k d)"
| "any_deregister_handle cfg ans fd k MockDriver = (Inl (Simple Unsupported), MockDriver)"
| "any_deregister_handle cfg ans fd k (IoUring d) = map_prod id IoUring (uring_deregister (dc_uring cfg) fd k d)"

fun any_supports_completion :: "('ms, 'r, 's, 'c) any_driver \<Rightarrow> bool" where
  "any_supports_completion (Mio d) = False"
| "any_supports_completion MockDriver = False"
| "any_supports_completion (IoUring d) = True"

fun any_submit_completion ::
  "('ms, 'r, 's, 'c, 'op, 'data) driver_cfg \<Rightarrow> (64 word \<Rightarrow> 'op sqe io_result) \<Rightarrow> waker
   \<Rightarrow> ('ms, 'r, 's, 'c) any_driver \<Rightarrow> completion_io_result \<times> ('ms, 'r, 's, 'c) any_driver" where
  "any_submit_completion cfg build w (Mio d) = (SubmitErr unsupported_completion_error, Mio d)"
| "any_submit_completion cfg build w MockDriver = (SubmitErr unsupported_completion_error, MockDriver)"
| "any_submit_completion cfg build w (IoUring d) =
     map_prod id IoUring (uring_submit_completion (dc_uring cfg) build w d)"

fun any_submit_poll ::
  "('ms, 'r, 's, 'c, 'op, 'data) driver_cfg \<Rightarrow> os_answer \<Rightarrow> token \<Rightarrow> waker \<Rightarrow> interest
   \<Rightarrow> ('ms, 'r, 's, 'c) any_driver \<Rightarrow> unit io_result \<times> ('ms, 'r, 's, 'c) any_driver" where
  "any_submit_poll cfg ans k w want (Mio d) = map_prod id Mio (submit_poll (dc_mio cfg) ans k w want d)"
| "any_submit_poll cfg ans k w want MockDriver = (Inl unsupported_poll_error, MockDriver)"
| "any_submit_poll cfg ans k w want (IoUring d) =
     map_prod id IoUring (uring_submit_poll (dc_uring cfg) k w want d)"

fun any_get_completion_result ::
  "('ms, 'r, 's, 'c, 'op, 'data) driver_cfg \<Rightarrow> token \<Rightarrow> ('ms, 'r, 's, 'c) any_driver
   \<Rightarrow> int option \<times> ('ms, 'r, 's, 'c) any_driver" where
  "any_get_completion_result cfg k (Mio d) = (None, Mio d)"
| "any_get_completion_result cfg k MockDriver = (None, MockDriver)"
| "any_get_completion_result cfg k (IoUring d) =
     map_prod id IoUring (uring_get_completion_result (dc_uring cfg) k d)"

fun any_set_completion_waker ::
  "('ms, 'r, 's, 'c, 'op, 'data) driver_cfg \<Rightarrow> token \<Rightarrow> waker \<Rightarrow> ('ms, 'r, 's, 'c) any_driver
   \<Rightarrow> ('ms, 'r, 's, 'c) any_driver" where
  "any_set_completion_waker cfg k w (Mio d) = Mio d"
| "any_set_completion_waker cfg k w MockDriver = MockDriver"
| "any_set_completion_waker cfg k w (IoUring d) = IoUring (uring_set_completion_waker (dc_uring cfg) k w d)"

fun any_ignore_completion ::
  "('ms, 'r, 's, 'c, 'op, 'data) driver_cfg \<Rightarrow> token \<Rightarrow> 'data \<Rightarrow> ('ms, 'r, 's, 'c) any_driver
   \<Rightarrow> ('ms, 'r, 's, 'c) any_driver" where
  "any_ignore_completion cfg k data (Mio d) = Mio d"
| "any_ignore_completion cfg k data MockDriver = MockDriver"
| "any_ignore_completion cfg k data (IoUring d) = IoUring (uring_ignore_completion (dc_uring cfg) k data d)"

section \<open>The selected driver as a poll driver\<close>

fun any_waits ::
  "('ms, 'r, 's, 'c, 'op, 'data) driver_cfg \<Rightarrow> ('ms, 'r, 's, 'c) any_driver \<Rightarrow> token \<Rightarrow> bool \<Rightarrow> waker option" where
  "any_waits cfg (Mio d) k dir = mio_waits (dc_mio cfg) d k dir"
| "any_waits cfg MockDriver k dir = None"
| "any_waits cfg (IoUring d) k dir = uring_waits (dc_uring cfg) d k dir"

locale any_slabs =
  m: mio_slab "dc_mio cfg" + u: uring_slabs "dc_uring cfg"
  for cfg :: "('ms, 'r, 's, 'c, 'op, 'data) driver_cfg"

sublocale any_slabs \<subseteq> any_polls: poll_driver "any_waits cfg" "any_submit_poll cfg"
proof
  fix ans k w want and d d' :: "('ms, 'r, 's, 'c) any_driver" and u :: unit
  assume "any_submit_poll cfg ans k w want d = (Inr u, d')" and "want \<noteq> READ_WRITE"
  then show "any_waits cfg d' k (is_writable want) = Some w"
    by (cases d) (auto simp: map_prod_def split: prod.splits
        intro: m.mio_polls.submit_stores u.uring_polls.submit_stores)
next
  fix ans k w want and d d' :: "('ms, 'r, 's, 'c) any_driver" and res k' dir
  assume "any_submit_poll cfg ans k w want d = (res, d')" and "want \<noteq> READ_WRITE"
    and "(k', dir) \<noteq> (k, is_writable want)"
  then show "any_waits cfg d' k' dir = any_waits cfg d k' dir"
    by (cases d) (auto simp: map_prod_def split: prod.splits
        dest: m.mio_polls.submit_other[of _ _ _ _ _ _ _ k' dir] u.uring_polls.submit_other[of _ _ _ _ _ _ k' dir])
qed

context any_slabs
begin

lemmas is_poll_driver = any_polls.poll_driver_axioms

end

section \<open>Construction and the runtime builder\<close>

text \<open>
  \<open>mk\<close> is \<open>UringDriver::new\<close> on this machine, for an entry count and an \<open>io_uring\<close> builder;
  \<open>mio\<close> is \<open>MioDriver::new\<close>; \<open>def_b\<close> is \<open>IoUring::builder()\<close> and \<open>flags\<close> sets the four setup
  flags the sources ask for first.
\<close>

record ('b, 'd) driver_env =
  de_uring_new :: "nat \<Rightarrow> 'b \<Rightarrow> 'd io_result"
  de_mio_new :: "'d io_result"
  de_mock :: 'd
  de_builder :: 'b
  de_flags :: "'b \<Rightarrow> 'b"

definition new_uring_custom_with_entries :: "('b, 'd) driver_env \<Rightarrow> nat \<Rightarrow> 'b \<Rightarrow> 'd io_result" where
  "new_uring_custom_with_entries env n b = de_uring_new env n b"

definition new_uring_custom :: "('b, 'd) driver_env \<Rightarrow> 'b \<Rightarrow> 'd io_result" where
  "new_uring_custom env b = new_uring_custom_with_entries env 4096 b"

definition new_uring_with_entries :: "('b, 'd) driver_env \<Rightarrow> nat \<Rightarrow> 'd io_result" where
  "new_uring_with_entries env n =
     (case new_uring_custom_with_entries env n (de_flags env (de_builder env)) of
        Inr d \<Rightarrow> Inr d
      | Inl _ \<Rightarrow> new_uring_custom_with_entries env n (de_builder env))"

definition new_uring :: "('b, 'd) driver_env \<Rightarrow> 'd io_result" where
  "new_uring env = new_uring_with_entries env 4096"

definition new_best :: "('b, 'd) driver_env \<Rightarrow> 'd io_result" where
  "new_best env = (case new_uring env of Inr d \<Rightarrow> Inr d | Inl _ \<Rightarrow> de_mio_new env)"

datatype 'b driver_kind = KMio | KMock | KIoUring | KIoUringEntries nat | KIoUringCustom 'b
  | KIoUringCustomEntries nat 'b

fun into_driver :: "('b, 'd) driver_env \<Rightarrow> 'b driver_kind \<Rightarrow> 'd io_result" where
  "into_driver env KMio = de_mio_new env"
| "into_driver env KMock = Inr (de_mock env)"
| "into_driver env KIoUring = new_uring env"
| "into_driver env (KIoUringCustom b) = new_uring_custom env b"
| "into_driver env (KIoUringEntries n) = new_uring_with_entries env n"
| "into_driver env (KIoUringCustomEntries n b) = new_uring_custom_with_entries env n b"

record ('b, 'p) runtime_builder =
  rb_driver_kind :: "'b driver_kind option"
  rb_enable_timer :: bool
  rb_enable_fs_offload :: bool
  rb_blocking_pool :: "'p option"
  rb_batch_size :: usize

definition builder_new :: "('b, 'p) runtime_builder" where
  "builder_new = \<lparr>rb_driver_kind = None, rb_enable_timer = False, rb_enable_fs_offload = False,
     rb_blocking_pool = None, rb_batch_size = 256\<rparr>"

definition builder_driver :: "'b driver_kind \<Rightarrow> ('b, 'p) runtime_builder \<Rightarrow> ('b, 'p) runtime_builder" where
  "builder_driver k rb = rb\<lparr>rb_driver_kind := Some k\<rparr>"

definition builder_enable_timer :: "bool \<Rightarrow> ('b, 'p) runtime_builder \<Rightarrow> ('b, 'p) runtime_builder" where
  "builder_enable_timer e rb = rb\<lparr>rb_enable_timer := e\<rparr>"

definition builder_enable_fs_offload :: "bool \<Rightarrow> ('b, 'p) runtime_builder \<Rightarrow> ('b, 'p) runtime_builder" where
  "builder_enable_fs_offload e rb = rb\<lparr>rb_enable_fs_offload := e\<rparr>"

definition builder_blocking_pool :: "'p \<Rightarrow> ('b, 'p) runtime_builder \<Rightarrow> ('b, 'p) runtime_builder" where
  "builder_blocking_pool p rb = rb\<lparr>rb_blocking_pool := Some p\<rparr>"

definition builder_batch_size :: "usize \<Rightarrow> ('b, 'p) runtime_builder \<Rightarrow> ('b, 'p) runtime_builder" where
  "builder_batch_size n rb = rb\<lparr>rb_batch_size := n\<rparr>"

definition builder_uring ::
  "('b, 'd) driver_env \<Rightarrow> ('b \<Rightarrow> 'b) \<Rightarrow> ('b, 'p) runtime_builder \<Rightarrow> ('b, 'p) runtime_builder" where
  "builder_uring env f rb =
     (let b = (case rb_driver_kind rb of Some (KIoUringCustom b) \<Rightarrow> b | _ \<Rightarrow> de_builder env)
      in rb\<lparr>rb_driver_kind := Some (KIoUringCustom (f b))\<rparr>)"

definition builder_build :: "('b, 'd) driver_env \<Rightarrow> ('b, 'p) runtime_builder \<Rightarrow> ('d \<times> ('b, 'p) runtime_builder) io_result" where
  "builder_build env rb =
     (case (case rb_driver_kind rb of Some k \<Rightarrow> into_driver env k | None \<Rightarrow> new_best env) of
        Inl err \<Rightarrow> Inl err
      | Inr d \<Rightarrow> Inr (d, rb))"

section \<open>Handles\<close>

record raw_handle =
  h_fd :: raw_fd
  h_token :: token
  h_interest :: interest
  h_mode :: registration_mode

text \<open>The mode a driver can honour.\<close>

definition effective_mode :: "('ms, 'r, 's, 'c) any_driver \<Rightarrow> registration_mode \<Rightarrow> registration_mode" where
  "effective_mode drv mode =
     (if mode = CompletionMode \<and> \<not> any_supports_completion drv then PollMode else mode)"

definition new_with_driver_and_mode ::
  "('ms, 'r, 's, 'c, 'op, 'data) driver_cfg \<Rightarrow> os_answer \<Rightarrow> raw_fd \<Rightarrow> interest \<Rightarrow> registration_mode
   \<Rightarrow> ('ms, 'r, 's, 'c) any_driver \<Rightarrow> raw_handle io_result \<times> ('ms, 'r, 's, 'c) any_driver" where
  "new_with_driver_and_mode cfg ans fd want mode drv =
     (let m = effective_mode drv mode in
      case any_register_handle_with_mode cfg ans fd want m drv of
        (Inl err, drv1) \<Rightarrow> (Inl err, drv1)
      | (Inr k, drv1) \<Rightarrow> (Inr \<lparr>h_fd = fd, h_token = k, h_interest = want, h_mode = m\<rparr>, drv1))"

text \<open>The current runtime's driver, if there is one (\<open>current_driver\<close>).\<close>

definition new_with_mode ::
  "('ms, 'r, 's, 'c, 'op, 'data) driver_cfg \<Rightarrow> os_answer \<Rightarrow> raw_fd \<Rightarrow> interest \<Rightarrow> registration_mode
   \<Rightarrow> ('ms, 'r, 's, 'c) any_driver option \<Rightarrow> raw_handle io_result \<times> ('ms, 'r, 's, 'c) any_driver option" where
  "new_with_mode cfg ans fd want mode cur =
     (case cur of
        None \<Rightarrow> (Inl (Simple NotConnected), None)
      | Some drv \<Rightarrow> map_prod id Some (new_with_driver_and_mode cfg ans fd want mode drv))"

definition handle_new ::
  "('ms, 'r, 's, 'c, 'op, 'data) driver_cfg \<Rightarrow> os_answer \<Rightarrow> raw_fd \<Rightarrow> interest
   \<Rightarrow> ('ms, 'r, 's, 'c) any_driver option \<Rightarrow> raw_handle io_result \<times> ('ms, 'r, 's, 'c) any_driver option" where
  "handle_new cfg ans fd want cur =
     new_with_mode cfg ans fd want
       (if (case cur of Some drv \<Rightarrow> any_supports_completion drv | None \<Rightarrow> False) then CompletionMode else PollMode) cur"

definition uses_completion :: "('ms, 'r, 's, 'c) any_driver \<Rightarrow> raw_handle \<Rightarrow> bool" where
  "uses_completion drv h \<longleftrightarrow> any_supports_completion drv \<and> h_mode h = CompletionMode"

definition rebind_mode ::
  "('ms, 'r, 's, 'c, 'op, 'data) driver_cfg \<Rightarrow> os_answer \<Rightarrow> os_answer \<Rightarrow> registration_mode \<Rightarrow> raw_handle
   \<Rightarrow> ('ms, 'r, 's, 'c) any_driver \<Rightarrow> unit io_result \<times> raw_handle \<times> ('ms, 'r, 's, 'c) any_driver" where
  "rebind_mode cfg ans1 ans2 requested h drv =
     (let m = effective_mode drv requested in
      if h_mode h = m then (Inr (), h, drv)
      else
        (case any_deregister_handle cfg ans1 (h_fd h) (h_token h) drv of
           (Inl err, drv1) \<Rightarrow> (Inl err, h, drv1)
         | (Inr _, drv1) \<Rightarrow>
             (case any_register_handle_with_mode cfg ans2 (h_fd h) (h_interest h) m drv1 of
                (Inl err, drv2) \<Rightarrow> (Inl err, h, drv2)
              | (Inr k, drv2) \<Rightarrow> (Inr (), h\<lparr>h_token := k, h_mode := m\<rparr>, drv2))))"

text \<open>\<open>poll_op\<close> and \<open>poll_op_poll\<close> choose the path of an operation.\<close>

definition poll_op :: "('ms, 'r, 's, 'c) any_driver \<Rightarrow> raw_handle \<Rightarrow> 'a \<Rightarrow> 'a \<Rightarrow> 'a" where
  "poll_op drv h completion_path poll_path = (if uses_completion drv h then completion_path else poll_path)"

definition poll_op_poll ::
  "('ms, 'r, 's, 'c) any_driver \<Rightarrow> raw_handle \<Rightarrow> 'a io_result poll \<Rightarrow> 'a io_result poll" where
  "poll_op_poll drv h poll_path =
     (if uses_completion drv h then Ready (Inl (Simple Unsupported)) else poll_path)"

definition handle_drop ::
  "('ms, 'r, 's, 'c, 'op, 'data) driver_cfg \<Rightarrow> os_answer \<Rightarrow> raw_handle \<Rightarrow> ('ms, 'r, 's, 'c) any_driver
   \<Rightarrow> ('ms, 'r, 's, 'c) any_driver" where
  "handle_drop cfg ans h drv = snd (any_deregister_handle cfg ans (h_fd h) (h_token h) drv)"

section \<open>Properties\<close>

definition handle_regs :: "('ms, 'r, 's, 'c, 'op, 'data) driver_cfg \<Rightarrow> ('ms, 'r, 's, 'c) any_driver \<Rightarrow> token set" where
  "handle_regs cfg drv = (case drv of MockDriver \<Rightarrow> {}
     | Mio d \<Rightarrow> dom (sl_get (dc_mio cfg) (md_regs d))
     | IoUring d \<Rightarrow> dom (sl_get (u_regs (dc_uring cfg)) (ud_regs d)))"

lemma register_regs:
  assumes "slab (dc_mio cfg)" and "slab (u_regs (dc_uring cfg))"
    and "any_register_handle_with_mode cfg ans fd want mode drv = (Inr k, drv')"
  shows "k \<notin> handle_regs cfg drv" and "handle_regs cfg drv' = insert k (handle_regs cfg drv)"
    and "any_supports_completion drv' = any_supports_completion drv"
  using assms(3) slab.get_insert[OF assms(1)] slab.get_insert[OF assms(2)]
    slab.get_vacant[OF assms(1)] slab.get_vacant[OF assms(2)]
  by (cases drv; auto simp: handle_regs_def register_handle_def uring_register_with_mode_def Let_def
      split: option.splits)+

lemma deregister_regs:
  assumes "slab (dc_mio cfg)" and "slab (u_regs (dc_uring cfg))"
    and "any_deregister_handle cfg ans fd k drv = (Inr u, drv')"
  shows "k \<in> handle_regs cfg drv" and "handle_regs cfg drv' = handle_regs cfg drv - {k}"
    and "any_supports_completion drv' = any_supports_completion drv"
  using assms(3) slab.get_remove[OF assms(1)] slab.get_remove[OF assms(2)]
  by (cases drv; auto simp: handle_regs_def deregister_handle_def uring_deregister_def Let_def
      split: option.splits)+

lemma deregister_total:
  assumes "k \<in> handle_regs cfg drv"
  shows "\<exists>drv'. any_deregister_handle cfg None fd k drv = (Inr (), drv')"
  using assms by (cases drv) (auto simp: handle_regs_def deregister_handle_def uring_deregister_def Let_def)

text \<open>
  Creating and dropping a handle are inverse. A handle gets a token no live registration
  has, exactly that token is added to the driver's registrations, its mode is one the driver
  supports, and dropping it, when the operating system accepts the deregistration, leaves the
  set of registered tokens as it was before.
\<close>

theorem handle_registration_roundtrip:
  assumes "slab (dc_mio cfg)" and "slab (u_regs (dc_uring cfg))"
    and "new_with_driver_and_mode cfg ans fd want mode drv = (Inr h, drv')"
  shows "h_token h \<notin> handle_regs cfg drv \<and> handle_regs cfg drv' = insert (h_token h) (handle_regs cfg drv) \<and>
    (h_mode h = CompletionMode \<longrightarrow> any_supports_completion drv') \<and>
    handle_regs cfg (handle_drop cfg None h drv') = handle_regs cfg drv"
proof -
  let ?m = "effective_mode drv mode"
  obtain k where r: "any_register_handle_with_mode cfg ans fd want ?m drv = (Inr k, drv')"
    and h: "h = \<lparr>h_fd = fd, h_token = k, h_interest = want, h_mode = ?m\<rparr>"
    using assms(3) by (auto simp: new_with_driver_and_mode_def Let_def split: sum.splits prod.splits)
  note R = register_regs[OF assms(1,2) r]
  obtain drv'' where d: "any_deregister_handle cfg None fd k drv' = (Inr (), drv'')"
    using deregister_total[of k cfg drv' fd] R(2) by auto
  have "handle_regs cfg drv'' = handle_regs cfg drv" using deregister_regs(2)[OF assms(1,2) d] R by auto
  then show ?thesis using R d by (auto simp: h handle_drop_def effective_mode_def)
qed

text \<open>
  Rebinding a handle moves it to the other mode. If \<open>rebind_mode\<close> succeeds, the handle has the
  requested mode (or poll mode on a driver without completions) and owns one registration: the
  registered tokens are the old ones with its previous token replaced by its new one. If it
  fails before the new registration, the handle is unchanged.
\<close>

theorem rebind_mode_moves_registration:
  assumes "slab (dc_mio cfg)" and "slab (u_regs (dc_uring cfg))" and "h_token h \<in> handle_regs cfg drv"
    and "rebind_mode cfg ans1 ans2 requested h drv = (res, h', drv')"
  shows "(res = Inr () \<longrightarrow> h_mode h' = effective_mode drv requested \<and> h_token h' \<in> handle_regs cfg drv' \<and>
      handle_regs cfg drv' = insert (h_token h') (handle_regs cfg drv - {h_token h})) \<and>
    (\<forall>err. res = Inl err \<longrightarrow> h' = h)"
proof (cases "h_mode h = effective_mode drv requested")
  case True
  then show ?thesis using assms(3,4) by (auto simp: rebind_mode_def)
next
  case False
  obtain res1 drv1 where d: "any_deregister_handle cfg ans1 (h_fd h) (h_token h) drv = (res1, drv1)" by fastforce
  obtain res2 drv2 where r: "any_register_handle_with_mode cfg ans2 (h_fd h) (h_interest h)
      (effective_mode drv requested) drv1 = (res2, drv2)" by fastforce
  show ?thesis
  proof (cases res1)
    case (Inl e)
    then show ?thesis using assms(4) False d by (auto simp: rebind_mode_def)
  next
    case res1: (Inr u)
    show ?thesis
    proof (cases res2)
      case (Inl e)
      then show ?thesis using assms(4) False d r res1 by (auto simp: rebind_mode_def)
    next
      case (Inr k)
      have "h' = h\<lparr>h_token := k, h_mode := effective_mode drv requested\<rparr>" "drv' = drv2" "res = Inr ()"
        using assms(4) False d r res1 Inr by (auto simp: rebind_mode_def)
      then show ?thesis
        using register_regs[OF assms(1,2) r[unfolded Inr]] deregister_regs[OF assms(1,2) d[unfolded res1]] by simp
    qed
  qed
qed

text \<open>
  Driver selection. Without an explicit kind the builder uses \<open>io_uring\<close>, with the newer setup
  flags if the kernel accepts them and without them otherwise, and falls back to the readiness
  driver exactly when both attempts fail.
\<close>

theorem build_default_selects_best:
  assumes "rb_driver_kind rb = None"
  shows "builder_build env rb =
    (case de_uring_new env 4096 (de_flags env (de_builder env)) of
       Inr d \<Rightarrow> Inr (d, rb)
     | Inl _ \<Rightarrow> (case de_uring_new env 4096 (de_builder env) of
           Inr d \<Rightarrow> Inr (d, rb)
         | Inl _ \<Rightarrow> (case de_mio_new env of Inr d \<Rightarrow> Inr (d, rb) | Inl err \<Rightarrow> Inl err)))"
  using assms
  by (simp add: builder_build_def new_best_def new_uring_def new_uring_with_entries_def
      new_uring_custom_with_entries_def split: sum.split)

theorem build_default_selects_best_witness:
  "builder_build \<lparr>de_uring_new = (\<lambda>n b. Inl (Os 38)), de_mio_new = Inr 1, de_mock = 2, de_builder = (0::nat),
     de_flags = Suc\<rparr> (builder_new :: (nat, unit) runtime_builder) = Inr (1, builder_new)"
  by (subst build_default_selects_best) (simp_all add: builder_new_def)

text \<open>
  Configuring the ring discards an entry count chosen before. \<open>RuntimeBuilder::uring\<close> keeps
  the settings of a custom builder without entry count only: after a driver kind with an
  explicit entry count, with or without a custom builder, the configured runtime asks for 4096
  entries and for none of the earlier builder's settings.
\<close>

theorem uring_closure_discards_entries:
  assumes "kind = KIoUringEntries n \<or> kind = KIoUringCustomEntries n b"
  shows "builder_build env (builder_uring env f (builder_driver kind rb)) =
    builder_build env (builder_uring env f (builder_driver KIoUring rb)) \<and>
    into_driver env (the (rb_driver_kind (builder_uring env f (builder_driver kind rb)))) =
      de_uring_new env 4096 (f (de_builder env))"
proof -
  have "builder_uring env f (builder_driver kind rb) = rb\<lparr>rb_driver_kind := Some (KIoUringCustom (f (de_builder env)))\<rparr>"
    using assms by (elim disjE) (simp_all add: builder_uring_def builder_driver_def)
  moreover have "builder_uring env f (builder_driver KIoUring rb) =
      rb\<lparr>rb_driver_kind := Some (KIoUringCustom (f (de_builder env)))\<rparr>"
    by (simp add: builder_uring_def builder_driver_def)
  ultimately show ?thesis by (simp add: new_uring_custom_def new_uring_custom_with_entries_def)
qed

theorem uring_closure_discards_entries_witness:
  "into_driver \<lparr>de_uring_new = (\<lambda>n b. Inr (n, b)), de_mio_new = Inr (0, 0), de_mock = (0, 0), de_builder = 5,
     de_flags = id\<rparr> (the (rb_driver_kind (builder_uring \<lparr>de_uring_new = (\<lambda>n b. Inr (n, b)), de_mio_new = Inr (0, 0),
       de_mock = (0, 0), de_builder = 5, de_flags = id\<rparr> ((+) 10)
       (builder_driver (KIoUringCustomEntries 64 7) (builder_new :: (nat, unit) runtime_builder))))) =
   (Inr (4096, 15) :: (nat \<times> nat) io_result)"
  using uring_closure_discards_entries[of "KIoUringCustomEntries 64 7" 64 7
      "\<lparr>de_uring_new = (\<lambda>n b. Inr (n, b)), de_mio_new = Inr (0, 0), de_mock = (0, 0), de_builder = 5, de_flags = id\<rparr>"
      "(+) 10" "builder_new :: (nat, unit) runtime_builder"] by simp

definition demo_dcfg :: "(registration option list, demo_ring, handle_registration option list,
    nat completion option list, nat, nat) driver_cfg" where
  "demo_dcfg = \<lparr>dc_mio = vec_slab_ops, dc_uring = demo_ucfg\<rparr>"

lemma demo_dcfg_slabs: "slab (dc_mio demo_dcfg)" "slab (u_regs (dc_uring demo_dcfg))"
  by (simp_all add: demo_dcfg_def demo_ucfg_slabs vec_slab.slab_axioms)

definition demo_bound where
  "demo_bound = new_with_driver_and_mode demo_dcfg None 6 READABLE CompletionMode (IoUring demo_uring0)"

lemma demo_bound_eq: "demo_bound = (Inr \<lparr>h_fd = 6, h_token = 0, h_interest = READABLE, h_mode = CompletionMode\<rparr>,
    IoUring (demo_uring0\<lparr>ud_regs := [Some CompletionReg]\<rparr>))"
  by (simp add: demo_bound_def new_with_driver_and_mode_def effective_mode_def uring_register_with_mode_def Let_def
      demo_dcfg_def demo_uring_eval vec_insert_def vec_vacant_def)

theorem handle_registration_roundtrip_witness:
  "handle_regs demo_dcfg (handle_drop demo_dcfg None
     \<lparr>h_fd = 6, h_token = 0, h_interest = READABLE, h_mode = CompletionMode\<rparr>
     (IoUring (demo_uring0\<lparr>ud_regs := [Some CompletionReg]\<rparr>))) = handle_regs demo_dcfg (IoUring demo_uring0)"
  using handle_registration_roundtrip[OF demo_dcfg_slabs demo_bound_eq[unfolded demo_bound_def]] by simp

theorem rebind_mode_moves_registration_witness:
  "\<exists>h' drv'. rebind_mode demo_dcfg None None PollMode
      \<lparr>h_fd = 6, h_token = 0, h_interest = READABLE, h_mode = CompletionMode\<rparr>
      (IoUring (demo_uring0\<lparr>ud_regs := [Some CompletionReg]\<rparr>)) = (Inr (), h', drv') \<and>
     h_mode h' = PollMode \<and> h_token h' \<in> handle_regs demo_dcfg drv'"
proof -
  let ?h = "\<lparr>h_fd = 6, h_token = 0, h_interest = READABLE, h_mode = CompletionMode\<rparr>"
  let ?d = "IoUring (demo_uring0\<lparr>ud_regs := [Some CompletionReg]\<rparr>)"
  have k: "h_token ?h \<in> handle_regs demo_dcfg ?d"
    by (simp add: handle_regs_def demo_dcfg_def demo_uring_eval domIff)
  obtain h' drv' where r: "rebind_mode demo_dcfg None None PollMode ?h ?d = (Inr (), h', drv')"
    by (simp add: rebind_mode_def effective_mode_def uring_register_with_mode_def uring_deregister_def Let_def
        demo_dcfg_def demo_uring_eval vec_insert_def vec_vacant_def)
  from rebind_mode_moves_registration[OF demo_dcfg_slabs k r] r show ?thesis
    by (auto simp: effective_mode_def)
qed

end
