(* ===== verification/Io_Ops.thy ===== *)
theory Io_Ops
  imports Any_Driver
begin

text \<open>
  The operations of \<open>op/\<close>: each is a small state machine over the driver, with the completion
  path (submit once, keep the token, fetch the result) and, where the sources have it, the
  readiness path (try the system call, wait for the interest). A definition per method of each
  operation; the configuration is Linux. Results of system calls are arguments (\<open>sys\<close>, a
  returned number or an error), and buffers are their lengths and capacities.
\<close>

section \<open>Buffers\<close>

text \<open>
  \<open>IoBuf\<close> and \<open>IoBufMut\<close>: a growable buffer (\<open>Vec\<close>, \<open>String\<close>) takes the initialised length, a
  fixed one (array, boxed slice) ignores it; \<open>would_box\<close> says whether moving the value moves
  its bytes.
\<close>

record io_buf =
  buf_len :: nat
  buf_capacity :: nat
  buf_fixed :: bool
  would_box :: bool

definition set_buf_init :: "nat \<Rightarrow> io_buf \<Rightarrow> io_buf" where
  "set_buf_init n b = (if buf_fixed b then b else b\<lparr>buf_len := n\<rparr>)"

datatype completion_buffer = Inline io_buf | Boxed io_buf

definition completion_buffer_new :: "io_buf \<Rightarrow> bool \<Rightarrow> completion_buffer" where
  "completion_buffer_new b pinned = (if pinned \<and> would_box b then Boxed b else Inline b)"

fun cb_ref :: "completion_buffer \<Rightarrow> io_buf" where
  "cb_ref (Inline b) = b"
| "cb_ref (Boxed b) = b"

fun cb_map :: "(io_buf \<Rightarrow> io_buf) \<Rightarrow> completion_buffer \<Rightarrow> completion_buffer" where
  "cb_map f (Inline b) = Inline (f b)"
| "cb_map f (Boxed b) = Boxed (f b)"

fun into_stable_box :: "completion_buffer \<Rightarrow> io_buf" where
  "into_stable_box (Inline b) = b"
| "into_stable_box (Boxed b) = b"

section \<open>Socket addresses\<close>

type_synonym byte = nat

datatype socket_addr =
    V4 "byte \<times> byte \<times> byte \<times> byte" nat
  | V6 "byte list" nat nat nat

text \<open>
  \<open>sockaddr_storage\<close> as the kernel and the sources see it, on a machine of either byte order
  (\<open>le\<close> for little endian): the 16- and 32-bit fields hold integers.
\<close>

datatype sockaddr =
    SockaddrIn nat nat
  | SockaddrIn6 nat nat "byte list" nat
  | OtherFamily nat

definition swap16 :: "nat \<Rightarrow> nat" where
  "swap16 n = (n mod 256) * 256 + n div 256 mod 256"

definition swap32 :: "nat \<Rightarrow> nat" where
  "swap32 n = (n mod 256) * 2 ^ 24 + (n div 256 mod 256) * 2 ^ 16 + (n div 2 ^ 16 mod 256) * 256 + n div 2 ^ 24 mod 256"

definition be16 :: "bool \<Rightarrow> nat \<Rightarrow> nat" where
  "be16 le n = (if le then swap16 n else n)"

definition be32 :: "bool \<Rightarrow> nat \<Rightarrow> nat" where
  "be32 le n = (if le then swap32 n else n)"

definition from_ne_bytes :: "bool \<Rightarrow> byte \<times> byte \<times> byte \<times> byte \<Rightarrow> nat" where
  "from_ne_bytes le = (\<lambda>(a, b, c, d). if le then a + b * 256 + c * 2 ^ 16 + d * 2 ^ 24
     else a * 2 ^ 24 + b * 2 ^ 16 + c * 256 + d)"

definition ipv4_from_u32 :: "nat \<Rightarrow> byte \<times> byte \<times> byte \<times> byte" where
  "ipv4_from_u32 n = (n div 2 ^ 24 mod 256, n div 2 ^ 16 mod 256, n div 256 mod 256, n mod 256)"

fun socket_addr_to_raw :: "bool \<Rightarrow> socket_addr \<Rightarrow> sockaddr \<times> nat" where
  "socket_addr_to_raw le (V4 ip port) = (SockaddrIn (be16 le port) (from_ne_bytes le ip), 16)"
| "socket_addr_to_raw le (V6 ip port flowinfo scope) = (SockaddrIn6 (be16 le port) flowinfo ip scope, 28)"

fun sockaddr_storage_to_socketaddr :: "bool \<Rightarrow> sockaddr \<Rightarrow> socket_addr io_result" where
  "sockaddr_storage_to_socketaddr le (SockaddrIn port addr) = Inr (V4 (ipv4_from_u32 (be32 le addr)) (be16 le port))"
| "sockaddr_storage_to_socketaddr le (SockaddrIn6 port flowinfo ip scope) = Inr (V6 ip (be16 le port) flowinfo scope)"
| "sockaddr_storage_to_socketaddr le (OtherFamily f) = Inl (Simple InvalidData)"

section \<open>Submission entries and what a dropped operation keeps\<close>

datatype op_entry =
    ReadE raw_fd nat "nat option"
  | WriteE raw_fd nat "nat option"
  | SendE raw_fd nat
  | RecvE raw_fd nat bool
  | ReadvE raw_fd "nat list"
  | WritevE raw_fd "nat list"
  | SendMsgE raw_fd sockaddr nat nat
  | RecvMsgE raw_fd nat bool
  | SpliceE raw_fd raw_fd nat
  | FsyncE raw_fd bool
  | AcceptE raw_fd bool
  | ConnectE raw_fd sockaddr
  | OpenAtE string int nat
  | MkDirAtE string nat
  | UnlinkAtE string bool
  | RenameAtE string string
  | SymlinkAtE string string
  | LinkAtE string string
  | StatxE raw_fd string int nat

text \<open>Memory of the operation that an entry in the kernel's hands refers to.\<close>

datatype memory = BufMem | IovecMem | MsgMem | PathMem | AddrMem | StatxMem

fun entry_memory :: "op_entry \<Rightarrow> memory set" where
  "entry_memory (ReadE fd n off) = {BufMem}"
| "entry_memory (WriteE fd n off) = {BufMem}"
| "entry_memory (SendE fd n) = {BufMem}"
| "entry_memory (RecvE fd n peek) = {BufMem}"
| "entry_memory (ReadvE fd ns) = {BufMem, IovecMem}"
| "entry_memory (WritevE fd ns) = {BufMem, IovecMem}"
| "entry_memory (SendMsgE fd a l n) = {BufMem, MsgMem}"
| "entry_memory (RecvMsgE fd n peek) = {BufMem, MsgMem}"
| "entry_memory (SpliceE i out n) = {}"
| "entry_memory (FsyncE fd b) = {}"
| "entry_memory (AcceptE fd b) = {}"
| "entry_memory (ConnectE fd a) = {AddrMem}"
| "entry_memory (OpenAtE p fl m) = {PathMem}"
| "entry_memory (MkDirAtE p m) = {PathMem}"
| "entry_memory (UnlinkAtE p b) = {PathMem}"
| "entry_memory (RenameAtE p q) = {PathMem}"
| "entry_memory (SymlinkAtE p q) = {PathMem}"
| "entry_memory (LinkAtE p q) = {PathMem}"
| "entry_memory (StatxE fd p fl m) = {PathMem, StatxMem}"

type_synonym kept = "memory set"

type_synonym ('ms, 'r, 's, 'c) op_cfg = "('ms, 'r, 's, 'c, op_entry, kept) driver_cfg"

definition op_sqe :: "op_entry \<Rightarrow> 64 word \<Rightarrow> op_entry sqe" where
  "op_sqe e key = \<lparr>sqe_op = OpSqe e, sqe_key = key\<rparr>"

text \<open>\<open>u32::try_from\<close> of a length.\<close>

definition len_u32 :: "nat \<Rightarrow> nat io_result" where
  "len_u32 n = (if n < 2 ^ 32 then Inr n else Inl (Simple InvalidInput))"

section \<open>The two paths every operation takes\<close>

text \<open>\<open>io::Error::last_os_error\<close> after a call that returned \<open>-1\<close>, the returned number otherwise.\<close>

type_synonym sys = "nat io_result"

definition poll_result_or_wait ::
  "('ms, 'r, 's, 'c) op_cfg \<Rightarrow> os_answer \<Rightarrow> sys \<Rightarrow> raw_handle \<Rightarrow> waker \<Rightarrow> interest
   \<Rightarrow> ('ms, 'r, 's, 'c) any_driver \<Rightarrow> nat io_result poll \<times> ('ms, 'r, 's, 'c) any_driver" where
  "poll_result_or_wait cfg ans result h w want drv =
     (case result of
        Inr v \<Rightarrow> (Ready (Inr v), drv)
      | Inl err \<Rightarrow>
          if kind_of err = WouldBlock then
            (case any_submit_poll cfg ans (h_token h) w want drv of
               (Inl submit_err, drv1) \<Rightarrow> (Ready (Inl submit_err), drv1)
             | (Inr _, drv1) \<Rightarrow> (Pending, drv1))
          else (Ready (Inl err), drv))"

text \<open>
  The head of every \<open>poll_completion\<close>: fetch the result of the token or refresh its waker; with
  no token submit the entry.
\<close>

definition completion_result ::
  "('ms, 'r, 's, 'c) op_cfg \<Rightarrow> (64 word \<Rightarrow> op_entry sqe io_result) \<Rightarrow> waker \<Rightarrow> token option
   \<Rightarrow> ('ms, 'r, 's, 'c) any_driver \<Rightarrow> int io_result poll \<times> token option \<times> ('ms, 'r, 's, 'c) any_driver" where
  "completion_result cfg build w tok drv =
     (case tok of
        Some k \<Rightarrow>
          (case any_get_completion_result cfg k drv of
             (Some r, drv1) \<Rightarrow> (Ready (Inr r), None, drv1)
           | (None, drv1) \<Rightarrow> (Pending, Some k, any_set_completion_waker cfg k w drv1))
      | None \<Rightarrow>
          (case any_submit_completion cfg build w drv of
             (CompletionOk r, drv1) \<Rightarrow> (Ready (Inr r), None, drv1)
           | (Retry k, drv1) \<Rightarrow> (Pending, Some k, drv1)
           | (SubmitErr err, drv1) \<Rightarrow> (Ready (Inl err), None, drv1)))"

text \<open>The number a completion reports: a negative one is an error code.\<close>

definition op_result :: "int io_result poll \<Rightarrow> nat io_result poll" where
  "op_result r =
     (case r of
        Pending \<Rightarrow> Pending
      | Ready (Inl err) \<Rightarrow> Ready (Inl err)
      | Ready (Inr n) \<Rightarrow> Ready (if n < 0 then Inl (Os (nat (- n))) else Inr (nat n)))"

fun ready_ok :: "nat io_result poll \<Rightarrow> nat option" where
  "ready_ok (Ready (Inr n)) = Some n"
| "ready_ok _ = None"

text \<open>\<open>ignore_completion\<close> of a dropped operation that still has a token, if a runtime is current.\<close>

definition drop_in_flight ::
  "('ms, 'r, 's, 'c) op_cfg \<Rightarrow> token option \<Rightarrow> kept \<Rightarrow> ('ms, 'r, 's, 'c) any_driver option
   \<Rightarrow> ('ms, 'r, 's, 'c) any_driver option" where
  "drop_in_flight cfg tok data cur =
     (case tok of
        None \<Rightarrow> cur
      | Some k \<Rightarrow> map_option (any_ignore_completion cfg k data) cur)"

record op_base =
  op_handle :: raw_handle
  op_token :: "token option"


text \<open>
  The buffer of an operation is an \<open>Option\<close> in the sources only because \<open>take_bufs\<close> and \<open>drop\<close>,
  which consume the operation, take it out: an operation that can be polled has it.
\<close>

record buf_op = op_base +
  op_buf :: completion_buffer

type_synonym ('a, 'o, 'ms, 'r, 's, 'c) op_step =
  "'o \<Rightarrow> ('ms, 'r, 's, 'c) any_driver \<Rightarrow> 'a io_result poll \<times> 'o \<times> ('ms, 'r, 's, 'c) any_driver"

definition buf_op_new :: "('ms, 'r, 's, 'c) any_driver \<Rightarrow> raw_handle \<Rightarrow> io_buf \<Rightarrow> buf_op" where
  "buf_op_new drv h b =
     \<lparr>op_handle = h, op_token = None, op_buf = completion_buffer_new b (uses_completion drv h)\<rparr>"

definition take_bufs :: "'x buf_op_scheme \<Rightarrow> io_buf" where
  "take_bufs op = cb_ref (op_buf op)"

text \<open>After a read of \<open>n\<close> bytes the buffer holds \<open>n\<close> initialised bytes.\<close>

definition init_on_success :: "nat io_result poll \<Rightarrow> 'x buf_op_scheme \<Rightarrow> 'x buf_op_scheme" where
  "init_on_success res op =
     (case ready_ok res of None \<Rightarrow> op | Some n \<Rightarrow> op\<lparr>op_buf := cb_map (set_buf_init n) (op_buf op)\<rparr>)"

section \<open>Reading and writing one buffer\<close>

subsection \<open>\<open>ReadOp\<close>\<close>

definition read_entry :: "buf_op \<Rightarrow> 64 word \<Rightarrow> op_entry sqe io_result" where
  "read_entry op key = map_sum id (\<lambda>n. op_sqe (ReadE (h_fd (op_handle op)) n None) key)
     (len_u32 (buf_capacity (cb_ref (op_buf op))))"

definition read_poll_poll ::
  "('ms, 'r, 's, 'c) op_cfg \<Rightarrow> os_answer \<Rightarrow> sys \<Rightarrow> waker \<Rightarrow> (nat, buf_op, 'ms, 'r, 's, 'c) op_step" where
  "read_poll_poll cfg ans sys w op drv =
     (let (res, drv1) = poll_result_or_wait cfg ans sys (op_handle op) w READABLE drv
      in (res, init_on_success res op, drv1))"

definition read_poll_completion ::
  "('ms, 'r, 's, 'c) op_cfg \<Rightarrow> waker \<Rightarrow> (nat, buf_op, 'ms, 'r, 's, 'c) op_step" where
  "read_poll_completion cfg w op drv =
     (let (r, tok, drv1) = completion_result cfg (read_entry op) w (op_token op) drv
      in (op_result r, init_on_success (op_result r) (op\<lparr>op_token := tok\<rparr>), drv1))"

definition read_drop ::
  "('ms, 'r, 's, 'c) op_cfg \<Rightarrow> buf_op \<Rightarrow> ('ms, 'r, 's, 'c) any_driver option \<Rightarrow> ('ms, 'r, 's, 'c) any_driver option" where
  "read_drop cfg op cur = drop_in_flight cfg (op_token op) {BufMem} cur"

subsection \<open>\<open>WriteOp\<close>\<close>

definition write_entry :: "buf_op \<Rightarrow> 64 word \<Rightarrow> op_entry sqe io_result" where
  "write_entry op key = map_sum id (\<lambda>n. op_sqe (WriteE (h_fd (op_handle op)) n None) key)
     (len_u32 (buf_len (cb_ref (op_buf op))))"

definition write_poll_poll ::
  "('ms, 'r, 's, 'c) op_cfg \<Rightarrow> os_answer \<Rightarrow> sys \<Rightarrow> waker \<Rightarrow> (nat, buf_op, 'ms, 'r, 's, 'c) op_step" where
  "write_poll_poll cfg ans sys w op drv =
     (let (res, drv1) = poll_result_or_wait cfg ans sys (op_handle op) w WRITABLE drv
      in (res, op, drv1))"

definition write_poll_completion ::
  "('ms, 'r, 's, 'c) op_cfg \<Rightarrow> waker \<Rightarrow> (nat, buf_op, 'ms, 'r, 's, 'c) op_step" where
  "write_poll_completion cfg w op drv =
     (let (r, tok, drv1) = completion_result cfg (write_entry op) w (op_token op) drv
      in (op_result r, op\<lparr>op_token := tok\<rparr>, drv1))"

definition write_drop ::
  "('ms, 'r, 's, 'c) op_cfg \<Rightarrow> buf_op \<Rightarrow> ('ms, 'r, 's, 'c) any_driver option \<Rightarrow> ('ms, 'r, 's, 'c) any_driver option" where
  "write_drop cfg op cur = drop_in_flight cfg (op_token op) {BufMem} cur"

subsection \<open>\<open>SendOp\<close>\<close>

definition send_entry :: "buf_op \<Rightarrow> 64 word \<Rightarrow> op_entry sqe io_result" where
  "send_entry op key = map_sum id (\<lambda>n. op_sqe (SendE (h_fd (op_handle op)) n) key)
     (len_u32 (buf_len (cb_ref (op_buf op))))"

definition send_poll_poll ::
  "('ms, 'r, 's, 'c) op_cfg \<Rightarrow> os_answer \<Rightarrow> sys \<Rightarrow> waker \<Rightarrow> (nat, buf_op, 'ms, 'r, 's, 'c) op_step" where
  "send_poll_poll cfg ans sys w op drv =
     (let (res, drv1) = poll_result_or_wait cfg ans sys (op_handle op) w WRITABLE drv
      in (res, op, drv1))"

definition send_poll_completion ::
  "('ms, 'r, 's, 'c) op_cfg \<Rightarrow> waker \<Rightarrow> (nat, buf_op, 'ms, 'r, 's, 'c) op_step" where
  "send_poll_completion cfg w op drv =
     (let (r, tok, drv1) = completion_result cfg (send_entry op) w (op_token op) drv
      in (op_result r, op\<lparr>op_token := tok\<rparr>, drv1))"

definition send_drop ::
  "('ms, 'r, 's, 'c) op_cfg \<Rightarrow> buf_op \<Rightarrow> ('ms, 'r, 's, 'c) any_driver option \<Rightarrow> ('ms, 'r, 's, 'c) any_driver option" where
  "send_drop cfg op cur = drop_in_flight cfg (op_token op) {BufMem} cur"

subsection \<open>\<open>RecvOp\<close>\<close>

record recv_op = buf_op +
  recv_peek :: bool

definition recv_entry :: "recv_op \<Rightarrow> 64 word \<Rightarrow> op_entry sqe io_result" where
  "recv_entry op key = map_sum id (\<lambda>n. op_sqe (RecvE (h_fd (op_handle op)) n (recv_peek op)) key)
     (len_u32 (buf_capacity (cb_ref (op_buf op))))"

definition recv_poll_poll ::
  "('ms, 'r, 's, 'c) op_cfg \<Rightarrow> os_answer \<Rightarrow> sys \<Rightarrow> waker \<Rightarrow> (nat, recv_op, 'ms, 'r, 's, 'c) op_step" where
  "recv_poll_poll cfg ans sys w op drv =
     (let (res, drv1) = poll_result_or_wait cfg ans sys (op_handle op) w READABLE drv
      in (res, init_on_success res op, drv1))"

definition recv_poll_completion ::
  "('ms, 'r, 's, 'c) op_cfg \<Rightarrow> waker \<Rightarrow> (nat, recv_op, 'ms, 'r, 's, 'c) op_step" where
  "recv_poll_completion cfg w op drv =
     (let (r, tok, drv1) = completion_result cfg (recv_entry op) w (op_token op) drv
      in (op_result r, init_on_success (op_result r) (op\<lparr>op_token := tok\<rparr>), drv1))"

definition recv_drop ::
  "('ms, 'r, 's, 'c) op_cfg \<Rightarrow> recv_op \<Rightarrow> ('ms, 'r, 's, 'c) any_driver option \<Rightarrow> ('ms, 'r, 's, 'c) any_driver option" where
  "recv_drop cfg op cur = drop_in_flight cfg (op_token op) {BufMem} cur"

text \<open>File access at an offset has the completion path only (the offset type is shared).\<close>

record at_op = buf_op +
  at_offset :: u64

subsection \<open>\<open>ReadAtOp\<close>\<close>

definition readat_entry :: "at_op \<Rightarrow> 64 word \<Rightarrow> op_entry sqe io_result" where
  "readat_entry op key = map_sum id (\<lambda>n. op_sqe (ReadE (h_fd (op_handle op)) n (Some (at_offset op))) key)
     (len_u32 (buf_capacity (cb_ref (op_buf op))))"

definition readat_poll_completion ::
  "('ms, 'r, 's, 'c) op_cfg \<Rightarrow> waker \<Rightarrow> (nat, at_op, 'ms, 'r, 's, 'c) op_step" where
  "readat_poll_completion cfg w op drv =
     (let (r, tok, drv1) = completion_result cfg (readat_entry op) w (op_token op) drv
      in (op_result r, init_on_success (op_result r) (op\<lparr>op_token := tok\<rparr>), drv1))"

definition readat_drop ::
  "('ms, 'r, 's, 'c) op_cfg \<Rightarrow> at_op \<Rightarrow> ('ms, 'r, 's, 'c) any_driver option \<Rightarrow> ('ms, 'r, 's, 'c) any_driver option" where
  "readat_drop cfg op cur = drop_in_flight cfg (op_token op) {BufMem} cur"

subsection \<open>\<open>WriteAtOp\<close>\<close>

definition writeat_entry :: "at_op \<Rightarrow> 64 word \<Rightarrow> op_entry sqe io_result" where
  "writeat_entry op key = map_sum id (\<lambda>n. op_sqe (WriteE (h_fd (op_handle op)) n (Some (at_offset op))) key)
     (len_u32 (buf_len (cb_ref (op_buf op))))"

definition writeat_poll_completion ::
  "('ms, 'r, 's, 'c) op_cfg \<Rightarrow> waker \<Rightarrow> (nat, at_op, 'ms, 'r, 's, 'c) op_step" where
  "writeat_poll_completion cfg w op drv =
     (let (r, tok, drv1) = completion_result cfg (writeat_entry op) w (op_token op) drv
      in (op_result r, op\<lparr>op_token := tok\<rparr>, drv1))"

definition writeat_drop ::
  "('ms, 'r, 's, 'c) op_cfg \<Rightarrow> at_op \<Rightarrow> ('ms, 'r, 's, 'c) any_driver option \<Rightarrow> ('ms, 'r, 's, 'c) any_driver option" where
  "writeat_drop cfg op cur = drop_in_flight cfg (op_token op) {BufMem} cur"

section \<open>Vectored reading and writing\<close>

text \<open>
  The buffers are their lengths; \<open>vo_iovecs\<close> is the system array built on the first submission
  and kept for the kernel.
\<close>

record vec_op = op_base +
  vo_bufs :: "nat list"
  vo_iovecs :: "nat list option"

definition iovec_to_system :: "nat list \<Rightarrow> nat list" where
  "iovec_to_system bufs = map id bufs"

definition vec_op_new :: "raw_handle \<Rightarrow> nat list \<Rightarrow> vec_op" where
  "vec_op_new h bufs = \<lparr>op_handle = h, op_token = None, vo_bufs = bufs, vo_iovecs = None\<rparr>"

text \<open>\<open>build_completion_entry\<close> stores the array in the operation before the submission.\<close>

definition vec_prepare :: "('ms, 'r, 's, 'c) any_driver \<Rightarrow> vec_op \<Rightarrow> vec_op" where
  "vec_prepare drv op =
     (if op_token op = None \<and> any_supports_completion drv
      then (let iovecs = (case vo_iovecs op of Some v \<Rightarrow> v | None \<Rightarrow> iovec_to_system (vo_bufs op))
            in op\<lparr>vo_iovecs := (if length iovecs < 2 ^ 32 then Some iovecs else None)\<rparr>)
      else op)"

subsection \<open>\<open>ReadvOp\<close>\<close>

definition readv_entry :: "vec_op \<Rightarrow> 64 word \<Rightarrow> op_entry sqe io_result" where
  "readv_entry op key =
     (let iovecs = (case vo_iovecs op of Some v \<Rightarrow> v | None \<Rightarrow> iovec_to_system (vo_bufs op))
      in map_sum id (\<lambda>n. op_sqe (ReadvE (h_fd (op_handle op)) iovecs) key) (len_u32 (length iovecs)))"

definition readv_poll_poll ::
  "('ms, 'r, 's, 'c) op_cfg \<Rightarrow> os_answer \<Rightarrow> sys \<Rightarrow> waker \<Rightarrow> (nat, vec_op, 'ms, 'r, 's, 'c) op_step" where
  "readv_poll_poll cfg ans sys w op drv =
     (let (res, drv1) = poll_result_or_wait cfg ans sys (op_handle op) w READABLE drv in (res, op, drv1))"

definition readv_poll_completion ::
  "('ms, 'r, 's, 'c) op_cfg \<Rightarrow> waker \<Rightarrow> (nat, vec_op, 'ms, 'r, 's, 'c) op_step" where
  "readv_poll_completion cfg w op drv =
     (let (r, tok, drv1) = completion_result cfg (readv_entry op) w (op_token op) drv
      in (op_result r, (vec_prepare drv op)\<lparr>op_token := tok\<rparr>, drv1))"

definition readv_drop ::
  "('ms, 'r, 's, 'c) op_cfg \<Rightarrow> vec_op \<Rightarrow> ('ms, 'r, 's, 'c) any_driver option \<Rightarrow> ('ms, 'r, 's, 'c) any_driver option" where
  "readv_drop cfg op cur =
     drop_in_flight cfg (op_token op) ({BufMem} \<union> (if vo_iovecs op = None then {} else {IovecMem})) cur"

subsection \<open>\<open>WritevOp\<close>\<close>

definition writev_entry :: "vec_op \<Rightarrow> 64 word \<Rightarrow> op_entry sqe io_result" where
  "writev_entry op key =
     (let iovecs = (case vo_iovecs op of Some v \<Rightarrow> v | None \<Rightarrow> iovec_to_system (vo_bufs op))
      in map_sum id (\<lambda>n. op_sqe (WritevE (h_fd (op_handle op)) iovecs) key) (len_u32 (length iovecs)))"

definition writev_poll_poll ::
  "('ms, 'r, 's, 'c) op_cfg \<Rightarrow> os_answer \<Rightarrow> sys \<Rightarrow> waker \<Rightarrow> (nat, vec_op, 'ms, 'r, 's, 'c) op_step" where
  "writev_poll_poll cfg ans sys w op drv =
     (let (res, drv1) = poll_result_or_wait cfg ans sys (op_handle op) w WRITABLE drv in (res, op, drv1))"

definition writev_poll_completion ::
  "('ms, 'r, 's, 'c) op_cfg \<Rightarrow> waker \<Rightarrow> (nat, vec_op, 'ms, 'r, 's, 'c) op_step" where
  "writev_poll_completion cfg w op drv =
     (let (r, tok, drv1) = completion_result cfg (writev_entry op) w (op_token op) drv
      in (op_result r, (vec_prepare drv op)\<lparr>op_token := tok\<rparr>, drv1))"

definition writev_drop ::
  "('ms, 'r, 's, 'c) op_cfg \<Rightarrow> vec_op \<Rightarrow> ('ms, 'r, 's, 'c) any_driver option \<Rightarrow> ('ms, 'r, 's, 'c) any_driver option" where
  "writev_drop cfg op cur =
     drop_in_flight cfg (op_token op) ({BufMem} \<union> (if vo_iovecs op = None then {} else {IovecMem})) cur"

section \<open>Datagrams with addresses\<close>

subsection \<open>\<open>SendtoOp\<close>\<close>

text \<open>\<open>st_state\<close> is the boxed message header that the kernel reads; it exists after the first build.\<close>

record sendto_op = buf_op +
  st_addr :: socket_addr
  st_state :: bool

definition sendto_entry :: "bool \<Rightarrow> sendto_op \<Rightarrow> 64 word \<Rightarrow> op_entry sqe io_result" where
  "sendto_entry le op key =
     (let (raw, raw_len) = socket_addr_to_raw le (st_addr op)
      in Inr (op_sqe (SendMsgE (h_fd (op_handle op)) raw raw_len (buf_len (cb_ref (op_buf op)))) key))"

definition sendto_poll_poll ::
  "('ms, 'r, 's, 'c) op_cfg \<Rightarrow> os_answer \<Rightarrow> sys \<Rightarrow> waker \<Rightarrow> (nat, sendto_op, 'ms, 'r, 's, 'c) op_step" where
  "sendto_poll_poll cfg ans sys w op drv =
     (let (res, drv1) = poll_result_or_wait cfg ans sys (op_handle op) w WRITABLE drv in (res, op, drv1))"

definition sendto_poll_completion ::
  "bool \<Rightarrow> ('ms, 'r, 's, 'c) op_cfg \<Rightarrow> waker \<Rightarrow> (nat, sendto_op, 'ms, 'r, 's, 'c) op_step" where
  "sendto_poll_completion le cfg w op drv =
     (let (r, tok, drv1) = completion_result cfg (sendto_entry le op) w (op_token op) drv;
          built = op_token op = None \<and> any_supports_completion drv
      in (op_result r, op\<lparr>op_token := tok, st_state := st_state op \<or> built\<rparr>, drv1))"

definition sendto_drop ::
  "('ms, 'r, 's, 'c) op_cfg \<Rightarrow> sendto_op \<Rightarrow> ('ms, 'r, 's, 'c) any_driver option \<Rightarrow> ('ms, 'r, 's, 'c) any_driver option" where
  "sendto_drop cfg op cur =
     drop_in_flight cfg (op_token op) ({BufMem} \<union> (if st_state op then {MsgMem} else {})) cur"

subsection \<open>\<open>RecvfromOp\<close>\<close>

text \<open>
  \<open>rf_state\<close> is the boxed message header and the address the kernel fills in (\<open>None\<close> before the
  first build; the argument \<open>peer\<close> of the completion path is what the kernel has written there).
\<close>

record recvfrom_op = buf_op +
  rf_peek :: bool
  rf_state :: bool

definition recvfrom_entry :: "recvfrom_op \<Rightarrow> 64 word \<Rightarrow> op_entry sqe io_result" where
  "recvfrom_entry op key =
     Inr (op_sqe (RecvMsgE (h_fd (op_handle op)) (buf_capacity (cb_ref (op_buf op))) (rf_peek op)) key)"

definition recvfrom_poll_poll ::
  "bool \<Rightarrow> ('ms, 'r, 's, 'c) op_cfg \<Rightarrow> os_answer \<Rightarrow> (nat \<times> sockaddr) io_result \<Rightarrow> waker
   \<Rightarrow> (nat \<times> socket_addr, recvfrom_op, 'ms, 'r, 's, 'c) op_step" where
  "recvfrom_poll_poll le cfg ans sys w op drv =
     (case (case sys of
              Inl err \<Rightarrow> Inl err
            | Inr (n, raw) \<Rightarrow> map_sum id (\<lambda>a. (n, a)) (sockaddr_storage_to_socketaddr le raw)) of
        Inr (n, a) \<Rightarrow> (Ready (Inr (n, a)), op\<lparr>op_buf := cb_map (set_buf_init n) (op_buf op)\<rparr>, drv)
      | Inl err \<Rightarrow>
          if kind_of err = WouldBlock then
            (case any_submit_poll cfg ans (h_token (op_handle op)) w READABLE drv of
               (Inr _, drv1) \<Rightarrow> (Pending, op, drv1)
             | (Inl e, drv1) \<Rightarrow> (Ready (Inl e), op, drv1))
          else (Ready (Inl err), op, drv))"

definition recvfrom_poll_completion ::
  "bool \<Rightarrow> ('ms, 'r, 's, 'c) op_cfg \<Rightarrow> sockaddr \<Rightarrow> waker
   \<Rightarrow> (nat \<times> socket_addr, recvfrom_op, 'ms, 'r, 's, 'c) op_step" where
  "recvfrom_poll_completion le cfg peer w op drv =
     (let (r, tok, drv1) = completion_result cfg (recvfrom_entry op) w (op_token op) drv;
          built = op_token op = None \<and> any_supports_completion drv;
          op1 = op\<lparr>op_token := tok, rf_state := rf_state op \<or> built\<rparr>
      in case op_result r of
           Pending \<Rightarrow> (Pending, op1, drv1)
         | Ready (Inl err) \<Rightarrow> (Ready (Inl err), op1, drv1)
         | Ready (Inr n) \<Rightarrow>
             (Ready (if rf_state op1 then map_sum id (\<lambda>a. (n, a)) (sockaddr_storage_to_socketaddr le peer)
                     else Inl (Simple OtherKind)),
              op1\<lparr>op_buf := cb_map (set_buf_init n) (op_buf op1)\<rparr>, drv1))"

definition recvfrom_drop ::
  "('ms, 'r, 's, 'c) op_cfg \<Rightarrow> recvfrom_op \<Rightarrow> ('ms, 'r, 's, 'c) any_driver option \<Rightarrow> ('ms, 'r, 's, 'c) any_driver option" where
  "recvfrom_drop cfg op cur =
     drop_in_flight cfg (op_token op) ({BufMem} \<union> (if rf_state op then {MsgMem} else {})) cur"

section \<open>Moving bytes between descriptors\<close>

record splice_op = op_base +
  sp_fd_in :: raw_fd
  sp_len :: nat

definition splice_entry :: "splice_op \<Rightarrow> 64 word \<Rightarrow> op_entry sqe io_result" where
  "splice_entry op key = map_sum id (\<lambda>n. op_sqe (SpliceE (sp_fd_in op) (h_fd (op_handle op)) n) key) (len_u32 (sp_len op))"

definition splice_poll_poll ::
  "('ms, 'r, 's, 'c) op_cfg \<Rightarrow> os_answer \<Rightarrow> sys \<Rightarrow> waker \<Rightarrow> (nat, splice_op, 'ms, 'r, 's, 'c) op_step" where
  "splice_poll_poll cfg ans sys w op drv =
     (let (res, drv1) = poll_result_or_wait cfg ans sys (op_handle op) w WRITABLE drv in (res, op, drv1))"

definition splice_poll_completion ::
  "('ms, 'r, 's, 'c) op_cfg \<Rightarrow> waker \<Rightarrow> (nat, splice_op, 'ms, 'r, 's, 'c) op_step" where
  "splice_poll_completion cfg w op drv =
     (let (r, tok, drv1) = completion_result cfg (splice_entry op) w (op_token op) drv
      in (op_result r, op\<lparr>op_token := tok\<rparr>, drv1))"

definition splice_drop ::
  "('ms, 'r, 's, 'c) op_cfg \<Rightarrow> splice_op \<Rightarrow> ('ms, 'r, 's, 'c) any_driver option \<Rightarrow> ('ms, 'r, 's, 'c) any_driver option" where
  "splice_drop cfg op cur = drop_in_flight cfg (op_token op) {} cur"

text \<open>\<open>SendfileOp\<close> has no completion path: on a completion driver it is unsupported (\<open>op/mod.rs\<close>).\<close>

definition sendfile_poll_poll ::
  "('ms, 'r, 's, 'c) op_cfg \<Rightarrow> os_answer \<Rightarrow> sys \<Rightarrow> waker \<Rightarrow> (nat, splice_op, 'ms, 'r, 's, 'c) op_step" where
  "sendfile_poll_poll cfg ans sys w op drv =
     (let (res, drv1) = poll_result_or_wait cfg ans sys (op_handle op) w WRITABLE drv in (res, op, drv1))"

definition default_poll_completion :: "('a, 'o, 'ms, 'r, 's, 'c) op_step" where
  "default_poll_completion op drv = (Ready (Inl (Simple Unsupported)), op, drv)"

definition default_poll_poll :: "('a, 'o, 'ms, 'r, 's, 'c) op_step" where
  "default_poll_poll op drv = (Ready (Inl (Simple Unsupported)), op, drv)"

text \<open>\<open>Op::poll\<close>, for operations without a handle.\<close>

definition op_poll ::
  "('a, 'o, 'ms, 'r, 's, 'c) op_step \<Rightarrow> ('a, 'o, 'ms, 'r, 's, 'c) op_step \<Rightarrow> ('a, 'o, 'ms, 'r, 's, 'c) op_step" where
  "op_poll pc pp op drv = (if any_supports_completion drv then pc op drv else pp op drv)"

section \<open>Files\<close>

text \<open>Operations that return nothing or a descriptor, without buffers.\<close>

definition unit_result :: "nat io_result poll \<Rightarrow> unit io_result poll" where
  "unit_result r = (case r of Pending \<Rightarrow> Pending | Ready x \<Rightarrow> Ready (map_sum id (\<lambda>_. ()) x))"

record fsync_op = op_base +
  fs_data_only :: bool

definition fsync_entry :: "fsync_op \<Rightarrow> 64 word \<Rightarrow> op_entry sqe io_result" where
  "fsync_entry op key = Inr (op_sqe (FsyncE (h_fd (op_handle op)) (fs_data_only op)) key)"

definition fsync_poll_completion ::
  "('ms, 'r, 's, 'c) op_cfg \<Rightarrow> waker \<Rightarrow> (unit, fsync_op, 'ms, 'r, 's, 'c) op_step" where
  "fsync_poll_completion cfg w op drv =
     (let (r, tok, drv1) = completion_result cfg (fsync_entry op) w (op_token op) drv
      in (unit_result (op_result r), op\<lparr>op_token := tok\<rparr>, drv1))"

definition fsync_drop ::
  "('ms, 'r, 's, 'c) op_cfg \<Rightarrow> fsync_op \<Rightarrow> ('ms, 'r, 's, 'c) any_driver option \<Rightarrow> ('ms, 'r, 's, 'c) any_driver option" where
  "fsync_drop cfg op cur = drop_in_flight cfg (op_token op) {} cur"

record path_op =
  po_token :: "token option"
  po_path :: string

record open_op = path_op +
  open_flags :: int
  open_mode :: nat

definition open_entry :: "open_op \<Rightarrow> 64 word \<Rightarrow> op_entry sqe io_result" where
  "open_entry op key = Inr (op_sqe (OpenAtE (po_path op) (open_flags op) (open_mode op)) key)"

definition open_poll_completion ::
  "('ms, 'r, 's, 'c) op_cfg \<Rightarrow> waker \<Rightarrow> (nat, open_op, 'ms, 'r, 's, 'c) op_step" where
  "open_poll_completion cfg w op drv =
     (let (r, tok, drv1) = completion_result cfg (open_entry op) w (po_token op) drv
      in (op_result r, op\<lparr>po_token := tok\<rparr>, drv1))"

definition open_drop ::
  "('ms, 'r, 's, 'c) op_cfg \<Rightarrow> open_op \<Rightarrow> ('ms, 'r, 's, 'c) any_driver option \<Rightarrow> ('ms, 'r, 's, 'c) any_driver option" where
  "open_drop cfg op cur = drop_in_flight cfg (po_token op) {} cur"

record mkdir_op = path_op +
  mkdir_mode :: nat

definition mkdir_entry :: "mkdir_op \<Rightarrow> 64 word \<Rightarrow> op_entry sqe io_result" where
  "mkdir_entry op key = Inr (op_sqe (MkDirAtE (po_path op) (mkdir_mode op)) key)"

definition mkdir_poll_completion ::
  "('ms, 'r, 's, 'c) op_cfg \<Rightarrow> waker \<Rightarrow> (unit, mkdir_op, 'ms, 'r, 's, 'c) op_step" where
  "mkdir_poll_completion cfg w op drv =
     (let (r, tok, drv1) = completion_result cfg (mkdir_entry op) w (po_token op) drv
      in (unit_result (op_result r), op\<lparr>po_token := tok\<rparr>, drv1))"

definition mkdir_drop ::
  "('ms, 'r, 's, 'c) op_cfg \<Rightarrow> mkdir_op \<Rightarrow> ('ms, 'r, 's, 'c) any_driver option \<Rightarrow> ('ms, 'r, 's, 'c) any_driver option" where
  "mkdir_drop cfg op cur = drop_in_flight cfg (po_token op) {} cur"

record unlink_op = path_op +
  unlink_is_dir :: bool

definition unlink_entry :: "unlink_op \<Rightarrow> 64 word \<Rightarrow> op_entry sqe io_result" where
  "unlink_entry op key = Inr (op_sqe (UnlinkAtE (po_path op) (unlink_is_dir op)) key)"

definition unlink_poll_completion ::
  "('ms, 'r, 's, 'c) op_cfg \<Rightarrow> waker \<Rightarrow> (unit, unlink_op, 'ms, 'r, 's, 'c) op_step" where
  "unlink_poll_completion cfg w op drv =
     (let (r, tok, drv1) = completion_result cfg (unlink_entry op) w (po_token op) drv
      in (unit_result (op_result r), op\<lparr>po_token := tok\<rparr>, drv1))"

definition unlink_drop ::
  "('ms, 'r, 's, 'c) op_cfg \<Rightarrow> unlink_op \<Rightarrow> ('ms, 'r, 's, 'c) any_driver option \<Rightarrow> ('ms, 'r, 's, 'c) any_driver option" where
  "unlink_drop cfg op cur = drop_in_flight cfg (po_token op) {} cur"

record two_path_op = path_op +
  po_new_path :: string

definition rename_entry :: "two_path_op \<Rightarrow> 64 word \<Rightarrow> op_entry sqe io_result" where
  "rename_entry op key = Inr (op_sqe (RenameAtE (po_path op) (po_new_path op)) key)"

definition rename_poll_completion ::
  "('ms, 'r, 's, 'c) op_cfg \<Rightarrow> waker \<Rightarrow> (unit, two_path_op, 'ms, 'r, 's, 'c) op_step" where
  "rename_poll_completion cfg w op drv =
     (let (r, tok, drv1) = completion_result cfg (rename_entry op) w (po_token op) drv
      in (unit_result (op_result r), op\<lparr>po_token := tok\<rparr>, drv1))"

definition rename_drop ::
  "('ms, 'r, 's, 'c) op_cfg \<Rightarrow> two_path_op \<Rightarrow> ('ms, 'r, 's, 'c) any_driver option \<Rightarrow> ('ms, 'r, 's, 'c) any_driver option" where
  "rename_drop cfg op cur = drop_in_flight cfg (po_token op) {} cur"

definition symlink_entry :: "two_path_op \<Rightarrow> 64 word \<Rightarrow> op_entry sqe io_result" where
  "symlink_entry op key = Inr (op_sqe (SymlinkAtE (po_path op) (po_new_path op)) key)"

definition symlink_poll_completion ::
  "('ms, 'r, 's, 'c) op_cfg \<Rightarrow> waker \<Rightarrow> (unit, two_path_op, 'ms, 'r, 's, 'c) op_step" where
  "symlink_poll_completion cfg w op drv =
     (let (r, tok, drv1) = completion_result cfg (symlink_entry op) w (po_token op) drv
      in (unit_result (op_result r), op\<lparr>po_token := tok\<rparr>, drv1))"

definition symlink_drop ::
  "('ms, 'r, 's, 'c) op_cfg \<Rightarrow> two_path_op \<Rightarrow> ('ms, 'r, 's, 'c) any_driver option \<Rightarrow> ('ms, 'r, 's, 'c) any_driver option" where
  "symlink_drop cfg op cur = drop_in_flight cfg (po_token op) {} cur"

definition hard_link_entry :: "two_path_op \<Rightarrow> 64 word \<Rightarrow> op_entry sqe io_result" where
  "hard_link_entry op key = Inr (op_sqe (LinkAtE (po_path op) (po_new_path op)) key)"

definition hard_link_poll_completion ::
  "('ms, 'r, 's, 'c) op_cfg \<Rightarrow> waker \<Rightarrow> (unit, two_path_op, 'ms, 'r, 's, 'c) op_step" where
  "hard_link_poll_completion cfg w op drv =
     (let (r, tok, drv1) = completion_result cfg (hard_link_entry op) w (po_token op) drv
      in (unit_result (op_result r), op\<lparr>po_token := tok\<rparr>, drv1))"

definition hard_link_drop ::
  "('ms, 'r, 's, 'c) op_cfg \<Rightarrow> two_path_op \<Rightarrow> ('ms, 'r, 's, 'c) any_driver option \<Rightarrow> ('ms, 'r, 's, 'c) any_driver option" where
  "hard_link_drop cfg op cur = drop_in_flight cfg (po_token op) {} cur"

record statx_op = path_op +
  sx_dirfd :: raw_fd
  sx_flags :: int
  sx_mask :: nat
  sx_buf :: bool

definition statx_entry :: "statx_op \<Rightarrow> 64 word \<Rightarrow> op_entry sqe io_result" where
  "statx_entry op key = Inr (op_sqe (StatxE (sx_dirfd op) (po_path op) (sx_flags op) (sx_mask op)) key)"

text \<open>\<open>st\<close> is the structure the kernel has written; a missing buffer is a panic (\<open>None\<close>).\<close>

definition statx_poll_completion ::
  "('ms, 'r, 's, 'c) op_cfg \<Rightarrow> 'st \<Rightarrow> waker \<Rightarrow> statx_op \<Rightarrow> ('ms, 'r, 's, 'c) any_driver
   \<Rightarrow> ('st io_result poll \<times> statx_op \<times> ('ms, 'r, 's, 'c) any_driver) option" where
  "statx_poll_completion cfg st w op drv =
     (let (r, tok, drv1) = completion_result cfg (statx_entry op) w (po_token op) drv;
          built = po_token op = None \<and> any_supports_completion drv;
          op1 = op\<lparr>po_token := tok, sx_buf := sx_buf op \<or> built\<rparr>
      in case op_result r of
           Pending \<Rightarrow> Some (Pending, op1, drv1)
         | Ready (Inl err) \<Rightarrow> Some (Ready (Inl err), op1, drv1)
         | Ready (Inr _) \<Rightarrow> if sx_buf op1 then Some (Ready (Inr st), op1\<lparr>sx_buf := False\<rparr>, drv1) else None)"

definition statx_drop ::
  "('ms, 'r, 's, 'c) op_cfg \<Rightarrow> statx_op \<Rightarrow> ('ms, 'r, 's, 'c) any_driver option \<Rightarrow> ('ms, 'r, 's, 'c) any_driver option" where
  "statx_drop cfg op cur = drop_in_flight cfg (po_token op) (if sx_buf op then {StatxMem} else {}) cur"

end
