(* ===== verification/Io_Sockets.thy ===== *)
theory Io_Sockets
  imports Io_Ops
begin

text \<open>
  The operations whose results need further system calls: accepting and connecting sockets
  (\<open>op/accept.rs\<close>, \<open>op/accept_unix.rs\<close>, \<open>op/connect.rs\<close>), waiting for readiness
  (\<open>op/readiness.rs\<close>) and for a child process (\<open>op/waitpid.rs\<close>). \<open>fds\<close> is the set of open
  descriptors of the process, so that descriptors the code neither returns nor closes can be
  seen.
\<close>

section \<open>Accepting\<close>

text \<open>\<open>set_cloexec\<close> with the answers of its two \<open>fcntl\<close> calls.\<close>

definition set_cloexec :: "sys \<Rightarrow> os_answer \<Rightarrow> unit io_result" where
  "set_cloexec getfd setfd =
     (case getfd of
        Inl err \<Rightarrow> Inl err
      | Inr flags \<Rightarrow> if flags mod 2 = 0 then (case setfd of Some err \<Rightarrow> Inl err | None \<Rightarrow> Inr ()) else Inr ())"

definition wait_readable ::
  "('ms, 'r, 's, 'c) op_cfg \<Rightarrow> os_answer \<Rightarrow> raw_handle \<Rightarrow> waker \<Rightarrow> ('ms, 'r, 's, 'c) any_driver
   \<Rightarrow> 'a io_result poll \<times> ('ms, 'r, 's, 'c) any_driver" where
  "wait_readable cfg ans h w drv =
     (case any_submit_poll cfg ans (h_token h) w READABLE drv of
        (Inl err, drv1) \<Rightarrow> (Ready (Inl err), drv1)
      | (Inr _, drv1) \<Rightarrow> (Pending, drv1))"

definition accept_poll_unix ::
  "bool \<Rightarrow> ('ms, 'r, 's, 'c) op_cfg \<Rightarrow> os_answer \<Rightarrow> sys \<Rightarrow> sockaddr io_result \<Rightarrow> raw_handle \<Rightarrow> waker
   \<Rightarrow> raw_fd set \<Rightarrow> ('ms, 'r, 's, 'c) any_driver
   \<Rightarrow> (raw_fd \<times> socket_addr) io_result poll \<times> raw_fd set \<times> ('ms, 'r, 's, 'c) any_driver" where
  "accept_poll_unix le cfg ans accepted peer h w fds drv =
     (case accepted of
        Inl err \<Rightarrow>
          if kind_of err = WouldBlock then (let (res, drv1) = wait_readable cfg ans h w drv in (res, fds, drv1))
          else (Ready (Inl err), fds, drv)
      | Inr fd \<Rightarrow>
          (let fds1 = insert fd fds in
           case peer of
             Inl err \<Rightarrow>
               if kind_of err = WouldBlock then (let (res, drv1) = wait_readable cfg ans h w drv in (res, fds1, drv1))
               else (Ready (Inl err), fds1, drv)
           | Inr raw \<Rightarrow>
               (case sockaddr_storage_to_socketaddr le raw of
                  Inl err \<Rightarrow> (Ready (Inl err), fds1, drv)
                | Inr a \<Rightarrow> (Ready (Inr (fd, a)), fds1, drv))))"

definition accept_entry :: "op_base \<Rightarrow> 64 word \<Rightarrow> op_entry sqe io_result" where
  "accept_entry op key = Inr (op_sqe (AcceptE (h_fd (op_handle op)) True) key)"

definition poll_completion_unix ::
  "bool \<Rightarrow> sys \<Rightarrow> os_answer \<Rightarrow> sockaddr io_result \<Rightarrow> raw_fd \<Rightarrow> (raw_fd \<times> socket_addr) io_result poll" where
  "poll_completion_unix le getfd setfd peer fd =
     (case set_cloexec getfd setfd of
        Inl err \<Rightarrow> Ready (Inl err)
      | Inr _ \<Rightarrow>
          (case peer of
             Inl err \<Rightarrow> Ready (Inl err)
           | Inr raw \<Rightarrow> Ready (map_sum id (\<lambda>a. (fd, a)) (sockaddr_storage_to_socketaddr le raw))))"

definition accept_poll_completion ::
  "bool \<Rightarrow> ('ms, 'r, 's, 'c) op_cfg \<Rightarrow> sys \<Rightarrow> os_answer \<Rightarrow> sockaddr io_result \<Rightarrow> waker
   \<Rightarrow> (raw_fd \<times> socket_addr, op_base, 'ms, 'r, 's, 'c) op_step" where
  "accept_poll_completion le cfg getfd setfd peer w op drv =
     (let (r, tok, drv1) = completion_result cfg (accept_entry op) w (op_token op) drv;
          op1 = op\<lparr>op_token := tok\<rparr>
      in case op_result r of
           Pending \<Rightarrow> (Pending, op1, drv1)
         | Ready (Inl err) \<Rightarrow> (Ready (Inl err), op1, drv1)
         | Ready (Inr fd) \<Rightarrow> (poll_completion_unix le getfd setfd peer fd, op1, drv1))"

definition accept_drop ::
  "('ms, 'r, 's, 'c) op_cfg \<Rightarrow> op_base \<Rightarrow> ('ms, 'r, 's, 'c) any_driver option \<Rightarrow> ('ms, 'r, 's, 'c) any_driver option" where
  "accept_drop cfg op cur = drop_in_flight cfg (op_token op) {} cur"

definition accept_unix_poll_poll ::
  "('ms, 'r, 's, 'c) op_cfg \<Rightarrow> os_answer \<Rightarrow> sys \<Rightarrow> waker \<Rightarrow> op_base \<Rightarrow> raw_fd set \<Rightarrow> ('ms, 'r, 's, 'c) any_driver
   \<Rightarrow> raw_fd io_result poll \<times> op_base \<times> raw_fd set \<times> ('ms, 'r, 's, 'c) any_driver" where
  "accept_unix_poll_poll cfg ans accepted w op fds drv =
     (case accepted of
        Inl err \<Rightarrow>
          if kind_of err = WouldBlock
          then (let (res, drv1) = wait_readable cfg ans (op_handle op) w drv in (res, op, fds, drv1))
          else (Ready (Inl err), op, fds, drv)
      | Inr fd \<Rightarrow> (Ready (Inr fd), op, insert fd fds, drv))"

definition accept_unix_entry :: "op_base \<Rightarrow> 64 word \<Rightarrow> op_entry sqe io_result" where
  "accept_unix_entry op key = Inr (op_sqe (AcceptE (h_fd (op_handle op)) False) key)"

definition accept_unix_poll_completion ::
  "('ms, 'r, 's, 'c) op_cfg \<Rightarrow> sys \<Rightarrow> os_answer \<Rightarrow> waker \<Rightarrow> (raw_fd, op_base, 'ms, 'r, 's, 'c) op_step" where
  "accept_unix_poll_completion cfg getfd setfd w op drv =
     (let (r, tok, drv1) = completion_result cfg (accept_unix_entry op) w (op_token op) drv;
          op1 = op\<lparr>op_token := tok\<rparr>
      in case op_result r of
           Pending \<Rightarrow> (Pending, op1, drv1)
         | Ready (Inl err) \<Rightarrow> (Ready (Inl err), op1, drv1)
         | Ready (Inr fd) \<Rightarrow> (Ready (map_sum id (\<lambda>_. fd) (set_cloexec getfd setfd)), op1, drv1))"

section \<open>Connecting\<close>

abbreviation (input) EALREADY :: nat where "EALREADY \<equiv> 114"
abbreviation (input) EINPROGRESS :: nat where "EINPROGRESS \<equiv> 115"

record connect_op = op_base +
  co_addr :: sockaddr
  poll_connect_started :: bool

definition in_progress :: "nat \<Rightarrow> bool" where
  "in_progress c \<longleftrightarrow> c = EINPROGRESS \<or> c = EALREADY \<or> c = EAGAIN"

definition start_nonblocking_connect :: "os_answer \<Rightarrow> unit io_result" where
  "start_nonblocking_connect ans =
     (case ans of
        None \<Rightarrow> Inr ()
      | Some err \<Rightarrow> (case raw_os_error err of
                       Some c \<Rightarrow> if in_progress c then Inr () else Inl err
                     | None \<Rightarrow> Inl err))"

definition wait_writable ::
  "('ms, 'r, 's, 'c) op_cfg \<Rightarrow> os_answer \<Rightarrow> raw_handle \<Rightarrow> waker \<Rightarrow> ('ms, 'r, 's, 'c) any_driver
   \<Rightarrow> 'a io_result poll \<times> ('ms, 'r, 's, 'c) any_driver" where
  "wait_writable cfg ans h w drv =
     (case any_submit_poll cfg ans (h_token h) w WRITABLE drv of
        (Inl err, drv1) \<Rightarrow> (Ready (Inl err), drv1)
      | (Inr _, drv1) \<Rightarrow> (Pending, drv1))"

text \<open>\<open>sockerr\<close> is \<open>SO_ERROR\<close> as \<open>getsockopt\<close> returned it, \<open>peer\<close> the answer of \<open>getpeername\<close>.\<close>

definition connect_poll_unix ::
  "('ms, 'r, 's, 'c) op_cfg \<Rightarrow> os_answer \<Rightarrow> sys \<Rightarrow> os_answer \<Rightarrow> raw_handle \<Rightarrow> waker
   \<Rightarrow> ('ms, 'r, 's, 'c) any_driver \<Rightarrow> unit io_result poll \<times> ('ms, 'r, 's, 'c) any_driver" where
  "connect_poll_unix cfg ans sockerr peer h w drv =
     (case sockerr of
        Inl err \<Rightarrow> if kind_of err = WouldBlock then wait_writable cfg ans h w drv else (Ready (Inl err), drv)
      | Inr c \<Rightarrow>
          if c \<noteq> 0 then
            (if in_progress c then wait_writable cfg ans h w drv else (Ready (Inl (Os c)), drv))
          else
            (case peer of
               None \<Rightarrow> (Ready (Inr ()), drv)
             | Some err \<Rightarrow>
                 (case raw_os_error err of
                    Some e \<Rightarrow> if in_progress e \<or> e = ENOTCONN then wait_writable cfg ans h w drv
                              else (Ready (Inl err), drv)
                  | None \<Rightarrow> (Ready (Inl err), drv))))"

definition connect_poll_poll ::
  "('ms, 'r, 's, 'c) op_cfg \<Rightarrow> os_answer \<Rightarrow> os_answer \<Rightarrow> sys \<Rightarrow> os_answer \<Rightarrow> waker
   \<Rightarrow> (unit, connect_op, 'ms, 'r, 's, 'c) op_step" where
  "connect_poll_poll cfg ans conn sockerr peer w op drv =
     (case (if poll_connect_started op then Inr () else start_nonblocking_connect conn) of
        Inl err \<Rightarrow> (Ready (Inl err), op, drv)
      | Inr _ \<Rightarrow>
          (let (res, drv1) = connect_poll_unix cfg ans sockerr peer (op_handle op) w drv
           in (res, op\<lparr>poll_connect_started := True\<rparr>, drv1)))"

definition connect_entry :: "connect_op \<Rightarrow> 64 word \<Rightarrow> op_entry sqe io_result" where
  "connect_entry op key = Inr (op_sqe (ConnectE (h_fd (op_handle op)) (co_addr op)) key)"

definition connect_poll_completion ::
  "('ms, 'r, 's, 'c) op_cfg \<Rightarrow> waker \<Rightarrow> (unit, connect_op, 'ms, 'r, 's, 'c) op_step" where
  "connect_poll_completion cfg w op drv =
     (let (r, tok, drv1) = completion_result cfg (connect_entry op) w (op_token op) drv
      in (unit_result (op_result r), op\<lparr>op_token := tok\<rparr>, drv1))"

definition connect_drop ::
  "('ms, 'r, 's, 'c) op_cfg \<Rightarrow> connect_op \<Rightarrow> ('ms, 'r, 's, 'c) any_driver option \<Rightarrow> ('ms, 'r, 's, 'c) any_driver option" where
  "connect_drop cfg op cur = drop_in_flight cfg (op_token op) {} cur"

section \<open>Readiness\<close>

definition readiness_poll_poll ::
  "('ms, 'r, 's, 'c) op_cfg \<Rightarrow> os_answer \<Rightarrow> bool \<Rightarrow> raw_handle \<Rightarrow> waker \<Rightarrow> ('ms, 'r, 's, 'c) any_driver
   \<Rightarrow> unit io_result poll \<times> ('ms, 'r, 's, 'c) any_driver" where
  "readiness_poll_poll cfg ans writable h w drv =
     (case any_submit_poll cfg ans (h_token h) w (if writable then WRITABLE else READABLE) drv of
        (Inl err, drv1) \<Rightarrow> (Ready (Inl err), drv1)
      | (Inr _, drv1) \<Rightarrow> (Pending, drv1))"

section \<open>Waiting for a child\<close>

datatype wait_pid_state = WaitInit nat | WaitPolling nat raw_fd raw_handle | WaitDone

text \<open>\<open>waited\<close> is the answer of \<open>waitpid\<close> with \<open>WNOHANG\<close>: no child yet, or its status.\<close>

definition wait_reap :: "int option io_result \<Rightarrow> int io_result" where
  "wait_reap waited =
     (case waited of
        Inl err \<Rightarrow> Inl err
      | Inr None \<Rightarrow> Inl (Simple WouldBlock)
      | Inr (Some status) \<Rightarrow> Inr status)"

record wait_env =
  we_pidfd :: "raw_fd io_result"
  we_read :: sys
  we_waited :: "int option io_result"
  we_register :: os_answer
  we_submit :: os_answer
  we_dereg :: os_answer

text \<open>
  The \<open>Polling\<close> state of the readiness path: read the descriptor, wait while it would block,
  reap otherwise. Overwriting the state drops its fields in declaration order, the descriptor
  before the handle, so in the readiness path \<open>we_dereg\<close> answers for a closed descriptor; the
  completion path drops the handle first.
\<close>

definition wait_polling ::
  "('ms, 'r, 's, 'c) op_cfg \<Rightarrow> wait_env \<Rightarrow> waker \<Rightarrow> nat \<Rightarrow> raw_fd \<Rightarrow> raw_handle
   \<Rightarrow> ('ms, 'r, 's, 'c) any_driver \<Rightarrow> int io_result poll \<times> wait_pid_state \<times> ('ms, 'r, 's, 'c) any_driver" where
  "wait_polling cfg env w pid pidfd h drv =
     (case we_read env of
        Inl err \<Rightarrow>
          if kind_of err = WouldBlock then
            (case any_submit_poll cfg (we_submit env) (h_token h) w READABLE drv of
               (Inl e, drv1) \<Rightarrow> (Ready (Inl e), WaitPolling pid pidfd h, drv1)
             | (Inr _, drv1) \<Rightarrow> (Pending, WaitPolling pid pidfd h, drv1))
          else (Ready (wait_reap (we_waited env)), WaitDone, handle_drop cfg (we_dereg env) h drv)
      | Inr _ \<Rightarrow> (Ready (wait_reap (we_waited env)), WaitDone, handle_drop cfg (we_dereg env) h drv))"

definition waitpid_poll_poll ::
  "('ms, 'r, 's, 'c) op_cfg \<Rightarrow> wait_env \<Rightarrow> waker \<Rightarrow> wait_pid_state \<Rightarrow> ('ms, 'r, 's, 'c) any_driver
   \<Rightarrow> int io_result poll \<times> wait_pid_state \<times> ('ms, 'r, 's, 'c) any_driver" where
  "waitpid_poll_poll cfg env w st drv =
     (case st of
        WaitInit pid \<Rightarrow>
          (case we_pidfd env of
             Inl err \<Rightarrow> (Ready (Inl err), WaitInit pid, drv)
           | Inr fd \<Rightarrow>
               (case new_with_driver_and_mode cfg (we_register env) fd READABLE PollMode drv of
                  (Inl err, drv1) \<Rightarrow> (Ready (Inl err), WaitInit pid, drv1)
                | (Inr h, drv1) \<Rightarrow> wait_polling cfg env w pid fd h drv1))
      | WaitPolling pid fd h \<Rightarrow> wait_polling cfg env w pid fd h drv
      | WaitDone \<Rightarrow> (Ready (Inl (Simple OtherKind)), WaitDone, drv))"

definition waitpid_poll_completion ::
  "('ms, 'r, 's, 'c) op_cfg \<Rightarrow> wait_env \<Rightarrow> waker \<Rightarrow> wait_pid_state \<Rightarrow> ('ms, 'r, 's, 'c) any_driver
   \<Rightarrow> int io_result poll \<times> wait_pid_state \<times> ('ms, 'r, 's, 'c) any_driver" where
  "waitpid_poll_completion cfg env w st drv =
     (case st of
        WaitInit pid \<Rightarrow>
          (case we_pidfd env of
             Inl err \<Rightarrow> (Ready (Inl err), WaitDone, drv)
           | Inr fd \<Rightarrow>
               (case new_with_driver_and_mode cfg (we_register env) fd READABLE PollMode drv of
                  (Inl err, drv1) \<Rightarrow> (Ready (Inl err), WaitDone, drv1)
                | (Inr h, drv1) \<Rightarrow>
                    (case any_submit_poll cfg (we_submit env) (h_token h) w READABLE drv1 of
                       (Inl e, drv2) \<Rightarrow> (Ready (Inl e), WaitPolling pid fd h, drv2)
                     | (Inr _, drv2) \<Rightarrow> (Pending, WaitPolling pid fd h, drv2))))
      | WaitPolling pid fd h \<Rightarrow> wait_polling cfg env w pid fd h drv
      | WaitDone \<Rightarrow> (Ready (Inl (Simple OtherKind)), WaitDone, drv))"

end
