(* ===== verification/Op_Properties.thy ===== *)
theory Op_Properties
  imports Io_Sockets
begin

text \<open>
  What the operations promise on top of the drivers: an operation resolves with the result of
  its own completion, its last poller is woken, a pending readiness operation is registered,
  memory the kernel uses outlives a dropped operation (with the exceptions proved here), and
  socket addresses survive the conversion to the kernel's representation.
\<close>

section \<open>The completion path\<close>

lemma submit_completion_retry:
  assumes "slab (u_comps (dc_uring cfg))"
    and "completion_result cfg build w None (IoUring d) = (Pending, tok, drv)"
  obtains k d1 where "tok = Some k" and "drv = IoUring d1"
    and "k = sl_vacant_key (u_comps (dc_uring cfg)) (ud_comps d)"
    and "sl_get (u_comps (dc_uring cfg)) (ud_comps d) k = None"
    and "sl_get (u_comps (dc_uring cfg)) (ud_comps d1) =
      (sl_get (u_comps (dc_uring cfg)) (ud_comps d))(k \<mapsto> \<lparr>cp_waiter = Some w, cp_completed = None, cp_ignored_data = None\<rparr>)"
proof -
  let ?u = "dc_uring cfg" and ?k = "sl_vacant_key (u_comps (dc_uring cfg)) (ud_comps d)"
  obtain e where e: "build (encode_completion_key ?k) = Inr e"
    using assms(2) by (cases "build (encode_completion_key ?k)")
      (auto simp: completion_result_def uring_submit_completion_def Let_def)
  obtain res d1 where p: "push_entry ?u e d = (res, d1)" by fastforce
  have res: "\<exists>u. res = Inr u"
    using assms(2) e p by (cases res) (auto simp: completion_result_def uring_submit_completion_def Let_def)
  let ?c = "\<lparr>cp_waiter = Some w, cp_completed = None, cp_ignored_data = None\<rparr>"
  have "tok = Some ?k" and "drv = IoUring (d1\<lparr>ud_comps := sl_insert (u_comps ?u) (ud_comps d1) ?c\<rparr>)"
    using assms(2) e p res by (auto simp: completion_result_def uring_submit_completion_def Let_def)
  then show thesis
    by (intro that[of ?k "d1\<lparr>ud_comps := sl_insert (u_comps ?u) (ud_comps d1) ?c\<rparr>"])
      (simp_all add: slab.get_vacant[OF assms(1)] slab.get_insert[OF assms(1)] push_entry_frame(2)[OF p])
qed

text \<open>
  C7: An operation on the completion driver resolves with its own result. After a poll that
  submitted it (waker \<open>w\<close>) and a second poll by \<open>w'\<close> that found no result, draining the
  completion queue wakes \<open>w'\<close>, and the next poll is ready with exactly the result the kernel
  posted for this operation, gives up the token and frees its slot.
\<close>

theorem op_resolves_with_its_completion:
  assumes "slab (u_regs (dc_uring cfg))" and "slab (u_comps (dc_uring cfg))"
    and "completion_result cfg build w None (IoUring d) = (Pending, tok, drv1)"
    and "completion_result cfg build w' tok drv1 = (r2, tok2, IoUring d2)"
    and "tok = Some k" and "completes k e" and "\<And>x. x \<in> set xs \<union> set ys \<Longrightarrow> \<not> completes k x"
    and "drain_cq (dc_uring cfg) (xs @ e # ys) d2 = (ws, b, d3)"
  shows "r2 = Pending \<and> tok2 = Some k \<and> w' \<in> set ws \<and>
    (\<exists>d4. completion_result cfg build w'' tok2 (IoUring d3) = (Ready (Inr (cqe_result e)), None, IoUring d4) \<and>
       sl_get (u_comps (dc_uring cfg)) (ud_comps d4) k = None)"
proof -
  let ?u = "dc_uring cfg"
  obtain k0 d1 where k0: "tok = Some k0" "drv1 = IoUring d1" and g: "sl_get (u_comps ?u) (ud_comps d1) =
      (sl_get (u_comps ?u) (ud_comps d))(k0 \<mapsto> \<lparr>cp_waiter = Some w, cp_completed = None, cp_ignored_data = None\<rparr>)"
    by (rule submit_completion_retry[OF assms(2,3)])
  have k: "k0 = k" using k0(1) assms(5) by simp
  have g1: "sl_get (u_comps ?u) (ud_comps d1) k = Some \<lparr>cp_waiter = Some w, cp_completed = None, cp_ignored_data = None\<rparr>"
    using g k by simp
  have r2: "r2 = Pending \<and> tok2 = Some k" and d2: "d2 = uring_set_completion_waker ?u k w' d1"
    using assms(4) g1 k0 k by (auto simp: completion_result_def uring_get_completion_result_def)
  let ?c = "\<lparr>cp_waiter = Some w', cp_completed = None, cp_ignored_data = None\<rparr>"
  have g2: "sl_get (u_comps ?u) (ud_comps d2) k = Some ?c"
    using g1 by (simp add: d2 uring_set_completion_waker_def slab.get_set[OF assms(2) g1])
  have sl: "uring_slabs ?u" using assms(1,2) by (simp add: uring_slabs_def)
  note D = uring_slabs.drain_completes[OF sl g2 assms(6,7,8)]
  have g3: "sl_get (u_comps ?u) (ud_comps d3) k = Some (?c\<lparr>cp_completed := Some (cqe_result e), cp_waiter := None\<rparr>)"
    using D(1) by simp
  have "completion_result cfg build w'' (Some k) (IoUring d3) = (Ready (Inr (cqe_result e)), None,
      IoUring (d3\<lparr>ud_comps := sl_remove (u_comps ?u) (ud_comps d3) k\<rparr>))"
    using g3 by (simp add: completion_result_def uring_get_completion_result_def)
  moreover have "sl_get (u_comps ?u) (sl_remove (u_comps ?u) (ud_comps d3) k) k = None"
    by (simp add: slab.get_remove[OF assms(2) g3])
  ultimately show ?thesis using r2 D(2) by auto
qed

section \<open>The readiness path\<close>

lemma pending_submits:
  assumes "poll_result_or_wait cfg ans result h w want drv = (Pending, drv1)"
  obtains u where "any_submit_poll cfg ans (h_token h) w want drv = (Inr u, drv1)"
proof -
  obtain res d1 where s: "any_submit_poll cfg ans (h_token h) w want drv = (res, d1)" by fastforce
  show thesis using assms s that
    by (cases res) (auto simp: poll_result_or_wait_def split: sum.splits if_splits)
qed

text \<open>
  A pending operation keeps its place. When a read or write would block and its poll returns
  pending, on either driver, the slot of its handle and direction holds the caller's waker, and
  it still does after any number of other operations have registered themselves for other
  handles or for the other direction of the same handle, successfully or not.
\<close>

theorem pending_op_is_registered:
  assumes "any_slabs cfg" and "poll_result_or_wait cfg ans result h w want drv = (Pending, drv1)"
    and "want \<noteq> READ_WRITE"
    and "\<And>a k w' i. (a, k, w', i) \<in> set others \<Longrightarrow>
      i \<noteq> READ_WRITE \<and> (h_token h, is_writable want) \<noteq> (k, is_writable i)"
  shows "any_waits cfg (fold (\<lambda>(a, k, w, i) d. snd (any_submit_poll cfg a k w i d)) others drv1)
    (h_token h) (is_writable want) = Some w"
proof -
  obtain u where "any_submit_poll cfg ans (h_token h) w want drv = (Inr u, drv1)"
    by (rule pending_submits[OF assms(2)])
  then show ?thesis
    by (rule poll_driver.last_submitter_waits[OF any_slabs.is_poll_driver[OF assms(1)] _ assms(3,4)])
qed

section \<open>Memory of dropped operations\<close>

text \<open>Dropping an operation with a token stores the kept memory in its completion.\<close>

lemma drop_keeps:
  assumes "slab (u_comps (dc_uring cfg))" and "sl_get (u_comps (dc_uring cfg)) (ud_comps d) k = Some c"
  shows "\<exists>d'. drop_in_flight cfg (Some k) data (Some (IoUring d)) = Some (IoUring d') \<and>
    sl_get (u_comps (dc_uring cfg)) (ud_comps d') k = Some (c\<lparr>cp_ignored_data := Some data\<rparr>)"
  using assms(2)
  by (simp add: drop_in_flight_def uring_ignore_completion_def slab.get_set[OF assms])

text \<open>
  \<open>keeps_entry\<close>: the driver \<open>cur\<close> holds, in the completion of the operation, all the memory that
  the entry built for it refers to.
\<close>

definition keeps_entry ::
  "('ms, 'r, 's, 'c) op_cfg \<Rightarrow> (64 word \<Rightarrow> op_entry sqe io_result) \<Rightarrow> token option
   \<Rightarrow> ('ms, 'r, 's, 'c) any_driver option \<Rightarrow> bool" where
  "keeps_entry cfg build tok cur \<longleftrightarrow>
     (\<exists>k e c data d. tok = Some k \<and> build (encode_completion_key k) = Inr (op_sqe e (encode_completion_key k)) \<and>
        cur = Some (IoUring d) \<and> sl_get (u_comps (dc_uring cfg)) (ud_comps d) k = Some c \<and>
        cp_ignored_data c = Some data \<and> entry_memory e \<subseteq> data)"

lemma drop_keeps_entry:
  assumes "slab (u_comps (dc_uring cfg))"
    and "completion_result cfg build w None (IoUring d) = (Pending, tok, drv)"
    and "\<And>key s. build key = Inr s \<Longrightarrow> \<exists>e. s = op_sqe e key \<and> entry_memory e \<subseteq> K"
  shows "keeps_entry cfg build tok (drop_in_flight cfg tok K (Some drv))"
proof -
  obtain k d1 where k: "tok = Some k" "drv = IoUring d1" and
    g: "sl_get (u_comps (dc_uring cfg)) (ud_comps d1) k = Some \<lparr>cp_waiter = Some w, cp_completed = None, cp_ignored_data = None\<rparr>"
    and kv: "k = sl_vacant_key (u_comps (dc_uring cfg)) (ud_comps d)"
    using submit_completion_retry[OF assms(1,2)] by (metis fun_upd_same)
  obtain s where s: "build (encode_completion_key k) = Inr s"
    using assms(2) kv by (cases "build (encode_completion_key k)")
      (auto simp: completion_result_def uring_submit_completion_def Let_def)
  obtain e where e: "s = op_sqe e (encode_completion_key k)" "entry_memory e \<subseteq> K" using assms(3)[OF s] by blast
  obtain d2 where "drop_in_flight cfg (Some k) K (Some (IoUring d1)) = Some (IoUring d2)"
    and "sl_get (u_comps (dc_uring cfg)) (ud_comps d2) k =
      Some \<lparr>cp_waiter = Some w, cp_completed = None, cp_ignored_data = Some K\<rparr>"
    using drop_keeps[OF assms(1) g, of K] by auto
  then show ?thesis unfolding keeps_entry_def k using s e
    by (intro exI[of _ k] exI[of _ e] exI[of _ "\<lparr>cp_waiter = Some w, cp_completed = None, cp_ignored_data = Some K\<rparr>"]
        exI[of _ K] exI[of _ d2]) simp
qed

lemma drop_keeps_len_entry:
  assumes "slab (u_comps (dc_uring cfg))"
    and "completion_result cfg build w None (IoUring d) = (Pending, tok, drv)"
    and "\<And>key. build key = map_sum id (\<lambda>n. op_sqe (f n) key) (len_u32 l)" and "\<And>n. entry_memory (f n) \<subseteq> K"
  shows "keeps_entry cfg build tok (drop_in_flight cfg tok K (Some drv))"
proof (rule drop_keeps_entry[OF assms(1,2)])
  fix key s
  assume "build key = Inr s"
  then show "\<exists>e. s = op_sqe e key \<and> entry_memory e \<subseteq> K"
    using assms(4)[of l] by (auto simp: assms(3) len_u32_def split: if_splits)
qed

lemma op_result_pending [simp]: "op_result r = Pending \<longleftrightarrow> r = Pending"
  by (cases r) (auto simp: op_result_def split: sum.splits)

lemma op_result_of_pending [simp]: "op_result Pending = Pending"
  by simp

lemma init_on_pending [simp]: "init_on_success Pending op = op"
  by (simp add: init_on_success_def)

lemma vec_op_new_token [simp]: "op_token (vec_op_new h bufs) = None"
  by (simp add: vec_op_new_def)

text \<open>The operations one by one, each dropped right after the poll that submitted it.\<close>

lemma read_keeps:
  assumes "slab (u_comps (dc_uring cfg))" and "op_token op = None"
    and "read_poll_completion cfg w op (IoUring d) = (Pending, op', drv)"
  shows "keeps_entry cfg (read_entry op) (op_token op') (read_drop cfg op' (Some drv))"
proof -
  obtain r tok drv' where c: "completion_result cfg (read_entry op) w None (IoUring d) = (r, tok, drv')"
    by (metis prod_cases3)
  have "r = Pending" "op_token op' = tok" "drv' = drv"
    using assms(2,3) c by (auto simp: read_poll_completion_def)
  then show ?thesis using drop_keeps_len_entry[OF assms(1), where K = "{BufMem}" and l = "buf_capacity (cb_ref (op_buf op))" and f = "\<lambda>n. ReadE (h_fd (op_handle op)) n None"] c
    by (simp add: read_entry_def read_drop_def)
qed

lemma write_keeps:
  assumes "slab (u_comps (dc_uring cfg))" and "op_token op = None"
    and "write_poll_completion cfg w op (IoUring d) = (Pending, op', drv)"
  shows "keeps_entry cfg (write_entry op) (op_token op') (write_drop cfg op' (Some drv))"
proof -
  obtain r tok drv' where c: "completion_result cfg (write_entry op) w None (IoUring d) = (r, tok, drv')"
    by (metis prod_cases3)
  have "r = Pending" "op_token op' = tok" "drv' = drv"
    using assms(2,3) c by (auto simp: write_poll_completion_def)
  then show ?thesis using drop_keeps_len_entry[OF assms(1), where K = "{BufMem}" and l = "buf_len (cb_ref (op_buf op))" and f = "\<lambda>n. WriteE (h_fd (op_handle op)) n None"] c
    by (simp add: write_entry_def write_drop_def)
qed

lemma send_keeps:
  assumes "slab (u_comps (dc_uring cfg))" and "op_token op = None"
    and "send_poll_completion cfg w op (IoUring d) = (Pending, op', drv)"
  shows "keeps_entry cfg (send_entry op) (op_token op') (send_drop cfg op' (Some drv))"
proof -
  obtain r tok drv' where c: "completion_result cfg (send_entry op) w None (IoUring d) = (r, tok, drv')"
    by (metis prod_cases3)
  have "r = Pending" "op_token op' = tok" "drv' = drv"
    using assms(2,3) c by (auto simp: send_poll_completion_def)
  then show ?thesis using drop_keeps_len_entry[OF assms(1), where K = "{BufMem}" and l = "buf_len (cb_ref (op_buf op))" and f = "\<lambda>n. SendE (h_fd (op_handle op)) n"] c
    by (simp add: send_entry_def send_drop_def)
qed

lemma recv_keeps:
  assumes "slab (u_comps (dc_uring cfg))" and "op_token op = None"
    and "recv_poll_completion cfg w op (IoUring d) = (Pending, op', drv)"
  shows "keeps_entry cfg (recv_entry op) (op_token op') (recv_drop cfg op' (Some drv))"
proof -
  obtain r tok drv' where c: "completion_result cfg (recv_entry op) w None (IoUring d) = (r, tok, drv')"
    by (metis prod_cases3)
  have "r = Pending" "op_token op' = tok" "drv' = drv"
    using assms(2,3) c by (auto simp: recv_poll_completion_def)
  then show ?thesis using drop_keeps_len_entry[OF assms(1), where K = "{BufMem}" and l = "buf_capacity (cb_ref (op_buf op))" and f = "\<lambda>n. RecvE (h_fd (op_handle op)) n (recv_peek op)"] c
    by (simp add: recv_entry_def recv_drop_def)
qed

lemma readat_keeps:
  assumes "slab (u_comps (dc_uring cfg))" and "op_token op = None"
    and "readat_poll_completion cfg w op (IoUring d) = (Pending, op', drv)"
  shows "keeps_entry cfg (readat_entry op) (op_token op') (readat_drop cfg op' (Some drv))"
proof -
  obtain r tok drv' where c: "completion_result cfg (readat_entry op) w None (IoUring d) = (r, tok, drv')"
    by (metis prod_cases3)
  have "r = Pending" "op_token op' = tok" "drv' = drv"
    using assms(2,3) c by (auto simp: readat_poll_completion_def)
  then show ?thesis using drop_keeps_len_entry[OF assms(1), where K = "{BufMem}" and l = "buf_capacity (cb_ref (op_buf op))" and f = "\<lambda>n. ReadE (h_fd (op_handle op)) n (Some (at_offset op))"] c
    by (simp add: readat_entry_def readat_drop_def)
qed

lemma writeat_keeps:
  assumes "slab (u_comps (dc_uring cfg))" and "op_token op = None"
    and "writeat_poll_completion cfg w op (IoUring d) = (Pending, op', drv)"
  shows "keeps_entry cfg (writeat_entry op) (op_token op') (writeat_drop cfg op' (Some drv))"
proof -
  obtain r tok drv' where c: "completion_result cfg (writeat_entry op) w None (IoUring d) = (r, tok, drv')"
    by (metis prod_cases3)
  have "r = Pending" "op_token op' = tok" "drv' = drv"
    using assms(2,3) c by (auto simp: writeat_poll_completion_def)
  then show ?thesis using drop_keeps_len_entry[OF assms(1), where K = "{BufMem}" and l = "buf_len (cb_ref (op_buf op))" and f = "\<lambda>n. WriteE (h_fd (op_handle op)) n (Some (at_offset op))"] c
    by (simp add: writeat_entry_def writeat_drop_def)
qed

lemma readv_keeps:
  assumes "slab (u_comps (dc_uring cfg))"
    and "readv_poll_completion cfg w (vec_op_new h bufs) (IoUring d) = (Pending, op', drv)"
  shows "keeps_entry cfg (readv_entry (vec_op_new h bufs)) (op_token op') (readv_drop cfg op' (Some drv))"
proof -
  let ?op = "vec_op_new h bufs"
  obtain r tok drv' where c: "completion_result cfg (readv_entry ?op) w None (IoUring d) = (r, tok, drv')"
    by (metis prod_cases3)
  have r: "r = Pending" "drv' = drv" "op_token op' = tok"
      "vo_iovecs op' = (if length bufs < 2 ^ 32 then Some (iovec_to_system bufs) else None)"
    using assms(2) c
    by (auto simp: readv_poll_completion_def vec_prepare_def vec_op_new_def iovec_to_system_def Let_def)
  have e: "readv_entry ?op = (\<lambda>key. map_sum id (\<lambda>n. op_sqe (ReadvE (h_fd h) (iovec_to_system bufs)) key)
      (len_u32 (length (iovec_to_system bufs))))" by (simp add: readv_entry_def vec_op_new_def fun_eq_iff Let_def)
  have "length bufs < 2 ^ 32"
  proof (rule ccontr)
    assume "\<not> length bufs < 2 ^ 32"
    then show False using c r(1)
      by (auto simp: completion_result_def uring_submit_completion_def Let_def e len_u32_def iovec_to_system_def)
  qed
  then have v: "vo_iovecs op' \<noteq> None" using r(4) by simp
  have "keeps_entry cfg (readv_entry ?op) tok (drop_in_flight cfg tok {BufMem, IovecMem} (Some drv))"
    by (rule drop_keeps_len_entry[OF assms(1) c[unfolded r(1,2)], where f = "\<lambda>n. ReadvE (h_fd h) (iovec_to_system bufs)"])
      (simp_all add: e)
  then show ?thesis using v r(3) by (auto simp: readv_drop_def insert_commute)
qed

lemma writev_keeps:
  assumes "slab (u_comps (dc_uring cfg))"
    and "writev_poll_completion cfg w (vec_op_new h bufs) (IoUring d) = (Pending, op', drv)"
  shows "keeps_entry cfg (writev_entry (vec_op_new h bufs)) (op_token op') (writev_drop cfg op' (Some drv))"
proof -
  let ?op = "vec_op_new h bufs"
  obtain r tok drv' where c: "completion_result cfg (writev_entry ?op) w None (IoUring d) = (r, tok, drv')"
    by (metis prod_cases3)
  have r: "r = Pending" "drv' = drv" "op_token op' = tok"
      "vo_iovecs op' = (if length bufs < 2 ^ 32 then Some (iovec_to_system bufs) else None)"
    using assms(2) c
    by (auto simp: writev_poll_completion_def vec_prepare_def vec_op_new_def iovec_to_system_def Let_def)
  have e: "writev_entry ?op = (\<lambda>key. map_sum id (\<lambda>n. op_sqe (WritevE (h_fd h) (iovec_to_system bufs)) key)
      (len_u32 (length (iovec_to_system bufs))))" by (simp add: writev_entry_def vec_op_new_def fun_eq_iff Let_def)
  have "length bufs < 2 ^ 32"
  proof (rule ccontr)
    assume "\<not> length bufs < 2 ^ 32"
    then show False using c r(1)
      by (auto simp: completion_result_def uring_submit_completion_def Let_def e len_u32_def iovec_to_system_def)
  qed
  then have v: "vo_iovecs op' \<noteq> None" using r(4) by simp
  have "keeps_entry cfg (writev_entry ?op) tok (drop_in_flight cfg tok {BufMem, IovecMem} (Some drv))"
    by (rule drop_keeps_len_entry[OF assms(1) c[unfolded r(1,2)], where f = "\<lambda>n. WritevE (h_fd h) (iovec_to_system bufs)"])
      (simp_all add: e)
  then show ?thesis using v r(3) by (auto simp: writev_drop_def insert_commute)
qed

lemma sendto_keeps:
  assumes "slab (u_comps (dc_uring cfg))" and "op_token op = None"
    and "sendto_poll_completion le cfg w op (IoUring d) = (Pending, op', drv)"
  shows "keeps_entry cfg (sendto_entry le op) (op_token op') (sendto_drop cfg op' (Some drv))"
proof -
  obtain r tok drv' where c: "completion_result cfg (sendto_entry le op) w None (IoUring d) = (r, tok, drv')"
    by (metis prod_cases3)
  have r: "r = Pending" "op_token op' = tok" "drv' = drv" "st_state op'"
    using assms(2,3) c by (auto simp: sendto_poll_completion_def Let_def split: poll.splits sum.splits)
  have "keeps_entry cfg (sendto_entry le op) tok (drop_in_flight cfg tok {BufMem, MsgMem} (Some drv))"
    using c r(1,3) by (intro drop_keeps_entry[OF assms(1)])
      (auto simp: sendto_entry_def Let_def split: prod.splits)
  then show ?thesis using r(2,4) by (simp add: sendto_drop_def insert_commute)
qed

lemma recvfrom_keeps:
  assumes "slab (u_comps (dc_uring cfg))" and "op_token op = None"
    and "recvfrom_poll_completion le cfg peer w op (IoUring d) = (Pending, op', drv)"
  shows "keeps_entry cfg (recvfrom_entry op) (op_token op') (recvfrom_drop cfg op' (Some drv))"
proof -
  obtain r tok drv' where c: "completion_result cfg (recvfrom_entry op) w None (IoUring d) = (r, tok, drv')"
    by (metis prod_cases3)
  have r: "r = Pending" "op_token op' = tok" "drv' = drv" "rf_state op'"
    using assms(2,3) c by (auto simp: recvfrom_poll_completion_def Let_def split: poll.splits sum.splits)
  have "keeps_entry cfg (recvfrom_entry op) tok (drop_in_flight cfg tok {BufMem, MsgMem} (Some drv))"
    using c r(1,3) by (intro drop_keeps_entry[OF assms(1)])
      (auto simp: recvfrom_entry_def Let_def split: prod.splits)
  then show ?thesis using r(2,4) by (simp add: recvfrom_drop_def insert_commute)
qed



section \<open>Addresses\<close>

definition valid_addr :: "socket_addr \<Rightarrow> bool" where
  "valid_addr a = (case a of
     V4 (w, x, y, z) port \<Rightarrow> w < 256 \<and> x < 256 \<and> y < 256 \<and> z < 256 \<and> port < 2 ^ 16
   | V6 ip port flow scope \<Rightarrow> port < 2 ^ 16)"

text \<open>A byte below a multiple of 256 is its remainder, the multiple its quotient.\<close>

lemma byte_split:
  fixes x q :: nat
  assumes "x < 256"
  shows "(x + q * 256) mod 256 = x" and "(x + q * 256) div 256 = q"
  using assms by simp_all

lemma swap16_swap16:
  assumes "n < 2 ^ 16"
  shows "swap16 (swap16 n) = n"
proof -
  define lo hi where "lo = n mod 256" and "hi = n div 256"
  have n: "n = lo + hi * 256" and b: "lo < 256" "hi < 256" using assms by (simp_all add: lo_def hi_def)
  have "swap16 n = hi + lo * 256" using b by (simp add: swap16_def n)
  then show ?thesis using b by (simp add: swap16_def n)
qed

lemma bytes_of_word:
  fixes w x y z :: nat
  assumes "w < 256" "x < 256" "y < 256" "z < 256"
  defines "n \<equiv> w + (x + (y + z * 256) * 256) * 256"
  shows "n mod 256 = w" "n div 256 mod 256 = x" "n div 2 ^ 16 mod 256 = y" "n div 2 ^ 24 mod 256 = z"
proof -
  have 16: "n div 2 ^ 16 = n div 256 div 256" and 24: "n div 2 ^ 24 = n div 256 div 256 div 256"
    by (simp_all add: div_mult2_eq[symmetric])
  show "n mod 256 = w" "n div 256 mod 256 = x" "n div 2 ^ 16 mod 256 = y" "n div 2 ^ 24 mod 256 = z"
    unfolding 16 24 unfolding n_def byte_split(2)[OF assms(1)] byte_split(2)[OF assms(2)] byte_split(2)[OF assms(3)]
    using assms(1-4) by (simp_all only: byte_split mod_less)
qed

lemma swap32_from_bytes:
  assumes "w < 256" "x < 256" "y < 256" "z < 256"
  shows "swap32 (w + x * 256 + y * 2 ^ 16 + z * 2 ^ 24) = w * 2 ^ 24 + x * 2 ^ 16 + y * 256 + z"
proof -
  have "w + x * 256 + y * 2 ^ 16 + z * 2 ^ 24 = w + (x + (y + z * 256) * 256) * 256" by simp
  then show ?thesis unfolding swap32_def by (simp only: bytes_of_word[OF assms])
qed

lemma ipv4_from_bytes:
  assumes "w < 256" "x < 256" "y < 256" "z < 256"
  shows "ipv4_from_u32 (w * 2 ^ 24 + x * 2 ^ 16 + y * 256 + z) = (w, x, y, z)"
proof -
  have "w * 2 ^ 24 + x * 2 ^ 16 + y * 256 + z = z + (y + (x + w * 256) * 256) * 256" by simp
  then show ?thesis unfolding ipv4_from_u32_def by (simp only: bytes_of_word[OF assms(4,3,2,1)])
qed

text \<open>
  Socket addresses survive the round trip to the kernel. On machines of either byte order,
  converting a valid IPv4 or IPv6 address to the raw form and back gives the same address.
\<close>

theorem socket_addr_roundtrip:
  assumes "valid_addr a"
  shows "sockaddr_storage_to_socketaddr le (fst (socket_addr_to_raw le a)) = Inr a"
proof (cases a)
  case (V4 ip port)
  obtain w x y z where ip: "ip = (w, x, y, z)" by (metis prod_cases4)
  have b: "w < 256" "x < 256" "y < 256" "z < 256" "port < 2 ^ 16"
    using assms by (simp_all add: V4 ip valid_addr_def)
  have "be32 le (from_ne_bytes le (w, x, y, z)) = w * 2 ^ 24 + x * 2 ^ 16 + y * 256 + z"
    using swap32_from_bytes[OF b(1-4)] by (simp add: be32_def from_ne_bytes_def)
  then show ?thesis using ipv4_from_bytes[OF b(1-4)] swap16_swap16[OF b(5)] by (simp add: V4 ip be16_def)
next
  case (V6 ip port flow scope)
  then have "port < 2 ^ 16" using assms by (simp add: valid_addr_def)
  from swap16_swap16[OF this] show ?thesis by (simp add: V6 be16_def)
qed

theorem socket_addr_roundtrip_witness:
  "sockaddr_storage_to_socketaddr True (fst (socket_addr_to_raw True (V4 (127, 0, 0, 1) 8080))) = Inr (V4 (127, 0, 0, 1) 8080)"
  by (rule socket_addr_roundtrip) (simp add: valid_addr_def)

section \<open>Sockets and processes\<close>

text \<open>
  A connection can be accepted and lost. If the peer of a freshly accepted connection is gone
  by the time its address is asked for, the readiness path returns the error (or waits for the
  next connection) with the new descriptor still open: nobody has it and nothing closes it.
\<close>

theorem accept_error_leaks_descriptor:
  assumes "fd \<notin> fds"
    and "accept_poll_unix le cfg ans (Inr fd) (Inl err) h w fds drv = (res, fds', drv')"
  shows "fd \<in> fds' \<and> (\<forall>a. res \<noteq> Ready (Inr (fd, a)))"
  using assms
  by (auto simp: accept_poll_unix_def wait_readable_def Let_def split: if_splits prod.splits sum.splits)

text \<open>
  Waiting for a running child fails on the readiness driver. Reading a process descriptor is
  refused by the kernel with an error other than "would block", which the operation takes for
  the exit of the child: the first poll for a child that has not exited is ready with the error
  "would block", the descriptor is given up, and every later poll fails too.
\<close>

theorem waitpid_running_child_fails:
  assumes "we_read env = Inl err" and "kind_of err \<noteq> WouldBlock" and "we_waited env = Inr None"
    and "we_pidfd env = Inr fd"
    and "new_with_driver_and_mode cfg (we_register env) fd READABLE PollMode drv = (Inr h, drv1)"
    and "waitpid_poll_poll cfg env w (WaitInit pid) drv = (res, st, drv2)"
  shows "res = Ready (Inl (Simple WouldBlock)) \<and> st = WaitDone \<and>
    (\<forall>env' w' drv3. fst (waitpid_poll_poll cfg env' w' st drv3) = Ready (Inl (Simple OtherKind)))"
  using assms by (auto simp: waitpid_poll_poll_def wait_polling_def wait_reap_def)

section \<open>Concrete runs\<close>

definition demo_opcfg :: "(registration option list, op_entry sqe list \<times> cqe list, handle_registration option list,
    kept completion option list) op_cfg" where
  "demo_opcfg = \<lparr>dc_mio = vec_slab_ops, dc_uring = \<lparr>u_ring = demo_ring_ops, u_regs = vec_slab_ops, u_comps = vec_slab_ops\<rparr>\<rparr>"

lemma demo_opcfg_slabs: "slab (dc_mio demo_opcfg)" "slab (u_regs (dc_uring demo_opcfg))"
    "slab (u_comps (dc_uring demo_opcfg))"
  by (simp_all add: demo_opcfg_def vec_slab.slab_axioms)

interpretation demo_any: any_slabs demo_opcfg
  by (simp add: any_slabs_def mio_slab_def uring_slabs_def demo_opcfg_slabs)

definition demo_handle :: raw_handle where
  "demo_handle = \<lparr>h_fd = 6, h_token = 0, h_interest = READABLE, h_mode = CompletionMode\<rparr>"

definition demo_buf_op :: "token option \<Rightarrow> buf_op" where
  "demo_buf_op tok = \<lparr>op_handle = demo_handle, op_token = tok,
     op_buf = Inline \<lparr>buf_len = 0, buf_capacity = 64, buf_fixed = False, would_box = True\<rparr>\<rparr>"

definition demo_op_driver ::
  "kept completion option list \<Rightarrow> (op_entry sqe list \<times> cqe list, handle_registration option list,
    kept completion option list) uring_driver" where
  "demo_op_driver comps = \<lparr>ud_ring = ([], []), ud_regs = [], ud_comps = comps, ud_eventfd = 9,
     ud_pending_submissions = True, ud_ext_arg = True\<rparr>"

lemmas demo_op_eval = demo_opcfg_def demo_op_driver_def vec_slab_ops_def vec_get_def vec_insert_def
  vec_vacant_def demo_ring_ops_def

abbreviation demo_comp_by :: "waker \<Rightarrow> kept completion option" where
  "demo_comp_by w \<equiv> Some \<lparr>cp_waiter = Some w, cp_completed = None, cp_ignored_data = None\<rparr>"

lemma demo_first_poll:
  "completion_result demo_opcfg (read_entry (demo_buf_op None)) (TaskWaker 1) None (IoUring (demo_op_driver [])) =
     (Pending, Some 0, IoUring ((demo_op_driver [demo_comp_by (TaskWaker 1)])
        \<lparr>ud_ring := ([op_sqe (ReadE 6 64 None) (encode_completion_key 0)], [])\<rparr>))"
  by (simp add: completion_result_def uring_submit_completion_def read_entry_def len_u32_def demo_buf_op_def
      demo_handle_def push_entry_def demo_op_eval Let_def)

theorem op_resolves_with_its_completion_witness:
  "\<exists>d2 ws b d3. completion_result demo_opcfg (read_entry (demo_buf_op None)) (TaskWaker 2) (Some 0)
       (snd (snd (completion_result demo_opcfg (read_entry (demo_buf_op None)) (TaskWaker 1) None
         (IoUring (demo_op_driver []))))) = (Pending, Some 0, IoUring d2) \<and>
     drain_cq (dc_uring demo_opcfg) [demo_cqe] d2 = (ws, b, d3) \<and> TaskWaker 2 \<in> set ws \<and>
     fst (completion_result demo_opcfg (read_entry (demo_buf_op None)) (TaskWaker 3) (Some 0) (IoUring d3)) = Ready (Inr 17)"
proof -
  let ?d1 = "(demo_op_driver [demo_comp_by (TaskWaker 1)])
        \<lparr>ud_ring := ([op_sqe (ReadE 6 64 None) (encode_completion_key 0)], [])\<rparr>"
  let ?d2 = "?d1\<lparr>ud_comps := [demo_comp_by (TaskWaker 2)]\<rparr>"
  have second: "completion_result demo_opcfg (read_entry (demo_buf_op None)) (TaskWaker 2) (Some 0) (IoUring ?d1) =
      (Pending, Some 0, IoUring ?d2)"
    by (simp add: completion_result_def uring_get_completion_result_def uring_set_completion_waker_def demo_op_eval)
  obtain ws b d3 where dr: "drain_cq (dc_uring demo_opcfg) ([] @ demo_cqe # []) ?d2 = (ws, b, d3)"
    by (metis prod_cases3)
  from op_resolves_with_its_completion[OF demo_opcfg_slabs(2,3) demo_first_poll second refl demo_cqe_completes _ dr,
      of "TaskWaker 3"] second dr
  show ?thesis unfolding demo_first_poll by (auto simp: demo_cqe_result)
qed


theorem pending_op_is_registered_witness:
  "any_waits demo_opcfg (snd (any_submit_poll demo_opcfg None 0 (TaskWaker 7) WRITABLE
     (snd (poll_result_or_wait demo_opcfg None (Inl (Os 11)) demo_handle (TaskWaker 3) READABLE
       (Mio demo_mio0))))) 0 False = Some (TaskWaker 3)"
proof -
  let ?r = "poll_result_or_wait demo_opcfg None (Inl (Os 11)) demo_handle (TaskWaker 3) READABLE (Mio demo_mio0)"
  have "fst ?r = Pending"
    by (simp add: poll_result_or_wait_def demo_handle_def demo_opcfg_def demo_mio_eval)
  then have "?r = (Pending, snd ?r)" by (metis prod.collapse)
  from pending_op_is_registered[OF demo_any.any_slabs_axioms this, of "[(None, 0, TaskWaker 7, WRITABLE)]"]
  show ?thesis by (simp add: demo_handle_def)
qed

theorem accept_error_leaks_descriptor_witness:
  "8 \<in> fst (snd (accept_poll_unix True demo_opcfg None (Inr 8) (Inl (Os 107)) demo_handle (TaskWaker 3) {5, 6} MockDriver))"
proof -
  obtain res fds' drv' where r: "accept_poll_unix True demo_opcfg None (Inr 8) (Inl (Os 107)) demo_handle (TaskWaker 3)
      {5, 6} MockDriver = (res, fds', drv')" by (metis prod_cases3)
  from accept_error_leaks_descriptor[OF _ r] show ?thesis by (simp add: r)
qed

definition demo_wait_env :: wait_env where
  "demo_wait_env = \<lparr>we_pidfd = Inr 8, we_read = Inl (Os 22), we_waited = Inr None, we_register = None,
     we_submit = None, we_dereg = None\<rparr>"

theorem waitpid_running_child_fails_witness:
  "fst (waitpid_poll_poll demo_opcfg demo_wait_env (TaskWaker 3) (WaitInit 4321) (Mio demo_mio0)) =
     Ready (Inl (Simple WouldBlock))"
proof -
  obtain r drv1 where n: "new_with_driver_and_mode demo_opcfg None 8 READABLE PollMode (Mio demo_mio0) = (r, drv1)"
    by fastforce
  have "\<exists>h. r = Inr h"
    using n by (auto simp: new_with_driver_and_mode_def demo_opcfg_def register_handle_def Let_def split: prod.splits)
  then obtain h where h: "new_with_driver_and_mode demo_opcfg (we_register demo_wait_env) 8 READABLE PollMode (Mio demo_mio0)
      = (Inr h, drv1)" using n by (auto simp: demo_wait_env_def)
  obtain res st drv2 where p: "waitpid_poll_poll demo_opcfg demo_wait_env (TaskWaker 3) (WaitInit 4321) (Mio demo_mio0)
      = (res, st, drv2)" by (metis prod_cases3)
  from waitpid_running_child_fails[OF _ _ _ _ h p, of "Os 22"] p
  show ?thesis by (simp add: demo_wait_env_def)
qed


end
