(* ===== verification/Net_Sockets.thy ===== *)
theory Net_Sockets
  imports Op_Properties
begin

text \<open>
  The socket types of \<open>net/\<close>: TCP, Unix and UDP sockets share their life cycle (registration in a
  mode, switching between the modes, dropping), their readiness flags and the loops over
  addresses. Descriptors refer to open file descriptions, which carry the non-blocking flag and
  are shared by duplicates; answers of the kernel are arguments, and so is what an awaited
  operation resolves with and does to the driver. \<open>nt_entered\<close> tells whether a runtime is current.
\<close>

record ('ms, 'r, 's, 'c) net =
  nt_entered :: bool
  nt_driver :: "('ms, 'r, 's, 'c) any_driver"
  nt_files :: "raw_fd \<rightharpoonup> nat"
  nt_nonblock :: "nat \<Rightarrow> bool"

record async_socket =
  sk_fd :: raw_fd
  sk_handle :: raw_handle

section \<open>Creating, switching, dropping\<close>

definition set_nonblocking ::
  "os_answer \<Rightarrow> raw_fd \<Rightarrow> bool \<Rightarrow> ('ms, 'r, 's, 'c) net \<Rightarrow> unit io_result \<times> ('ms, 'r, 's, 'c) net" where
  "set_nonblocking ans fd b n =
     (case ans of
        Some err \<Rightarrow> (Inl err, n)
      | None \<Rightarrow>
          (case nt_files n fd of
             None \<Rightarrow> (Inl (Os 9), n)
           | Some i \<Rightarrow> (Inr (), n\<lparr>nt_nonblock := (nt_nonblock n)(i := b)\<rparr>)))"

definition close_fd :: "raw_fd \<Rightarrow> ('ms, 'r, 's, 'c) net \<Rightarrow> ('ms, 'r, 's, 'c) net" where
  "close_fd fd n = n\<lparr>nt_files := (nt_files n)(fd := None)\<rparr>"

text \<open>
  \<open>from_std_with_mode\<close> of \<open>TcpStream\<close>, \<open>UnixStream\<close> and \<open>UdpSocket\<close>: when the flag cannot be set, the
  standard socket is dropped and closed; the handle sits in a \<open>ManuallyDrop\<close> and is not dropped.
\<close>

definition current_driver :: "('ms, 'r, 's, 'c) net \<Rightarrow> ('ms, 'r, 's, 'c) any_driver option" where
  "current_driver n = (if nt_entered n then Some (nt_driver n) else None)"

definition set_current :: "('ms, 'r, 's, 'c) any_driver option \<Rightarrow> ('ms, 'r, 's, 'c) net \<Rightarrow> ('ms, 'r, 's, 'c) net" where
  "set_current cur n = (case cur of None \<Rightarrow> n | Some drv \<Rightarrow> n\<lparr>nt_driver := drv\<rparr>)"

definition from_registered ::
  "os_answer \<Rightarrow> raw_fd \<Rightarrow> raw_handle io_result \<times> ('ms, 'r, 's, 'c) any_driver option
   \<Rightarrow> ('ms, 'r, 's, 'c) net \<Rightarrow> async_socket io_result \<times> ('ms, 'r, 's, 'c) net" where
  "from_registered na fd registered n =
     (case registered of
        (Inl err, cur) \<Rightarrow> (Inl err, close_fd fd (set_current cur n))
      | (Inr h, cur) \<Rightarrow>
          (let n1 = set_current cur n in
           case set_nonblocking na fd (\<not> uses_completion (nt_driver n1) h) n1 of
             (Inl err, n2) \<Rightarrow> (Inl err, close_fd fd n2)
           | (Inr _, n2) \<Rightarrow> (Inr \<lparr>sk_fd = fd, sk_handle = h\<rparr>, n2)))"

definition from_std_with_mode ::
  "('ms, 'r, 's, 'c) op_cfg \<Rightarrow> os_answer \<Rightarrow> os_answer \<Rightarrow> registration_mode \<Rightarrow> raw_fd
   \<Rightarrow> ('ms, 'r, 's, 'c) net \<Rightarrow> async_socket io_result \<times> ('ms, 'r, 's, 'c) net" where
  "from_std_with_mode cfg ra na mode fd n =
     from_registered na fd (new_with_mode cfg ra fd READ_WRITE mode (current_driver n)) n"

definition stream_from_std ::
  "('ms, 'r, 's, 'c) op_cfg \<Rightarrow> os_answer \<Rightarrow> os_answer \<Rightarrow> raw_fd \<Rightarrow> ('ms, 'r, 's, 'c) net
   \<Rightarrow> async_socket io_result \<times> ('ms, 'r, 's, 'c) net" where
  "stream_from_std cfg ra na fd n = from_std_with_mode cfg ra na CompletionMode fd n"

text \<open>The listeners, and \<open>UnixStream::from_std_poll\<close>, leave the choice of the mode to the handle.\<close>

definition listener_from_std ::
  "('ms, 'r, 's, 'c) op_cfg \<Rightarrow> os_answer \<Rightarrow> os_answer \<Rightarrow> raw_fd \<Rightarrow> ('ms, 'r, 's, 'c) net
   \<Rightarrow> async_socket io_result \<times> ('ms, 'r, 's, 'c) net" where
  "listener_from_std cfg ra na fd n = from_registered na fd (handle_new cfg ra fd READABLE (current_driver n)) n"

definition socket_drop ::
  "('ms, 'r, 's, 'c) op_cfg \<Rightarrow> os_answer \<Rightarrow> async_socket \<Rightarrow> ('ms, 'r, 's, 'c) net \<Rightarrow> ('ms, 'r, 's, 'c) net" where
  "socket_drop cfg ans s n = close_fd (sk_fd s) (n\<lparr>nt_driver := handle_drop cfg ans (sk_handle s) (nt_driver n)\<rparr>)"

text \<open>\<open>into_raw_fd\<close> and \<open>into_std\<close> give up the registration and keep the descriptor.\<close>

definition socket_into_raw_fd ::
  "('ms, 'r, 's, 'c) op_cfg \<Rightarrow> os_answer \<Rightarrow> async_socket \<Rightarrow> ('ms, 'r, 's, 'c) net \<Rightarrow> raw_fd \<times> ('ms, 'r, 's, 'c) net" where
  "socket_into_raw_fd cfg ans s n = (sk_fd s, n\<lparr>nt_driver := handle_drop cfg ans (sk_handle s) (nt_driver n)\<rparr>)"

text \<open>\<open>into_poll\<close> and \<open>into_completion\<close> consume the socket, so an error drops it.\<close>

definition switch_mode ::
  "('ms, 'r, 's, 'c) op_cfg \<Rightarrow> os_answer \<Rightarrow> os_answer \<Rightarrow> os_answer \<Rightarrow> os_answer \<Rightarrow> registration_mode \<Rightarrow> async_socket
   \<Rightarrow> ('ms, 'r, 's, 'c) net \<Rightarrow> async_socket io_result \<times> ('ms, 'r, 's, 'c) net" where
  "switch_mode cfg da ra na ca mode s n =
     (case rebind_mode cfg da ra mode (sk_handle s) (nt_driver n) of
        (Inl err, h, drv) \<Rightarrow> (Inl err, socket_drop cfg ca (s\<lparr>sk_handle := h\<rparr>) (n\<lparr>nt_driver := drv\<rparr>))
      | (Inr _, h, drv) \<Rightarrow>
          (case set_nonblocking na (sk_fd s) (\<not> uses_completion drv h) (n\<lparr>nt_driver := drv\<rparr>) of
             (Inl err, n1) \<Rightarrow> (Inl err, socket_drop cfg ca (s\<lparr>sk_handle := h\<rparr>) n1)
           | (Inr _, n1) \<Rightarrow> (Inr (s\<lparr>sk_handle := h\<rparr>), n1)))"

text \<open>Poll-based sockets remember per direction that they were told to be ready.\<close>

record poll_socket =
  ps_socket :: async_socket
  ps_read_ready :: bool
  ps_write_ready :: bool

definition poll_of :: "async_socket io_result \<times> 'n \<Rightarrow> poll_socket io_result \<times> 'n" where
  "poll_of = (\<lambda>(r, n). (map_sum id (\<lambda>s. \<lparr>ps_socket = s, ps_read_ready = False, ps_write_ready = False\<rparr>) r, n))"

definition poll_from_std ::
  "('ms, 'r, 's, 'c) op_cfg \<Rightarrow> os_answer \<Rightarrow> os_answer \<Rightarrow> raw_fd \<Rightarrow> ('ms, 'r, 's, 'c) net
   \<Rightarrow> poll_socket io_result \<times> ('ms, 'r, 's, 'c) net" where
  "poll_from_std cfg ra na fd n = poll_of (from_std_with_mode cfg ra na PollMode fd n)"

definition unix_from_std_poll ::
  "('ms, 'r, 's, 'c) op_cfg \<Rightarrow> os_answer \<Rightarrow> os_answer \<Rightarrow> raw_fd \<Rightarrow> ('ms, 'r, 's, 'c) net
   \<Rightarrow> poll_socket io_result \<times> ('ms, 'r, 's, 'c) net" where
  "unix_from_std_poll cfg ra na fd n =
     poll_of (from_registered na fd (handle_new cfg ra fd READ_WRITE (current_driver n)) n)"

definition into_poll where
  "into_poll cfg da ra na ca s n = poll_of (switch_mode cfg da ra na ca PollMode s n)"

definition into_completion where
  "into_completion cfg da ra na ca p n = switch_mode cfg da ra na ca CompletionMode (ps_socket p) n"

definition into_adaptive :: "poll_socket \<Rightarrow> async_socket" where
  "into_adaptive p = ps_socket p"

text \<open>
  \<open>UdpSocket::try_clone\<close>: the duplicate shares the open file description and is registered like
  a new socket. \<open>PollUdpSocket::try_clone\<close> wraps the same call.
\<close>

definition udp_try_clone ::
  "('ms, 'r, 's, 'c) op_cfg \<Rightarrow> raw_fd io_result \<Rightarrow> os_answer \<Rightarrow> os_answer \<Rightarrow> async_socket \<Rightarrow> ('ms, 'r, 's, 'c) net
   \<Rightarrow> async_socket io_result \<times> ('ms, 'r, 's, 'c) net" where
  "udp_try_clone cfg dup ra na s n =
     (case dup of
        Inl err \<Rightarrow> (Inl err, n)
      | Inr fd \<Rightarrow> stream_from_std cfg ra na fd (n\<lparr>nt_files := (nt_files n)(fd := nt_files n (sk_fd s))\<rparr>))"

definition poll_udp_try_clone ::
  "('ms, 'r, 's, 'c) op_cfg \<Rightarrow> raw_fd io_result \<Rightarrow> os_answer \<Rightarrow> os_answer \<Rightarrow> poll_socket \<Rightarrow> ('ms, 'r, 's, 'c) net
   \<Rightarrow> poll_socket io_result \<times> ('ms, 'r, 's, 'c) net" where
  "poll_udp_try_clone cfg dup ra na p n = poll_of (udp_try_clone cfg dup ra na (ps_socket p) n)"

section \<open>Readiness\<close>

definition poll_readable ::
  "('ms, 'r, 's, 'c) op_cfg \<Rightarrow> os_answer \<Rightarrow> waker \<Rightarrow> poll_socket \<Rightarrow> ('ms, 'r, 's, 'c) any_driver
   \<Rightarrow> unit io_result poll \<times> poll_socket \<times> ('ms, 'r, 's, 'c) any_driver" where
  "poll_readable cfg ans w p drv =
     (if ps_read_ready p then (Ready (Inr ()), p, drv)
      else if uses_completion drv (sk_handle (ps_socket p)) then (Ready (Inl (Simple Unsupported)), p, drv)
      else (case readiness_poll_poll cfg ans False (sk_handle (ps_socket p)) w drv of
              (Ready (Inl err), drv1) \<Rightarrow> (Ready (Inl err), p, drv1)
            | (r, drv1) \<Rightarrow> (r, p\<lparr>ps_read_ready := True\<rparr>, drv1)))"

definition poll_writable ::
  "('ms, 'r, 's, 'c) op_cfg \<Rightarrow> os_answer \<Rightarrow> waker \<Rightarrow> poll_socket \<Rightarrow> ('ms, 'r, 's, 'c) any_driver
   \<Rightarrow> unit io_result poll \<times> poll_socket \<times> ('ms, 'r, 's, 'c) any_driver" where
  "poll_writable cfg ans w p drv =
     (if ps_write_ready p then (Ready (Inr ()), p, drv)
      else if uses_completion drv (sk_handle (ps_socket p)) then (Ready (Inl (Simple Unsupported)), p, drv)
      else (case readiness_poll_poll cfg ans True (sk_handle (ps_socket p)) w drv of
              (Ready (Inl err), drv1) \<Rightarrow> (Ready (Inl err), p, drv1)
            | (r, drv1) \<Rightarrow> (r, p\<lparr>ps_write_ready := True\<rparr>, drv1)))"

definition try_io_readable :: "'a io_result \<Rightarrow> poll_socket \<Rightarrow> 'a io_result \<times> poll_socket" where
  "try_io_readable io p =
     (if ps_read_ready p then (io, case io of Inl _ \<Rightarrow> p\<lparr>ps_read_ready := False\<rparr> | Inr _ \<Rightarrow> p)
      else (Inl (Simple WouldBlock), p))"

definition try_io_writable :: "'a io_result \<Rightarrow> poll_socket \<Rightarrow> 'a io_result \<times> poll_socket" where
  "try_io_writable io p =
     (if ps_write_ready p then (io, case io of Inl _ \<Rightarrow> p\<lparr>ps_write_ready := False\<rparr> | Inr _ \<Rightarrow> p)
      else (Inl (Simple WouldBlock), p))"

text \<open>\<open>shutdown\<close> forgives a socket that is not connected.\<close>

definition socket_shutdown :: "unit io_result \<Rightarrow> unit io_result" where
  "socket_shutdown ans =
     (case ans of Inl err \<Rightarrow> if kind_of err = NotConnected then Inr () else Inl err | Inr _ \<Rightarrow> Inr ())"

section \<open>Connecting, binding, accepting\<close>

text \<open>
  The loop of \<open>connect\<close>, \<open>TcpListener::bind\<close> and \<open>send_to\<close> over the resolved addresses, each with the
  answers of its attempt: the first attempt that does not fail decides, or the last error.
\<close>

fun try_addresses :: "('x \<Rightarrow> 'n \<Rightarrow> 'a io_result \<times> 'n) \<Rightarrow> 'x list \<Rightarrow> io_error option \<Rightarrow> 'n \<Rightarrow> 'a io_result \<times> 'n" where
  "try_addresses one [] prev n = (Inl (case prev of Some err \<Rightarrow> err | None \<Rightarrow> Simple InvalidInput), n)"
| "try_addresses one (x # xs) prev n =
     (case one x n of
        (Inr r, n1) \<Rightarrow> (Inr r, n1)
      | (Inl err, n1) \<Rightarrow> try_addresses one xs (Some err) n1)"

definition resolve_and_try where
  "resolve_and_try one resolved n =
     (case resolved of Inl err \<Rightarrow> (Inl err, n) | Inr xs \<Rightarrow> try_addresses one xs None n)"

text \<open>A new descriptor and its open file description, and what an attempt to connect meets.\<close>

definition new_socket :: "(raw_fd \<times> nat) io_result \<Rightarrow> ('ms, 'r, 's, 'c) net \<Rightarrow> raw_fd io_result \<times> ('ms, 'r, 's, 'c) net" where
  "new_socket sock n =
     (case sock of
        Inl err \<Rightarrow> (Inl err, n)
      | Inr (fd, i) \<Rightarrow> (Inr fd, n\<lparr>nt_files := (nt_files n)(fd \<mapsto> i)\<rparr>))"

record ('raw, 'ms, 'r, 's, 'c) connect_env =
  ce_socket :: "(raw_fd \<times> nat) io_result"
  ce_register :: os_answer
  ce_flag :: os_answer
  ce_await :: "'raw \<Rightarrow> nat \<Rightarrow> raw_handle \<Rightarrow> ('ms, 'r, 's, 'c) any_driver \<Rightarrow> unit io_result \<times> ('ms, 'r, 's, 'c) any_driver"
  ce_dereg :: os_answer

definition await_connect ::
  "('ms, 'r, 's, 'c) op_cfg \<Rightarrow> ('raw, 'ms, 'r, 's, 'c) connect_env \<Rightarrow> 'raw \<times> nat \<Rightarrow> async_socket \<Rightarrow> ('ms, 'r, 's, 'c) net
   \<Rightarrow> async_socket io_result \<times> ('ms, 'r, 's, 'c) net" where
  "await_connect cfg e raw s n =
     (case ce_await e (fst raw) (snd raw) (sk_handle s) (nt_driver n) of
        (Inl err, drv) \<Rightarrow> (Inl err, socket_drop cfg (ce_dereg e) s (n\<lparr>nt_driver := drv\<rparr>))
      | (Inr _, drv) \<Rightarrow> (Inr s, n\<lparr>nt_driver := drv\<rparr>))"

definition connect_one ::
  "bool \<Rightarrow> ('ms, 'r, 's, 'c) op_cfg \<Rightarrow> registration_mode \<Rightarrow> socket_addr \<times> (sockaddr, 'ms, 'r, 's, 'c) connect_env
   \<Rightarrow> ('ms, 'r, 's, 'c) net \<Rightarrow> async_socket io_result \<times> ('ms, 'r, 's, 'c) net" where
  "connect_one le cfg mode x n =
     (let (a, e) = x in
      case new_socket (ce_socket e) n of
        (Inl err, n1) \<Rightarrow> (Inl err, n1)
      | (Inr fd, n1) \<Rightarrow>
          (case from_std_with_mode cfg (ce_register e) (ce_flag e) mode fd n1 of
             (Inl err, n2) \<Rightarrow> (Inl err, n2)
           | (Inr s, n2) \<Rightarrow> await_connect cfg e (socket_addr_to_raw le a) s n2))"

definition tcp_connect where
  "tcp_connect le cfg resolved n = resolve_and_try (connect_one le cfg CompletionMode) resolved n"

definition poll_tcp_connect where
  "poll_tcp_connect le cfg resolved n = poll_of (resolve_and_try (connect_one le cfg PollMode) resolved n)"

text \<open>
  \<open>bind_one\<close> of \<open>TcpListener\<close>: a socket, its options, \<open>bind\<close> and \<open>listen\<close>; each failure closes the
  descriptor.
\<close>

record bind_env =
  be_socket :: "(raw_fd \<times> nat) io_result"
  be_reuse :: os_answer
  be_v6only :: os_answer
  be_bind :: os_answer
  be_listen :: os_answer

definition or_close ::
  "os_answer \<Rightarrow> raw_fd \<Rightarrow> (('ms, 'r, 's, 'c) net \<Rightarrow> raw_fd io_result \<times> ('ms, 'r, 's, 'c) net) \<Rightarrow> ('ms, 'r, 's, 'c) net
   \<Rightarrow> raw_fd io_result \<times> ('ms, 'r, 's, 'c) net" where
  "or_close ans fd rest n = (case ans of Some err \<Rightarrow> (Inl err, close_fd fd n) | None \<Rightarrow> rest n)"

definition bind_one ::
  "socket_addr \<times> bind_env \<Rightarrow> ('ms, 'r, 's, 'c) net \<Rightarrow> raw_fd io_result \<times> ('ms, 'r, 's, 'c) net" where
  "bind_one x n =
     (let (a, e) = x in
      case new_socket (be_socket e) n of
        (Inl err, n1) \<Rightarrow> (Inl err, n1)
      | (Inr fd, n1) \<Rightarrow>
          or_close (be_reuse e) fd
            (or_close (case a of V6 _ _ _ _ \<Rightarrow> be_v6only e | V4 _ _ \<Rightarrow> None) fd
              (or_close (be_bind e) fd (or_close (be_listen e) fd (\<lambda>m. (Inr fd, m))))) n1)"

text \<open>The first address that can be bound is registered, and a failure of that ends the loop.\<close>

definition listener_bind ::
  "('ms, 'r, 's, 'c) op_cfg \<Rightarrow> os_answer \<Rightarrow> os_answer \<Rightarrow> (socket_addr \<times> bind_env) list io_result
   \<Rightarrow> ('ms, 'r, 's, 'c) net \<Rightarrow> async_socket io_result \<times> ('ms, 'r, 's, 'c) net" where
  "listener_bind cfg ra na resolved n =
     (case resolve_and_try bind_one resolved n of
        (Inl err, n1) \<Rightarrow> (Inl err, n1)
      | (Inr fd, n1) \<Rightarrow> listener_from_std cfg ra na fd n1)"

text \<open>
  \<open>accept\<close>: the awaited operation yields a descriptor (\<open>TcpListener\<close> also its peer); \<open>UnixListener\<close>
  asks for the peer afterwards and closes the descriptor when that fails.
\<close>

definition tcp_accept ::
  "('ms, 'r, 's, 'c) op_cfg \<Rightarrow> os_answer \<Rightarrow> os_answer \<Rightarrow> ((raw_fd \<times> nat) \<times> socket_addr) io_result
   \<Rightarrow> ('ms, 'r, 's, 'c) net \<Rightarrow> (async_socket \<times> socket_addr) io_result \<times> ('ms, 'r, 's, 'c) net" where
  "tcp_accept cfg ra na accepted n =
     (case accepted of
        Inl err \<Rightarrow> (Inl err, n)
      | Inr ((fd, i), a) \<Rightarrow>
          (case stream_from_std cfg ra na fd (n\<lparr>nt_files := (nt_files n)(fd \<mapsto> i)\<rparr>) of
             (Inl err, n1) \<Rightarrow> (Inl err, n1)
           | (Inr s, n1) \<Rightarrow> (Inr (s, a), n1)))"

definition unix_accept ::
  "('ms, 'r, 's, 'c) op_cfg \<Rightarrow> os_answer \<Rightarrow> os_answer \<Rightarrow> (raw_fd \<times> nat) io_result \<Rightarrow> 'a io_result
   \<Rightarrow> ('ms, 'r, 's, 'c) net \<Rightarrow> (async_socket \<times> 'a) io_result \<times> ('ms, 'r, 's, 'c) net" where
  "unix_accept cfg ra na accepted peer n =
     (case accepted of
        Inl err \<Rightarrow> (Inl err, n)
      | Inr (fd, i) \<Rightarrow>
          (let n1 = n\<lparr>nt_files := (nt_files n)(fd \<mapsto> i)\<rparr> in
           case peer of
             Inl err \<Rightarrow> (Inl err, close_fd fd n1)
           | Inr a \<Rightarrow>
               (case stream_from_std cfg ra na fd n1 of
                  (Inl err, n2) \<Rightarrow> (Inl err, n2)
                | (Inr s, n2) \<Rightarrow> (Inr (s, a), n2))))"

text \<open>
  The path of a Unix socket: \<open>sun_path\<close> has 108 bytes, the address counts the family, the path and
  its terminator, and \<open>c_char\<close> is signed on some machines.
\<close>

definition unix_addr_to_raw :: "bool \<Rightarrow> byte list \<Rightarrow> (byte list \<times> nat) io_result" where
  "unix_addr_to_raw signed_char bytes =
     (if bytes = [] then Inl (Simple InvalidInput)
      else if 0 \<in> set bytes then Inl (Simple InvalidInput)
      else if 108 \<le> length bytes then Inl (Simple InvalidInput)
      else if signed_char \<and> (\<exists>b \<in> set bytes. 128 \<le> b) then Inl (Simple InvalidInput)
      else Inr (bytes @ replicate (108 - length bytes) 0, 2 + length bytes + 1))"

definition unix_connect ::
  "('ms, 'r, 's, 'c) op_cfg \<Rightarrow> bool \<Rightarrow> registration_mode \<Rightarrow> (byte list, 'ms, 'r, 's, 'c) connect_env \<Rightarrow> byte list
   \<Rightarrow> ('ms, 'r, 's, 'c) net \<Rightarrow> async_socket io_result \<times> ('ms, 'r, 's, 'c) net" where
  "unix_connect cfg signed_char mode e path n =
     (case unix_addr_to_raw signed_char path of
        Inl err \<Rightarrow> (Inl err, n)
      | Inr (raw, len) \<Rightarrow>
          (case new_socket (ce_socket e) n of
             (Inl err, n1) \<Rightarrow> (Inl err, n1)
           | (Inr fd, n1) \<Rightarrow>
               (case from_std_with_mode cfg (ce_register e) (ce_flag e) mode fd n1 of
                  (Inl err, n2) \<Rightarrow> (Inl err, n2)
                | (Inr s, n2) \<Rightarrow> await_connect cfg e (raw, len) s n2)))"

section \<open>Descriptors\<close>

lemma files_set_current [simp]:
  "nt_files (set_current cur n) = nt_files n" "nt_nonblock (set_current cur n) = nt_nonblock n"
  by (simp_all add: set_current_def split: option.split)

lemma files_close_fd: "nt_files (close_fd fd n) = (nt_files n)(fd := None)"
  by (simp add: close_fd_def)

lemma set_nonblocking_files: "set_nonblocking ans fd b n = (r, n') \<Longrightarrow> nt_files n' = nt_files n"
  by (auto simp: set_nonblocking_def split: option.splits)

lemma from_registered_files:
  assumes "from_registered na fd reg n = (r, n')"
  shows "r = Inl err \<Longrightarrow> nt_files n' = (nt_files n)(fd := None)"
    and "r = Inr s \<Longrightarrow> nt_files n' = nt_files n \<and> sk_fd s = fd"
  using assms
  by (auto simp: from_registered_def Let_def files_close_fd dest: set_nonblocking_files
      split: prod.splits sum.splits)

lemma created_files:
  assumes "from_std_with_mode cfg ra na mode fd n = (r, n')"
  shows "r = Inl err \<Longrightarrow> nt_files n' = (nt_files n)(fd := None)"
    and "r = Inr s \<Longrightarrow> nt_files n' = nt_files n \<and> sk_fd s = fd"
  using from_registered_files[OF assms[unfolded from_std_with_mode_def]] by auto

lemma new_socket_files:
  assumes "new_socket sock n = (r, n')"
  shows "r = Inl err \<Longrightarrow> n' = n" and "r = Inr fd \<Longrightarrow> \<exists>i. sock = Inr (fd, i) \<and> nt_files n' = (nt_files n)(fd \<mapsto> i)"
  using assms by (auto simp: new_socket_def split: sum.splits)

lemma await_connect_files:
  assumes "await_connect cfg e raw s n = (r, n')"
  shows "r = Inl err \<Longrightarrow> nt_files n' = (nt_files n)(sk_fd s := None)"
    and "r = Inr s' \<Longrightarrow> s' = s \<and> nt_files n' = nt_files n"
  using assms by (auto simp: await_connect_def socket_drop_def files_close_fd split: prod.splits sum.splits)

text \<open>What an attempt promises about descriptors: a failure leaves none behind, a success opens one.\<close>

definition fresh_socket :: "(raw_fd \<rightharpoonup> nat) \<Rightarrow> (raw_fd \<times> nat) io_result \<Rightarrow> bool" where
  "fresh_socket files sock \<longleftrightarrow> (case sock of Inl _ \<Rightarrow> True | Inr (fd, i) \<Rightarrow> files fd = None)"

locale attempt =
  fixes one :: "'x \<Rightarrow> ('ms, 'r, 's, 'c) net \<Rightarrow> 'a io_result \<times> ('ms, 'r, 's, 'c) net"
    and sock :: "'x \<Rightarrow> (raw_fd \<times> nat) io_result"
    and fd_of :: "'a \<Rightarrow> raw_fd"
  assumes failed: "fresh_socket (nt_files n) (sock x) \<Longrightarrow> one x n = (Inl err, n') \<Longrightarrow> nt_files n' = nt_files n"
    and worked: "fresh_socket (nt_files n) (sock x) \<Longrightarrow> one x n = (Inr r, n')
      \<Longrightarrow> \<exists>i. sock x = Inr (fd_of r, i) \<and> nt_files n' = (nt_files n)(fd_of r \<mapsto> i)"
begin

lemma tries_failed:
  assumes "\<And>x. x \<in> set xs \<Longrightarrow> fresh_socket (nt_files n) (sock x)"
    and "try_addresses one xs prev n = (Inl err, n')"
  shows "nt_files n' = nt_files n"
  using assms
proof (induction xs arbitrary: prev n)
  case (Cons x xs)
  then show ?case using failed[of n x] by (auto split: prod.splits sum.splits) metis
qed simp

lemma tries_worked:
  assumes "\<And>x. x \<in> set xs \<Longrightarrow> fresh_socket (nt_files n) (sock x)"
    and "try_addresses one xs prev n = (Inr r, n')"
  shows "\<exists>x \<in> set xs. \<exists>i. sock x = Inr (fd_of r, i) \<and> nt_files n' = (nt_files n)(fd_of r \<mapsto> i)"
  using assms
proof (induction xs arbitrary: prev n)
  case (Cons x xs)
  show ?case
  proof (cases "one x n")
    case one: (Pair res m)
    show ?thesis
    proof (cases res)
      case (Inl err)
      have f: "nt_files m = nt_files n" using failed[of n x err m] one Inl Cons.prems(1) by simp
      have "\<exists>y \<in> set xs. \<exists>i. sock y = Inr (fd_of r, i) \<and> nt_files n' = (nt_files m)(fd_of r \<mapsto> i)"
        by (rule Cons.IH[of m "Some err"]) (use Cons.prems f one Inl in auto)
      then show ?thesis unfolding f by (meson list.set_intros(2))
    next
      case (Inr r')
      then show ?thesis using worked[of n x r' m] one Cons.prems by (auto simp: fun_upd_def)
    qed
  qed
qed simp

end

interpretation connect_attempt: attempt "connect_one le cfg mode" "\<lambda>x. ce_socket (snd x)" sk_fd
  for le cfg mode
proof
  fix n n' :: "('a, 'b, 'c, 'd) net" and x err
  assume f: "fresh_socket (nt_files n) (ce_socket (snd x))" and r: "connect_one le cfg mode x n = (Inl err, n')"
  show "nt_files n' = nt_files n"
  proof (cases "ce_socket (snd x)")
    case (Inl e)
    then show ?thesis using r by (auto simp: connect_one_def new_socket_def split: prod.splits)
  next
    case (Inr y)
    obtain fd i where y: "y = (fd, i)" by (cases y)
    have "nt_files n' = (nt_files n)(fd := None)"
      using r Inr y by (auto simp: connect_one_def new_socket_def split: prod.splits sum.splits
          dest!: created_files[OF _ refl] await_connect_files[OF _ refl])
    then show ?thesis using f Inr y by (auto simp: fresh_socket_def)
  qed
next
  fix n n' :: "('a, 'b, 'c, 'd) net" and x s
  assume f: "fresh_socket (nt_files n) (ce_socket (snd x))" and r: "connect_one le cfg mode x n = (Inr s, n')"
  show "\<exists>i. ce_socket (snd x) = Inr (sk_fd s, i) \<and> nt_files n' = (nt_files n)(sk_fd s \<mapsto> i)"
    using r by (auto simp: connect_one_def new_socket_def split: prod.splits sum.splits
        dest!: created_files(2)[OF _ refl] await_connect_files(2)[OF _ refl])
qed

interpretation bind_attempt: attempt bind_one "\<lambda>x. be_socket (snd x)" id
  by unfold_locales (auto simp: bind_one_def or_close_def new_socket_def files_close_fd fresh_socket_def
      split: prod.splits sum.splits option.splits)

text \<open>
  C23: Connecting leaves no descriptor behind. Whatever the kernel answers on each attempt, when
  \<open>TcpStream::connect\<close> fails every descriptor its attempts have opened is closed again (and with no
  address the error is \<open>InvalidInput\<close>); when it succeeds exactly one descriptor is open in
  addition, the one of the returned stream, which was opened for one of the addresses.
\<close>

theorem tcp_connect_leaves_no_descriptor:
  assumes "\<forall>x \<in> set xs. fresh_socket (nt_files n) (ce_socket (snd x))"
    and "tcp_connect le cfg (Inr xs) n = (r, n')"
  shows "case r of
      Inl err \<Rightarrow> nt_files n' = nt_files n \<and> (xs = [] \<longrightarrow> err = Simple InvalidInput)
    | Inr s \<Rightarrow> \<exists>x \<in> set xs. \<exists>i. ce_socket (snd x) = Inr (sk_fd s, i) \<and> nt_files n' = (nt_files n)(sk_fd s \<mapsto> i)"
proof -
  have t: "try_addresses (connect_one le cfg CompletionMode) xs None n = (r, n')"
    using assms(2) by (simp add: tcp_connect_def resolve_and_try_def)
  show ?thesis
  proof (cases r)
    case (Inl err)
    have "nt_files n' = nt_files n"
      by (rule connect_attempt.tries_failed[OF _ t[unfolded Inl]]) (use assms(1) in auto)
    then show ?thesis using t Inl by auto
  next
    case (Inr s)
    have "\<exists>x \<in> set xs. \<exists>i. ce_socket (snd x) = Inr (sk_fd s, i) \<and> nt_files n' = (nt_files n)(sk_fd s \<mapsto> i)"
      by (rule connect_attempt.tries_worked[OF _ t[unfolded Inr]]) (use assms(1) in auto)
    then show ?thesis by (simp only: Inr sum.case)
  qed
qed

text \<open>
  Binding a listener leaves no descriptor behind either: on failure (of an address, of an
  option, of \<open>listen\<close> or of the registration) the open descriptors are those of before, on success
  the descriptor of the listener is open in addition.
\<close>

theorem listener_bind_leaves_no_descriptor:
  assumes "\<forall>x \<in> set xs. fresh_socket (nt_files n) (be_socket (snd x))"
    and "listener_bind cfg ra na (Inr xs) n = (r, n')"
  shows "case r of
      Inl err \<Rightarrow> nt_files n' = nt_files n
    | Inr s \<Rightarrow> \<exists>x \<in> set xs. \<exists>i. be_socket (snd x) = Inr (sk_fd s, i) \<and> nt_files n' = (nt_files n)(sk_fd s \<mapsto> i)"
proof -
  obtain b n1 where t: "try_addresses bind_one xs None n = (b, n1)" by fastforce
  show ?thesis
  proof (cases b)
    case (Inl err)
    have "nt_files n1 = nt_files n"
      by (rule bind_attempt.tries_failed[OF _ t[unfolded Inl]]) (use assms(1) in auto)
    then show ?thesis using assms(2) t Inl by (auto simp: listener_bind_def resolve_and_try_def)
  next
    case (Inr fd)
    have "\<exists>x \<in> set xs. \<exists>i. be_socket (snd x) = Inr (id fd, i) \<and> nt_files n1 = (nt_files n)(id fd \<mapsto> i)"
      by (rule bind_attempt.tries_worked[OF _ t[unfolded Inr]]) (use assms(1) in auto)
    then obtain x i where x: "x \<in> set xs" "be_socket (snd x) = Inr (fd, i)" "nt_files n1 = (nt_files n)(fd \<mapsto> i)"
      by auto
    have l: "from_registered na fd (handle_new cfg ra fd READABLE (current_driver n1)) n1 = (r, n')"
      using assms(2) t Inr by (simp add: listener_bind_def resolve_and_try_def listener_from_std_def)
    have "nt_files n fd = None" using assms(1) x by (auto simp: fresh_socket_def)
    then show ?thesis using from_registered_files[OF l] x by (cases r) (auto simp: fun_upd_idem)
  qed
qed

section \<open>The non-blocking flag\<close>

inductive socket_life :: "('ms, 'r, 's, 'c) op_cfg \<Rightarrow> ('ms, 'r, 's, 'c) net \<Rightarrow> async_socket \<Rightarrow> bool" for cfg where
  made: "from_std_with_mode cfg ra na mode fd n = (Inr s, n') \<Longrightarrow> socket_life cfg n' s"
| listening: "listener_from_std cfg ra na fd n = (Inr s, n') \<Longrightarrow> socket_life cfg n' s"
| switched: "socket_life cfg n s \<Longrightarrow> switch_mode cfg da ra na ca mode s n = (Inr s', n') \<Longrightarrow> socket_life cfg n' s'"
| other: "socket_life cfg n s \<Longrightarrow> nt_files n fd \<noteq> nt_files n (sk_fd s)
    \<Longrightarrow> from_std_with_mode cfg ra na mode fd n = (Inr s2, n') \<Longrightarrow> socket_life cfg n' s"

definition socket_ok :: "('ms, 'r, 's, 'c) op_cfg \<Rightarrow> ('ms, 'r, 's, 'c) net \<Rightarrow> async_socket \<Rightarrow> bool" where
  "socket_ok cfg n s \<longleftrightarrow> h_fd (sk_handle s) = sk_fd s \<and> h_token (sk_handle s) \<in> handle_regs cfg (nt_driver n) \<and>
     (\<exists>i. nt_files n (sk_fd s) = Some i \<and> nt_nonblock n i = (\<not> uses_completion (nt_driver n) (sk_handle s)))"

lemma set_nonblocking_ok:
  assumes "set_nonblocking ans fd b n = (Inr u, n')"
  obtains i where "nt_files n fd = Some i" "n' = n\<lparr>nt_nonblock := (nt_nonblock n)(i := b)\<rparr>"
  using assms by (auto simp: set_nonblocking_def split: option.splits)

lemma from_registered_ok:
  assumes "from_registered na fd reg n = (Inr s, n')"
  obtains h cur i where "reg = (Inr h, cur)" "s = \<lparr>sk_fd = fd, sk_handle = h\<rparr>" "nt_files n fd = Some i"
    "nt_driver n' = nt_driver (set_current cur n)" "nt_files n' = nt_files n"
    "nt_nonblock n' = (nt_nonblock n)(i := (\<not> uses_completion (nt_driver n') h))"
  using assms
  by (auto simp: from_registered_def Let_def set_current_def split: prod.splits sum.splits option.splits
      elim!: set_nonblocking_ok)

lemma new_with_mode_ok:
  assumes "new_with_mode cfg ra fd want mode (current_driver n) = (Inr h, cur)"
  obtains k where "nt_entered n" "h_fd h = fd" "h_token h = k"
    "any_register_handle_with_mode cfg ra fd want (h_mode h) (nt_driver n) = (Inr k, nt_driver (set_current cur n))"
  using assms
  by (auto simp: new_with_mode_def current_driver_def new_with_driver_and_mode_def Let_def set_current_def
      split: if_splits prod.splits sum.splits)

lemma created_ok:
  assumes "slab (dc_mio cfg)" and "slab (u_regs (dc_uring cfg))"
    and "from_registered na fd (new_with_mode cfg ra fd want mode (current_driver n)) n = (Inr s, n')"
  shows "socket_ok cfg n' s"
    and "handle_regs cfg (nt_driver n) \<subseteq> handle_regs cfg (nt_driver n')"
    and "any_supports_completion (nt_driver n') = any_supports_completion (nt_driver n)"
    and "nt_files n' = nt_files n" and "nt_files n fd \<noteq> Some i \<Longrightarrow> nt_nonblock n' i = nt_nonblock n i"
  using assms(3)
  by (auto simp: socket_ok_def elim!: from_registered_ok new_with_mode_ok dest: register_regs[OF assms(1,2)])

lemma switched_ok:
  assumes "slab (dc_mio cfg)" and "slab (u_regs (dc_uring cfg))" and "socket_ok cfg n s"
    and "switch_mode cfg da ra na ca mode s n = (Inr s', n')"
  shows "socket_ok cfg n' s'"
proof -
  obtain h drv where r: "rebind_mode cfg da ra mode (sk_handle s) (nt_driver n) = (Inr (), h, drv)"
    and f: "set_nonblocking na (sk_fd s) (\<not> uses_completion drv h) (n\<lparr>nt_driver := drv\<rparr>) = (Inr (), n')"
    and s': "s' = s\<lparr>sk_handle := h\<rparr>"
    using assms(4) by (auto simp: switch_mode_def split: prod.splits sum.splits)
  have k: "h_token (sk_handle s) \<in> handle_regs cfg (nt_driver n)" using assms(3) by (simp add: socket_ok_def)
  have "h_token h \<in> handle_regs cfg drv" using rebind_mode_moves_registration[OF assms(1,2) k r] by simp
  moreover have "h_fd h = h_fd (sk_handle s)"
    using r by (auto simp: rebind_mode_def Let_def split: if_splits prod.splits sum.splits)
  ultimately show ?thesis using f assms(3) by (auto simp: socket_ok_def s' elim!: set_nonblocking_ok)
qed


text \<open>
  A flag that cannot be set leaks a registration. When \<open>set_nonblocking\<close> fails, the descriptor is
  closed, but the handle is in a \<open>ManuallyDrop\<close> and its token stays registered with the driver.
\<close>

theorem failed_flag_leaks_registration:
  assumes "slab (dc_mio cfg)" and "slab (u_regs (dc_uring cfg))"
    and "new_with_mode cfg ra fd READ_WRITE mode (current_driver n) = (Inr h, cur)"
  shows "\<exists>n'. from_std_with_mode cfg ra (Some err) mode fd n = (Inl err, n') \<and> nt_files n' fd = None \<and>
    h_token h \<notin> handle_regs cfg (nt_driver n) \<and> h_token h \<in> handle_regs cfg (nt_driver n')"
  using assms(3)
  by (auto simp: from_std_with_mode_def from_registered_def set_nonblocking_def close_fd_def Let_def
      elim!: new_with_mode_ok dest: register_regs[OF assms(1,2)])

lemma created_mode:
  assumes "from_std_with_mode cfg ra na CompletionMode fd n = (Inr s, n')" and "any_supports_completion (nt_driver n)"
  shows "h_mode (sk_handle s) = CompletionMode"
  using assms
  by (auto simp: from_std_with_mode_def new_with_mode_def current_driver_def new_with_driver_and_mode_def
      effective_mode_def Let_def split: if_splits prod.splits sum.splits elim!: from_registered_ok)

lemma completion_socket_not_polled:
  assumes "uses_completion drv (sk_handle (ps_socket q))" and "\<not> ps_read_ready q" and "\<not> ps_write_ready q"
  shows "poll_readable cfg ans w q drv = (Ready (Inl (Simple Unsupported)), q, drv)"
    and "poll_writable cfg ans w q drv = (Ready (Inl (Simple Unsupported)), q, drv)"
  using assms by (simp_all add: poll_readable_def poll_writable_def)

text \<open>
  Cloning a poll-based datagram socket breaks both sockets on a completion driver.
  \<open>PollUdpSocket::try_clone\<close> registers the duplicate in completion mode: every readiness operation
  of the clone fails with \<open>Unsupported\<close>, and since both descriptors share one open file
  description, the original socket becomes blocking although it works by readiness.
\<close>

theorem poll_udp_clone_breaks_readiness:
  assumes "slab (dc_mio cfg)" and "slab (u_regs (dc_uring cfg))"
    and "any_supports_completion (nt_driver n)" and "nt_files n (sk_fd (ps_socket p)) = Some i"
    and "poll_udp_try_clone cfg (Inr fd) ra na p n = (Inr q, n')"
  shows "fst (poll_readable cfg ans w q (nt_driver n')) = Ready (Inl (Simple Unsupported)) \<and>
    fst (poll_writable cfg ans w q (nt_driver n')) = Ready (Inl (Simple Unsupported)) \<and>
    \<not> nt_nonblock n' i"
proof -
  let ?n = "n\<lparr>nt_files := (nt_files n)(fd := nt_files n (sk_fd (ps_socket p)))\<rparr>"
  obtain s where c: "from_std_with_mode cfg ra na CompletionMode fd ?n = (Inr s, n')"
    and q: "q = \<lparr>ps_socket = s, ps_read_ready = False, ps_write_ready = False\<rparr>"
    using assms(5)
    by (auto simp: poll_udp_try_clone_def udp_try_clone_def stream_from_std_def poll_of_def map_sum_def split: prod.splits sum.splits)
  note C = created_ok[OF assms(1,2) c[unfolded from_std_with_mode_def]]
  have u: "uses_completion (nt_driver n') (sk_handle (ps_socket q))"
    using created_mode[OF c] C(3) assms(3) by (simp add: uses_completion_def q)
  have "sk_fd s = fd" using created_files(2)[OF c refl] by simp
  then have "\<not> nt_nonblock n' i" using C(1,4) u assms(4) by (auto simp: socket_ok_def q)
  then show ?thesis using completion_socket_not_polled[OF u] by (simp add: q)
qed

text \<open>\<open>UnixStream::from_std_poll\<close> has the same flaw: on a completion driver its result cannot be polled.\<close>

theorem unix_from_std_poll_unsupported:
  assumes "slab (dc_mio cfg)" and "slab (u_regs (dc_uring cfg))" and "any_supports_completion (nt_driver n)"
    and "unix_from_std_poll cfg ra na fd n = (Inr q, n')"
  shows "fst (poll_readable cfg ans w q (nt_driver n')) = Ready (Inl (Simple Unsupported))"
proof -
  have "nt_entered n" using assms(4)
    by (auto simp: unix_from_std_poll_def poll_of_def from_registered_def handle_new_def new_with_mode_def
        current_driver_def split: if_splits prod.splits sum.splits)
  then obtain s where c: "from_std_with_mode cfg ra na CompletionMode fd n = (Inr s, n')"
    and q: "q = \<lparr>ps_socket = s, ps_read_ready = False, ps_write_ready = False\<rparr>"
    using assms(3,4)
    by (auto simp: unix_from_std_poll_def from_std_with_mode_def handle_new_def current_driver_def poll_of_def map_sum_def
        split: prod.splits sum.splits)
  have "uses_completion (nt_driver n') (sk_handle (ps_socket q))"
    using created_mode[OF c assms(3)] created_ok(3)[OF assms(1,2) c[unfolded from_std_with_mode_def]] assms(3)
    by (simp add: uses_completion_def q)
  then show ?thesis by (simp add: completion_socket_not_polled q)
qed

section \<open>Readiness and paths\<close>

text \<open>
  A readiness future is ready on its second poll, whatever has happened. \<open>poll_readable\<close> records
  the direction as ready even when it returns \<open>Pending\<close>, so another poll, with another waker and
  without any event in between, reports that the socket is readable.
\<close>

theorem second_poll_reports_ready:
  assumes "poll_readable cfg ans w p drv = (Pending, p', drv')"
  shows "poll_readable cfg ans' w' p' drv'' = (Ready (Inr ()), p', drv'')"
  using assms by (auto simp: poll_readable_def split: if_splits prod.splits poll.splits sum.splits)

text \<open>
  Addresses of Unix sockets. A path that is not empty, has no zero byte and fewer than 108 bytes is
  encoded so that the zero-terminated string in \<open>sun_path\<close> is the path and the length counts the family,
  the path and its terminator; every other path is refused with \<open>InvalidInput\<close>. Where \<open>c_char\<close> is
  signed, a path with a byte above 127 is refused too.
\<close>

theorem unix_path_encoding:
  "case unix_addr_to_raw signed_char bytes of
     Inr (raw, len) \<Rightarrow> length raw = 108 \<and> takeWhile ((<) 0) raw = bytes \<and> len = 2 + length bytes + 1 \<and> len \<le> 110
   | Inl err \<Rightarrow> err = Simple InvalidInput \<and> (bytes = [] \<or> 0 \<in> set bytes \<or> 108 \<le> length bytes \<or> signed_char \<and> \<not> list_all (\<lambda>b. b < 128) bytes)"
proof -
  have tw: "takeWhile ((<) 0) (bytes @ replicate k 0) = bytes" if "0 \<notin> set bytes" for k
    using that by (induction bytes) (auto simp: takeWhile_replicate)
  show ?thesis by (auto simp: unix_addr_to_raw_def tw list_all_iff not_less)
qed

section \<open>Concrete runs\<close>

definition demo_net :: "(registration option list, op_entry sqe list \<times> cqe list, handle_registration option list,
    kept completion option list) net" where
  "demo_net = \<lparr>nt_entered = True, nt_driver = IoUring (demo_op_driver []), nt_files = [6 \<mapsto> 40], nt_nonblock = (\<lambda>i. i = 40)\<rparr>"

definition demo_poll_socket :: poll_socket where
  "demo_poll_socket = \<lparr>ps_socket = \<lparr>sk_fd = 6, sk_handle = demo_handle\<lparr>h_mode := PollMode\<rparr>\<rparr>,
     ps_read_ready = False, ps_write_ready = False\<rparr>"

lemmas demo_net_eval = demo_net_def from_std_with_mode_def from_registered_def new_with_mode_def
  current_driver_def set_current_def new_with_driver_and_mode_def effective_mode_def uring_register_with_mode_def
  set_nonblocking_def close_fd_def Let_def demo_op_eval

definition demo_attempts where
  "demo_attempts = [(V4 (127, 0, 0, 1) 80, \<lparr>ce_socket = Inr (7, 41), ce_register = None, ce_flag = None,
      ce_await = (\<lambda>_ _ _ drv. (Inl (Os 111), drv)), ce_dereg = None\<rparr>),
    (V4 (127, 0, 0, 2) 80, \<lparr>ce_socket = Inr (7, 42), ce_register = None, ce_flag = None,
      ce_await = (\<lambda>_ _ _ drv. (Inr (), drv)), ce_dereg = None\<rparr>)]"

theorem tcp_connect_leaves_no_descriptor_witness:
  "\<exists>s n'. tcp_connect True demo_opcfg (Inr demo_attempts) demo_net = (Inr s, n') \<and> nt_files n' = [6 \<mapsto> 40, 7 \<mapsto> 42]"
proof -
  have f: "\<forall>x \<in> set demo_attempts. fresh_socket (nt_files demo_net) (ce_socket (snd x))"
    by (simp add: demo_attempts_def demo_net_def fresh_socket_def)
  obtain s n' where r: "tcp_connect True demo_opcfg (Inr demo_attempts) demo_net = (Inr s, n')" "sk_fd s = 7"
    "nt_files n' 7 = Some 42"
    by (simp add: tcp_connect_def resolve_and_try_def demo_attempts_def connect_one_def new_socket_def await_connect_def
        socket_drop_def handle_drop_def uring_deregister_def demo_net_eval)
  from tcp_connect_leaves_no_descriptor[OF f r(1)] r(2,3) have "nt_files n' = (nt_files demo_net)(7 \<mapsto> 42)"
    by (auto split: sum.splits)
  then show ?thesis using r(1) by (simp add: demo_net_def)
qed

theorem listener_bind_leaves_no_descriptor_witness:
  "\<exists>n'. listener_bind demo_opcfg None None (Inr [(V4 (127, 0, 0, 1) 80, \<lparr>be_socket = Inr (7, 41), be_reuse = None,
      be_v6only = None, be_bind = Some (Os 98), be_listen = None\<rparr>)]) demo_net = (Inl (Os 98), n') \<and> nt_files n' = [6 \<mapsto> 40]"
proof -
  let ?xs = "[(V4 (127, 0, 0, 1) 80, \<lparr>be_socket = Inr (7, 41), be_reuse = None,
      be_v6only = None, be_bind = Some (Os 98), be_listen = None\<rparr>)]"
  obtain n' where r: "listener_bind demo_opcfg None None (Inr ?xs) demo_net = (Inl (Os 98), n')"
    by (simp add: listener_bind_def resolve_and_try_def bind_one_def new_socket_def or_close_def)
  have "\<forall>x \<in> set ?xs. fresh_socket (nt_files demo_net) (be_socket (snd x))"
    by (simp add: demo_net_def fresh_socket_def)
  from listener_bind_leaves_no_descriptor[OF this r] r show ?thesis by (simp add: demo_net_def)
qed


theorem poll_udp_clone_breaks_readiness_witness:
  "nt_nonblock demo_net 40 \<and> (\<exists>q n'. poll_udp_try_clone demo_opcfg (Inr 8) None None demo_poll_socket demo_net = (Inr q, n') \<and>
     \<not> nt_nonblock n' 40)"
proof -
  obtain q n' where r: "poll_udp_try_clone demo_opcfg (Inr 8) None None demo_poll_socket demo_net = (Inr q, n')"
    by (simp add: poll_udp_try_clone_def udp_try_clone_def stream_from_std_def poll_of_def demo_poll_socket_def demo_net_eval)
  have s: "any_supports_completion (nt_driver demo_net)" "nt_files demo_net (sk_fd (ps_socket demo_poll_socket)) = Some 40"
    by (simp_all add: demo_net_def demo_poll_socket_def)
  from poll_udp_clone_breaks_readiness[OF demo_opcfg_slabs(1,2) s r] r show ?thesis by (simp add: demo_net_def)
qed

end
