(* ===== verification/Net_Streams.thy ===== *)
theory Net_Streams
  imports Net_Sockets
begin

text \<open>
  Input and output on the socket types of \<open>net/\<close>: the poll-based traits of \<open>PollTcpStream\<close> and
  \<open>PollUnixStream\<close>, the owned-buffer methods of the streams, and the datagram methods of \<open>UdpSocket\<close>
  and \<open>PollUdpSocket\<close>. A method that is awaited is one step of its future; answers of the kernel
  are arguments.
\<close>

section \<open>Poll-based streams\<close>

text \<open>
  \<open>tokio\<close>'s \<open>ReadBuf\<close>: the filled bytes and the capacity. \<open>advance\<close> panics past the capacity.
\<close>

record read_buf =
  rb_filled :: "byte list"
  rb_capacity :: nat

definition rb_remaining :: "read_buf \<Rightarrow> nat" where
  "rb_remaining b = rb_capacity b - length (rb_filled b)"

definition rb_append :: "byte list \<Rightarrow> read_buf \<Rightarrow> read_buf option" where
  "rb_append bs b = (if length bs \<le> rb_remaining b then Some (b\<lparr>rb_filled := rb_filled b @ bs\<rparr>) else None)"

text \<open>\<open>IoBufTemporaryPoll\<close> borrows memory of the caller for one poll.\<close>

definition temporary_buf :: "nat \<Rightarrow> io_buf" where
  "temporary_buf n = \<lparr>buf_len = n, buf_capacity = n, buf_fixed = True, would_box = False\<rparr>"

definition poll_temporary ::
  "raw_handle \<Rightarrow> ('o \<Rightarrow> ('ms, 'r, 's, 'c) any_driver \<Rightarrow> 'a io_result poll \<times> 'o \<times> ('ms, 'r, 's, 'c) any_driver)
   \<Rightarrow> 'o \<Rightarrow> ('ms, 'r, 's, 'c) any_driver \<Rightarrow> 'a io_result poll \<times> ('ms, 'r, 's, 'c) any_driver" where
  "poll_temporary h step op drv =
     (if uses_completion drv h then (Ready (Inl (Simple Unsupported)), drv)
      else (let (r, _, drv1) = step op drv in (r, drv1)))"

text \<open>\<open>got\<close> are the bytes that \<open>read\<close> delivers; a panic is \<open>None\<close>.\<close>

definition stream_poll_read ::
  "('ms, 'r, 's, 'c) op_cfg \<Rightarrow> os_answer \<Rightarrow> byte list io_result \<Rightarrow> waker \<Rightarrow> raw_handle \<Rightarrow> read_buf
   \<Rightarrow> ('ms, 'r, 's, 'c) any_driver \<Rightarrow> (unit io_result poll \<times> read_buf \<times> ('ms, 'r, 's, 'c) any_driver) option" where
  "stream_poll_read cfg ans got w h b drv =
     (if rb_remaining b = 0 then Some (Ready (Inr ()), b, drv)
      else
        (case poll_temporary h (read_poll_poll cfg ans (map_sum id length got) w)
                (buf_op_new drv h (temporary_buf (rb_remaining b))) drv of
           (Ready (Inr n), drv1) \<Rightarrow>
             map_option (\<lambda>b1. (Ready (Inr ()), b1, drv1)) (rb_append (take n (case got of Inr bs \<Rightarrow> bs | Inl _ \<Rightarrow> [])) b)
         | (Ready (Inl err), drv1) \<Rightarrow> Some (Ready (Inl err), b, drv1)
         | (Pending, drv1) \<Rightarrow> Some (Pending, b, drv1)))"

definition stream_poll_write ::
  "('ms, 'r, 's, 'c) op_cfg \<Rightarrow> os_answer \<Rightarrow> sys \<Rightarrow> waker \<Rightarrow> raw_handle \<Rightarrow> byte list
   \<Rightarrow> ('ms, 'r, 's, 'c) any_driver \<Rightarrow> nat io_result poll \<times> ('ms, 'r, 's, 'c) any_driver" where
  "stream_poll_write cfg ans sys w h bs drv =
     poll_temporary h (write_poll_poll cfg ans sys w) (buf_op_new drv h (temporary_buf (length bs))) drv"

definition stream_poll_write_vectored ::
  "('ms, 'r, 's, 'c) op_cfg \<Rightarrow> os_answer \<Rightarrow> sys \<Rightarrow> waker \<Rightarrow> raw_handle \<Rightarrow> byte list list
   \<Rightarrow> ('ms, 'r, 's, 'c) any_driver \<Rightarrow> nat io_result poll \<times> ('ms, 'r, 's, 'c) any_driver" where
  "stream_poll_write_vectored cfg ans sys w h bufs drv =
     (if bufs = [] then (Ready (Inr 0), drv)
      else poll_temporary h (writev_poll_poll cfg ans sys w) (vec_op_new h (map length bufs)) drv)"

definition stream_poll_flush :: "unit io_result poll" where
  "stream_poll_flush = Ready (Inr ())"

definition stream_poll_shutdown :: "unit io_result \<Rightarrow> unit io_result poll" where
  "stream_poll_shutdown ans = Ready (socket_shutdown ans)"

section \<open>Owned buffers\<close>

text \<open>
  One poll of the futures of \<open>read\<close>, \<open>write\<close> and their vectored forms: an empty vector is answered
  without an operation.
\<close>

definition stream_read_step ::
  "('ms, 'r, 's, 'c) op_cfg \<Rightarrow> os_answer \<Rightarrow> sys \<Rightarrow> waker \<Rightarrow> (nat, buf_op, 'ms, 'r, 's, 'c) op_step" where
  "stream_read_step cfg ans sys w op drv =
     poll_op drv (op_handle op) (read_poll_completion cfg w op drv) (read_poll_poll cfg ans sys w op drv)"

definition stream_write_step ::
  "('ms, 'r, 's, 'c) op_cfg \<Rightarrow> os_answer \<Rightarrow> sys \<Rightarrow> waker \<Rightarrow> (nat, buf_op, 'ms, 'r, 's, 'c) op_step" where
  "stream_write_step cfg ans sys w op drv =
     poll_op drv (op_handle op) (write_poll_completion cfg w op drv) (write_poll_poll cfg ans sys w op drv)"

definition stream_read_vectored_step ::
  "('ms, 'r, 's, 'c) op_cfg \<Rightarrow> os_answer \<Rightarrow> sys \<Rightarrow> waker \<Rightarrow> (nat, vec_op, 'ms, 'r, 's, 'c) op_step" where
  "stream_read_vectored_step cfg ans sys w op drv =
     (if vo_bufs op = [] then (Ready (Inr 0), op, drv)
      else poll_op drv (op_handle op) (readv_poll_completion cfg w op drv) (readv_poll_poll cfg ans sys w op drv))"

definition stream_write_vectored_step ::
  "('ms, 'r, 's, 'c) op_cfg \<Rightarrow> os_answer \<Rightarrow> sys \<Rightarrow> waker \<Rightarrow> (nat, vec_op, 'ms, 'r, 's, 'c) op_step" where
  "stream_write_vectored_step cfg ans sys w op drv =
     (if vo_bufs op = [] then (Ready (Inr 0), op, drv)
      else poll_op drv (op_handle op) (writev_poll_completion cfg w op drv) (writev_poll_poll cfg ans sys w op drv))"

definition recv_op_new :: "bool \<Rightarrow> ('ms, 'r, 's, 'c) any_driver \<Rightarrow> raw_handle \<Rightarrow> io_buf \<Rightarrow> recv_op" where
  "recv_op_new peek drv h b =
     \<lparr>op_handle = h, op_token = None, op_buf = completion_buffer_new b (uses_completion drv h), recv_peek = peek\<rparr>"

text \<open>\<open>peek\<close> of a stream, \<open>recv\<close> and \<open>peek\<close> of a datagram socket.\<close>

definition recv_step ::
  "('ms, 'r, 's, 'c) op_cfg \<Rightarrow> os_answer \<Rightarrow> sys \<Rightarrow> waker \<Rightarrow> (nat, recv_op, 'ms, 'r, 's, 'c) op_step" where
  "recv_step cfg ans sys w op drv =
     poll_op drv (op_handle op) (recv_poll_completion cfg w op drv) (recv_poll_poll cfg ans sys w op drv)"

section \<open>Datagrams\<close>

definition send_step ::
  "('ms, 'r, 's, 'c) op_cfg \<Rightarrow> os_answer \<Rightarrow> sys \<Rightarrow> waker \<Rightarrow> (nat, buf_op, 'ms, 'r, 's, 'c) op_step" where
  "send_step cfg ans sys w op drv =
     poll_op drv (op_handle op) (send_poll_completion cfg w op drv) (send_poll_poll cfg ans sys w op drv)"

definition recvfrom_op_new :: "bool \<Rightarrow> ('ms, 'r, 's, 'c) any_driver \<Rightarrow> raw_handle \<Rightarrow> io_buf \<Rightarrow> recvfrom_op" where
  "recvfrom_op_new peek drv h b =
     \<lparr>op_handle = h, op_token = None, op_buf = completion_buffer_new b (uses_completion drv h), rf_peek = peek, rf_state = False\<rparr>"

definition recv_from_step ::
  "bool \<Rightarrow> ('ms, 'r, 's, 'c) op_cfg \<Rightarrow> os_answer \<Rightarrow> (nat \<times> sockaddr) io_result \<Rightarrow> sockaddr \<Rightarrow> waker
   \<Rightarrow> (nat \<times> socket_addr, recvfrom_op, 'ms, 'r, 's, 'c) op_step" where
  "recv_from_step le cfg ans sys peer w op drv =
     poll_op drv (op_handle op) (recvfrom_poll_completion le cfg peer w op drv) (recvfrom_poll_poll le cfg ans sys w op drv)"

definition sendto_op_new :: "('ms, 'r, 's, 'c) any_driver \<Rightarrow> raw_handle \<Rightarrow> io_buf \<Rightarrow> socket_addr \<Rightarrow> sendto_op" where
  "sendto_op_new drv h b a =
     \<lparr>op_handle = h, op_token = None, op_buf = completion_buffer_new b (uses_completion drv h), st_addr = a, st_state = False\<rparr>"

definition sendto_step ::
  "bool \<Rightarrow> ('ms, 'r, 's, 'c) op_cfg \<Rightarrow> os_answer \<times> sys \<Rightarrow> waker \<Rightarrow> (nat, sendto_op, 'ms, 'r, 's, 'c) op_step" where
  "sendto_step le cfg env w op drv =
     poll_op drv (op_handle op) (sendto_poll_completion le cfg w op drv) (sendto_poll_poll cfg (fst env) (snd env) w op drv)"

text \<open>
  The future of \<open>send_to\<close>: the operation for the current address and the addresses left. A poll
  runs until an attempt is pending or answered, or no address is left; the buffer goes from
  one operation to the next and back to the caller. \<open>env a\<close> are the answers for an address.
\<close>

datatype send_to_state = SendingTo "socket_addr list" sendto_op | SentBack io_buf

fun send_to_poll ::
  "bool \<Rightarrow> ('ms, 'r, 's, 'c) op_cfg \<Rightarrow> (socket_addr \<Rightarrow> os_answer \<times> sys) \<Rightarrow> waker \<Rightarrow> socket_addr list \<Rightarrow> sendto_op
   \<Rightarrow> ('ms, 'r, 's, 'c) any_driver \<Rightarrow> nat io_result poll \<times> send_to_state \<times> ('ms, 'r, 's, 'c) any_driver" where
  "send_to_poll le cfg env w rest op drv =
     (case sendto_step le cfg (env (st_addr op)) w op drv of
        (Pending, op1, drv1) \<Rightarrow> (Pending, SendingTo rest op1, drv1)
      | (Ready (Inr n), op1, drv1) \<Rightarrow> (Ready (Inr n), SentBack (take_bufs op1), drv1)
      | (Ready (Inl err), op1, drv1) \<Rightarrow>
          (case rest of
             [] \<Rightarrow> (Ready (Inl err), SentBack (take_bufs op1), drv1)
           | a # rest1 \<Rightarrow>
               send_to_poll le cfg env w rest1 (sendto_op_new drv1 (op_handle op) (take_bufs op1) a) drv1))"

declare send_to_poll.simps [simp del]

definition send_to ::
  "bool \<Rightarrow> ('ms, 'r, 's, 'c) op_cfg \<Rightarrow> (socket_addr \<Rightarrow> os_answer \<times> sys) \<Rightarrow> waker \<Rightarrow> raw_handle \<Rightarrow> io_buf
   \<Rightarrow> socket_addr list io_result \<Rightarrow> ('ms, 'r, 's, 'c) any_driver
   \<Rightarrow> nat io_result poll \<times> send_to_state \<times> ('ms, 'r, 's, 'c) any_driver" where
  "send_to le cfg env w h b resolved drv =
     (case resolved of
        Inl err \<Rightarrow> (Ready (Inl err), SentBack b, drv)
      | Inr [] \<Rightarrow> (Ready (Inl (Simple InvalidInput)), SentBack b, drv)
      | Inr (a # rest) \<Rightarrow> send_to_poll le cfg env w rest (sendto_op_new drv h b a) drv)"

definition udp_connect where
  "udp_connect le connect_op resolved drv =
     resolve_and_try (\<lambda>a. connect_op (socket_addr_to_raw le a)) resolved drv"

definition udp_poll_recv ::
  "bool \<Rightarrow> ('ms, 'r, 's, 'c) op_cfg \<Rightarrow> os_answer \<Rightarrow> sys \<Rightarrow> waker \<Rightarrow> raw_handle \<Rightarrow> nat
   \<Rightarrow> ('ms, 'r, 's, 'c) any_driver \<Rightarrow> nat io_result poll \<times> ('ms, 'r, 's, 'c) any_driver" where
  "udp_poll_recv peek cfg ans sys w h len drv =
     poll_temporary h (recv_poll_poll cfg ans sys w) (recv_op_new peek drv h (temporary_buf len)) drv"

definition udp_poll_recv_from ::
  "bool \<Rightarrow> bool \<Rightarrow> ('ms, 'r, 's, 'c) op_cfg \<Rightarrow> os_answer \<Rightarrow> (nat \<times> sockaddr) io_result \<Rightarrow> waker \<Rightarrow> raw_handle \<Rightarrow> nat
   \<Rightarrow> ('ms, 'r, 's, 'c) any_driver \<Rightarrow> (nat \<times> socket_addr) io_result poll \<times> ('ms, 'r, 's, 'c) any_driver" where
  "udp_poll_recv_from peek le cfg ans sys w h len drv =
     poll_temporary h (recvfrom_poll_poll le cfg ans sys w) (recvfrom_op_new peek drv h (temporary_buf len)) drv"

definition udp_poll_send ::
  "('ms, 'r, 's, 'c) op_cfg \<Rightarrow> os_answer \<Rightarrow> sys \<Rightarrow> waker \<Rightarrow> raw_handle \<Rightarrow> nat
   \<Rightarrow> ('ms, 'r, 's, 'c) any_driver \<Rightarrow> nat io_result poll \<times> ('ms, 'r, 's, 'c) any_driver" where
  "udp_poll_send cfg ans sys w h len drv =
     poll_temporary h (send_poll_poll cfg ans sys w) (buf_op_new drv h (temporary_buf len)) drv"

definition udp_poll_send_to ::
  "('ms, 'r, 's, 'c) op_cfg \<Rightarrow> os_answer \<Rightarrow> sys \<Rightarrow> waker \<Rightarrow> raw_handle \<Rightarrow> nat \<Rightarrow> socket_addr
   \<Rightarrow> ('ms, 'r, 's, 'c) any_driver \<Rightarrow> nat io_result poll \<times> ('ms, 'r, 's, 'c) any_driver" where
  "udp_poll_send_to cfg ans sys w h len target drv =
     poll_temporary h (sendto_poll_poll cfg ans sys w) (sendto_op_new drv h (temporary_buf len) target) drv"

section \<open>Properties\<close>

lemma submit_waits:
  assumes "any_slabs cfg" and "any_submit_poll cfg ans k w want drv = (Inr u, drv1)" and "want \<noteq> READ_WRITE"
  shows "any_waits cfg drv1 k (is_writable want) = Some w"
  using poll_driver.submit_stores[OF any_slabs.is_poll_driver[OF assms(1)] assms(2,3)] .

lemma pending_waits:
  assumes "any_slabs cfg" and "poll_result_or_wait cfg ans result h w want drv = (Pending, drv1)" and "want \<noteq> READ_WRITE"
  shows "any_waits cfg drv1 (h_token h) (is_writable want) = Some w"
  using pending_submits[OF assms(2)] submit_waits[OF assms(1) _ assms(3)] by metis

lemma poll_temporary_reads:
  assumes "\<not> uses_completion drv h" and "op_handle op = h"
  shows "poll_temporary h (read_poll_poll cfg ans sys w) op drv = poll_result_or_wait cfg ans sys h w READABLE drv"
  using assms by (simp add: poll_temporary_def read_poll_poll_def Let_def split: prod.splits)

text \<open>
  Polling a stream for bytes. As long as the kernel delivers no more than it was offered, \<open>poll_read\<close>
  never panics; a success has appended exactly the delivered bytes (none, without a system call,
  when the buffer has no room), an error or a pending poll has left the buffer alone, and after a
  pending poll the driver holds the caller's waker for reading.
\<close>

theorem stream_poll_read_appends:
  assumes "any_slabs cfg" and "\<forall>bs. got = Inr bs \<longrightarrow> length bs \<le> rb_remaining b"
  shows "\<exists>r b' drv'. stream_poll_read cfg ans got w h b drv = Some (r, b', drv') \<and>
    (case r of
       Ready (Inr _) \<Rightarrow> rb_remaining b = 0 \<and> b' = b \<or> (\<exists>bs. got = Inr bs \<and> b' = b\<lparr>rb_filled := rb_filled b @ bs\<rparr>)
     | Ready (Inl err) \<Rightarrow> b' = b
     | Pending \<Rightarrow> b' = b \<and> any_waits cfg drv' (h_token h) False = Some w)"
proof (cases "rb_remaining b = 0 \<or> uses_completion drv h")
  case True
  then show ?thesis by (auto simp: stream_poll_read_def poll_temporary_def)
next
  case False
  have h: "op_handle (buf_op_new drv h (temporary_buf (rb_remaining b))) = h" by (simp add: buf_op_new_def)
  obtain r drv' where r: "poll_result_or_wait cfg ans (map_sum id length got) h w READABLE drv = (r, drv')" by fastforce
  note s = poll_temporary_reads[OF _ h, of drv cfg ans "map_sum id length got" w] r False
  show ?thesis
  proof (cases r)
    case Pending
    have "any_waits cfg drv' (h_token h) False = Some w"
      using pending_waits[OF assms(1) r[unfolded Pending]] by simp
    then show ?thesis using s Pending by (simp add: stream_poll_read_def)
  next
    case (Ready x)
    show ?thesis
    proof (cases x)
      case (Inl err)
      then show ?thesis using s Ready by (simp add: stream_poll_read_def)
    next
      case (Inr n)
      have "map_sum id length got = Inr n"
        using r Ready Inr by (auto simp: poll_result_or_wait_def split: sum.splits if_splits prod.splits)
      then obtain bs where "got = Inr bs" "n = length bs" by (cases got) auto
      then show ?thesis using s Ready Inr assms(2) by (simp add: stream_poll_read_def rb_append_def)
    qed
  qed
qed

lemma sendto_step_buffer:
  assumes "sendto_step le cfg env w op drv = (r, op1, drv1)"
  shows "take_bufs op1 = take_bufs op" "op_handle op1 = op_handle op" "st_addr op1 = st_addr op"
  using assms
  by (auto simp: sendto_step_def poll_op_def sendto_poll_completion_def sendto_poll_poll_def take_bufs_def Let_def
      split: if_splits prod.splits)

lemma take_bufs_new [simp]: "take_bufs (sendto_op_new drv h b a) = b"
  by (simp add: sendto_op_new_def take_bufs_def completion_buffer_new_def)

lemma sendto_new_fields [simp]:
  "op_handle (sendto_op_new drv h b a) = h" "st_addr (sendto_op_new drv h b a) = a"
  by (simp_all add: sendto_op_new_def)

text \<open>
  The future of \<open>send_to\<close> never loses the buffer and goes through the addresses in order. Whatever
  the kernel answers, on either path, a poll that is answered has given back the very buffer
  that was sent, and a pending one holds it in the operation for one of the addresses, with the
  later addresses still to be tried.
\<close>

theorem send_to_keeps_buffer:
  "case send_to_poll le cfg env w rest op drv of
     (r, SentBack b, drv') \<Rightarrow> b = take_bufs op \<and> r \<noteq> Pending
   | (r, SendingTo rest' op', drv') \<Rightarrow> r = Pending \<and> take_bufs op' = take_bufs op \<and> op_handle op' = op_handle op \<and>
       (\<exists>tried. st_addr op # rest = tried @ st_addr op' # rest')"
proof (induction rest arbitrary: op drv)
  case Nil
  obtain r op1 drv1 where e: "sendto_step le cfg (env (st_addr op)) w op drv = (r, op1, drv1)" by (metis prod_cases3)
  then show ?case using sendto_step_buffer[OF e]
    by (subst send_to_poll.simps) (auto split: poll.splits sum.splits)
next
  case (Cons a rest)
  obtain r op1 drv1 where e: "sendto_step le cfg (env (st_addr op)) w op drv = (r, op1, drv1)" by (metis prod_cases3)
  note S = sendto_step_buffer[OF e]
  have IH: "case send_to_poll le cfg env w rest (sendto_op_new drv1 (op_handle op) (take_bufs op1) a) drv1 of
     (r, SentBack b, drv') \<Rightarrow> b = take_bufs op \<and> r \<noteq> Pending
   | (r, SendingTo rest' op', drv') \<Rightarrow> r = Pending \<and> take_bufs op' = take_bufs op \<and> op_handle op' = op_handle op \<and>
       (\<exists>tried. st_addr op # a # rest = tried @ st_addr op' # rest')"
    using Cons.IH[of "sendto_op_new drv1 (op_handle op) (take_bufs op1) a" drv1] S
    by (auto split: prod.splits send_to_state.splits)
  show ?case using e S IH by (subst send_to_poll.simps) (auto split: poll.splits sum.splits)
qed

text \<open>
  When readiness is used and no attempt blocks, \<open>send_to\<close> returns the answer for the first address that
  accepts the datagram, or the error of the last address.
\<close>

lemma sendto_step_poll:
  assumes "\<not> uses_completion drv (op_handle op)" and "\<And>err. snd env = Inl err \<Longrightarrow> kind_of err \<noteq> WouldBlock"
  shows "sendto_step le cfg env w op drv = (Ready (snd env), op, drv)"
  using assms
  by (cases "snd env") (simp_all add: sendto_step_def poll_op_def sendto_poll_poll_def poll_result_or_wait_def)

definition send_to_spec :: "(socket_addr \<Rightarrow> os_answer \<times> sys) \<Rightarrow> socket_addr \<Rightarrow> socket_addr list \<Rightarrow> nat io_result" where
  "send_to_spec env a rest =
     (case find (\<lambda>x. \<not> isl (snd (env x))) (a # rest) of Some x \<Rightarrow> snd (env x) | None \<Rightarrow> snd (env (last (a # rest))))"

theorem send_to_first_success:
  assumes "\<not> uses_completion drv h" and "\<And>x err. x \<in> set (a # rest) \<Longrightarrow> snd (env x) = Inl err \<Longrightarrow> kind_of err \<noteq> WouldBlock"
  shows "send_to le cfg env w h b (Inr (a # rest)) drv = (Ready (send_to_spec env a rest), SentBack b, drv)"
proof -
  have "send_to_poll le cfg env w rest (sendto_op_new drv h b a) drv = (Ready (send_to_spec env a rest), SentBack b, drv)"
    using assms(2)
  proof (induction rest arbitrary: a)
    case Nil
    have "sendto_step le cfg (env a) w (sendto_op_new drv h b a) drv = (Ready (snd (env a)), sendto_op_new drv h b a, drv)"
      by (rule sendto_step_poll) (use assms(1) Nil in auto)
    then show ?case by (subst send_to_poll.simps) (auto simp: send_to_spec_def split: sum.splits)
  next
    case (Cons c rest)
    have "sendto_step le cfg (env a) w (sendto_op_new drv h b a) drv = (Ready (snd (env a)), sendto_op_new drv h b a, drv)"
      by (rule sendto_step_poll) (use assms(1) Cons.prems in auto)
    moreover have "send_to_poll le cfg env w rest (sendto_op_new drv h b c) drv = (Ready (send_to_spec env c rest), SentBack b, drv)"
      by (rule Cons.IH) (use Cons.prems in auto)
    moreover have "send_to_spec env a (c # rest) = (case snd (env a) of Inl _ \<Rightarrow> send_to_spec env c rest | Inr n \<Rightarrow> Inr n)"
      by (auto simp: send_to_spec_def split: sum.split option.split)
    ultimately show ?case by (subst send_to_poll.simps) (simp split: sum.split)
  qed
  then show ?thesis by (simp add: send_to_def)
qed

section \<open>Concrete runs\<close>

theorem stream_poll_read_appends_witness:
  "\<exists>drv'. stream_poll_read demo_opcfg None (Inr [2, 3, 4]) (TaskWaker 3) demo_handle \<lparr>rb_filled = [9], rb_capacity = 8\<rparr>
     MockDriver = Some (Ready (Inr ()), \<lparr>rb_filled = [9, 2, 3, 4], rb_capacity = 8\<rparr>, drv')"
proof -
  have "\<forall>bs. Inr [2, 3, 4] = (Inr bs :: byte list io_result) \<longrightarrow> length bs \<le> rb_remaining \<lparr>rb_filled = [9], rb_capacity = 8\<rparr>"
    by (auto simp: rb_remaining_def)
  note A = stream_poll_read_appends[OF demo_any.any_slabs_axioms this, where ans = None and w = "TaskWaker 3"
      and h = demo_handle and drv = MockDriver]
  have "\<exists>b' drv'. stream_poll_read demo_opcfg None (Inr [2, 3, 4]) (TaskWaker 3) demo_handle
      \<lparr>rb_filled = [9], rb_capacity = 8\<rparr> MockDriver = Some (Ready (Inr ()), b', drv')"
    by (simp add: stream_poll_read_def poll_temporary_def uses_completion_def read_poll_poll_def
        poll_result_or_wait_def rb_remaining_def rb_append_def)
  with A show ?thesis by (auto simp: rb_remaining_def)
qed

theorem send_to_first_success_witness:
  "send_to True demo_opcfg (\<lambda>a. (None, if a = V4 (10, 0, 0, 1) 53 then Inl (Os 101) else Inr 5)) (TaskWaker 3) demo_handle
     (temporary_buf 5) (Inr [V4 (10, 0, 0, 1) 53, V4 (10, 0, 0, 2) 53]) MockDriver =
   (Ready (Inr 5), SentBack (temporary_buf 5), MockDriver)"
  by (subst send_to_first_success) (auto simp: uses_completion_def send_to_spec_def split: if_splits)

end
