(* ===== verification/Quinn_Adapter.thy ===== *)
theory Quinn_Adapter
  imports Net_Streams
begin

text \<open>
  The adapter to \<open>quinn\<close> (\<open>zincio-quinn\<close>): wrapping a datagram socket and receiving through it, over
  the poll-based sockets of \<open>Net_Sockets\<close>. Receiving and sending on the duplicated descriptor are
  calls of another crate and appear as functions on its state \<open>'e\<close>.
\<close>

section \<open>Definitions\<close>

record udp_adapter =
  ua_io :: poll_socket
  ua_fd :: raw_fd

text \<open>\<open>wrap_udp_socket\<close>: \<open>dup\<close> answers \<open>try_clone\<close>, \<open>state\<close> the construction of the batching state.\<close>

definition wrap_udp_socket ::
  "('ms, 'r, 's, 'c) op_cfg \<Rightarrow> raw_fd io_result \<Rightarrow> os_answer \<Rightarrow> os_answer \<Rightarrow> os_answer \<Rightarrow> os_answer \<Rightarrow> os_answer
   \<Rightarrow> raw_fd \<Rightarrow> ('ms, 'r, 's, 'c) net \<Rightarrow> udp_adapter io_result \<times> ('ms, 'r, 's, 'c) net" where
  "wrap_udp_socket cfg dup na1 ra na2 state da fd n =
     (case dup of
        Inl err \<Rightarrow> (Inl err, close_fd fd n)
      | Inr io \<Rightarrow>
          (case set_nonblocking na1 io True (n\<lparr>nt_files := (nt_files n)(io := nt_files n fd)\<rparr>) of
             (Inl err, n1) \<Rightarrow> (Inl err, close_fd io (close_fd fd n1))
           | (Inr _, n1) \<Rightarrow>
               (case poll_from_std cfg ra na2 fd n1 of
                  (Inl err, n2) \<Rightarrow> (Inl err, close_fd io n2)
                | (Inr p, n2) \<Rightarrow>
                    (case state of
                       Some err \<Rightarrow> (Inl err, close_fd io (socket_drop cfg da (ps_socket p) n2))
                     | None \<Rightarrow> (Inr \<lparr>ua_io = p, ua_fd = io\<rparr>, n2)))))"

definition quinn_try_send :: "('e \<Rightarrow> 'a io_result \<times> 'e) \<Rightarrow> poll_socket \<Rightarrow> 'e \<Rightarrow> 'a io_result \<times> poll_socket \<times> 'e" where
  "quinn_try_send send p e =
     (if ps_write_ready p then (let (r, e1) = send e; (res, p1) = try_io_writable r p in (res, p1, e1))
      else (Inl (Simple WouldBlock), p, e))"

text \<open>The loop of \<open>poll_recv\<close>. It runs again only after the readiness flag has been cleared.\<close>

function quinn_poll_recv ::
  "('ms, 'r, 's, 'c) op_cfg \<Rightarrow> os_answer \<Rightarrow> ('e \<Rightarrow> 'a io_result \<times> 'e) \<Rightarrow> waker \<Rightarrow> poll_socket \<Rightarrow> 'e
   \<Rightarrow> ('ms, 'r, 's, 'c) any_driver \<Rightarrow> 'a io_result poll \<times> poll_socket \<times> 'e \<times> ('ms, 'r, 's, 'c) any_driver" where
  "quinn_poll_recv cfg ans recv w p e drv =
     (case poll_readable cfg ans w p drv of
        (Pending, p1, drv1) \<Rightarrow> (Pending, p1, e, drv1)
      | (Ready (Inl err), p1, drv1) \<Rightarrow> (Ready (Inl err), p1, e, drv1)
      | (Ready (Inr _), p1, drv1) \<Rightarrow>
          (let (got, e1) = (if ps_read_ready p1 then recv e else (Inl (Simple WouldBlock), e));
               (res, p2) = try_io_readable got p1
           in case res of
                Inr v \<Rightarrow> (Ready (Inr v), p2, e1, drv1)
              | Inl err \<Rightarrow>
                  if kind_of err = WouldBlock then quinn_poll_recv cfg ans recv w p2 e1 drv1
                  else (Ready (Inl err), p2, e1, drv1)))"
  by pat_completeness auto

lemma poll_readable_ready:
  assumes "poll_readable cfg ans w p drv = (Ready (Inr u), p1, drv1)"
  shows "ps_read_ready p \<and> p1 = p \<and> drv1 = drv"
  using assms
  by (auto simp: poll_readable_def readiness_poll_poll_def split: if_splits prod.splits poll.splits sum.splits)

lemma try_io_readable_error:
  assumes "try_io_readable got p = (Inl err, p')"
  shows "\<not> ps_read_ready p'"
  using assms by (auto simp: try_io_readable_def split: if_splits sum.splits)

termination quinn_poll_recv
  by (relation "measure (\<lambda>(cfg, ans, recv, w, p, e, drv). if ps_read_ready p then 1 else 0)")
     (auto dest: poll_readable_ready[OF sym] try_io_readable_error[OF sym])

declare quinn_poll_recv.simps [simp del]

section \<open>Properties\<close>

lemma poll_readable_pending:
  assumes "any_slabs cfg" and "poll_readable cfg ans w p drv = (Pending, p1, drv1)"
  shows "ps_read_ready p1 \<and> \<not> ps_read_ready p \<and> any_waits cfg drv1 (h_token (sk_handle (ps_socket p))) False = Some w"
  using assms(2) submit_waits[OF assms(1), of ans "h_token (sk_handle (ps_socket p))" w READABLE drv]
  by (auto simp: poll_readable_def readiness_poll_poll_def split: if_splits prod.splits poll.splits sum.splits)

text \<open>
  Receiving for \<open>quinn\<close> ends and misses nothing. \<open>poll_recv\<close> returns after at most two rounds; a
  datagram it returns is the answer of a receive call made in this poll; and when it is pending, the
  receive call of this poll has just found nothing (or none was due, the socket not having been
  reported ready), the driver holds the caller's waker for reading, and the next poll will try to
  receive.
\<close>

theorem quinn_poll_recv_waits:
  assumes "any_slabs cfg" and "quinn_poll_recv cfg ans recv w p e drv = (r, p', e', drv')"
  shows "case r of
      Ready (Inr v) \<Rightarrow> recv e = (Inr v, e')
    | Ready (Inl err) \<Rightarrow> e' = e \<or> (\<exists>err'. recv e = (Inl err', e'))
    | Pending \<Rightarrow> any_waits cfg drv' (h_token (sk_handle (ps_socket p))) False = Some w \<and> ps_read_ready p' \<and>
        (\<not> ps_read_ready p \<and> e' = e \<or> (\<exists>err. recv e = (Inl err, e') \<and> kind_of err = WouldBlock))"
proof (cases "ps_read_ready p")
  case False
  obtain r1 p1 drv1 where pr: "poll_readable cfg ans w p drv = (r1, p1, drv1)" by (metis prod_cases3)
  show ?thesis
  proof (cases r1)
    case Pending
    then show ?thesis using assms(2) pr poll_readable_pending[OF assms(1), of ans w p drv p1 drv1]
      by (auto simp: quinn_poll_recv.simps[of cfg ans recv w p])
  next
    case (Ready x)
    then obtain err where "x = Inl err" using poll_readable_ready[of cfg ans w p drv _ p1 drv1] pr False by (cases x) auto
    then show ?thesis using assms(2) pr Ready by (auto simp: quinn_poll_recv.simps[of cfg ans recv w p])
  qed
next
  case True
  obtain got e1 where g: "recv e = (got, e1)" by fastforce
  have pr: "poll_readable cfg ans w p drv = (Ready (Inr ()), p, drv)" using True by (simp add: poll_readable_def)
  show ?thesis
  proof (cases "\<exists>err. got = Inl err \<and> kind_of err = WouldBlock")
    case True': True
    let ?p = "p\<lparr>ps_read_ready := False\<rparr>"
    obtain r1 p1 drv1 where pr1: "poll_readable cfg ans w ?p drv = (r1, p1, drv1)" by (metis prod_cases3)
    have q: "quinn_poll_recv cfg ans recv w p e drv = quinn_poll_recv cfg ans recv w ?p e1 drv"
      using True True' g pr by (auto simp: quinn_poll_recv.simps[of cfg ans recv w p] try_io_readable_def)
    show ?thesis
    proof (cases r1)
      case Pending
      then show ?thesis using assms(2) pr1 True' g q poll_readable_pending[OF assms(1), of ans w ?p drv p1 drv1]
        by (auto simp: quinn_poll_recv.simps[of cfg ans recv w ?p])
    next
      case (Ready x)
      then obtain err where "x = Inl err" using poll_readable_ready[of cfg ans w ?p drv _ p1 drv1] pr1 by (cases x) auto
      then show ?thesis using assms(2) pr1 Ready True' g q by (auto simp: quinn_poll_recv.simps[of cfg ans recv w ?p])
    qed
  next
    case False
    then show ?thesis using assms(2) True g pr
      by (auto simp: quinn_poll_recv.simps[of cfg ans recv w p] try_io_readable_def split: sum.splits if_splits)
  qed
qed

text \<open>
  Wrapping a socket for \<open>quinn\<close> either works on every driver or leaves nothing open. On success the
  wrapped socket is non-blocking, also through the duplicate, and its operations do not go
  through completions, so it can be polled; on failure both descriptors are closed.
\<close>

theorem wrap_udp_socket_pollable:
  assumes "slab (dc_mio cfg)" and "slab (u_regs (dc_uring cfg))"
    and "nt_files n io = None" and "io \<noteq> fd" and "nt_files n fd = Some i"
    and "wrap_udp_socket cfg (Inr io) na1 ra na2 state da fd n = (r, n')"
  shows "case r of
      Inr a \<Rightarrow> nt_files n' = (nt_files n)(io \<mapsto> i) \<and> nt_nonblock n' i \<and> ua_fd a = io \<and>
        \<not> uses_completion (nt_driver n') (sk_handle (ps_socket (ua_io a)))
    | Inl err \<Rightarrow> nt_files n' = (nt_files n)(fd := None)"
proof -
  let ?n = "n\<lparr>nt_files := (nt_files n)(io := nt_files n fd)\<rparr>"
  have io: "(nt_files n)(fd := None, io := None) = (nt_files n)(fd := None)" using assms(3) by (auto simp: fun_eq_iff)
  obtain s1 n1 where s: "set_nonblocking na1 io True ?n = (s1, n1)" by fastforce
  have n1: "nt_files n1 = (nt_files n)(io \<mapsto> i)" using set_nonblocking_files[OF s] assms(5) by simp
  show ?thesis
  proof (cases s1)
    case (Inl err)
    then show ?thesis using assms(6) s n1 io by (auto simp: wrap_udp_socket_def files_close_fd fun_upd_twist[OF assms(4)])
  next
    case s1: (Inr u)
    obtain f n2 where f: "from_std_with_mode cfg ra na2 PollMode fd n1 = (f, n2)" by fastforce
    show ?thesis
    proof (cases f)
      case (Inl err)
      then show ?thesis using assms(6) s s1 f n1 io created_files(1)[OF f]
        by (auto simp: wrap_udp_socket_def poll_from_std_def poll_of_def files_close_fd fun_upd_twist[OF assms(4)])
    next
      case (Inr t)
      note C = created_ok[OF assms(1,2) f[unfolded Inr from_std_with_mode_def]]
      have t: "sk_fd t = fd" and n2: "nt_files n2 = nt_files n1" using created_files(2)[OF f] Inr by auto
      have m: "h_mode (sk_handle t) = PollMode"
        using f Inr by (auto simp: from_std_with_mode_def new_with_mode_def current_driver_def new_with_driver_and_mode_def
            effective_mode_def Let_def split: if_splits prod.splits sum.splits elim!: from_registered_ok)
      then have u: "\<not> uses_completion (nt_driver n2) (sk_handle t)" by (simp add: uses_completion_def)
      have "nt_nonblock n2 i" using C(1) u t n1 n2 assms(4,5) by (auto simp: socket_ok_def)
      then show ?thesis using assms(6) s s1 f Inr n1 n2 t u io
        by (cases state) (auto simp: wrap_udp_socket_def poll_from_std_def poll_of_def socket_drop_def files_close_fd
            fun_upd_twist[OF assms(4)])
    qed
  qed
qed

section \<open>Concrete runs\<close>

theorem quinn_poll_recv_waits_witness:
  "\<exists>p' drv'. quinn_poll_recv demo_opcfg None (\<lambda>e. (Inl (Os 11) :: nat io_result, e + 1)) (TaskWaker 3)
       (demo_poll_socket\<lparr>ps_read_ready := True\<rparr>) (0 :: nat) (Mio demo_mio0) = (Pending, p', 1, drv') \<and>
     any_waits demo_opcfg drv' 0 False = Some (TaskWaker 3) \<and> ps_read_ready p'"
proof -
  let ?p = "demo_poll_socket\<lparr>ps_read_ready := True\<rparr>"
  let ?q = "demo_poll_socket\<lparr>ps_read_ready := False\<rparr>"
  have pq: "\<exists>p1 drv1. poll_readable demo_opcfg None (TaskWaker 3) ?q (Mio demo_mio0) = (Pending, p1, drv1)"
    by (simp add: poll_readable_def readiness_poll_poll_def uses_completion_def demo_poll_socket_def demo_handle_def
        demo_opcfg_def demo_mio_eval)
  have pp: "poll_readable demo_opcfg None (TaskWaker 3) ?p (Mio demo_mio0) = (Ready (Inr ()), ?p, Mio demo_mio0)"
    by (simp add: poll_readable_def)
  have "\<exists>p' drv'. quinn_poll_recv demo_opcfg None (\<lambda>e. (Inl (Os 11) :: nat io_result, e + 1)) (TaskWaker 3) ?p (0 :: nat)
      (Mio demo_mio0) = (Pending, p', 1, drv')"
    using pq by (subst quinn_poll_recv.simps)
      (auto simp: pp try_io_readable_def quinn_poll_recv.simps[of _ _ _ _ ?q])
  then obtain p' drv' where q: "quinn_poll_recv demo_opcfg None (\<lambda>e. (Inl (Os 11) :: nat io_result, e + 1)) (TaskWaker 3) ?p
      (0 :: nat) (Mio demo_mio0) = (Pending, p', 1, drv')" by blast
  from quinn_poll_recv_waits[OF demo_any.any_slabs_axioms q] q show ?thesis
    by (auto simp: demo_poll_socket_def demo_handle_def)
qed

theorem wrap_udp_socket_pollable_witness:
  "\<exists>a n'. wrap_udp_socket demo_opcfg (Inr 8) None None None None None 6 demo_net = (Inr a, n') \<and> nt_nonblock n' 40"
proof -
  obtain a n' where r: "wrap_udp_socket demo_opcfg (Inr 8) None None None None None 6 demo_net = (Inr a, n')"
    by (simp add: wrap_udp_socket_def poll_from_std_def poll_of_def demo_net_eval)
  have "nt_files demo_net 8 = None" "(8 :: nat) \<noteq> 6" "nt_files demo_net 6 = Some 40" by (simp_all add: demo_net_def)
  from wrap_udp_socket_pollable[OF demo_opcfg_slabs(1,2) this r] r show ?thesis by auto
qed

end
