(* ===== verification/Runtime_Context.thy ===== *)
theory Runtime_Context
  imports Op_Properties Scheduler
begin

text \<open>
  The current runtime of a thread (\<open>CURRENT_RUNTIME\<close> and the functions of \<open>executor.rs\<close> that read
  it) and the life of a \<open>Runtime\<close>. The thread-local is a \<open>RefCell\<close>: reading it while it is mutably
  borrowed panics (\<open>None\<close>), or gives nothing where the code uses \<open>try_borrow\<close>. Runtimes are \<open>Rc\<close>
  cells with their strong counts; what the destructors of a runtime's tasks do is a parameter,
  run in the state in which the last reference is dropped.
\<close>

type_synonym rt_id = nat
type_synonym reaper_channel = nat

record ('u, 'o, 'q, 's, 'd) runtime_inner =
  ri_exec :: "('u, 'o, 'q, 's, 'd) exec"
  ri_fs_offload :: bool
  ri_pool :: bool
  ri_reaper :: "reaper_channel option"

record ('u, 'o, 'q, 's, 'd) thread_ctx =
  current :: "rt_id option"
  borrowed :: bool
  inners :: "rt_id \<Rightarrow> ('u, 'o, 'q, 's, 'd) runtime_inner option"
  rcs :: "rt_id \<Rightarrow> nat"
  next_rt :: rt_id
  closed_reapers :: "reaper_channel list"

type_synonym ('u, 'o, 'q, 's, 'd) destructors =
  "('u, 'o, 'q, 's, 'd) thread_ctx \<Rightarrow> ('u, 'o, 'q, 's, 'd) thread_ctx option"

definition ctx_empty :: "('u, 'o, 'q, 's, 'd) thread_ctx" where
  "ctx_empty = \<lparr>current = None, borrowed = False, inners = Map.empty, rcs = (\<lambda>_. 0), next_rt = 0, closed_reapers = []\<rparr>"

section \<open>Reading the current runtime\<close>

text \<open>\<open>borrow\<close>: outer \<open>None\<close> is a panic; the inner value is the runtime, if one is entered.\<close>

definition borrow_current ::
  "('u, 'o, 'q, 's, 'd) thread_ctx \<Rightarrow> ('u, 'o, 'q, 's, 'd) runtime_inner option option" where
  "borrow_current c = (if borrowed c then None else Some (Option.bind (current c) (inners c)))"

definition thread_driver :: "('u, 'o, 'q, 's, 'd) thread_ctx \<Rightarrow> 'd option option" where
  "thread_driver c = map_option (map_option (\<lambda>r. rt_driver (ri_exec r))) (borrow_current c)"

definition try_current_driver :: "('u, 'o, 'q, 's, 'd) thread_ctx \<Rightarrow> 'd option" where
  "try_current_driver c = Option.bind (borrow_current c) (map_option (\<lambda>r. rt_driver (ri_exec r)))"

text \<open>\<open>expect("timer not enabled")\<close> is the second panic of \<open>current_timer\<close>.\<close>

definition current_timer :: "('u, 'o, 'q, 's, 'd) thread_ctx \<Rightarrow> 's timer option option" where
  "current_timer c =
     (case borrow_current c of
        None \<Rightarrow> None
      | Some None \<Rightarrow> Some None
      | Some (Some r) \<Rightarrow> map_option Some (rt_timer (ri_exec r)))"

definition offload_fs :: "('u, 'o, 'q, 's, 'd) thread_ctx \<Rightarrow> bool option" where
  "offload_fs c = map_option (\<lambda>r. case r of Some x \<Rightarrow> ri_fs_offload x | None \<Rightarrow> False) (borrow_current c)"

definition update_exec ::
  "rt_id \<Rightarrow> ('u, 'o, 'q, 's, 'd) exec \<Rightarrow> ('u, 'o, 'q, 's, 'd) thread_ctx \<Rightarrow> ('u, 'o, 'q, 's, 'd) thread_ctx" where
  "update_exec i st c = c\<lparr>inners := (inners c)(i := map_option (\<lambda>r. r\<lparr>ri_exec := st\<rparr>) (inners c i))\<rparr>"

text \<open>The free functions \<open>spawn\<close> and \<open>spawn_detached\<close> panic outside a runtime.\<close>

definition spawn_current ::
  "'u \<Rightarrow> ('u, 'o, 'q, 's, 'd) thread_ctx \<Rightarrow> (join_id \<times> ('u, 'o, 'q, 's, 'd) thread_ctx) option" where
  "spawn_current u c =
     (case borrow_current c of
        Some (Some r) \<Rightarrow> (let (j, st) = spawn u (ri_exec r) in Some (j, update_exec (the (current c)) st c))
      | _ \<Rightarrow> None)"

definition spawn_detached_current ::
  "'u \<Rightarrow> ('u, 'o, 'q, 's, 'd) thread_ctx \<Rightarrow> ('u, 'o, 'q, 's, 'd) thread_ctx option" where
  "spawn_detached_current u c =
     (case borrow_current c of
        Some (Some r) \<Rightarrow> Some (update_exec (the (current c)) (spawn_detached u (ri_exec r)) c)
      | _ \<Rightarrow> None)"

text \<open>
  \<open>spawn_blocking\<close> panics outside a runtime and when the runtime has no blocking pool; otherwise
  the answer is that of the pool (\<open>None\<close> when it lost the job, a \<open>SpawnBlockingError\<close>).
\<close>

definition inner_spawn_blocking ::
  "('u, 'o, 'q, 's, 'd) runtime_inner \<Rightarrow> 'a option \<Rightarrow> 'a option option" where
  "inner_spawn_blocking r ans = (if ri_pool r then Some ans else None)"

definition spawn_blocking_current ::
  "('u, 'o, 'q, 's, 'd) thread_ctx \<Rightarrow> 'a option \<Rightarrow> 'a option option" where
  "spawn_blocking_current c ans =
     (case borrow_current c of Some (Some r) \<Rightarrow> inner_spawn_blocking r ans | _ \<Rightarrow> None)"

text \<open>
  \<open>current_zombie_reaper\<close> up to its await point: the channel stored in the runtime, or a task
  that starts a reaper; \<open>reaper_started\<close> is what follows the await, on the runtime found before.
\<close>

datatype reaper_lookup = NoRuntime | Found reaper_channel | Starting rt_id join_id

definition reaper_begin ::
  "'u \<Rightarrow> ('u, 'o, 'q, 's, 'd) thread_ctx \<Rightarrow> (reaper_lookup \<times> ('u, 'o, 'q, 's, 'd) thread_ctx) option" where
  "reaper_begin start c =
     (case borrow_current c of
        None \<Rightarrow> None
      | Some None \<Rightarrow> Some (NoRuntime, c)
      | Some (Some r) \<Rightarrow>
          (case ri_reaper r of
             Some ch \<Rightarrow> Some (Found ch, c)
           | None \<Rightarrow> (let (j, st) = spawn start (ri_exec r)
                      in Some (Starting (the (current c)) j, update_exec (the (current c)) st c))))"

definition reaper_started ::
  "rt_id \<Rightarrow> reaper_channel \<Rightarrow> ('u, 'o, 'q, 's, 'd) thread_ctx \<Rightarrow> ('u, 'o, 'q, 's, 'd) thread_ctx" where
  "reaper_started i ch c = c\<lparr>inners := (inners c)(i := map_option (\<lambda>r. r\<lparr>ri_reaper := Some ch\<rparr>) (inners c i))\<rparr>"

section \<open>Entering and leaving\<close>

definition guard_enter ::
  "rt_id \<Rightarrow> ('u, 'o, 'q, 's, 'd) thread_ctx \<Rightarrow> ('u, 'o, 'q, 's, 'd) thread_ctx option" where
  "guard_enter i c = (if borrowed c \<or> current c \<noteq> None then None else Some (c\<lparr>current := Some i\<rparr>))"

definition inner_clone :: "rt_id \<Rightarrow> ('u, 'o, 'q, 's, 'd) thread_ctx \<Rightarrow> ('u, 'o, 'q, 's, 'd) thread_ctx" where
  "inner_clone i c = c\<lparr>rcs := (rcs c)(i := rcs c i + 1)\<rparr>"

text \<open>The last reference runs the destructors and frees the runtime.\<close>

definition inner_release ::
  "('u, 'o, 'q, 's, 'd) destructors \<Rightarrow> rt_id \<Rightarrow> ('u, 'o, 'q, 's, 'd) destructors" where
  "inner_release dtor i c =
     (let c1 = c\<lparr>rcs := (rcs c)(i := rcs c i - 1)\<rparr>
      in if rcs c1 i = 0 then map_option (\<lambda>c2. c2\<lparr>inners := (inners c2)(i := None)\<rparr>) (dtor c1) else Some c1)"

text \<open>
  \<open>*runtime = None\<close> in \<open>CurrentRuntimeGuard::drop\<close> drops the old value while the \<open>RefMut\<close> of
  \<open>borrow_mut\<close> is alive.
\<close>

definition guard_drop ::
  "('u, 'o, 'q, 's, 'd) destructors \<Rightarrow> ('u, 'o, 'q, 's, 'd) destructors" where
  "guard_drop dtor c =
     (if borrowed c then None
      else
        (let c1 = c\<lparr>borrowed := True\<rparr>
         in map_option (\<lambda>c2. c2\<lparr>current := None, borrowed := False\<rparr>)
              (case current c1 of None \<Rightarrow> Some c1 | Some i \<Rightarrow> inner_release dtor i c1)))"

section \<open>Runtimes\<close>

type_synonym runtime = "rt_id option"

text \<open>\<open>Runtime::with_options\<close> allocates the inner runtime with one reference.\<close>

definition runtime_with_options ::
  "('u, 'o, 'q, 's, 'd) exec \<Rightarrow> bool \<Rightarrow> bool \<Rightarrow> ('u, 'o, 'q, 's, 'd) thread_ctx \<Rightarrow> runtime \<times> ('u, 'o, 'q, 's, 'd) thread_ctx" where
  "runtime_with_options st pool fs_offload c =
     (Some (next_rt c),
      c\<lparr>inners := (inners c)(next_rt c \<mapsto> \<lparr>ri_exec = st, ri_fs_offload = fs_offload, ri_pool = pool, ri_reaper = None\<rparr>),
        rcs := (rcs c)(next_rt c := 1), next_rt := next_rt c + 1\<rparr>)"

text \<open>\<open>Runtime::new\<close>: timer and file offloading on, batches of 256, the default pool if compiled in.\<close>

definition runtime_new ::
  "('s, waker) wheel_ops \<Rightarrow> 'q \<Rightarrow> instant \<Rightarrow> bool \<Rightarrow> 'd \<Rightarrow> ('u, 'o, 'q, 's, 'd) thread_ctx
   \<Rightarrow> runtime \<times> ('u, 'o, 'q, 's, 'd) thread_ctx" where
  "runtime_new wops q0 now default_pool driver c =
     runtime_with_options (with_options wops q0 now driver True 256) default_pool True c"

text \<open>\<open>Runtime::spawn\<close> and \<open>Runtime::spawn_detached\<close> work without entering the runtime.\<close>

definition runtime_spawn ::
  "runtime \<Rightarrow> 'u \<Rightarrow> ('u, 'o, 'q, 's, 'd) thread_ctx \<Rightarrow> (join_id \<times> ('u, 'o, 'q, 's, 'd) thread_ctx) option" where
  "runtime_spawn h u c =
     (case h of
        None \<Rightarrow> None
      | Some i \<Rightarrow> map_option (\<lambda>r. let (j, st) = spawn u (ri_exec r) in (j, update_exec i st c)) (inners c i))"

definition runtime_spawn_detached ::
  "runtime \<Rightarrow> 'u \<Rightarrow> ('u, 'o, 'q, 's, 'd) thread_ctx \<Rightarrow> ('u, 'o, 'q, 's, 'd) thread_ctx option" where
  "runtime_spawn_detached h u c =
     (case h of
        None \<Rightarrow> None
      | Some i \<Rightarrow> map_option (\<lambda>r. update_exec i (spawn_detached u (ri_exec r)) c) (inners c i))"

definition runtime_spawn_blocking :: "runtime \<Rightarrow> ('u, 'o, 'q, 's, 'd) thread_ctx \<Rightarrow> 'a option \<Rightarrow> 'a option option" where
  "runtime_spawn_blocking h c ans =
     (case h of None \<Rightarrow> None | Some i \<Rightarrow> Option.bind (inners c i) (\<lambda>r. inner_spawn_blocking r ans))"

text \<open>\<open>block_on\<close> around its loop (\<open>body\<close>): a clone of the inner runtime is entered and left again.\<close>

definition runtime_block_on ::
  "('u, 'o, 'q, 's, 'd) destructors \<Rightarrow> (('u, 'o, 'q, 's, 'd) thread_ctx \<Rightarrow> ('a \<times> ('u, 'o, 'q, 's, 'd) thread_ctx) option)
   \<Rightarrow> runtime \<Rightarrow> ('u, 'o, 'q, 's, 'd) thread_ctx \<Rightarrow> ('a \<times> ('u, 'o, 'q, 's, 'd) thread_ctx) option" where
  "runtime_block_on dtor body h c =
     (case h of
        None \<Rightarrow> None
      | Some i \<Rightarrow>
          (case guard_enter i (inner_clone i c) of
             None \<Rightarrow> None
           | Some c1 \<Rightarrow>
               (case body c1 of
                  None \<Rightarrow> None
                | Some (a, c2) \<Rightarrow> map_option (Pair a) (guard_drop dtor c2))))"

definition close_reaper :: "rt_id \<Rightarrow> ('u, 'o, 'q, 's, 'd) thread_ctx \<Rightarrow> ('u, 'o, 'q, 's, 'd) thread_ctx" where
  "close_reaper i c =
     (case Option.bind (inners c i) ri_reaper of
        None \<Rightarrow> c
      | Some ch \<Rightarrow> c\<lparr>inners := (inners c)(i := map_option (\<lambda>r. r\<lparr>ri_reaper := None\<rparr>) (inners c i)),
                      closed_reapers := closed_reapers c @ [ch]\<rparr>)"

text \<open>\<open>Drop for Runtime\<close>: close the reaper, enter, drop the own reference, drop the guard.\<close>

definition runtime_drop ::
  "('u, 'o, 'q, 's, 'd) destructors \<Rightarrow> runtime \<Rightarrow> ('u, 'o, 'q, 's, 'd) destructors" where
  "runtime_drop dtor h c =
     (case h of
        None \<Rightarrow> None
      | Some i \<Rightarrow>
          (case guard_enter i (inner_clone i (close_reaper i c)) of
             None \<Rightarrow> None
           | Some c1 \<Rightarrow> (case inner_release dtor i c1 of None \<Rightarrow> None | Some c2 \<Rightarrow> guard_drop dtor c2)))"

section \<open>Properties\<close>

lemma update_exec_simps [simp]:
  "current (update_exec i st c) = current c" "borrowed (update_exec i st c) = borrowed c"
  "rcs (update_exec i st c) = rcs c" "inners (update_exec i st c) i = map_option (\<lambda>r. r\<lparr>ri_exec := st\<rparr>) (inners c i)"
  by (simp_all add: update_exec_def)

lemma close_reaper_simps [simp]:
  "current (close_reaper i c) = current c" "borrowed (close_reaper i c) = borrowed c" "rcs (close_reaper i c) = rcs c"
  by (simp_all add: close_reaper_def split: option.split)

lemma borrowed_panics:
  assumes "borrowed c"
  shows "thread_driver c = None" and "try_current_driver c = None" and "current_timer c = None"
    and "offload_fs c = None" and "spawn_current u c = None" and "spawn_detached_current u c = None"
    and "spawn_blocking_current c ans = None" and "reaper_begin u c = None" and "guard_enter i c = None"
  using assms
  by (simp_all add: borrow_current_def thread_driver_def try_current_driver_def current_timer_def offload_fs_def
      spawn_current_def spawn_detached_current_def spawn_blocking_current_def reaper_begin_def guard_enter_def)

text \<open>
  Between entering and leaving, the entered runtime is the current one: its driver and its
  settings are what the thread sees, tasks are spawned into its queue, and entering any runtime
  panics. Leaving, while the runtime has another owner, restores the state before entering with
  one reference less.
\<close>

theorem entered_runtime_is_current:
  assumes "inners c i = Some r" and "guard_enter i c = Some c1"
  shows "thread_driver c1 = Some (Some (rt_driver (ri_exec r))) \<and>
    try_current_driver c1 = Some (rt_driver (ri_exec r)) \<and> offload_fs c1 = Some (ri_fs_offload r) \<and>
    (\<exists>c2. spawn_current u c1 = Some (next_join_id (ri_exec r), c2) \<and> current c2 = Some i \<and>
      map_option (\<lambda>r. ready_queue (ri_exec r)) (inners c2 i) =
        Some (ready_queue (ri_exec r) @ [next_task_id (ri_exec r)])) \<and>
    guard_enter k c1 = None \<and>
    (1 < rcs c i \<longrightarrow> guard_drop dtor c1 = Some (c\<lparr>rcs := (rcs c)(i := rcs c i - 1)\<rparr>))"
proof -
  have e: "\<not> borrowed c" "current c = None" "c1 = c\<lparr>current := Some i\<rparr>"
    using assms(2) by (simp_all add: guard_enter_def split: if_splits)
  have b: "borrow_current c1 = Some (Some r)" using assms(1) e by (simp add: borrow_current_def)
  have "spawn_current u c1 = Some (next_join_id (ri_exec r), update_exec i (snd (spawn u (ri_exec r))) c1)"
    using e b by (simp add: spawn_current_def spawn_def Let_def)
  moreover have "map_option (\<lambda>r. ready_queue (ri_exec r)) (inners (update_exec i (snd (spawn u (ri_exec r))) c1) i) =
      Some (ready_queue (ri_exec r) @ [next_task_id (ri_exec r)])"
    using assms(1) e by (simp add: spawn_def enqueue_def Let_def)
  moreover have "guard_drop dtor c1 = Some (c\<lparr>rcs := (rcs c)(i := rcs c i - 1)\<rparr>)" if "1 < rcs c i"
    using that e by (cases c) (simp add: guard_drop_def inner_release_def Let_def)
  ultimately show ?thesis using e b
    by (simp add: thread_driver_def try_current_driver_def offload_fs_def guard_enter_def)
qed

text \<open>
  The documentation of \<open>current_timer\<close> promises nothing when timers are disabled; the code panics.
\<close>

lemma current_timer_panics_when_disabled:
  assumes "inners c i = Some r" and "guard_enter i c = Some c1" and "rt_timer (ri_exec r) = None"
  shows "current_timer c1 = None"
  using assms by (auto simp: current_timer_def borrow_current_def guard_enter_def split: if_splits)

text \<open>
  C13: Dropping a runtime hides it from the destructors of its tasks. While a \<open>Runtime\<close> is
  entered, an operation dropped in flight hands its buffer to the driver, which keeps it until
  the kernel is done. \<open>Drop for Runtime\<close> enters the runtime for the same purpose, but the last
  reference goes in the guard's drop, where the thread-local is mutably borrowed: the
  destructors find no driver, so an operation in flight frees its buffer under the kernel, and
  any of them that asks for the current driver, spawns or reaps a child panics.
\<close>

theorem runtime_drop_hides_runtime:
  fixes dtor :: "('u, 'o, 'q, 's, ('ms, 'r, 'sl, 'cc) any_driver) destructors"
  assumes "inners c i = Some r" and "rcs c i = 1" and "current c = None" and "\<not> borrowed c" and "op_token op = Some k"
  shows "(\<exists>c0. guard_enter i (inner_clone i c) = Some c0 \<and>
      read_drop cfg op (try_current_driver c0) = Some (any_ignore_completion cfg k {BufMem} (rt_driver (ri_exec r)))) \<and>
    (\<exists>c1. runtime_drop dtor (Some i) c =
        map_option (\<lambda>c2. c2\<lparr>inners := (inners c2)(i := None), current := None, borrowed := False\<rparr>) (dtor c1) \<and>
      current c1 = Some i \<and> read_drop cfg op (try_current_driver c1) = None \<and>
      thread_driver c1 = None \<and> spawn_current u c1 = None \<and> reaper_begin u c1 = None)"
proof -
  let ?c0 = "(inner_clone i c)\<lparr>current := Some i\<rparr>"
  have e0: "guard_enter i (inner_clone i c) = Some ?c0" using assms(3,4) by (simp add: guard_enter_def inner_clone_def)
  have "inners (inner_clone i c) i = Some r" using assms(1) by (simp add: inner_clone_def)
  then have "try_current_driver ?c0 = Some (rt_driver (ri_exec r))"
    using assms(4) by (simp add: try_current_driver_def borrow_current_def inner_clone_def)
  then have live: "read_drop cfg op (try_current_driver ?c0) =
      Some (any_ignore_completion cfg k {BufMem} (rt_driver (ri_exec r)))"
    by (simp add: read_drop_def drop_in_flight_def assms(5))
  define d where "d = close_reaper i c"
  let ?c1 = "d\<lparr>current := Some i, borrowed := True, rcs := (rcs d)(i := 0)\<rparr>"
  have d: "rcs d i = 1" "current d = None" "\<not> borrowed d" using assms(2-4) by (simp_all add: d_def)
  have "runtime_drop dtor (Some i) c =
      map_option (\<lambda>c2. c2\<lparr>inners := (inners c2)(i := None), current := None, borrowed := False\<rparr>) (dtor ?c1)"
    using d by (simp add: runtime_drop_def d_def[symmetric] guard_enter_def inner_clone_def inner_release_def
        guard_drop_def Let_def option.map_comp comp_def fun_upd_upd)
  moreover have "borrowed ?c1" "current ?c1 = Some i" by simp_all
  moreover note borrowed_panics[OF this(1)]
  moreover have "read_drop cfg op None = None" by (simp add: read_drop_def drop_in_flight_def assms(5))
  ultimately have "runtime_drop dtor (Some i) c =
      map_option (\<lambda>c2. c2\<lparr>inners := (inners c2)(i := None), current := None, borrowed := False\<rparr>) (dtor ?c1) \<and>
    current ?c1 = Some i \<and> read_drop cfg op (try_current_driver ?c1) = None \<and>
    thread_driver ?c1 = None \<and> spawn_current u ?c1 = None \<and> reaper_begin u ?c1 = None" by metis
  then show ?thesis using e0 live by blast
qed

text \<open>A thread with one runtime on the mock driver; its tasks hold an operation with token 3.\<close>

definition ctx_demo :: "(nat, nat, task_id list, (waker timer_entry) option list,
    (registration option list, op_entry sqe list \<times> cqe list, handle_registration option list,
     kept completion option list) any_driver) thread_ctx" where
  "ctx_demo = snd (runtime_new vec_slab_ops [] 0 True MockDriver ctx_empty)"

lemma ctx_demo_simps:
  "inners ctx_demo 0 = Some \<lparr>ri_exec = with_options vec_slab_ops [] 0 MockDriver True 256, ri_fs_offload = True,
     ri_pool = True, ri_reaper = None\<rparr>"
  "rcs ctx_demo 0 = 1" "current ctx_demo = None" "\<not> borrowed ctx_demo"
  by (simp_all add: ctx_demo_def runtime_new_def runtime_with_options_def ctx_empty_def)

theorem entered_runtime_is_current_witness:
  "\<exists>c1. guard_enter 0 (inner_clone 0 ctx_demo) = Some c1 \<and> thread_driver c1 = Some (Some MockDriver) \<and>
     offload_fs c1 = Some True \<and> guard_enter 0 c1 = None \<and> guard_drop Some c1 = Some ctx_demo"
proof -
  have i: "inners (inner_clone 0 ctx_demo) 0 = inners ctx_demo 0" by (simp add: inner_clone_def)
  obtain c1 where c1: "guard_enter 0 (inner_clone 0 ctx_demo) = Some c1"
    using ctx_demo_simps by (simp add: guard_enter_def inner_clone_def)
  have "(inner_clone 0 ctx_demo)\<lparr>rcs := (rcs (inner_clone 0 ctx_demo))(0 := rcs (inner_clone 0 ctx_demo) 0 - 1)\<rparr> = ctx_demo"
    by (cases ctx_demo) (simp add: inner_clone_def)
  moreover have "1 < rcs (inner_clone 0 ctx_demo) 0" using ctx_demo_simps by (simp add: inner_clone_def)
  ultimately show ?thesis
    using entered_runtime_is_current[OF i[unfolded ctx_demo_simps(1)] c1, of _ 0 Some] c1
    by (auto simp: with_options_def)
qed

theorem runtime_drop_hides_runtime_witness:
  "runtime_drop (\<lambda>c. case thread_driver c of None \<Rightarrow> None | Some _ \<Rightarrow> Some c) (Some 0) ctx_demo = None \<and>
   (\<exists>c0. guard_enter 0 (inner_clone 0 ctx_demo) = Some c0 \<and>
      read_drop demo_opcfg (demo_buf_op (Some 3)) (try_current_driver c0) =
        Some (any_ignore_completion demo_opcfg 3 {BufMem} MockDriver))"
proof -
  let ?dtor = "\<lambda>c. case thread_driver c of None \<Rightarrow> None | Some _ \<Rightarrow> Some c"
  have t: "op_token (demo_buf_op (Some 3)) = Some 3" by (simp add: demo_buf_op_def)
  from runtime_drop_hides_runtime[OF ctx_demo_simps t, of demo_opcfg ?dtor 0] obtain c0 c1 where
    "guard_enter 0 (inner_clone 0 ctx_demo) = Some c0"
    "read_drop demo_opcfg (demo_buf_op (Some 3)) (try_current_driver c0) =
      Some (any_ignore_completion demo_opcfg 3 {BufMem} MockDriver)"
    "runtime_drop ?dtor (Some 0) ctx_demo =
      map_option (\<lambda>c2. c2\<lparr>inners := (inners c2)(0 := None), current := None, borrowed := False\<rparr>) (?dtor c1)"
    "thread_driver c1 = None"
    by (auto simp: with_options_def)
  then show ?thesis by simp
qed

end
