(* ===== verification/Quinn_Runtime.thy ===== *)
theory Quinn_Runtime
  imports Quinn_Adapter Time_Futures Runtime_Context
begin

text \<open>
  The rest of the adapter to \<open>quinn\<close>: its timers, which are sleeps, its spawn, whose join handle is
  dropped, and the pollers for write readiness, of which \<open>quinn\<close> makes one for each connection.
  The limits of the socket are those of the batching state, another crate's.
\<close>

section \<open>Definitions\<close>

definition quinn_new_timer :: "instant \<Rightarrow> sleep" where
  "quinn_new_timer i = sleep_until i"

definition quinn_timer_reset ::
  "('s, 'w) wheel_ops \<Rightarrow> bool \<Rightarrow> instant \<Rightarrow> sleep \<Rightarrow> 's timer \<Rightarrow> sleep \<times> 's timer" where
  "quinn_timer_reset ops in_rt i sp tm = sleep_reset ops in_rt i sp tm"

definition quinn_timer_poll ::
  "('s, 'w) wheel_ops \<Rightarrow> bool \<Rightarrow> instant \<Rightarrow> 'w \<Rightarrow> sleep \<Rightarrow> 's timer
   \<Rightarrow> (unit poll \<times> 'w list \<times> sleep \<times> 's timer) option" where
  "quinn_timer_poll ops in_rt now waker sp tm = sleep_poll ops in_rt now waker sp tm"

definition quinn_spawn :: "'u \<Rightarrow> ('u, 'o, 'q, 's, 'd) thread_ctx \<Rightarrow> ('u, 'o, 'q, 's, 'd) thread_ctx option" where
  "quinn_spawn u c = map_option snd (spawn_current u c)"

text \<open>A poller holds nothing but the shared socket, so the state that it polls is the socket's.\<close>

definition quinn_poll_writable ::
  "('ms, 'r, 's, 'c) op_cfg \<Rightarrow> os_answer \<Rightarrow> waker \<Rightarrow> udp_adapter \<Rightarrow> ('ms, 'r, 's, 'c) any_driver
   \<Rightarrow> unit io_result poll \<times> udp_adapter \<times> ('ms, 'r, 's, 'c) any_driver" where
  "quinn_poll_writable cfg ans w a drv =
     (let (r, p, drv1) = poll_writable cfg ans w (ua_io a) drv in (r, a\<lparr>ua_io := p\<rparr>, drv1))"

section \<open>Properties\<close>

definition write_slot :: "udp_adapter \<Rightarrow> token" where
  "write_slot a = h_token (sk_handle (ps_socket (ua_io a)))"

lemma poll_writable_pending:
  assumes "any_slabs cfg" and "quinn_poll_writable cfg ans w a drv = (Pending, a1, drv1)"
  shows "ps_write_ready (ua_io a1)" and "ps_socket (ua_io a1) = ps_socket (ua_io a)"
    and "any_waits cfg drv1 (write_slot a) True = Some w"
  using assms(2) submit_waits[OF assms(1), of ans "write_slot a" w WRITABLE drv]
  by (auto simp: quinn_poll_writable_def poll_writable_def readiness_poll_poll_def write_slot_def
      split: if_splits prod.splits poll.splits sum.splits)

text \<open>
  C12: The pollers of one socket share one waker. A connection waits with its poller (\<open>w1\<close>). A
  second connection polls its own poller: the call returns ready at once, its send finds the
  socket full, and the poll after that is pending. The driver then holds only the second waker for
  writing, so when the socket becomes writable the first connection is not woken, although each
  poller is to keep a waker of its own.
\<close>

theorem quinn_pollers_share_one_waker:
  assumes "any_slabs cfg" and "quinn_poll_writable cfg ans1 w1 a drv = (Pending, a1, drv1)"
    and "send e = (Inl err, e1)" and "a2 = a1\<lparr>ua_io := (ua_io a1)\<lparr>ps_write_ready := False\<rparr>\<rparr>"
    and "quinn_poll_writable cfg ans2 w2 a2 drv1 = (Pending, a3, drv2)"
  shows "any_waits cfg drv1 (write_slot a) True = Some w1 \<and>
    quinn_poll_writable cfg ans w2 a1 drv1 = (Ready (Inr ()), a1, drv1) \<and>
    quinn_try_send send (ua_io a1) e = (Inl err, ua_io a2, e1) \<and>
    any_waits cfg drv2 (write_slot a) True = Some w2"
proof -
  note p = poll_writable_pending[OF assms(1,2)]
  have s: "write_slot a2 = write_slot a" using p(2) by (simp add: assms(4) write_slot_def)
  have "quinn_poll_writable cfg ans w2 a1 drv1 = (Ready (Inr ()), a1, drv1)"
    using p(1) by (simp add: quinn_poll_writable_def poll_writable_def)
  moreover have "quinn_try_send send (ua_io a1) e = (Inl err, ua_io a2, e1)"
    using p(1) assms(3) by (simp add: quinn_try_send_def try_io_writable_def assms(4))
  ultimately show ?thesis using p(3) poll_writable_pending(3)[OF assms(1,5)] s by simp
qed

section \<open>Concrete runs\<close>

definition demo_adapter :: udp_adapter where
  "demo_adapter = \<lparr>ua_io = demo_poll_socket\<lparr>ps_write_ready := False\<rparr>, ua_fd = 8\<rparr>"

theorem quinn_pollers_share_one_waker_witness:
  "\<exists>a1 drv1 a2 a3 drv2.
     quinn_poll_writable demo_opcfg None (TaskWaker 1) demo_adapter (Mio demo_mio0) = (Pending, a1, drv1) \<and>
     quinn_poll_writable demo_opcfg None (TaskWaker 2) a2 drv1 = (Pending, a3, drv2) \<and>
     any_waits demo_opcfg drv1 0 True = Some (TaskWaker 1) \<and> any_waits demo_opcfg drv2 0 True = Some (TaskWaker 2)"
proof -
  obtain a1 drv1 a3 drv2 where
      q1: "quinn_poll_writable demo_opcfg None (TaskWaker 1) demo_adapter (Mio demo_mio0) = (Pending, a1, drv1)" and
      q2: "quinn_poll_writable demo_opcfg None (TaskWaker 2) (a1\<lparr>ua_io := (ua_io a1)\<lparr>ps_write_ready := False\<rparr>\<rparr>) drv1 =
        (Pending, a3, drv2)"
    by (simp add: quinn_poll_writable_def poll_writable_def readiness_poll_poll_def uses_completion_def demo_adapter_def
        demo_poll_socket_def demo_handle_def demo_opcfg_def demo_mio_eval)
  have s: "write_slot demo_adapter = 0" by (simp add: write_slot_def demo_adapter_def demo_poll_socket_def demo_handle_def)
  from quinn_pollers_share_one_waker[OF demo_any.any_slabs_axioms q1, of "\<lambda>e. (Inl (Os 11) :: nat io_result, e)" "0 :: nat", OF refl refl q2]
    q1 q2 s show ?thesis by (auto intro!: exI)
qed

end
