(* ===== verification/Hyper_Adapter.thy ===== *)
theory Hyper_Adapter
  imports Net_Streams Time_Futures
begin

text \<open>
  The crate \<open>zincio-hyper\<close> (\<open>zincio-hyper/src/lib.rs\<close>): the executor, the timer and \<open>ZincioIo\<close>, which
  gives a reader of \<open>tokio\<close>'s trait the trait of \<open>hyper\<close> and back. Both crates' read buffers are
  filled bytes with a capacity. The writing methods forward their arguments.
\<close>

section \<open>Executor and timer\<close>

text \<open>\<open>execute\<close> drops the join handle; outside a runtime it panics.\<close>

definition hyper_execute :: "bool \<Rightarrow> 'u \<Rightarrow> ('u, 'o, 'q, 's, 'd) exec \<Rightarrow> ('u, 'o, 'q, 's, 'd) exec option" where
  "hyper_execute in_rt fut st = (if in_rt then Some (snd (spawn fut st)) else None)"

text \<open>A sleep of \<open>hyper\<close> is a \<open>ZincioSleep\<close> or a foreign one, which \<open>reset\<close> leaves alone.\<close>

datatype 'x dyn_sleep = ZincioSleep sleep | ForeignSleep 'x

definition hyper_sleep :: "instant \<Rightarrow> duration \<Rightarrow> 'x dyn_sleep" where
  "hyper_sleep now d = ZincioSleep (sleep_new now d)"

definition hyper_sleep_until :: "instant \<Rightarrow> 'x dyn_sleep" where
  "hyper_sleep_until deadline = ZincioSleep (sleep_until deadline)"

definition hyper_reset ::
  "('s, 'w) wheel_ops \<Rightarrow> bool \<Rightarrow> instant \<Rightarrow> 'x dyn_sleep \<Rightarrow> 's timer \<Rightarrow> 'x dyn_sleep \<times> 's timer" where
  "hyper_reset ops in_rt deadline d tm =
     (case d of
        ZincioSleep sp \<Rightarrow> (let (sp1, tm1) = sleep_reset ops in_rt deadline sp tm in (ZincioSleep sp1, tm1))
      | ForeignSleep x \<Rightarrow> (d, tm))"

section \<open>Readers\<close>

text \<open>A poll of a reader on a buffer; a panic is \<open>None\<close>.\<close>

type_synonym 's poll_reader = "read_buf \<Rightarrow> 's \<Rightarrow> (unit io_result poll \<times> read_buf \<times> 's) option"

text \<open>The empty buffer over the unfilled part of another one.\<close>

definition unfilled :: "read_buf \<Rightarrow> read_buf" where
  "unfilled b = \<lparr>rb_filled = [], rb_capacity = rb_remaining b\<rparr>"

text \<open>
  \<open>hyper::rt::Read\<close> over \<open>tokio\<close>'s trait: the inner reader fills an empty buffer over the unfilled
  part, and the cursor advances over what it filled; nothing is advanced on an error or when pending.
\<close>

definition hyper_poll_read :: "'s poll_reader \<Rightarrow> 's poll_reader" where
  "hyper_poll_read rd b s =
     (case rd (unfilled b) s of
        None \<Rightarrow> None
      | Some (Ready (Inr _), t, s1) \<Rightarrow> Some (Ready (Inr ()), b\<lparr>rb_filled := rb_filled b @ rb_filled t\<rparr>, s1)
      | Some (Ready (Inl err), t, s1) \<Rightarrow> Some (Ready (Inl err), b, s1)
      | Some (Pending, t, s1) \<Rightarrow> Some (Pending, b, s1))"

text \<open>
  \<open>tokio\<close>'s trait over \<open>hyper::rt::Read\<close>: the bytes are marked initialised and the filled length is
  set; \<open>set_filled\<close> panics beyond the initialised bytes.
\<close>

definition tokio_poll_read :: "'s poll_reader \<Rightarrow> 's poll_reader" where
  "tokio_poll_read rd b s =
     (let filled = length (rb_filled b)
      in case rd (unfilled b) s of
           None \<Rightarrow> None
         | Some (Ready (Inr _), t, s1) \<Rightarrow>
             (let region = rb_filled b @ rb_filled t; sub_filled = length (rb_filled t)
              in if filled + sub_filled \<le> length region
                 then Some (Ready (Inr ()), b\<lparr>rb_filled := take (filled + sub_filled) region\<rparr>, s1) else None)
         | Some (Ready (Inl err), t, s1) \<Rightarrow> Some (Ready (Inl err), b, s1)
         | Some (Pending, t, s1) \<Rightarrow> Some (Pending, b, s1))"

lemma tokio_hyper_same: "tokio_poll_read rd = hyper_poll_read rd"
  by (rule ext)+ (simp add: tokio_poll_read_def hyper_poll_read_def Let_def split: option.splits poll.splits sum.splits)

text \<open>
  The contract of a reader that appends: reading into a buffer is reading into the empty buffer over its
  unfilled part. Under it the wrappers change nothing, in any nesting.
\<close>

locale appending_reader =
  fixes rd :: "'s poll_reader"
  assumes appends: "rd b s = hyper_poll_read rd b s"
begin

lemma transparent: "hyper_poll_read rd = rd" "tokio_poll_read rd = rd"
  using appends by (auto simp: tokio_hyper_same fun_eq_iff)

lemma nested: "((hyper_poll_read ^^ m) rd) = rd" "((tokio_poll_read ^^ m) rd) = rd"
  by (induction m) (simp_all add: transparent)

end

lemma unfilled_simps [simp]:
  "rb_remaining (unfilled b) = rb_remaining b" "rb_filled (unfilled b) = []" "unfilled (unfilled b) = unfilled b"
  by (simp_all add: unfilled_def rb_remaining_def)

text \<open>Whatever a reader does, the wrapped reader appends.\<close>

interpretation wrapped: appending_reader "hyper_poll_read rd" for rd
proof
  show "hyper_poll_read rd b s = hyper_poll_read (hyper_poll_read rd) b s" for b s
    by (auto simp: hyper_poll_read_def split: option.splits poll.splits sum.splits)
qed

text \<open>The poll-based streams append.\<close>

interpretation stream: appending_reader "stream_poll_read cfg ans got w h" for cfg ans got w h
proof
  fix b and drv
  show "stream_poll_read cfg ans got w h b drv = hyper_poll_read (stream_poll_read cfg ans got w h) b drv"
    by (auto simp: hyper_poll_read_def stream_poll_read_def rb_append_def
        split: option.splits poll.splits sum.splits prod.splits)
qed

text \<open>
  A stream read through \<open>ZincioIo\<close> is the stream. For the poll-based sockets a read through the
  wrapper in either direction has the result, the buffer and the effect on the driver of
  a read without it, and wrapping a wrapped reader of one trait back into the other gives the same reads.
\<close>

theorem wrapped_stream_reads_the_same:
  "hyper_poll_read (stream_poll_read cfg ans got w h) b drv = stream_poll_read cfg ans got w h b drv \<and>
   tokio_poll_read (hyper_poll_read (stream_poll_read cfg ans got w h)) b drv = stream_poll_read cfg ans got w h b drv"
  by (simp add: stream.transparent)

text \<open>
  For every reader, \<open>hyper\<close>'s trait over \<open>tokio\<close>'s over \<open>hyper\<close>'s is the same as one wrapper, and the filled
  bytes of the caller stay what they were.
\<close>

theorem wrapping_twice_is_wrapping_once:
  assumes "hyper_poll_read (tokio_poll_read rd) b s = Some (r, b', s')"
  shows "hyper_poll_read rd b s = Some (r, b', s') \<and> take (length (rb_filled b)) (rb_filled b') = rb_filled b"
proof -
  have once: "hyper_poll_read rd b s = Some (r, b', s')"
    using assms wrapped.transparent(1)[of rd] by (simp add: tokio_hyper_same)
  then show ?thesis by (auto simp: hyper_poll_read_def split: option.splits poll.splits sum.splits)
qed

text \<open>A task handed to the executor runs although its join handle is gone: it is queued and not cancelled.\<close>

theorem executed_task_is_queued:
  "\<exists>st'. hyper_execute True fut st = Some st' \<and>
     tasks st' (next_task_id st) = Some \<lparr>t_future = Some (SpawnFuture fut (next_join_id st)), t_queued = True\<rparr> \<and>
     map_option js_canceled (joins st' (next_join_id st)) = Some False"
  by (simp add: hyper_execute_def spawn_def enqueue_def Let_def)

end
