(* ===== verification/Io_Copy.thy ===== *)
theory Io_Copy
  imports Io_Ops
begin

text \<open>
  Moving bytes between objects: the \<open>AsyncRead\<close> and \<open>AsyncWrite\<close> traits (\<open>io/mod.rs\<close>) as
  locales, \<open>copy\<close> (\<open>io/util.rs\<close>) with the cursor buffer of \<open>io/buf.rs\<close>, and the loops of
  \<open>splice_exact\<close> (\<open>io/splice.rs\<close>) and \<open>sendfile_exact\<close> (\<open>io/sendfile.rs\<close>). An awaited call is
  the result it resolves with; readers and writers are parameters, and the locales are
  interpreted on the reader and writer that the sources define in \<open>util/async_wrap.rs\<close>.
\<close>

section \<open>Readers and writers\<close>

text \<open>
  \<open>rd cap r\<close> resolves with a result and the initialised bytes of the returned buffer of capacity
  \<open>cap\<close>; \<open>source\<close> is what the reader has still to give.
\<close>

locale async_reader =
  fixes rd :: "nat \<Rightarrow> 'r \<Rightarrow> nat io_result \<times> byte list \<times> 'r" and source :: "'r \<Rightarrow> byte list"
  assumes read_ok: "rd cap r = (Inr n, bytes, r') \<Longrightarrow> n = length bytes \<and> n \<le> cap \<and> source r = bytes @ source r'"
    and read_eof: "rd cap r = (Inr 0, bytes, r') \<Longrightarrow> 0 < cap \<Longrightarrow> source r = []"
    and read_err: "rd cap r = (Inl err, bytes, r') \<Longrightarrow> source r' = source r"

locale async_writer =
  fixes wr :: "byte list \<Rightarrow> 'w \<Rightarrow> nat io_result \<times> 'w" and flush :: "'w \<Rightarrow> unit io_result \<times> 'w"
    and sink :: "'w \<Rightarrow> byte list"
  assumes write_ok: "wr xs w = (Inr n, w') \<Longrightarrow> n \<le> length xs \<and> sink w' = sink w @ take n xs"
    and write_err: "wr xs w = (Inl err, w') \<Longrightarrow> sink w' = sink w"
    and flush_sink: "flush w = (res, w') \<Longrightarrow> sink w' = sink w"

section \<open>\<open>IoBufWithCursor\<close> and \<open>copy\<close>\<close>

record cursor_buf =
  cb_bytes :: "byte list"
  cb_cursor :: usize

definition cursor_new :: "byte list \<Rightarrow> cursor_buf" where
  "cursor_new xs = \<lparr>cb_bytes = xs, cb_cursor = 0\<rparr>"

definition cursor_advance :: "nat \<Rightarrow> cursor_buf \<Rightarrow> cursor_buf" where
  "cursor_advance n b = b\<lparr>cb_cursor := cb_cursor b + n\<rparr>"

text \<open>The subtraction panics when the cursor is past the end (\<open>None\<close>).\<close>

definition cursor_len :: "cursor_buf \<Rightarrow> nat option" where
  "cursor_len b = (if cb_cursor b \<le> length (cb_bytes b) then Some (length (cb_bytes b) - cb_cursor b) else None)"

definition cursor_rest :: "cursor_buf \<Rightarrow> byte list" where
  "cursor_rest b = drop (cb_cursor b) (cb_bytes b)"

text \<open>How a transfer ends: with a result, or in a panic.\<close>

datatype 'a outcome = Resolved "'a io_result" | Panicked

text \<open>The inner loop: the whole buffer is written, or an error ends it.\<close>

function write_loop ::
  "(byte list \<Rightarrow> 'w \<Rightarrow> nat io_result \<times> 'w) \<Rightarrow> cursor_buf \<Rightarrow> 'w \<Rightarrow> unit outcome \<times> 'w" where
  "write_loop wr b w =
     (case cursor_len b of
        None \<Rightarrow> (Panicked, w)
      | Some 0 \<Rightarrow> (Resolved (Inr ()), w)
      | Some (Suc _) \<Rightarrow>
          (case wr (cursor_rest b) w of
             (Inl err, w1) \<Rightarrow> (Resolved (Inl err), w1)
           | (Inr n, w1) \<Rightarrow>
               if n = 0 then (Resolved (Inl (Simple WriteZero)), w1)
               else write_loop wr (cursor_advance n b) w1))"
  by pat_completeness auto

termination
  by (relation "measure (\<lambda>(wr, b, w). length (cb_bytes b) - cb_cursor b)")
    (auto simp: cursor_len_def cursor_advance_def split: if_splits)

declare write_loop.simps [simp del]

definition saturating_add :: "u64 \<Rightarrow> nat \<Rightarrow> u64" where
  "saturating_add a b = min (a + b) (U64_LIMIT - 1)"

definition COPY_BUFFER :: nat where "COPY_BUFFER = 8192"

text \<open>The outer loop, which ends at the end of the source; \<open>None\<close> if it never does.\<close>

partial_function (option) copy_loop ::
  "(nat \<Rightarrow> 'r \<Rightarrow> nat io_result \<times> byte list \<times> 'r) \<Rightarrow> (byte list \<Rightarrow> 'w \<Rightarrow> nat io_result \<times> 'w) \<Rightarrow>
   u64 \<Rightarrow> 'r \<Rightarrow> 'w \<Rightarrow> (u64 outcome \<times> 'r \<times> 'w) option" where
  "copy_loop rd wr copied r w =
     (case rd COPY_BUFFER r of
        (Inl err, bytes, r1) \<Rightarrow> Some (Resolved (Inl err), r1, w)
      | (Inr n, bytes, r1) \<Rightarrow>
          if n = 0 then Some (Resolved (Inr copied), r1, w)
          else (case write_loop wr (cursor_new bytes) w of
                  (Panicked, w1) \<Rightarrow> Some (Panicked, r1, w1)
                | (Resolved (Inl err), w1) \<Rightarrow> Some (Resolved (Inl err), r1, w1)
                | (Resolved (Inr _), w1) \<Rightarrow> copy_loop rd wr (saturating_add copied n) r1 w1))"

definition copy ::
  "(nat \<Rightarrow> 'r \<Rightarrow> nat io_result \<times> byte list \<times> 'r) \<Rightarrow> (byte list \<Rightarrow> 'w \<Rightarrow> nat io_result \<times> 'w)
   \<Rightarrow> ('w \<Rightarrow> unit io_result \<times> 'w) \<Rightarrow> 'r \<Rightarrow> 'w \<Rightarrow> (u64 outcome \<times> 'r \<times> 'w) option" where
  "copy rd wr flush r w =
     (case copy_loop rd wr 0 r w of
        Some (Resolved (Inr copied), r1, w1) \<Rightarrow>
          (case flush w1 of
             (Inl err, w2) \<Rightarrow> Some (Resolved (Inl err), r1, w2)
           | (Inr _, w2) \<Rightarrow> Some (Resolved (Inr copied), r1, w2))
      | res \<Rightarrow> res)"

lemma saturating_add_bound: "saturating_add a b < U64_LIMIT"
  by (simp add: saturating_add_def min_def)

lemma cursor_simps [simp]:
  "cursor_rest (cursor_new xs) = xs" "cb_bytes (cursor_advance n b) = cb_bytes b"
  "cb_cursor (cursor_advance n b) = cb_cursor b + n" "cb_cursor (cursor_new xs) = 0"
  "cursor_rest (cursor_advance n b) = drop n (cursor_rest b)"
  by (simp_all add: cursor_new_def cursor_rest_def cursor_advance_def add.commute)

lemma cursor_len_rest: "cb_cursor b \<le> length (cb_bytes b) \<Longrightarrow> cursor_len b = Some (length (cursor_rest b))"
  by (simp add: cursor_len_def cursor_rest_def)

lemma cursor_advance_bounds:
  assumes "0 < n" and "n \<le> length (cursor_rest b)" and "cb_cursor b \<le> length (cb_bytes b)"
  shows "length (cursor_rest (cursor_advance n b)) < length (cursor_rest b)"
    and "cb_cursor (cursor_advance n b) \<le> length (cb_bytes (cursor_advance n b))"
  using assms by (simp, simp add: cursor_rest_def)

context async_writer
begin

text \<open>The inner loop writes a prefix of the buffer, all of it on success, and never panics.\<close>

lemma write_loop_prefix:
  assumes "cb_cursor b \<le> length (cb_bytes b)" and "write_loop wr b w = (res, w')"
  shows "\<exists>k \<le> length (cursor_rest b). sink w' = sink w @ take k (cursor_rest b) \<and>
    (\<exists>x. res = Resolved x \<and> (x = Inr () \<longrightarrow> k = length (cursor_rest b)))"
  using assms
proof (induction "length (cursor_rest b)" arbitrary: b w rule: less_induct)
  case less
  let ?xs = "cursor_rest b"
  note len = cursor_len_rest[OF less.prems(1)]
  show ?case
  proof (cases ?xs)
    case Nil
    then have "res = Resolved (Inr ())" "w' = w" using less.prems(2) len by (simp_all add: write_loop.simps[of wr b])
    then show ?thesis using Nil by simp
  next
    case (Cons x xs)
    obtain ans w1 where a: "wr ?xs w = (ans, w1)" by fastforce
    show ?thesis
    proof (cases ans)
      case (Inl err)
      then have "res = Resolved (Inl err)" "w' = w1" using less.prems(2) len Cons a by (simp_all add: write_loop.simps[of wr b])
      then show ?thesis using write_err[OF a[unfolded Inl]] by (intro exI[of _ 0]) simp
    next
      case (Inr n)
      have w1: "n \<le> length ?xs" "sink w1 = sink w @ take n ?xs" using write_ok[OF a[unfolded Inr]] by simp_all
      show ?thesis
      proof (cases "n = 0")
        case True
        then have "res = Resolved (Inl (Simple WriteZero))" "w' = w1"
          using less.prems(2) len Cons a Inr by (simp_all add: write_loop.simps[of wr b])
        then show ?thesis using w1 True by (intro exI[of _ 0]) simp
      next
        case False
        let ?b = "cursor_advance n b"
        have rest: "write_loop wr ?b w1 = (res, w')"
          using less.prems(2) len Cons a Inr False by (simp add: write_loop.simps[of wr b])
        note adv = cursor_advance_bounds[OF _ w1(1) less.prems(1)]
        from less.hyps[OF adv rest] False obtain k where k: "k \<le> length (drop n ?xs)"
          "sink w' = sink w1 @ take k (drop n ?xs)" "\<exists>x. res = Resolved x \<and> (x = Inr () \<longrightarrow> k = length (drop n ?xs))"
          by auto
        then have "sink w' = sink w @ take (n + k) ?xs" using w1(2) by (simp add: take_add)
        then show ?thesis using k(1,3) w1(1) by (intro exI[of _ "n + k"]) auto
      qed
    qed
  qed
qed

text \<open>A writer that always makes progress takes the whole buffer.\<close>

lemma write_loop_succeeds:
  assumes progress: "\<And>xs w. xs \<noteq> [] \<Longrightarrow> \<exists>n w'. wr xs w = (Inr n, w') \<and> 0 < n"
    and "cb_cursor b \<le> length (cb_bytes b)"
  shows "\<exists>w'. write_loop wr b w = (Resolved (Inr ()), w') \<and> sink w' = sink w @ cursor_rest b"
  using assms(2)
proof (induction "length (cursor_rest b)" arbitrary: b w rule: less_induct)
  case less
  let ?xs = "cursor_rest b"
  note len = cursor_len_rest[OF less.prems(1)]
  show ?case
  proof (cases ?xs)
    case Nil
    then show ?thesis using len by (simp add: write_loop.simps[of wr b])
  next
    case (Cons x xs)
    obtain n w1 where a: "wr ?xs w = (Inr n, w1)" "0 < n" using progress[of ?xs w] Cons by auto
    have w1: "n \<le> length ?xs" "sink w1 = sink w @ take n ?xs" using write_ok[OF a(1)] by simp_all
    let ?b = "cursor_advance n b"
    from less.hyps[OF cursor_advance_bounds[OF a(2) w1(1) less.prems(1)], of w1] show ?thesis
      using len Cons a w1(2) by (auto simp: write_loop.simps[of wr b])
  qed
qed

end

locale copy_io = async_reader rd source + async_writer wr flush sink
  for rd :: "nat \<Rightarrow> 'r \<Rightarrow> nat io_result \<times> byte list \<times> 'r" and source
    and wr :: "byte list \<Rightarrow> 'w \<Rightarrow> nat io_result \<times> 'w" and flush sink
begin

lemma copy_loop_moves:
  assumes reads: "\<And>r. \<exists>n bytes r'. rd COPY_BUFFER r = (Inr n, bytes, r')"
    and progress: "\<And>xs w. xs \<noteq> [] \<Longrightarrow> \<exists>n w'. wr xs w = (Inr n, w') \<and> 0 < n"
    and "c < U64_LIMIT"
  shows "\<exists>r' w'. copy_loop rd wr c r w = Some (Resolved (Inr (saturating_add c (length (source r)))), r', w') \<and>
    sink w' = sink w @ source r \<and> source r' = []"
  using assms(3)
proof (induction "length (source r)" arbitrary: c r w rule: less_induct)
  case less
  obtain n bytes r1 where rd: "rd COPY_BUFFER r = (Inr n, bytes, r1)" using reads by blast
  have src: "n = length bytes" "source r = bytes @ source r1" using read_ok[OF rd] by simp_all
  show ?case
  proof (cases "n = 0")
    case True
    then have "source r = []" using read_eof rd by (simp add: COPY_BUFFER_def)
    then show ?thesis using rd True less.prems src by (simp add: copy_loop.simps[of rd wr c] saturating_add_def)
  next
    case False
    obtain w1 where w1: "write_loop wr (cursor_new bytes) w = (Resolved (Inr ()), w1)" "sink w1 = sink w @ bytes"
      using write_loop_succeeds[OF progress, of "cursor_new bytes" w] by auto
    have "length (source r1) < length (source r)" using src False by simp
    from less.hyps[OF this saturating_add_bound, of c n w1] obtain r' w' where
      "copy_loop rd wr (saturating_add c n) r1 w1 =
         Some (Resolved (Inr (saturating_add (saturating_add c n) (length (source r1)))), r', w')"
      "sink w' = sink w1 @ source r1" "source r' = []" by blast
    moreover have "saturating_add (saturating_add c n) (length (source r1)) = saturating_add c (length (source r))"
      using src by (simp add: saturating_add_def)
    ultimately show ?thesis using rd False w1 src(2) by (simp add: copy_loop.simps[of rd wr c])
  qed
qed

text \<open>Whatever the outcome, a transfer that ends has written a prefix of the source.\<close>

lemma copy_loop_prefix:
  assumes "copy_loop rd wr c r w = Some (res, r', w')"
  shows "\<exists>k \<le> length (source r). sink w' = sink w @ take k (source r) \<and> res \<noteq> Panicked \<and>
    (\<forall>m. res = Resolved (Inr m) \<longrightarrow> k = length (source r))"
  using assms
proof (induction "length (source r)" arbitrary: c r w rule: less_induct)
  case less
  obtain ans bytes r1 where rd: "rd COPY_BUFFER r = (ans, bytes, r1)" by (metis prod_cases3)
  show ?case
  proof (cases ans)
    case (Inl err)
    then show ?thesis using less.prems rd by (auto simp: copy_loop.simps[of rd wr c] intro: exI[of _ 0])
  next
    case (Inr n)
    have src: "n = length bytes" "source r = bytes @ source r1" using read_ok[OF rd[unfolded Inr]] by simp_all
    show ?thesis
    proof (cases "n = 0")
      case True
      have "source r = []" using read_eof rd Inr True by (simp add: COPY_BUFFER_def)
      then show ?thesis using less.prems rd Inr True by (auto simp: copy_loop.simps[of rd wr c])
    next
      case False
      obtain wres w1 where wl: "write_loop wr (cursor_new bytes) w = (wres, w1)" by fastforce
      obtain k x where k: "k \<le> length bytes" "sink w1 = sink w @ take k bytes" "wres = Resolved x"
        "x = Inr () \<Longrightarrow> k = length bytes"
        using write_loop_prefix[OF _ wl] by auto
      show ?thesis
      proof (cases x)
        case (Inl err)
        then show ?thesis using less.prems rd \<open>ans = Inr n\<close> False wl k src
          by (auto simp: copy_loop.simps[of rd wr c] intro!: exI[of _ k])
      next
        case (Inr u)
        have rest: "copy_loop rd wr (saturating_add c n) r1 w1 = Some (res, r', w')"
          using less.prems rd \<open>ans = Inr n\<close> False wl k Inr by (simp add: copy_loop.simps[of rd wr c])
        have "length (source r1) < length (source r)" using src False by simp
        from less.hyps[OF this rest] obtain j where "j \<le> length (source r1)" "sink w' = sink w1 @ take j (source r1)"
          "res \<noteq> Panicked" "\<forall>m. res = Resolved (Inr m) \<longrightarrow> j = length (source r1)" by blast
        then show ?thesis using k Inr src by (intro exI[of _ "length bytes + j"]) auto
      qed
    qed
  qed
qed

end

section \<open>\<open>splice_exact\<close> and \<open>sendfile_exact\<close>\<close>

text \<open>
  \<open>mv m s\<close> resolves one \<open>splice\<close> or \<open>sendfile\<close> operation for at most \<open>m\<close> bytes. The loops of
  \<open>splice_exact\<close> and \<open>sendfile_exact_poll\<close> are the same; on a 64-bit machine the conversion to
  \<open>usize\<close> is the identity.
\<close>

function transfer_loop ::
  "(nat \<Rightarrow> 's \<Rightarrow> nat io_result \<times> 's) \<Rightarrow> u64 \<Rightarrow> u64 \<Rightarrow> 's \<Rightarrow> u64 io_result \<times> 's" where
  "transfer_loop mv len tot s =
     (if tot < len then
        (case mv (len - tot) s of
           (Inl err, s1) \<Rightarrow> (Inl err, s1)
         | (Inr n, s1) \<Rightarrow> if n = 0 then (Inr tot, s1) else transfer_loop mv len (tot + n) s1)
      else (Inr tot, s))"
  by pat_completeness auto

termination
  by (relation "measure (\<lambda>(mv, len, tot, s). len - tot)") auto

declare transfer_loop.simps [simp del]

definition splice_exact :: "(nat \<Rightarrow> 's \<Rightarrow> nat io_result \<times> 's) \<Rightarrow> u64 \<Rightarrow> 's \<Rightarrow> u64 io_result \<times> 's" where
  "splice_exact mv len s = transfer_loop mv len 0 s"

definition sendfile_exact_poll :: "(nat \<Rightarrow> 's \<Rightarrow> nat io_result \<times> 's) \<Rightarrow> u64 \<Rightarrow> 's \<Rightarrow> u64 io_result \<times> 's" where
  "sendfile_exact_poll sendfile len s = transfer_loop sendfile len 0 s"

text \<open>
  The loop of \<open>sendfile_exact_completion\<close>: a splice from the file into a pipe and one from the
  pipe to the socket. Each subtraction of the sources panics when it would be negative.
\<close>

definition fill_pipe ::
  "(nat \<Rightarrow> 's \<Rightarrow> nat io_result \<times> 's) \<Rightarrow> u64 \<Rightarrow> u64 \<Rightarrow> bool \<Rightarrow> 's \<Rightarrow> (u64 \<times> bool) io_result \<times> 's" where
  "fill_pipe from_file len total_from eof s =
     (if \<not> eof \<and> 0 < len - total_from then
        (case from_file (len - total_from) s of
           (Inl err, s1) \<Rightarrow> (Inl err, s1)
         | (Inr n, s1) \<Rightarrow> (Inr (if n = 0 then (total_from, True) else (total_from + n, eof)), s1))
      else (Inr (total_from, eof), s))"

function sendfile_loop ::
  "(nat \<Rightarrow> 's \<Rightarrow> nat io_result \<times> 's) \<Rightarrow> (nat \<Rightarrow> 's \<Rightarrow> nat io_result \<times> 's) \<Rightarrow> u64 \<Rightarrow> u64 \<Rightarrow> u64 \<Rightarrow> bool
   \<Rightarrow> 's \<Rightarrow> u64 outcome \<times> 's" where
  "sendfile_loop from_file to_socket len total_from total_to eof s =
     (if (total_from < len \<and> \<not> eof) \<or> total_to < total_from then
        if len < total_from then (Panicked, s)
        else
          (case fill_pipe from_file len total_from eof s of
             (Inl err, s1) \<Rightarrow> (Resolved (Inl err), s1)
           | (Inr (from1, eof1), s1) \<Rightarrow>
               if from1 < total_to then (Panicked, s1)
               else if 0 < from1 - total_to then
                 (case to_socket (from1 - total_to) s1 of
                    (Inl err, s2) \<Rightarrow> (Resolved (Inl err), s2)
                  | (Inr n, s2) \<Rightarrow>
                      if n = 0 then (Resolved (Inr total_to), s2)
                      else sendfile_loop from_file to_socket len from1 (total_to + n) eof1 s2)
               else sendfile_loop from_file to_socket len from1 total_to eof1 s1)
      else (Resolved (Inr total_to), s))"
  by pat_completeness auto

termination
  by (relation "measures [\<lambda>(ff, ts, len, from, to, eof, s). len - from,
      \<lambda>(ff, ts, len, from, to, eof, s). if eof then 0 else 1, \<lambda>(ff, ts, len, from, to, eof, s). from - to]")
    (auto simp: fill_pipe_def split: if_splits prod.splits sum.splits)

declare sendfile_loop.simps [simp del]

text \<open>\<open>pipe2\<close> answers with an error or creates the pipe; so does the registration of its writer.\<close>

definition sendfile_exact_completion ::
  "os_answer \<Rightarrow> os_answer \<Rightarrow> (nat \<Rightarrow> 's \<Rightarrow> nat io_result \<times> 's) \<Rightarrow> (nat \<Rightarrow> 's \<Rightarrow> nat io_result \<times> 's) \<Rightarrow> u64 \<Rightarrow> 's
   \<Rightarrow> u64 outcome \<times> 's" where
  "sendfile_exact_completion pipe2 register from_file to_socket len s =
     (case pipe2 of
        Some err \<Rightarrow> (Resolved (Inl err), s)
      | None \<Rightarrow>
          (case register of
             Some err \<Rightarrow> (Resolved (Inl err), s)
           | None \<Rightarrow> sendfile_loop from_file to_socket len 0 0 False s))"

locale sendfile_kernel =
  fixes from_file to_socket :: "nat \<Rightarrow> 's \<Rightarrow> nat io_result \<times> 's" and infile pipe sock :: "'s \<Rightarrow> byte list"
  assumes from_ok: "from_file m s = (Inr n, s') \<Longrightarrow> n \<le> m \<and> n \<le> length (infile s) \<and> infile s' = drop n (infile s) \<and>
      pipe s' = pipe s @ take n (infile s) \<and> sock s' = sock s"
    and from_eof: "from_file m s = (Inr 0, s') \<Longrightarrow> 0 < m \<Longrightarrow> infile s = []"
    and from_err: "from_file m s = (Inl err, s') \<Longrightarrow> sock s' = sock s"
    and to_ok: "to_socket m s = (Inr n, s') \<Longrightarrow> n \<le> m \<and> n \<le> length (pipe s) \<and> infile s' = infile s \<and>
      pipe s' = drop n (pipe s) \<and> sock s' = sock s @ take n (pipe s)"
    and to_err: "to_socket m s = (Inl err, s') \<Longrightarrow> sock s' = sock s"
begin

text \<open>What holds at the head of the loop, for the infile \<open>F\<close> and the socket \<open>S\<close> at the start.\<close>

definition moving :: "byte list \<Rightarrow> byte list \<Rightarrow> nat \<Rightarrow> nat \<Rightarrow> nat \<Rightarrow> bool \<Rightarrow> 's \<Rightarrow> bool" where
  "moving F S len fr tt eof s \<longleftrightarrow> tt \<le> fr \<and> fr \<le> len \<and> fr \<le> length F \<and> infile s = drop fr F \<and>
     pipe s = take (fr - tt) (drop tt F) \<and> sock s = S @ take tt F \<and> (eof \<longrightarrow> fr = length F)"

lemma moving_from:
  assumes "moving F S len fr tt eof s" and "from_file (len - fr) s = (Inr n, s1)" and "fr < len" and "\<not> eof"
  shows "moving F S len (fst (if n = 0 then (fr, True) else (fr + n, eof))) tt
    (snd (if n = 0 then (fr, True) else (fr + n, eof))) s1"
proof -
  note ok = from_ok[OF assms(2)]
  have "n = 0 \<Longrightarrow> fr = length F" using from_eof[of "len - fr" s s1] assms by (auto simp: moving_def)
  moreover have "take (fr - tt) (drop tt F) @ take n (drop fr F) = take (fr + n - tt) (drop tt F)"
    if "tt \<le> fr"
    using that take_add[of "fr - tt" n "drop tt F"] by simp
  ultimately show ?thesis using assms ok by (auto simp: moving_def add.commute)
qed

lemma moving_to:
  assumes "moving F S len fr tt eof s" and "to_socket (fr - tt) s = (Inr n, s1)"
  shows "moving F S len fr (tt + n) eof s1"
proof -
  note ok = to_ok[OF assms(2)]
  have "drop n (take (fr - tt) (drop tt F)) = take (fr - (tt + n)) (drop (tt + n) F)"
    by (simp add: drop_take add.commute)
  moreover have "take n (take (fr - tt) (drop tt F)) = take n (drop tt F)" using ok by (simp add: min_def)
  ultimately show ?thesis using assms(1) ok by (auto simp: moving_def take_add)
qed

lemma moving_pipe: "moving F S len fr tt eof s \<Longrightarrow> tt < fr \<Longrightarrow> pipe s \<noteq> []"
  by (auto simp: moving_def)

definition sent :: "byte list \<Rightarrow> byte list \<Rightarrow> nat \<Rightarrow> u64 outcome \<Rightarrow> 's \<Rightarrow> bool" where
  "sent F S len res s \<longleftrightarrow> (\<exists>k. k \<le> len \<and> k \<le> length F \<and> sock s = S @ take k F \<and>
     (\<exists>x. res = Resolved x \<and> (\<forall>t. x = Inr t \<longrightarrow> t = k \<and>
        ((\<forall>m s n s1. to_socket m s = (Inr n, s1) \<longrightarrow> 0 < m \<longrightarrow> pipe s \<noteq> [] \<longrightarrow> 0 < n) \<longrightarrow> k = min len (length F)))))"

lemma sent_err: "moving F S len fr tt eof s \<Longrightarrow> sock s' = sock s \<Longrightarrow> sent F S len (Resolved (Inl err)) s'"
  unfolding sent_def moving_def by (intro exI[of _ tt]) auto

lemma sent_stuck:
  assumes "moving F S len fr tt eof s" and "to_socket m s = (Inr 0, s')" and "0 < m" and "tt < fr"
  shows "sent F S len (Resolved (Inr tt)) s'"
  using assms moving_pipe[OF assms(1,4)] to_ok[OF assms(2)]
  unfolding sent_def moving_def by (intro exI[of _ tt]) fastforce

lemma sent_end:
  assumes "moving F S len fr tt eof s" and "\<not> (fr < len \<and> \<not> eof)" and "\<not> tt < fr"
  shows "sent F S len (Resolved (Inr tt)) s"
  using assms unfolding sent_def moving_def by (intro exI[of _ tt]) (auto simp: min_def)

lemma sendfile_loop_sends:
  assumes "moving F S len fr tt eof s" and "sendfile_loop from_file to_socket len fr tt eof s = (res, s')"
  shows "sent F S len res s'"
  using assms
proof (induction "(len - fr, if eof then 0 else 1 :: nat, fr - tt)" arbitrary: fr tt eof s
    rule: wf_induct_rule[OF wf_measures[of "[fst, fst \<circ> snd, snd \<circ> snd]"]])
  case (1 fr tt eof s)
  note I = "1.prems"(1) and unfold = sendfile_loop.simps[of from_file to_socket len fr tt eof s]
  have le: "tt \<le> fr" "fr \<le> len" using I by (simp_all add: moving_def)
  show ?case
  proof (cases "(fr < len \<and> \<not> eof) \<or> tt < fr")
    case False
    then show ?thesis using "1.prems"(2) unfold sent_end[OF I] by auto
  next
    case True
    obtain r1 s1 where r1: "fill_pipe from_file len fr eof s = (r1, s1)" by fastforce
    show ?thesis
    proof (cases r1)
      case (Inl err)
      have "sock s1 = sock s" using r1 Inl from_err by (auto simp: fill_pipe_def split: if_splits prod.splits sum.splits)
      then show ?thesis using "1.prems"(2) unfold True le r1 Inl sent_err[OF I]
        by auto
    next
      case (Inr fe)
      obtain fr1 eof1 where fe: "fe = (fr1, eof1)" by fastforce
      have M: "moving F S len fr1 tt eof1 s1" and
        P: "fr < fr1 \<or> fr1 = fr \<and> (eof1 \<and> \<not> eof \<or> eof1 = eof \<and> tt < fr)"
        using moving_from[OF I] r1 Inr fe I True
        by (auto simp: fill_pipe_def split: if_splits prod.splits sum.splits)
      have le1: "tt \<le> fr1" "fr1 \<le> len" using M by (simp_all add: moving_def)
      have step: "sendfile_loop from_file to_socket len fr tt eof s =
          (if 0 < fr1 - tt then
             (case to_socket (fr1 - tt) s1 of
                (Inl err, s2) \<Rightarrow> (Resolved (Inl err), s2)
              | (Inr n, s2) \<Rightarrow> if n = 0 then (Resolved (Inr tt), s2)
                              else sendfile_loop from_file to_socket len fr1 (tt + n) eof1 s2)
           else sendfile_loop from_file to_socket len fr1 tt eof1 s1)"
        using True le le1 r1 Inr fe by (simp add: unfold)
      show ?thesis
      proof (cases "0 < fr1 - tt")
        case False
        then have "sendfile_loop from_file to_socket len fr1 tt eof1 s1 = (res, s')" using "1.prems"(2) step by simp
        then show ?thesis using False P le1 by (intro "1.hyps"[OF _ M]) (auto split: if_splits)
      next
        case pos: True
        obtain ans s2 where a: "to_socket (fr1 - tt) s1 = (ans, s2)" by fastforce
        show ?thesis
        proof (cases ans)
          case (Inl err)
          then show ?thesis using "1.prems"(2) step pos a sent_err[OF M] to_err by auto
        next
          case (Inr n)
          show ?thesis
          proof (cases "n = 0")
            case True
            then show ?thesis using "1.prems"(2) step pos a Inr sent_stuck[OF M] by auto
          next
            case False
            then have "sendfile_loop from_file to_socket len fr1 (tt + n) eof1 s2 = (res, s')"
              using "1.prems"(2) step pos a Inr by simp
            then show ?thesis using False P pos le1
              by (intro "1.hyps"[OF _ moving_to[OF M a[unfolded Inr]]]) (auto split: if_splits)
          qed
        qed
      qed
    qed
  qed
qed

end

section \<open>A reader, a writer and a kernel\<close>

text \<open>\<open>CountingReader\<close> and \<open>ChunkedWriter\<close>, the trait implementations of \<open>util/async_wrap.rs\<close>.\<close>

record counting_reader =
  cr_data :: "byte list"
  cr_offset :: nat
  cr_reads :: nat

definition counting_read :: "nat \<Rightarrow> counting_reader \<Rightarrow> nat io_result \<times> byte list \<times> counting_reader" where
  "counting_read cap r =
     (let r1 = r\<lparr>cr_reads := cr_reads r + 1\<rparr> in
      if length (cr_data r) \<le> cr_offset r then (Inr 0, [], r1)
      else (let read_len = min (length (cr_data r) - cr_offset r) cap
            in (Inr read_len, take read_len (drop (cr_offset r) (cr_data r)),
                r1\<lparr>cr_offset := cr_offset r + read_len\<rparr>)))"

record chunked_writer =
  cw_data :: "byte list"
  cw_writes :: nat
  cw_flushed :: bool
  cw_chunk_size :: nat

definition chunked_write :: "byte list \<Rightarrow> chunked_writer \<Rightarrow> nat io_result \<times> chunked_writer" where
  "chunked_write xs w =
     (if length xs = 0 then (Inr 0, w)
      else (let write_len = min (length xs) (max (cw_chunk_size w) 1)
            in (Inr write_len, w\<lparr>cw_writes := cw_writes w + 1, cw_data := cw_data w @ take write_len xs\<rparr>)))"

definition chunked_flush :: "chunked_writer \<Rightarrow> unit io_result \<times> chunked_writer" where
  "chunked_flush w = (Inr (), w\<lparr>cw_flushed := True\<rparr>)"

interpretation counting: async_reader counting_read "\<lambda>r. drop (cr_offset r) (cr_data r)"
  by unfold_locales (auto simp: counting_read_def Let_def min_def add.commute split: if_splits
      simp flip: drop_drop)

interpretation chunked: async_writer chunked_write chunked_flush cw_data
  by unfold_locales (auto simp: chunked_write_def chunked_flush_def Let_def min_def split: if_splits)

interpretation demo_copy: copy_io counting_read "\<lambda>r. drop (cr_offset r) (cr_data r)" chunked_write chunked_flush cw_data
  by unfold_locales

lemma counting_read_total: "\<exists>n bytes r'. counting_read cap r = (Inr n, bytes, r')"
  by (simp add: counting_read_def Let_def)

lemma chunked_write_progress: "xs \<noteq> [] \<Longrightarrow> \<exists>n w'. chunked_write xs w = (Inr n, w') \<and> 0 < n"
  by (simp add: chunked_write_def Let_def)

lemma chunked_flush_ok: "\<exists>w'. chunked_flush w = (Inr (), w')"
  by (simp add: chunked_flush_def)

text \<open>A kernel that moves at most three bytes per call, with file, pipe and socket as lists.\<close>

type_synonym demo_kernel = "byte list \<times> byte list \<times> byte list"

definition demo_from_file :: "nat \<Rightarrow> demo_kernel \<Rightarrow> nat io_result \<times> demo_kernel" where
  "demo_from_file m = (\<lambda>(f, p, s). let n = min (min m 3) (length f) in (Inr n, (drop n f, p @ take n f, s)))"

definition demo_to_socket :: "nat \<Rightarrow> demo_kernel \<Rightarrow> nat io_result \<times> demo_kernel" where
  "demo_to_socket m = (\<lambda>(f, p, s). let n = min (min m 2) (length p) in (Inr n, (f, drop n p, s @ take n p)))"

interpretation demo_kernel: sendfile_kernel demo_from_file demo_to_socket fst "fst \<circ> snd" "snd \<circ> snd"
  by unfold_locales (auto simp: demo_from_file_def demo_to_socket_def Let_def min_def split: prod.splits if_splits)

section \<open>Properties\<close>

text \<open>
  C24: \<open>copy\<close> transfers everything and returns. For a reader that resolves without errors and a writer
  that accepts at least one byte whenever it is offered any, the transfer ends, the sink has
  received exactly the bytes of the source, in order, the source is at its end and the result is
  the number of bytes (saturated to 64 bits), if the final flush succeeds.
\<close>

theorem copy_transfers_everything:
  assumes "copy_io rd source wr flush sink"
    and "\<And>r. \<exists>n bytes r'. rd COPY_BUFFER r = (Inr n, bytes, r')"
    and "\<And>xs w. xs \<noteq> [] \<Longrightarrow> \<exists>n w'. wr xs w = (Inr n, w') \<and> 0 < n"
    and "\<And>w. \<exists>w'. flush w = (Inr (), w')"
  shows "\<exists>r' w'. copy rd wr flush r w = Some (Resolved (Inr (min (length (source r)) (U64_LIMIT - 1))), r', w') \<and>
    sink w' = sink w @ source r \<and> source r' = []"
proof -
  obtain r' w' where l: "copy_loop rd wr 0 r w =
      Some (Resolved (Inr (saturating_add 0 (length (source r)))), r', w')"
    "sink w' = sink w @ source r" "source r' = []"
    using copy_io.copy_loop_moves[OF assms(1) assms(2,3), of 0 r w] by auto
  obtain w'' where f: "flush w' = (Inr (), w'')" using assms(4) by blast
  have "sink w'' = sink w'"
    using async_writer.flush_sink[OF copy_io.axioms(2)[OF assms(1)] f] .
  then show ?thesis using l f by (auto simp: copy_def saturating_add_def)
qed

theorem copy_transfers_everything_witness:
  "\<exists>r' w'. copy counting_read chunked_write chunked_flush \<lparr>cr_data = [1, 2, 3, 4, 5], cr_offset = 0, cr_reads = 0\<rparr>
       \<lparr>cw_data = [], cw_writes = 0, cw_flushed = False, cw_chunk_size = 2\<rparr> = Some (Resolved (Inr 5), r', w') \<and>
     cw_data w' = [1, 2, 3, 4, 5]"
  using copy_transfers_everything[OF demo_copy.copy_io_axioms counting_read_total chunked_write_progress chunked_flush_ok,
      of "\<lparr>cr_data = [1, 2, 3, 4, 5], cr_offset = 0, cr_reads = 0\<rparr>"
         "\<lparr>cw_data = [], cw_writes = 0, cw_flushed = False, cw_chunk_size = 2\<rparr>"]
  by auto

text \<open>
  An interrupted \<open>copy\<close> has written a prefix. Whatever errors reader and writer report, a transfer
  that ends never panics and leaves in the sink a prefix of the source, and the whole source if it
  reports success.
\<close>

theorem copy_writes_prefix:
  assumes "copy_io rd source wr flush sink" and "copy rd wr flush r w = Some (res, r', w')"
  shows "\<exists>k \<le> length (source r). sink w' = sink w @ take k (source r) \<and> res \<noteq> Panicked \<and>
    (\<forall>m. res = Resolved (Inr m) \<longrightarrow> k = length (source r))"
proof -
  obtain res1 r1 w1 where l: "copy_loop rd wr 0 r w = Some (res1, r1, w1)"
    using assms(2) by (auto simp: copy_def split: option.splits prod.splits outcome.splits sum.splits)
  obtain k where k: "k \<le> length (source r)" "sink w1 = sink w @ take k (source r)" "res1 \<noteq> Panicked"
    "\<forall>m. res1 = Resolved (Inr m) \<longrightarrow> k = length (source r)"
    using copy_io.copy_loop_prefix[OF assms(1) l] by blast
  have "sink w' = sink w1 \<and> res \<noteq> Panicked \<and> (\<forall>m. res = Resolved (Inr m) \<longrightarrow> (\<exists>m. res1 = Resolved (Inr m)))"
    using assms(2) l k(3) async_writer.flush_sink[OF copy_io.axioms(2)[OF assms(1)]]
    by (auto simp: copy_def split: outcome.splits sum.splits prod.splits)
  then show ?thesis using k by metis
qed

theorem copy_writes_prefix_witness:
  "\<exists>k res r' w'. copy counting_read chunked_write chunked_flush \<lparr>cr_data = [7, 8], cr_offset = 0, cr_reads = 0\<rparr>
       \<lparr>cw_data = [], cw_writes = 0, cw_flushed = False, cw_chunk_size = 1\<rparr> = Some (res, r', w') \<and>
     cw_data w' = take k [7, 8]"
proof -
  let ?r = "\<lparr>cr_data = [7, 8], cr_offset = 0, cr_reads = 0\<rparr>"
  let ?w = "\<lparr>cw_data = [], cw_writes = 0, cw_flushed = False, cw_chunk_size = 1\<rparr>"
  have "\<exists>r1 w1. copy_loop counting_read chunked_write 0 ?r ?w =
      Some (Resolved (Inr (saturating_add 0 (length (drop (cr_offset ?r) (cr_data ?r))))), r1, w1) \<and>
      cw_data w1 = cw_data ?w @ drop (cr_offset ?r) (cr_data ?r) \<and> drop (cr_offset r1) (cr_data r1) = []"
    by (rule demo_copy.copy_loop_moves[OF counting_read_total chunked_write_progress]) simp_all
  then obtain res r' w' where c: "copy counting_read chunked_write chunked_flush ?r ?w = Some (res, r', w')"
    by (auto simp: copy_def chunked_flush_def)
  from copy_writes_prefix[OF demo_copy.copy_io_axioms c] c show ?thesis by auto
qed

text \<open>
  \<open>sendfile_exact\<close> on the completion driver sends a prefix of the file. Through its pipe, with
  partial transfers in both directions, it never panics; the socket receives the first \<open>k\<close> bytes
  of the file for some \<open>k\<close> up to the requested length, a success reports exactly this \<open>k\<close>, and
  \<open>k\<close> is the requested length or the length of the file unless the socket stops accepting bytes.
\<close>

theorem sendfile_sends_prefix:
  assumes "sendfile_kernel from_file to_socket infile pipe sock" and "pipe s = []"
    and "sendfile_exact_completion None None from_file to_socket len s = (res, s')"
  shows "\<exists>k. k \<le> len \<and> k \<le> length (infile s) \<and> sock s' = sock s @ take k (infile s) \<and>
    (\<exists>x. res = Resolved x \<and> (\<forall>t. x = Inr t \<longrightarrow> t = k \<and>
       ((\<forall>m s n s1. to_socket m s = (Inr n, s1) \<longrightarrow> 0 < m \<longrightarrow> pipe s \<noteq> [] \<longrightarrow> 0 < n) \<longrightarrow> k = min len (length (infile s)))))"
proof -
  have "sendfile_kernel.moving infile pipe sock (infile s) (sock s) len 0 0 False s"
    using assms(2) by (simp add: sendfile_kernel.moving_def[OF assms(1)])
  from sendfile_kernel.sendfile_loop_sends[OF assms(1) this] assms(3) show ?thesis
    by (simp add: sendfile_exact_completion_def sendfile_kernel.sent_def[OF assms(1)])
qed

theorem sendfile_sends_prefix_witness:
  "\<exists>t s'. sendfile_exact_completion None None demo_from_file demo_to_socket 4 ([1, 2, 3, 4, 5], [], []) =
       (Resolved (Inr t), s') \<and> t = 4 \<and> snd (snd s') = [1, 2, 3, 4]"
proof -
  let ?s = "([1, 2, 3, 4, 5], [], []) :: demo_kernel"
  have run: "sendfile_exact_completion None None demo_from_file demo_to_socket 4 ?s =
      (Resolved (Inr 4), ([5], [], [1, 2, 3, 4]))"
    by (simp add: sendfile_exact_completion_def sendfile_loop.simps fill_pipe_def demo_from_file_def
        demo_to_socket_def Let_def min_def)
  have "(fst \<circ> snd) ?s = []" by simp
  from sendfile_sends_prefix[OF demo_kernel.sendfile_kernel_axioms this run] run show ?thesis by auto
qed

end
