(* ===== verification/Async_Wrap.thy ===== *)
theory Async_Wrap
  imports Io_Copy
begin

text \<open>
  \<open>AsyncWrap\<close> (\<open>util/async_wrap.rs\<close>), which offers a reader or writer of this library through the
  poll-style traits of \<open>tokio\<close>. A boxed future is the state it owns: the wrapped object and, for
  a write, the bytes left and the count so far. Polling the wrapped object once is a parameter
  (\<open>pr\<close>, \<open>pw\<close>, \<open>pf\<close>). A panic of the read path is \<open>None\<close>.
\<close>

definition BUFFER_SIZE :: nat where "BUFFER_SIZE = 4096"

record 't async_wrap =
  aw_inner :: "'t option"
  aw_read_buf :: "(byte list \<times> nat \<times> nat) option"
  aw_read_fut :: "'t option"
  aw_write_fut :: "(byte list \<times> nat \<times> 't) option"
  aw_flush_fut :: "'t option"

definition wrap_new :: "'t \<Rightarrow> 't async_wrap" where
  "wrap_new t = \<lparr>aw_inner = Some t, aw_read_buf = None, aw_read_fut = None, aw_write_fut = None, aw_flush_fut = None\<rparr>"

text \<open>Slicing panics out of range.\<close>

definition slice :: "'a list \<Rightarrow> nat \<Rightarrow> nat \<Rightarrow> 'a list option" where
  "slice xs a b = (if a \<le> b \<and> b \<le> length xs then Some (take (b - a) (drop a xs)) else None)"

section \<open>Reading\<close>

definition serve_buffered ::
  "nat \<Rightarrow> byte list \<times> nat \<times> nat \<Rightarrow> 't async_wrap \<Rightarrow> (unit io_result poll \<times> byte list \<times> 't async_wrap) option" where
  "serve_buffered remaining = (\<lambda>(buf_read, advanced, n) w.
     if n < advanced then None
     else (let copy_len = min (n - advanced) remaining in
           case slice buf_read advanced (advanced + copy_len) of
             None \<Rightarrow> None
           | Some out \<Rightarrow> Some (Ready (Inr ()), out,
               w\<lparr>aw_read_buf := (if advanced + copy_len < n then Some (buf_read, advanced + copy_len, n) else None)\<rparr>)))"

definition poll_read_fut ::
  "(nat \<Rightarrow> 't \<Rightarrow> (nat io_result \<times> byte list) poll \<times> 't) \<Rightarrow> nat \<Rightarrow> 't \<Rightarrow> 't async_wrap
   \<Rightarrow> (unit io_result poll \<times> byte list \<times> 't async_wrap) option" where
  "poll_read_fut pr remaining t w =
     (case pr BUFFER_SIZE t of
        (Pending, t1) \<Rightarrow> Some (Pending, [], w\<lparr>aw_read_fut := Some t1\<rparr>)
      | (Ready (res, buf_read), t1) \<Rightarrow>
          (let w1 = w\<lparr>aw_read_fut := None, aw_inner := Some t1\<rparr> in
           case res of
             Inl err \<Rightarrow> Some (Ready (Inl err), [], w1)
           | Inr n \<Rightarrow>
               (let copy_len = min n remaining in
                case slice buf_read 0 copy_len of
                  None \<Rightarrow> None
                | Some out \<Rightarrow> Some (Ready (Inr ()), out,
                    if copy_len < n then w1\<lparr>aw_read_buf := Some (buf_read, copy_len, n)\<rparr> else w1))))"

definition poll_read ::
  "(nat \<Rightarrow> 't \<Rightarrow> (nat io_result \<times> byte list) poll \<times> 't) \<Rightarrow> nat \<Rightarrow> 't async_wrap
   \<Rightarrow> (unit io_result poll \<times> byte list \<times> 't async_wrap) option" where
  "poll_read pr remaining w =
     (if remaining = 0 then Some (Ready (Inr ()), [], w)
      else case aw_read_fut w of
             Some t \<Rightarrow> poll_read_fut pr remaining t w
           | None \<Rightarrow>
               (case aw_read_buf w of
                  Some b \<Rightarrow> serve_buffered remaining b (w\<lparr>aw_read_buf := None\<rparr>)
                | None \<Rightarrow>
                    (case aw_inner w of
                       None \<Rightarrow> Some (Ready (Inl (Simple OtherKind)), [], w)
                     | Some t \<Rightarrow> poll_read_fut pr remaining t (w\<lparr>aw_inner := None\<rparr>))))"

section \<open>Writing and flushing\<close>

datatype 't write_fut = WriteDone "nat io_result" 't | WritePending "byte list" nat 't | WritePanic

text \<open>
  The future of \<open>poll_write\<close>, polled once: it loops until the buffer is empty, an error occurs
  or the writer is not ready. \<open>None\<close> when the loop never ends; \<open>split_off\<close> past the end panics.
\<close>

partial_function (option) write_all ::
  "(byte list \<Rightarrow> 't \<Rightarrow> nat io_result poll \<times> 't) \<Rightarrow> byte list \<Rightarrow> nat \<Rightarrow> 't \<Rightarrow> 't write_fut option" where
  "write_all pw buf total_written t =
     (if buf = [] then Some (WriteDone (Inr total_written) t)
      else case pw buf t of
             (Pending, t1) \<Rightarrow> Some (WritePending buf total_written t1)
           | (Ready (Inl err), t1) \<Rightarrow> Some (WriteDone (Inl err) t1)
           | (Ready (Inr n), t1) \<Rightarrow>
               if length buf < n then Some WritePanic
               else write_all pw (drop n buf) (total_written + n) t1)"

definition poll_write_fut ::
  "(byte list \<Rightarrow> 't \<Rightarrow> nat io_result poll \<times> 't) \<Rightarrow> byte list \<times> nat \<times> 't \<Rightarrow> 't async_wrap
   \<Rightarrow> (nat io_result poll \<times> 't async_wrap) option option" where
  "poll_write_fut pw = (\<lambda>(buf, total_written, t) w.
     case write_all pw buf total_written t of
       None \<Rightarrow> None
     | Some WritePanic \<Rightarrow> Some None
     | Some (WritePending buf1 tot1 t1) \<Rightarrow> Some (Some (Pending, w\<lparr>aw_write_fut := Some (buf1, tot1, t1)\<rparr>))
     | Some (WriteDone res t1) \<Rightarrow> Some (Some (Ready res, w\<lparr>aw_write_fut := None, aw_inner := Some t1\<rparr>)))"

text \<open>The outer option is \<open>None\<close> for a poll that never returns, the inner one for a panic.\<close>

definition poll_write ::
  "(byte list \<Rightarrow> 't \<Rightarrow> nat io_result poll \<times> 't) \<Rightarrow> byte list \<Rightarrow> 't async_wrap
   \<Rightarrow> (nat io_result poll \<times> 't async_wrap) option option" where
  "poll_write pw buf w =
     (if buf = [] then Some (Some (Ready (Inr 0), w))
      else case aw_write_fut w of
             Some fut \<Rightarrow> poll_write_fut pw fut w
           | None \<Rightarrow>
               (case aw_inner w of
                  None \<Rightarrow> Some (Some (Ready (Inl (Simple OtherKind)), w))
                | Some t \<Rightarrow> poll_write_fut pw (buf, 0, t) (w\<lparr>aw_inner := None\<rparr>)))"

definition poll_flush ::
  "('t \<Rightarrow> unit io_result poll \<times> 't) \<Rightarrow> 't async_wrap \<Rightarrow> unit io_result poll \<times> 't async_wrap" where
  "poll_flush pf w =
     (case (case aw_flush_fut w of Some t \<Rightarrow> Some t | None \<Rightarrow> aw_inner w) of
        None \<Rightarrow> (Ready (Inl (Simple OtherKind)), w)
      | Some t \<Rightarrow>
          (let w1 = (if aw_flush_fut w = None then w\<lparr>aw_inner := None\<rparr> else w) in
           case pf t of
             (Pending, t1) \<Rightarrow> (Pending, w1\<lparr>aw_flush_fut := Some t1\<rparr>)
           | (Ready res, t1) \<Rightarrow> (Ready res, w1\<lparr>aw_flush_fut := None, aw_inner := Some t1\<rparr>)))"

definition poll_shutdown :: "'t async_wrap \<Rightarrow> unit io_result poll \<times> 't async_wrap" where
  "poll_shutdown w = (Ready (Inr ()), w)"

section \<open>The wrapped object is never lost\<close>

definition owners :: "'t async_wrap \<Rightarrow> 't list" where
  "owners w = (case aw_inner w of None \<Rightarrow> [] | Some t \<Rightarrow> [t]) @ (case aw_read_fut w of None \<Rightarrow> [] | Some t \<Rightarrow> [t]) @
     (case aw_write_fut w of None \<Rightarrow> [] | Some (b, n, t) \<Rightarrow> [t]) @ (case aw_flush_fut w of None \<Rightarrow> [] | Some t \<Rightarrow> [t])"

definition leftover :: "'t async_wrap \<Rightarrow> byte list" where
  "leftover w = (case aw_read_buf w of None \<Rightarrow> [] | Some (b, advanced, n) \<Rightarrow> take (n - advanced) (drop advanced b))"

definition wrap_inv :: "'t async_wrap \<Rightarrow> bool" where
  "wrap_inv w \<longleftrightarrow> length (owners w) = 1 \<and> (aw_read_fut w \<noteq> None \<longrightarrow> aw_read_buf w = None) \<and>
     (\<forall>b advanced n. aw_read_buf w = Some (b, advanced, n) \<longrightarrow> advanced < n \<and> n \<le> length b)"

lemma wrap_inv_new: "wrap_inv (wrap_new t)"
  by (simp add: wrap_inv_def wrap_new_def owners_def)

text \<open>
  \<open>pr\<close> polls a read of the wrapped object: when ready with \<open>n\<close>, the first \<open>n\<close> bytes of the
  returned buffer are the next bytes of the source.
\<close>

locale polled_reader =
  fixes pr :: "nat \<Rightarrow> 't \<Rightarrow> (nat io_result \<times> byte list) poll \<times> 't" and source :: "'t \<Rightarrow> byte list"
  assumes pr_ok: "pr cap t = (Ready (Inr n, buf), t') \<Longrightarrow> n \<le> length buf \<and> source t = take n buf @ source t'"
    and pr_eof: "pr cap t = (Ready (Inr 0, buf), t') \<Longrightarrow> 0 < cap \<Longrightarrow> source t = []"
    and pr_err: "pr cap t = (Ready (Inl err, buf), t') \<Longrightarrow> source t' = source t"
    and pr_pending: "pr cap t = (Pending, t') \<Longrightarrow> source t' = source t"
begin

text \<open>The bytes a wrapper has still to deliver.\<close>

definition pending_bytes :: "'t async_wrap \<Rightarrow> byte list" where
  "pending_bytes w = leftover w @ concat (map source (owners w))"

definition delivers :: "nat \<Rightarrow> 't async_wrap \<Rightarrow> (unit io_result poll \<times> byte list \<times> 't async_wrap) option \<Rightarrow> bool" where
  "delivers remaining w r \<longleftrightarrow> (\<exists>res out w'. r = Some (res, out, w') \<and> wrap_inv w' \<and> length out \<le> remaining \<and>
     pending_bytes w = out @ pending_bytes w' \<and>
     (res = Ready (Inr ()) \<longrightarrow> out = [] \<longrightarrow> remaining = 0 \<or> pending_bytes w = []))"

lemma serve_buffered_delivers:
  assumes "wrap_inv w" and "aw_read_buf w = Some b" and "0 < remaining"
  shows "delivers remaining w (serve_buffered remaining b (w\<lparr>aw_read_buf := None\<rparr>))"
proof -
  obtain buf adv n where b: "b = (buf, adv, n)" by (metis prod_cases3)
  have bd: "adv < n" "n \<le> length buf" and no: "aw_read_fut w = None"
    using assms(1,2) by (auto simp: wrap_inv_def b)
  define c where "c = min (n - adv) remaining"
  let ?w = "w\<lparr>aw_read_buf := (if adv + c < n then Some (buf, adv + c, n) else None)\<rparr>"
  have c: "0 < c" "adv + c \<le> n" "c \<le> remaining" using bd(1) assms(3) by (auto simp: c_def)
  have sb: "serve_buffered remaining b (w\<lparr>aw_read_buf := None\<rparr>) = Some (Ready (Inr ()), take c (drop adv buf), ?w)"
    using bd c(2) by (simp add: serve_buffered_def b slice_def c_def[symmetric] Let_def)
  have "leftover w = take (n - adv) (drop adv buf)" by (simp add: leftover_def assms(2) b)
  also have "\<dots> = take c (drop adv buf) @ take (n - (adv + c)) (drop (adv + c) buf)"
    using c(2) take_add[of c "n - (adv + c)" "drop adv buf"] by (simp add: add.commute)
  also have "take (n - (adv + c)) (drop (adv + c) buf) = leftover ?w" by (simp add: leftover_def)
  finally have "leftover w = take c (drop adv buf) @ leftover ?w" .
  moreover have "owners ?w = owners w" by (simp add: owners_def)
  moreover have "wrap_inv ?w" using assms(1) bd no by (auto simp: wrap_inv_def owners_def split: if_splits)
  moreover have "take c (drop adv buf) \<noteq> []" using c bd by simp
  ultimately show ?thesis unfolding delivers_def pending_bytes_def sb using c by auto
qed

text \<open>A wrapper whose object is in the read future or was just taken for it.\<close>

lemma poll_read_fut_delivers:
  assumes "owners (w\<lparr>aw_read_fut := None\<rparr>) = []" and "aw_read_buf w = None" and "0 < remaining"
    and "owners w0 = [t]" and "aw_read_buf w0 = None"
  shows "delivers remaining w0 (poll_read_fut pr remaining t w)"
proof -
  have none: "aw_inner w = None" "aw_write_fut w = None" "aw_flush_fut w = None"
    using assms(1) by (auto simp: owners_def split: option.splits prod.splits)
  have p0: "pending_bytes w0 = source t" using assms(4,5) by (simp add: pending_bytes_def leftover_def)
  obtain ans t1 where pr: "pr BUFFER_SIZE t = (ans, t1)" by fastforce
  show ?thesis
  proof (cases ans)
    case Pending
    then show ?thesis using pr pr_pending none assms(2) p0
      by (simp add: poll_read_fut_def delivers_def pending_bytes_def wrap_inv_def owners_def leftover_def)
  next
    case (Ready x)
    obtain res buf where x: "x = (res, buf)" by fastforce
    let ?w1 = "w\<lparr>aw_read_fut := None, aw_inner := Some t1\<rparr>"
    show ?thesis
    proof (cases res)
      case (Inl err)
      then show ?thesis using pr Ready x pr_err none assms(2) p0
        by (simp add: poll_read_fut_def delivers_def pending_bytes_def wrap_inv_def owners_def leftover_def)
    next
      case (Inr n)
      define c where "c = min n remaining"
      have ok: "n \<le> length buf" "source t = take n buf @ source t1"
        using pr_ok[of BUFFER_SIZE t n buf t1] pr Ready x Inr by auto
      have c: "c \<le> n" "c \<le> remaining" "c \<le> length buf" using ok(1) by (auto simp: c_def)
      let ?w2 = "if c < n then ?w1\<lparr>aw_read_buf := Some (buf, c, n)\<rparr> else ?w1"
      have r: "poll_read_fut pr remaining t w = Some (Ready (Inr ()), take c buf, ?w2)"
        using pr Ready x Inr c by (simp add: poll_read_fut_def slice_def c_def[symmetric] Let_def)
      have split: "take n buf = take c buf @ take (n - c) (drop c buf)" using c(1) take_add[of c "n - c" buf] by simp
      have left: "leftover ?w2 = take (n - c) (drop c buf)" using c(1) assms(2) by (simp add: leftover_def)
      have "owners ?w2 = [t1]" using none by (simp add: owners_def)
      then have "pending_bytes ?w2 = take (n - c) (drop c buf) @ source t1" unfolding pending_bytes_def left by simp
      then have "pending_bytes w0 = take c buf @ pending_bytes ?w2" unfolding p0 ok(2) split by simp
      moreover have "wrap_inv ?w2" using none assms(2) ok(1) by (auto simp: wrap_inv_def owners_def split: if_splits)
      moreover have "take c buf = [] \<Longrightarrow> source t = []"
        using pr_eof[of BUFFER_SIZE t buf t1] pr Ready x Inr c ok(1) assms(3)
        by (auto simp: c_def BUFFER_SIZE_def min_def split: if_splits)
      ultimately show ?thesis unfolding delivers_def r using c by (auto simp: p0)
    qed
  qed
qed

lemma poll_read_delivers:
  assumes "wrap_inv w"
  shows "delivers remaining w (poll_read pr remaining w)"
proof (cases "remaining = 0")
  case True
  then show ?thesis using assms by (simp add: poll_read_def delivers_def)
next
  case False
  then have pos: "0 < remaining" by simp
  have one: "length (owners w) = 1" using assms by (simp add: wrap_inv_def)
  show ?thesis
  proof (cases "aw_read_fut w")
    case (Some t)
    have "owners w = [t]" "owners (w\<lparr>aw_read_fut := None\<rparr>) = []"
      using one Some by (auto simp: owners_def split: option.splits prod.splits)
    moreover have "aw_read_buf w = None" using assms Some by (simp add: wrap_inv_def)
    ultimately show ?thesis using poll_read_fut_delivers[OF _ _ pos] Some False by (simp add: poll_read_def)
  next
    case no: None
    show ?thesis
    proof (cases "aw_read_buf w")
      case (Some b)
      then show ?thesis using serve_buffered_delivers[OF assms Some pos] no False by (simp add: poll_read_def)
    next
      case nb: None
      show ?thesis
      proof (cases "aw_inner w")
        case None
        then show ?thesis using assms no nb False by (simp add: poll_read_def delivers_def)
      next
        case (Some t)
        have "owners w = [t]" "owners (w\<lparr>aw_inner := None, aw_read_fut := None\<rparr>) = []"
          using one Some no by (auto simp: owners_def split: option.splits prod.splits)
        then show ?thesis using poll_read_fut_delivers[OF _ _ pos, of "w\<lparr>aw_inner := None\<rparr>" w t] Some no nb False
          by (simp add: poll_read_def)
      qed
    qed
  qed
qed

end

section \<open>Writing everything\<close>

text \<open>\<open>pw\<close> polls a write of the wrapped object: when ready with \<open>n\<close>, it has taken the first \<open>n\<close> bytes.\<close>

locale polled_writer =
  fixes pw :: "byte list \<Rightarrow> 't \<Rightarrow> nat io_result poll \<times> 't" and sink :: "'t \<Rightarrow> byte list"
  assumes pw_ok: "pw xs t = (Ready (Inr n), t') \<Longrightarrow> n \<le> length xs \<and> sink t' = sink t @ take n xs"
    and pw_err: "pw xs t = (Ready (Inl err), t') \<Longrightarrow> sink t' = sink t"
    and pw_pending: "pw xs t = (Pending, t') \<Longrightarrow> sink t' = sink t"
begin

text \<open>The loop has written \<open>k\<close> bytes of \<open>buf\<close> to a sink that held \<open>S\<close>.\<close>

fun wrote :: "nat \<Rightarrow> byte list \<Rightarrow> nat \<Rightarrow> byte list \<Rightarrow> 't write_fut \<Rightarrow> bool" where
  "wrote k buf tot S (WriteDone (Inr n) t') \<longleftrightarrow> k = length buf \<and> n = tot + k \<and> sink t' = S @ buf"
| "wrote k buf tot S (WriteDone (Inl err) t') \<longleftrightarrow> k \<le> length buf \<and> sink t' = S @ take k buf"
| "wrote k buf tot S (WritePending rest n t') \<longleftrightarrow> k \<le> length buf \<and> rest = drop k buf \<and> n = tot + k \<and>
     sink t' = S @ take k buf"
| "wrote k buf tot S WritePanic \<longleftrightarrow> False"

lemma wrote_add:
  assumes "wrote k (drop n buf) (tot + n) (S @ take n buf) r" and "n \<le> length buf"
  shows "wrote (n + k) buf tot S r"
proof (cases r)
  case (WriteDone res t')
  then show ?thesis using assms by (cases res) (auto simp: take_add)
qed (use assms in \<open>auto simp: take_add add.commute[of k n]\<close>)

text \<open>With a writer that never accepts nothing the loop ends, without a panic, and no byte is lost.\<close>

lemma write_all_ends:
  assumes progress: "\<And>xs t t'. xs \<noteq> [] \<Longrightarrow> pw xs t \<noteq> (Ready (Inr 0), t')"
  shows "\<exists>r k. write_all pw buf tot t = Some r \<and> wrote k buf tot (sink t) r"
proof (induction "length buf" arbitrary: buf tot t rule: less_induct)
  case less
  note step = write_all.simps[of pw buf tot t]
  obtain ans t1 where a: "pw buf t = (ans, t1)" by fastforce
  consider "buf = []" | "buf \<noteq> []" "ans = Pending" | err where "buf \<noteq> []" "ans = Ready (Inl err)"
    | n where "buf \<noteq> []" "ans = Ready (Inr n)" by (metis poll.exhaust sum.exhaust)
  then show ?case
  proof cases
    case 1
    have "write_all pw buf tot t = Some (WriteDone (Inr tot) t)" by (subst step) (simp add: 1)
    moreover have "wrote 0 buf tot (sink t) (WriteDone (Inr tot) t)" using 1 by simp
    ultimately show ?thesis by blast
  next
    case 2
    then have "write_all pw buf tot t = Some (WritePending buf tot t1)" using a by (simp add: step)
    moreover have "wrote 0 buf tot (sink t) (WritePending buf tot t1)" using pw_pending a 2 by simp
    ultimately show ?thesis by blast
  next
    case (3 err)
    then have "write_all pw buf tot t = Some (WriteDone (Inl err) t1)" using a by (simp add: step)
    moreover have "wrote 0 buf tot (sink t) (WriteDone (Inl err) t1)" using pw_err a 3 by simp
    ultimately show ?thesis by blast
  next
    case (4 n)
    have n: "0 < n" "n \<le> length buf" "sink t1 = sink t @ take n buf"
      using progress[of buf t t1] pw_ok[of buf t n t1] a 4 by (auto intro: gr0I)
    then have "length (drop n buf) < length buf" by simp
    from less.hyps[OF this] obtain r k where r: "write_all pw (drop n buf) (tot + n) t1 = Some r"
      "wrote k (drop n buf) (tot + n) (sink t1) r" by blast
    have "write_all pw buf tot t = Some r" using r(1) a 4 n(2) by (simp add: step)
    then show ?thesis using wrote_add[OF r(2)[unfolded n(3)] n(2)] by blast
  qed
qed

end

text \<open>A writer that is always ready with zero bytes keeps the loop going for ever.\<close>

lemma write_all_spins:
  assumes "\<And>xs t. \<exists>t'. pw xs t = (Ready (Inr 0), t')" and "buf \<noteq> []"
  shows "write_all pw buf tot t = None"
proof -
  have "write_all pw buf tot t = Some r \<Longrightarrow> (\<forall>xs t. \<exists>t'. pw xs t = (Ready (Inr 0), t')) \<longrightarrow> buf = []" for r
  proof (induction rule: write_all.raw_induct[rotated, consumes 1, case_names step])
    case (step rec pw buf tot t r)
    show ?case
    proof (intro impI, rule ccontr)
      assume zero: "\<forall>xs t. \<exists>t'. pw xs t = (Ready (Inr 0), t')" and "buf \<noteq> []"
      obtain t' where "pw buf t = (Ready (Inr 0), t')" using zero by blast
      then have "rec pw buf tot t' = Some r" using step(2) \<open>buf \<noteq> []\<close> by simp
      from step(1)[OF this] show False using zero \<open>buf \<noteq> []\<close> by simp
    qed
  qed
  then show ?thesis using assms by (cases "write_all pw buf tot t") auto
qed

section \<open>Properties\<close>

text \<open>
  A plain reader is one that is always ready, in a buffer padded to its capacity; a plain writer
  is always ready too.
\<close>

definition always_ready_read ::
  "(nat \<Rightarrow> 'r \<Rightarrow> nat io_result \<times> byte list \<times> 'r) \<Rightarrow> nat \<Rightarrow> 'r \<Rightarrow> (nat io_result \<times> byte list) poll \<times> 'r" where
  "always_ready_read rd cap r =
     (case rd cap r of (res, bytes, r') \<Rightarrow> (Ready (res, bytes @ replicate (cap - length bytes) 0), r'))"

definition always_ready_write ::
  "(byte list \<Rightarrow> 'w \<Rightarrow> nat io_result \<times> 'w) \<Rightarrow> byte list \<Rightarrow> 'w \<Rightarrow> nat io_result poll \<times> 'w" where
  "always_ready_write wr xs w = (case wr xs w of (res, w') \<Rightarrow> (Ready res, w'))"

sublocale async_reader \<subseteq> polled: polled_reader "always_ready_read rd" source
proof
  fix cap t n buf t'
  assume "always_ready_read rd cap t = (Ready (Inr n, buf), t')"
  then show "n \<le> length buf \<and> source t = take n buf @ source t'"
    using read_ok by (auto simp: always_ready_read_def split: prod.splits)
qed (auto simp: always_ready_read_def split: prod.splits dest: read_eof read_err)

sublocale async_writer \<subseteq> polled: polled_writer "always_ready_write wr" sink
  by unfold_locales (auto simp: always_ready_write_def split: prod.splits dest: write_ok write_err)

lemma poll_write_inv:
  assumes "wrap_inv w" and "poll_write pw buf w = Some (Some (res, w'))"
  shows "wrap_inv w'"
  using assms
  by (auto simp: poll_write_def poll_write_fut_def wrap_inv_def owners_def
      split: if_splits option.splits prod.splits write_fut.splits)

lemma poll_flush_inv:
  assumes "wrap_inv w" and "poll_flush pf w = (res, w')"
  shows "wrap_inv w'"
  using assms
  by (auto simp: poll_flush_def wrap_inv_def owners_def Let_def split: if_splits option.splits prod.splits poll.splits)

text \<open>
  C31: A wrapped reader delivers the bytes of the wrapped object, in order and without loss. From every
  state with one owner of the object and a well-formed buffer, a read poll does not panic, keeps
  this invariant, hands out at most the requested number of bytes, and what it hands out followed
  by what the wrapper has still to deliver is what the wrapper had to deliver before, whether the
  poll is served from the buffer, completes, fails or stays pending; a successful poll without
  bytes means the end of the stream.
\<close>

theorem wrapped_reads_in_order:
  assumes "polled_reader pr source" and "wrap_inv w"
  shows "\<exists>res out w'. poll_read pr remaining w = Some (res, out, w') \<and> wrap_inv w' \<and> length out \<le> remaining \<and>
    leftover w @ concat (map source (owners w)) = out @ leftover w' @ concat (map source (owners w')) \<and>
    (res = Ready (Inr ()) \<and> out = [] \<longrightarrow> remaining = 0 \<or> leftover w @ concat (map source (owners w)) = [])"
  using polled_reader.poll_read_delivers[OF assms]
  unfolding polled_reader.delivers_def[OF assms(1)] polled_reader.pending_bytes_def[OF assms(1)]
  by blast

abbreviation demo_wrapped :: "counting_reader async_wrap" where
  "demo_wrapped \<equiv> wrap_new \<lparr>cr_data = [97, 98, 99, 100], cr_offset = 0, cr_reads = 0\<rparr>"

theorem wrapped_reads_in_order_witness:
  "\<exists>res out w'. poll_read (always_ready_read counting_read) 3 demo_wrapped = Some (res, out, w') \<and> length out \<le> 3 \<and>
     out @ leftover w' @ concat (map (\<lambda>r. drop (cr_offset r) (cr_data r)) (owners w')) = [97, 98, 99, 100]"
  using wrapped_reads_in_order[OF counting.polled.polled_reader_axioms wrap_inv_new, of 3
      "\<lparr>cr_data = [97, 98, 99, 100], cr_offset = 0, cr_reads = 0\<rparr>"]
  by (auto simp: wrap_new_def owners_def leftover_def)

text \<open>
  A wrapped write takes the whole buffer. If the wrapped writer never accepts zero bytes, polling
  a write on an idle wrapper returns; when it is ready with a number, that is the length of the
  buffer and the writer has received exactly its bytes; when it is pending, the future holds the
  rest of the buffer and the writer has received what is missing from it.
\<close>

theorem wrapped_write_takes_everything:
  assumes "polled_writer pw sink" and "\<And>xs t t'. xs \<noteq> [] \<Longrightarrow> pw xs t \<noteq> (Ready (Inr 0), t')"
    and "aw_inner w = Some t" and "aw_write_fut w = None" and "buf \<noteq> []"
  shows "\<exists>res w'. poll_write pw buf w = Some (Some (res, w')) \<and>
    (\<forall>n. res = Ready (Inr n) \<longrightarrow> n = length buf \<and> (\<exists>t'. aw_inner w' = Some t' \<and> sink t' = sink t @ buf)) \<and>
    (res = Pending \<longrightarrow> (\<exists>k t'. aw_write_fut w' = Some (drop k buf, k, t') \<and> sink t' = sink t @ take k buf))"
proof -
  obtain r k where r: "write_all pw buf 0 t = Some r" and k: "polled_writer.wrote sink k buf 0 (sink t) r"
    using polled_writer.write_all_ends[OF assms(1,2)] by blast
  note wrote = polled_writer.wrote.simps[OF assms(1)]
  show ?thesis
  proof (cases r)
    case (WriteDone res t')
    then show ?thesis using r k assms(3-5)
      by (cases res) (auto simp: wrote poll_write_def poll_write_fut_def)
  next
    case (WritePending rest n t')
    then show ?thesis using r k assms(3-5) by (auto simp: wrote poll_write_def poll_write_fut_def)
  next
    case WritePanic
    then show ?thesis using k by (simp add: wrote)
  qed
qed

theorem wrapped_write_takes_everything_witness:
  "\<exists>res w'. poll_write (always_ready_write chunked_write) [104, 105, 33]
       (wrap_new \<lparr>cw_data = [], cw_writes = 0, cw_flushed = False, cw_chunk_size = 2\<rparr>) = Some (Some (res, w')) \<and>
     (\<forall>n. res = Ready (Inr n) \<longrightarrow> n = 3)"
proof -
  have "always_ready_write chunked_write xs t \<noteq> (Ready (Inr 0), t')" if "xs \<noteq> []" for xs t t'
    using chunked_write_progress[OF that, of t] by (auto simp: always_ready_write_def)
  note P = wrapped_write_takes_everything[OF chunked.polled.polled_writer_axioms this]
  let ?t = "\<lparr>cw_data = [], cw_writes = 0, cw_flushed = False, cw_chunk_size = 2\<rparr>"
  have w: "aw_inner (wrap_new ?t) = Some ?t" "aw_write_fut (wrap_new ?t) = None" by (simp_all add: wrap_new_def)
  have "[104, 105, 33 :: byte] \<noteq> []" by simp
  from P[OF _ w this] obtain res w' where "poll_write (always_ready_write chunked_write) [104, 105, 33] (wrap_new ?t) =
      Some (Some (res, w'))" "\<forall>n. res = Ready (Inr n) \<longrightarrow> n = length [104, 105, 33 :: byte]" by blast
  then show ?thesis by (intro exI[of _ res] exI[of _ w']) (simp add: numeral_3_eq_3)
qed

text \<open>
  A wrapped write can spin. If the wrapped writer keeps resolving with zero bytes, which \<open>copy\<close>
  reports as an error, the write poll of the wrapper never returns and blocks its thread.
\<close>

theorem wrapped_write_spins_on_zero:
  assumes "\<And>xs t. \<exists>t'. pw xs t = (Ready (Inr 0), t')"
    and "aw_inner w = Some t" and "aw_write_fut w = None" and "buf \<noteq> []"
  shows "poll_write pw buf w = None"
  using write_all_spins[OF assms(1,4)] assms(2-4) by (simp add: poll_write_def poll_write_fut_def)

theorem wrapped_write_spins_on_zero_witness:
  "poll_write (\<lambda>xs t. (Ready (Inr 0), t)) [104, 105] (wrap_new ()) = None"
  by (rule wrapped_write_spins_on_zero) (simp_all add: wrap_new_def)

end
