(* ===== verification/Fs_Open.thy ===== *)
theory Fs_Open
  imports Io_Ops
begin

text \<open>
  Opening files (\<open>fs/open_options.rs\<close>): the option bits, their validation, the flags of the
  completion path and, for the blocking path, those of \<open>std::fs::OpenOptions\<close> on Unix. The
  answers of the kernel, of the thread pool and of \<open>metadata\<close> are arguments.
\<close>

unbundle bit_operations_syntax

section \<open>The option bits\<close>

type_synonym option_flags = "8 word"

definition OPEN_READ :: option_flags where "OPEN_READ = 1"
definition OPEN_WRITE :: option_flags where "OPEN_WRITE = 2"
definition OPEN_APPEND :: option_flags where "OPEN_APPEND = 4"
definition OPEN_TRUNCATE :: option_flags where "OPEN_TRUNCATE = 8"
definition OPEN_CREATE :: option_flags where "OPEN_CREATE = 16"
definition OPEN_CREATE_NEW :: option_flags where "OPEN_CREATE_NEW = 32"

lemmas open_bit_defs = OPEN_READ_def OPEN_WRITE_def OPEN_APPEND_def OPEN_TRUNCATE_def OPEN_CREATE_def OPEN_CREATE_NEW_def

definition has_flag :: "option_flags \<Rightarrow> option_flags \<Rightarrow> bool" where
  "has_flag flag bits = (bits AND flag \<noteq> 0)"

definition flags_set :: "option_flags \<Rightarrow> bool \<Rightarrow> option_flags \<Rightarrow> option_flags" where
  "flags_set flag v bits = (if v then bits OR flag else bits AND NOT flag)"

definition options_new :: option_flags where
  "options_new = 0"

text \<open>The six setters of the builder.\<close>

definition opt_read :: "bool \<Rightarrow> option_flags \<Rightarrow> option_flags" where "opt_read = flags_set OPEN_READ"
definition opt_write :: "bool \<Rightarrow> option_flags \<Rightarrow> option_flags" where "opt_write = flags_set OPEN_WRITE"
definition opt_append :: "bool \<Rightarrow> option_flags \<Rightarrow> option_flags" where "opt_append = flags_set OPEN_APPEND"
definition opt_truncate :: "bool \<Rightarrow> option_flags \<Rightarrow> option_flags" where "opt_truncate = flags_set OPEN_TRUNCATE"
definition opt_create :: "bool \<Rightarrow> option_flags \<Rightarrow> option_flags" where "opt_create = flags_set OPEN_CREATE"
definition opt_create_new :: "bool \<Rightarrow> option_flags \<Rightarrow> option_flags" where "opt_create_new = flags_set OPEN_CREATE_NEW"

lemmas opt_defs = opt_read_def opt_write_def opt_append_def opt_truncate_def opt_create_def opt_create_new_def

section \<open>Validation and flags\<close>

definition open_validate :: "option_flags \<Rightarrow> unit io_result" where
  "open_validate bits =
     (let writing = has_flag OPEN_WRITE bits \<or> has_flag OPEN_APPEND bits in
      if \<not> has_flag OPEN_READ bits \<and> \<not> writing then Inl (Simple InvalidInput)
      else if (has_flag OPEN_TRUNCATE bits \<or> has_flag OPEN_CREATE bits \<or> has_flag OPEN_CREATE_NEW bits) \<and> \<not> writing
      then Inl (Simple InvalidInput)
      else Inr ())"

type_synonym oflag = "32 word"

abbreviation (input) O_RDONLY :: oflag where "O_RDONLY \<equiv> 0"
abbreviation (input) O_WRONLY :: oflag where "O_WRONLY \<equiv> 1"
abbreviation (input) O_RDWR :: oflag where "O_RDWR \<equiv> 2"
abbreviation (input) O_CREAT :: oflag where "O_CREAT \<equiv> 0x40"
abbreviation (input) O_EXCL :: oflag where "O_EXCL \<equiv> 0x80"
abbreviation (input) O_TRUNC :: oflag where "O_TRUNC \<equiv> 0x200"
abbreviation (input) O_APPEND :: oflag where "O_APPEND \<equiv> 0x400"
abbreviation (input) O_CLOEXEC :: oflag where "O_CLOEXEC \<equiv> 0x80000"

text \<open>The flags that \<open>build_open_op\<close> computes, and the operation it builds.\<close>

definition open_oflags :: "option_flags \<Rightarrow> oflag io_result" where
  "open_oflags bits =
     (let writing = has_flag OPEN_WRITE bits \<or> has_flag OPEN_APPEND bits;
          access = (case (has_flag OPEN_READ bits, writing) of
                      (True, False) \<Rightarrow> Some O_RDONLY
                    | (False, True) \<Rightarrow> Some O_WRONLY
                    | (True, True) \<Rightarrow> Some O_RDWR
                    | (False, False) \<Rightarrow> None)
      in case access of
           None \<Rightarrow> Inl (Simple InvalidInput)
         | Some f0 \<Rightarrow>
             (let f1 = (if has_flag OPEN_APPEND bits then f0 OR O_APPEND else f0);
                  f2 = (if has_flag OPEN_TRUNCATE bits then f1 OR O_TRUNC else f1);
                  f3 = (if has_flag OPEN_CREATE_NEW bits then f2 OR (O_CREAT OR O_EXCL)
                        else if has_flag OPEN_CREATE bits then f2 OR O_CREAT else f2)
              in Inr (f3 OR O_CLOEXEC)))"

definition build_open_op :: "string \<Rightarrow> option_flags \<Rightarrow> open_op io_result" where
  "build_open_op path bits =
     (case open_oflags bits of
        Inl err \<Rightarrow> Inl err
      | Inr f \<Rightarrow>
          if CHR 0x00 \<in> set path then Inl (Simple InvalidInput)
          else Inr \<lparr>po_token = None, po_path = path, open_flags = sint f, open_mode = 438\<rparr>)"

text \<open>
  What \<open>std::fs::OpenOptions::open\<close> passes to \<open>open\<close> on Unix for the same six options
  (\<open>get_access_mode\<close> and \<open>get_creation_mode\<close> of the standard library).
\<close>

definition std_access :: "bool \<Rightarrow> bool \<Rightarrow> bool \<Rightarrow> oflag io_result" where
  "std_access r w a =
     (if a then Inr ((if r then O_RDWR else O_WRONLY) OR O_APPEND)
      else if r \<and> w then Inr O_RDWR else if r then Inr O_RDONLY else if w then Inr O_WRONLY
      else Inl (Os EINVAL))"

definition std_creation :: "bool \<Rightarrow> bool \<Rightarrow> bool \<Rightarrow> bool \<Rightarrow> bool \<Rightarrow> oflag io_result" where
  "std_creation w a t c n =
     (if a \<and> t \<and> \<not> n then Inl (Os EINVAL)
      else if \<not> a \<and> \<not> w \<and> (t \<or> c \<or> n) then Inl (Os EINVAL)
      else Inr (if n then O_CREAT OR O_EXCL
                else (if c then O_CREAT else 0) OR (if t then O_TRUNC else 0)))"

definition std_oflags :: "bool \<Rightarrow> bool \<Rightarrow> bool \<Rightarrow> bool \<Rightarrow> bool \<Rightarrow> bool \<Rightarrow> oflag io_result" where
  "std_oflags r w a t c n =
     (case std_access r w a of
        Inl err \<Rightarrow> Inl err
      | Inr f \<Rightarrow> (case std_creation w a t c n of Inl err \<Rightarrow> Inl err | Inr g \<Rightarrow> Inr (f OR g OR O_CLOEXEC)))"

text \<open>\<open>open_blocking\<close> copies the six options; the rest is the standard library's.\<close>

definition open_blocking :: "(string \<Rightarrow> oflag \<Rightarrow> nat io_result) \<Rightarrow> string \<Rightarrow> option_flags \<Rightarrow> nat io_result" where
  "open_blocking os_open path bits =
     (case std_oflags (has_flag OPEN_READ bits) (has_flag OPEN_WRITE bits) (has_flag OPEN_APPEND bits)
             (has_flag OPEN_TRUNCATE bits) (has_flag OPEN_CREATE bits) (has_flag OPEN_CREATE_NEW bits) of
        Inl err \<Rightarrow> Inl err
      | Inr f \<Rightarrow> if CHR 0x00 \<in> set path then Inl (Simple InvalidInput) else os_open path f)"

text \<open>In the pool the same call runs on a worker; \<open>pool\<close> says whether the job could be run.\<close>

definition open_in_blocking_pool ::
  "bool \<Rightarrow> (string \<Rightarrow> oflag \<Rightarrow> nat io_result) \<Rightarrow> string \<Rightarrow> option_flags \<Rightarrow> nat io_result" where
  "open_in_blocking_pool pool os_open path bits =
     (if pool then open_blocking os_open path bits else Inl (Simple OtherKind))"

text \<open>Where an open goes: the completion driver, the pool, or the calling thread.\<close>

datatype open_env = NoDriver | CompletionDriver | ReadinessDriver bool

definition initial_cursor_for_append :: "nat io_result \<Rightarrow> option_flags \<Rightarrow> u64 io_result" where
  "initial_cursor_for_append len bits = (if has_flag OPEN_APPEND bits then len else Inr 0)"

definition open_fd ::
  "open_env \<Rightarrow> bool \<Rightarrow> (string \<Rightarrow> oflag \<Rightarrow> nat io_result) \<Rightarrow> string \<Rightarrow> option_flags \<Rightarrow> nat io_result" where
  "open_fd env pool os_open path bits =
     (case env of
        CompletionDriver \<Rightarrow>
          (case build_open_op path bits of
             Inl err \<Rightarrow> Inl err
           | Inr op \<Rightarrow> os_open (po_path op) (word_of_int (open_flags op)))
      | ReadinessDriver offload \<Rightarrow>
          if offload then open_in_blocking_pool pool os_open path bits else open_blocking os_open path bits
      | NoDriver \<Rightarrow> open_blocking os_open path bits)"

text \<open>\<open>OpenOptions::open\<close>: the descriptor and the initial cursor of the file.\<close>

definition open_file ::
  "open_env \<Rightarrow> bool \<Rightarrow> (string \<Rightarrow> oflag \<Rightarrow> nat io_result) \<Rightarrow> (nat \<Rightarrow> nat io_result) \<Rightarrow> string \<Rightarrow> option_flags
   \<Rightarrow> (nat \<times> u64) io_result" where
  "open_file env pool os_open file_len path bits =
     (case open_validate bits of
        Inl err \<Rightarrow> Inl err
      | Inr _ \<Rightarrow>
          (case open_fd env pool os_open path bits of
             Inl err \<Rightarrow> Inl err
           | Inr fd \<Rightarrow> map_sum id (\<lambda>cursor. (fd, cursor)) (initial_cursor_for_append (file_len fd) bits)))"

definition file_open where
  "file_open env pool os_open file_len path = open_file env pool os_open file_len path (opt_read True options_new)"

definition file_create where
  "file_create env pool os_open file_len path =
     open_file env pool os_open file_len path (opt_truncate True (opt_create True (opt_write True options_new)))"

section \<open>The bits as six independent options\<close>

text \<open>The options as the builder's documentation has them.\<close>

record open_options =
  oo_read :: bool
  oo_write :: bool
  oo_append :: bool
  oo_truncate :: bool
  oo_create :: bool
  oo_create_new :: bool

definition options_of :: "option_flags \<Rightarrow> open_options" where
  "options_of bits = \<lparr>oo_read = has_flag OPEN_READ bits, oo_write = has_flag OPEN_WRITE bits,
     oo_append = has_flag OPEN_APPEND bits, oo_truncate = has_flag OPEN_TRUNCATE bits,
     oo_create = has_flag OPEN_CREATE bits, oo_create_new = has_flag OPEN_CREATE_NEW bits\<rparr>"

lemma has_flag_bit:
  "has_flag OPEN_READ bits = bit bits 0" "has_flag OPEN_WRITE bits = bit bits 1" "has_flag OPEN_APPEND bits = bit bits 2"
  "has_flag OPEN_TRUNCATE bits = bit bits 3" "has_flag OPEN_CREATE bits = bit bits 4" "has_flag OPEN_CREATE_NEW bits = bit bits 5"
proof -
  have f: "has_flag (2 ^ n) bits = bit bits n" if "n < 8" for n
    using that by (auto simp: has_flag_def and_exp_eq_0_iff_not_bit)
  show "has_flag OPEN_READ bits = bit bits 0" using f[of 0] by (simp add: open_bit_defs)
  show "has_flag OPEN_WRITE bits = bit bits 1" using f[of 1] by (simp add: open_bit_defs)
  show "has_flag OPEN_APPEND bits = bit bits 2" using f[of 2] by (simp add: open_bit_defs)
  show "has_flag OPEN_TRUNCATE bits = bit bits 3" using f[of 3] by (simp add: open_bit_defs)
  show "has_flag OPEN_CREATE bits = bit bits 4" using f[of 4] by (simp add: open_bit_defs)
  show "has_flag OPEN_CREATE_NEW bits = bit bits 5" using f[of 5] by (simp add: open_bit_defs)
qed

lemma bit_flags_set: "n < 8 \<Longrightarrow> bit (flags_set (2 ^ m) v bits) n = (if n = m then v else bit bits n)"
  by (auto simp: flags_set_def bit_or_iff bit_and_iff bit_not_iff bit_exp_iff)

lemma open_bits_exp:
  "OPEN_READ = 2 ^ 0" "OPEN_WRITE = 2 ^ 1" "OPEN_APPEND = 2 ^ 2" "OPEN_TRUNCATE = 2 ^ 3" "OPEN_CREATE = 2 ^ 4"
  "OPEN_CREATE_NEW = 2 ^ 5"
  by (simp_all add: open_bit_defs)

lemma bit_opt:
  assumes "n < 8"
  shows "bit (flags_set OPEN_READ v bits) n = (if n = 0 then v else bit bits n)"
    and "bit (flags_set OPEN_WRITE v bits) n = (if n = 1 then v else bit bits n)"
    and "bit (flags_set OPEN_APPEND v bits) n = (if n = 2 then v else bit bits n)"
    and "bit (flags_set OPEN_TRUNCATE v bits) n = (if n = 3 then v else bit bits n)"
    and "bit (flags_set OPEN_CREATE v bits) n = (if n = 4 then v else bit bits n)"
    and "bit (flags_set OPEN_CREATE_NEW v bits) n = (if n = 5 then v else bit bits n)"
  unfolding open_bits_exp by (rule bit_flags_set[OF assms])+

text \<open>
  The packed byte behaves like six independent options: a new builder has all of them off, and
  each setter changes its own option to the given value and no other.
\<close>

theorem options_refine_record:
  "options_of options_new = \<lparr>oo_read = False, oo_write = False, oo_append = False, oo_truncate = False,
       oo_create = False, oo_create_new = False\<rparr> \<and>
   options_of (opt_read v bits) = (options_of bits)\<lparr>oo_read := v\<rparr> \<and>
   options_of (opt_write v bits) = (options_of bits)\<lparr>oo_write := v\<rparr> \<and>
   options_of (opt_append v bits) = (options_of bits)\<lparr>oo_append := v\<rparr> \<and>
   options_of (opt_truncate v bits) = (options_of bits)\<lparr>oo_truncate := v\<rparr> \<and>
   options_of (opt_create v bits) = (options_of bits)\<lparr>oo_create := v\<rparr> \<and>
   options_of (opt_create_new v bits) = (options_of bits)\<lparr>oo_create_new := v\<rparr>"
  by (simp add: options_of_def has_flag_bit opt_defs bit_opt options_new_def)

text \<open>The flags of both paths in terms of the six options.\<close>

definition std_flags_of :: "option_flags \<Rightarrow> oflag io_result" where
  "std_flags_of bits = std_oflags (has_flag OPEN_READ bits) (has_flag OPEN_WRITE bits) (has_flag OPEN_APPEND bits)
     (has_flag OPEN_TRUNCATE bits) (has_flag OPEN_CREATE bits) (has_flag OPEN_CREATE_NEW bits)"



text \<open>
  Opening for append with truncation depends on the driver. The blocking path fails with
  \<open>EINVAL\<close>, as the standard library does; the completion path accepts the options and hands the
  kernel both \<open>O_APPEND\<close> and \<open>O_TRUNC\<close>, so that the existing contents are lost.
\<close>

theorem append_truncate_depends_on_driver:
  assumes "has_flag OPEN_APPEND bits" and "has_flag OPEN_TRUNCATE bits" and "\<not> has_flag OPEN_CREATE_NEW bits"
    and "CHR 0x00 \<notin> set path"
  shows "open_fd NoDriver pool os_open path bits = Inl (Os EINVAL) \<and>
    (\<exists>f. open_fd CompletionDriver pool os_open path bits = os_open path f \<and> bit f 9 \<and> bit f 10)"
proof
  show "open_fd NoDriver pool os_open path bits = Inl (Os EINVAL)"
    using assms by (simp add: open_fd_def open_blocking_def std_oflags_def std_access_def std_creation_def)
  obtain f where f: "open_oflags bits = Inr f" "bit f 9" "bit f 10"
    using assms by (cases "has_flag OPEN_READ bits"; cases "has_flag OPEN_CREATE bits") (simp_all add: open_oflags_def)
  then show "\<exists>f. open_fd CompletionDriver pool os_open path bits = os_open path f \<and> bit f 9 \<and> bit f 10"
    using assms(4) by (auto simp: open_fd_def build_open_op_def)
qed

theorem append_truncate_depends_on_driver_witness:
  "open_fd NoDriver True (\<lambda>p f. Inr 3) ''log'' (opt_truncate True (opt_append True options_new)) = Inl (Os EINVAL) \<and>
   open_fd CompletionDriver True (\<lambda>p f. Inr 3) ''log'' (opt_truncate True (opt_append True options_new)) = Inr 3"
proof -
  let ?b = "opt_truncate True (opt_append True options_new)"
  have b: "?b = 12" by (simp add: opt_defs flags_set_def open_bit_defs options_new_def)
  have "has_flag OPEN_APPEND ?b" "has_flag OPEN_TRUNCATE ?b" "\<not> has_flag OPEN_CREATE_NEW ?b" "CHR 0x00 \<notin> set ''log''"
    unfolding b by (simp_all add: has_flag_def open_bit_defs)
  from append_truncate_depends_on_driver[OF this, of True "\<lambda>p f. Inr 3"] show ?thesis by blast
qed

text \<open>
  Options that fail validation never reach the system: nothing is opened, whatever the driver, the
  pool and the kernel are.
\<close>

lemma invalid_options_open_nothing:
  "open_validate bits = Inl err \<Longrightarrow> open_file env pool os_open file_len path bits = Inl err"
  by (simp add: open_file_def)

end
