(* ===== verification/Fs_File.thy ===== *)
theory Fs_File
  imports Io_Copy Fs_Open
begin

text \<open>
  Files (\<open>fs/file.rs\<close>) and the whole-file helpers of \<open>fs/paths.rs\<close>. The system is a record of
  operations on its own state: positioned reads and writes, duplicating the descriptor, and the
  blocking pool. An awaited operation is the answer it resolves with. Buffers carry their memory,
  their initialised length and the cursor of \<open>IoBufWithCursor\<close> (\<open>io/buf.rs\<close>).
\<close>

section \<open>Buffers with memory\<close>

record mem_buf =
  mb_mem :: "byte list"
  mb_len :: nat
  mb_fixed :: bool
  mb_cursor :: nat

text \<open>\<open>buf_len\<close> and \<open>buf_capacity\<close> behind the cursor; the former panics when it would be negative.\<close>

definition mb_avail :: "mem_buf \<Rightarrow> nat option" where
  "mb_avail b = (if mb_cursor b \<le> mb_len b then Some (mb_len b - mb_cursor b) else None)"

definition mb_room :: "mem_buf \<Rightarrow> nat" where
  "mb_room b = length (mb_mem b) - mb_cursor b"

definition mb_slice :: "mem_buf \<Rightarrow> byte list" where
  "mb_slice b = take (mb_len b - mb_cursor b) (drop (mb_cursor b) (mb_mem b))"

text \<open>Bytes stored at the pointer of the buffer.\<close>

definition overwrite :: "nat \<Rightarrow> byte list \<Rightarrow> byte list \<Rightarrow> byte list" where
  "overwrite off bs xs = take off xs @ bs @ drop (off + length bs) xs"

definition mb_store :: "byte list \<Rightarrow> mem_buf \<Rightarrow> mem_buf" where
  "mb_store bs b = b\<lparr>mb_mem := overwrite (mb_cursor b) bs (mb_mem b)\<rparr>"

definition mb_set_init :: "nat \<Rightarrow> mem_buf \<Rightarrow> mem_buf" where
  "mb_set_init n b = (if mb_fixed b then b else b\<lparr>mb_len := mb_cursor b + n\<rparr>)"

definition mb_advance :: "nat \<Rightarrow> mem_buf \<Rightarrow> mem_buf" where
  "mb_advance n b = b\<lparr>mb_cursor := mb_cursor b + n\<rparr>"

definition mb_into_inner :: "mem_buf \<Rightarrow> mem_buf" where
  "mb_into_inner b = b\<lparr>mb_cursor := 0\<rparr>"

section \<open>Reading and writing at an offset\<close>

text \<open>What became of a job given to the blocking pool.\<close>

datatype job = Ran | NotSpawned | JobPanicked

record 'f fs_ops =
  fs_pread :: "nat \<Rightarrow> nat \<Rightarrow> 'f \<Rightarrow> byte list io_result \<times> 'f"
  fs_pwrite :: "nat \<Rightarrow> byte list \<Rightarrow> 'f \<Rightarrow> nat io_result \<times> 'f"
  fs_clone :: "'f \<Rightarrow> os_answer \<times> 'f"
  fs_pool :: "'f \<Rightarrow> job \<times> 'f"

datatype file_io = CompletionIo | BlockingIo

definition read_at_blocking ::
  "'f fs_ops \<Rightarrow> mem_buf \<Rightarrow> u64 \<Rightarrow> 'f \<Rightarrow> nat io_result \<times> mem_buf \<times> 'f" where
  "read_at_blocking ops b off f =
     (case fs_pread ops off (length (mb_slice b)) f of
        (Inl err, f1) \<Rightarrow> (Inl err, b, f1)
      | (Inr bs, f1) \<Rightarrow> (Inr (length bs), mb_store bs b, f1))"

definition read_at_in_blocking_pool ::
  "'f fs_ops \<Rightarrow> mem_buf \<Rightarrow> u64 \<Rightarrow> 'f \<Rightarrow> nat outcome \<times> mem_buf \<times> 'f" where
  "read_at_in_blocking_pool ops b off f =
     (case fs_clone ops f of
        (Some err, f1) \<Rightarrow> (Resolved (Inl err), b, f1)
      | (None, f1) \<Rightarrow>
          (case fs_pool ops f1 of
             (Ran, f2) \<Rightarrow> (let (r, b1, f3) = read_at_blocking ops b off f2 in (Resolved r, b1, f3))
           | (NotSpawned, f2) \<Rightarrow> (Resolved (Inl (Simple OtherKind)), b, f2)
           | (JobPanicked, f2) \<Rightarrow> (Panicked, b, f2)))"

text \<open>\<open>ReadAtOp\<close> reads up to the capacity and then sets the initialised length.\<close>

definition read_at_completion ::
  "'f fs_ops \<Rightarrow> mem_buf \<Rightarrow> u64 \<Rightarrow> 'f \<Rightarrow> nat io_result \<times> mem_buf \<times> 'f" where
  "read_at_completion ops b off f =
     (case len_u32 (mb_room b) of
        Inl err \<Rightarrow> (Inl err, b, f)
      | Inr n \<Rightarrow>
          (case fs_pread ops off n f of
             (Inl err, f1) \<Rightarrow> (Inl err, b, f1)
           | (Inr bs, f1) \<Rightarrow> (Inr (length bs), mb_set_init (length bs) (mb_store bs b), f1)))"

definition read_at ::
  "file_io \<Rightarrow> bool \<Rightarrow> 'f fs_ops \<Rightarrow> mem_buf \<Rightarrow> u64 \<Rightarrow> 'f \<Rightarrow> nat outcome \<times> mem_buf \<times> 'f" where
  "read_at io offload ops b off f =
     (case mb_avail b of
        None \<Rightarrow> (Panicked, b, f)
      | Some n \<Rightarrow>
          if n = 0 then (Resolved (Inr 0), b, f)
          else (case io of
                  CompletionIo \<Rightarrow> (let (r, b1, f1) = read_at_completion ops b off f in (Resolved r, b1, f1))
                | BlockingIo \<Rightarrow>
                    if offload then read_at_in_blocking_pool ops b off f
                    else (let (r, b1, f1) = read_at_blocking ops b off f in (Resolved r, b1, f1))))"

definition write_at_blocking :: "'f fs_ops \<Rightarrow> mem_buf \<Rightarrow> u64 \<Rightarrow> 'f \<Rightarrow> nat io_result \<times> 'f" where
  "write_at_blocking ops b off f = fs_pwrite ops off (mb_slice b) f"

definition write_at_in_blocking_pool :: "'f fs_ops \<Rightarrow> mem_buf \<Rightarrow> u64 \<Rightarrow> 'f \<Rightarrow> nat outcome \<times> 'f" where
  "write_at_in_blocking_pool ops b off f =
     (case fs_clone ops f of
        (Some err, f1) \<Rightarrow> (Resolved (Inl err), f1)
      | (None, f1) \<Rightarrow>
          (case fs_pool ops f1 of
             (Ran, f2) \<Rightarrow> (let (r, f3) = write_at_blocking ops b off f2 in (Resolved r, f3))
           | (NotSpawned, f2) \<Rightarrow> (Resolved (Inl (Simple OtherKind)), f2)
           | (JobPanicked, f2) \<Rightarrow> (Panicked, f2)))"

definition write_at_completion :: "'f fs_ops \<Rightarrow> mem_buf \<Rightarrow> u64 \<Rightarrow> 'f \<Rightarrow> nat io_result \<times> 'f" where
  "write_at_completion ops b off f =
     (case len_u32 (length (mb_slice b)) of
        Inl err \<Rightarrow> (Inl err, f)
      | Inr _ \<Rightarrow> fs_pwrite ops off (mb_slice b) f)"

definition write_at ::
  "file_io \<Rightarrow> bool \<Rightarrow> 'f fs_ops \<Rightarrow> mem_buf \<Rightarrow> u64 \<Rightarrow> 'f \<Rightarrow> nat outcome \<times> 'f" where
  "write_at io offload ops b off f =
     (case mb_avail b of
        None \<Rightarrow> (Panicked, f)
      | Some n \<Rightarrow>
          if n = 0 then (Resolved (Inr 0), f)
          else (case io of
                  CompletionIo \<Rightarrow> map_prod Resolved id (write_at_completion ops b off f)
                | BlockingIo \<Rightarrow>
                    if offload then write_at_in_blocking_pool ops b off f
                    else map_prod Resolved id (write_at_blocking ops b off f)))"

text \<open>The loops of \<open>read_exact_at\<close> and \<open>write_exact_at\<close>.\<close>

text \<open>A read that returns: one positioned read of the slice or of the capacity, into the buffer.\<close>

definition read_len :: "file_io \<Rightarrow> mem_buf \<Rightarrow> nat" where
  "read_len io b = (case io of CompletionIo \<Rightarrow> mb_room b | BlockingIo \<Rightarrow> length (mb_slice b))"

definition read_into :: "file_io \<Rightarrow> byte list \<Rightarrow> mem_buf \<Rightarrow> mem_buf" where
  "read_into io bs b = (case io of CompletionIo \<Rightarrow> mb_set_init (length bs) (mb_store bs b) | BlockingIo \<Rightarrow> mb_store bs b)"

lemma read_at_ok:
  assumes "read_at io offload ops b off f = (Resolved (Inr n), b1, f1)" and "mb_cursor b < mb_len b"
  obtains bs fr where "fs_pread ops off (read_len io b) fr = (Inr bs, f1)" and "n = length bs" and "b1 = read_into io bs b"
    and "fr = f \<or> fr = snd (fs_pool ops (snd (fs_clone ops f)))"
proof (cases io)
  case CompletionIo
  then show ?thesis using assms that
    by (auto simp: read_at_def mb_avail_def read_at_completion_def read_len_def read_into_def len_u32_def Let_def
        split: if_splits sum.splits prod.splits)
next
  case BlockingIo
  show ?thesis
  proof (cases offload)
    case True
    then show ?thesis using assms BlockingIo that[where fr = "snd (fs_pool ops (snd (fs_clone ops f)))"]
      by (auto simp: read_at_def mb_avail_def read_at_in_blocking_pool_def read_at_blocking_def read_len_def read_into_def Let_def
          split: if_splits sum.splits prod.splits option.splits job.splits)
  next
    case False
    then show ?thesis using assms BlockingIo that
      by (auto simp: read_at_def mb_avail_def read_at_blocking_def read_len_def read_into_def Let_def
          split: if_splits sum.splits prod.splits)
  qed
qed

lemma read_into_simps [simp]:
  "mb_cursor (read_into io bs b) = mb_cursor b" "mb_fixed (read_into io bs b) = mb_fixed b"
  "mb_mem (read_into io bs b) = overwrite (mb_cursor b) bs (mb_mem b)"
  "mb_len (read_into io bs b) = (if io = CompletionIo \<and> \<not> mb_fixed b then mb_cursor b + length bs else mb_len b)"
  by (auto simp: read_into_def mb_set_init_def mb_store_def split: file_io.splits)

lemma mb_advance_simps [simp]:
  "mb_cursor (mb_advance n b) = mb_cursor b + n" "mb_fixed (mb_advance n b) = mb_fixed b"
  "mb_mem (mb_advance n b) = mb_mem b" "mb_len (mb_advance n b) = mb_len b"
  by (simp_all add: mb_advance_def)

lemma mb_avail_pos: "mb_avail b = Some m \<Longrightarrow> 0 < m \<Longrightarrow> mb_cursor b < mb_len b"
  by (simp add: mb_avail_def split: if_splits)

lemma read_at_shrinks:
  assumes "read_at io offload ops b off f = (Resolved (Inr n), b1, f1)" and "0 < n" and "mb_avail b = Some m" and "0 < m"
  shows "mb_len (mb_advance n b1) - mb_cursor (mb_advance n b1) < mb_len b - mb_cursor b"
proof -
  have lt: "mb_cursor b < mb_len b" using assms(3,4) by (rule mb_avail_pos)
  then have key: "mb_len b - (mb_cursor b + n) < mb_len b - mb_cursor b" using assms(2) by linarith
  show ?thesis by (rule read_at_ok[OF assms(1) lt]) (use lt key in auto)
qed

function read_exact_at ::
  "file_io \<Rightarrow> bool \<Rightarrow> 'f fs_ops \<Rightarrow> mem_buf \<Rightarrow> u64 \<Rightarrow> 'f \<Rightarrow> unit outcome \<times> mem_buf \<times> 'f" where
  "read_exact_at io offload ops b off f =
     (case mb_avail b of
        None \<Rightarrow> (Panicked, b, f)
      | Some m \<Rightarrow>
          if m = 0 then (Resolved (Inr ()), mb_into_inner b, f)
          else (case read_at io offload ops b off f of
                  (Panicked, b1, f1) \<Rightarrow> (Panicked, b1, f1)
                | (Resolved (Inl err), b1, f1) \<Rightarrow> (Resolved (Inl err), mb_into_inner b1, f1)
                | (Resolved (Inr n), b1, f1) \<Rightarrow>
                    if n = 0 then (Resolved (Inl (Simple UnexpectedEof)), mb_into_inner b1, f1)
                    else read_exact_at io offload ops (mb_advance n b1) (saturating_add off n) f1))"
  by pat_completeness auto

termination
  by (relation "measure (\<lambda>(io, offload, ops, b, off, f). mb_len b - mb_cursor b)") (auto dest: read_at_shrinks[OF sym])

declare read_exact_at.simps [simp del]

function write_exact_at ::
  "file_io \<Rightarrow> bool \<Rightarrow> 'f fs_ops \<Rightarrow> mem_buf \<Rightarrow> u64 \<Rightarrow> 'f \<Rightarrow> unit outcome \<times> mem_buf \<times> 'f" where
  "write_exact_at io offload ops b off f =
     (case mb_avail b of
        None \<Rightarrow> (Panicked, b, f)
      | Some m \<Rightarrow>
          if m = 0 then (Resolved (Inr ()), mb_into_inner b, f)
          else (case write_at io offload ops b off f of
                  (Panicked, f1) \<Rightarrow> (Panicked, b, f1)
                | (Resolved (Inl err), f1) \<Rightarrow> (Resolved (Inl err), mb_into_inner b, f1)
                | (Resolved (Inr n), f1) \<Rightarrow>
                    if n = 0 then (Resolved (Inl (Simple UnexpectedEof)), mb_into_inner b, f1)
                    else write_exact_at io offload ops (mb_advance n b) (saturating_add off n) f1))"
  by pat_completeness auto

termination
  by (relation "measure (\<lambda>(io, offload, ops, b, off, f). mb_len b - mb_cursor b)")
    (auto simp: mb_avail_def mb_advance_def split: if_splits)

declare write_exact_at.simps [simp del]

section \<open>Files with a cursor\<close>

record 'f file_handle =
  fl_io :: file_io
  fl_inner :: 'f
  fl_cursor :: u64

text \<open>\<open>AsyncRead\<close> and \<open>AsyncWrite\<close> of \<open>File\<close>; a panic leaves the cursor where it is.\<close>

definition file_read ::
  "bool \<Rightarrow> 'f fs_ops \<Rightarrow> mem_buf \<Rightarrow> 'f file_handle \<Rightarrow> nat outcome \<times> mem_buf \<times> 'f file_handle" where
  "file_read offload ops b fl =
     (case read_at (fl_io fl) offload ops b (fl_cursor fl) (fl_inner fl) of
        (Resolved (Inr n), b1, f1) \<Rightarrow>
          (Resolved (Inr n), b1, fl\<lparr>fl_inner := f1, fl_cursor := saturating_add (fl_cursor fl) n\<rparr>)
      | (r, b1, f1) \<Rightarrow> (r, b1, fl\<lparr>fl_inner := f1\<rparr>))"

definition file_write ::
  "bool \<Rightarrow> 'f fs_ops \<Rightarrow> mem_buf \<Rightarrow> 'f file_handle \<Rightarrow> nat outcome \<times> 'f file_handle" where
  "file_write offload ops b fl =
     (case write_at (fl_io fl) offload ops b (fl_cursor fl) (fl_inner fl) of
        (Resolved (Inr n), f1) \<Rightarrow> (Resolved (Inr n), fl\<lparr>fl_inner := f1, fl_cursor := saturating_add (fl_cursor fl) n\<rparr>)
      | (r, f1) \<Rightarrow> (r, fl\<lparr>fl_inner := f1\<rparr>))"

text \<open>
  A file is used through the driver if it supports completions and accepts the descriptor, and
  with blocking calls otherwise (\<open>from_std_with_cursor\<close>); dropping it, or turning it back into a
  standard file, deregisters the descriptor.
\<close>

definition from_std_with_cursor ::
  "('ms, 'r, 's, 'c) op_cfg \<Rightarrow> os_answer \<Rightarrow> raw_fd \<Rightarrow> 'f \<Rightarrow> u64 \<Rightarrow> ('ms, 'r, 's, 'c) any_driver option
   \<Rightarrow> 'f file_handle \<times> raw_handle option \<times> ('ms, 'r, 's, 'c) any_driver option" where
  "from_std_with_cursor cfg ans fd f cursor cur =
     (case cur of
        None \<Rightarrow> (\<lparr>fl_io = BlockingIo, fl_inner = f, fl_cursor = cursor\<rparr>, None, None)
      | Some drv \<Rightarrow>
          if any_supports_completion drv then
            (case new_with_driver_and_mode cfg ans fd READ_WRITE CompletionMode drv of
               (Inr h, drv1) \<Rightarrow> (\<lparr>fl_io = CompletionIo, fl_inner = f, fl_cursor = cursor\<rparr>, Some h, Some drv1)
             | (Inl _, drv1) \<Rightarrow> (\<lparr>fl_io = BlockingIo, fl_inner = f, fl_cursor = cursor\<rparr>, None, Some drv1))
          else (\<lparr>fl_io = BlockingIo, fl_inner = f, fl_cursor = cursor\<rparr>, None, Some drv))"

definition file_drop ::
  "('ms, 'r, 's, 'c) op_cfg \<Rightarrow> os_answer \<Rightarrow> raw_handle option \<Rightarrow> ('ms, 'r, 's, 'c) any_driver \<Rightarrow> ('ms, 'r, 's, 'c) any_driver" where
  "file_drop cfg ans h drv = (case h of None \<Rightarrow> drv | Some h \<Rightarrow> handle_drop cfg ans h drv)"

text \<open>\<open>sync_all\<close> and \<open>sync_data\<close>: \<open>sys\<close> is the answer of the kernel to either call.\<close>

definition sync_in_blocking_pool :: "'f fs_ops \<Rightarrow> ('f \<Rightarrow> unit io_result \<times> 'f) \<Rightarrow> 'f \<Rightarrow> unit io_result \<times> 'f" where
  "sync_in_blocking_pool ops sys f =
     (case fs_clone ops f of
        (Some err, f1) \<Rightarrow> (Inl err, f1)
      | (None, f1) \<Rightarrow>
          (case fs_pool ops f1 of
             (Ran, f2) \<Rightarrow> sys f2
           | (_, f2) \<Rightarrow> (Inl (Simple OtherKind), f2)))"

definition sync_all :: "bool \<Rightarrow> 'f fs_ops \<Rightarrow> (bool \<Rightarrow> 'f \<Rightarrow> unit io_result \<times> 'f) \<Rightarrow> 'f file_handle \<Rightarrow> unit io_result \<times> 'f" where
  "sync_all offload ops fsync fl =
     (case fl_io fl of
        CompletionIo \<Rightarrow> fsync False (fl_inner fl)
      | BlockingIo \<Rightarrow>
          if offload then sync_in_blocking_pool ops (fsync False) (fl_inner fl) else fsync False (fl_inner fl))"

definition sync_data :: "bool \<Rightarrow> 'f fs_ops \<Rightarrow> (bool \<Rightarrow> 'f \<Rightarrow> unit io_result \<times> 'f) \<Rightarrow> 'f file_handle \<Rightarrow> unit io_result \<times> 'f" where
  "sync_data offload ops fsync fl =
     (case fl_io fl of
        CompletionIo \<Rightarrow> fsync True (fl_inner fl)
      | BlockingIo \<Rightarrow>
          if offload then sync_in_blocking_pool ops (fsync True) (fl_inner fl) else fsync True (fl_inner fl))"

text \<open>Arrays, zeroed vectors and vectors with spare capacity only, as the callers make them.\<close>

definition array_buf :: "nat \<Rightarrow> mem_buf" where
  "array_buf n = \<lparr>mb_mem = replicate n 0, mb_len = n, mb_fixed = True, mb_cursor = 0\<rparr>"

definition empty_vec :: "nat \<Rightarrow> mem_buf" where
  "empty_vec n = \<lparr>mb_mem = replicate n 0, mb_len = 0, mb_fixed = False, mb_cursor = 0\<rparr>"

definition vec_buf :: "byte list \<Rightarrow> mem_buf" where
  "vec_buf xs = \<lparr>mb_mem = xs, mb_len = length xs, mb_fixed = False, mb_cursor = 0\<rparr>"

text \<open>
  The loop of \<open>fs::read\<close>: arrays of 8192 bytes until the end of the file (\<open>None\<close> if that never
  comes), and the loop of \<open>fs::write\<close>.
\<close>

partial_function (option) read_path_loop ::
  "bool \<Rightarrow> 'f fs_ops \<Rightarrow> mem_buf \<Rightarrow> byte list \<Rightarrow> 'f file_handle \<Rightarrow> (byte list outcome \<times> 'f file_handle) option" where
  "read_path_loop offload ops b bytes fl =
     (case file_read offload ops b fl of
        (Panicked, b1, fl1) \<Rightarrow> Some (Panicked, fl1)
      | (Resolved (Inl err), b1, fl1) \<Rightarrow> Some (Resolved (Inl err), fl1)
      | (Resolved (Inr n), b1, fl1) \<Rightarrow>
          if n = 0 then Some (Resolved (Inr bytes), fl1)
          else read_path_loop offload ops b1 (bytes @ take (min (mb_len b1) n) (mb_mem b1)) fl1)"

definition read_path :: "bool \<Rightarrow> 'f fs_ops \<Rightarrow> 'f file_handle \<Rightarrow> (byte list outcome \<times> 'f file_handle) option" where
  "read_path offload ops fl = read_path_loop offload ops (array_buf 8192) [] fl"

function write_path_loop ::
  "bool \<Rightarrow> 'f fs_ops \<Rightarrow> byte list \<Rightarrow> 'f file_handle \<Rightarrow> unit outcome \<times> 'f file_handle" where
  "write_path_loop offload ops xs fl =
     (if xs = [] then (Resolved (Inr ()), fl)
      else (case file_write offload ops (vec_buf xs) fl of
              (Panicked, fl1) \<Rightarrow> (Panicked, fl1)
            | (Resolved (Inl err), fl1) \<Rightarrow> (Resolved (Inl err), fl1)
            | (Resolved (Inr n), fl1) \<Rightarrow>
                if n = 0 then (Resolved (Inl (Simple WriteZero)), fl1)
                else if length xs < n then (Panicked, fl1)
                else write_path_loop offload ops (drop n xs) fl1))"
  by pat_completeness auto

termination
  by (relation "measure (\<lambda>(offload, ops, xs, fl). length xs)") auto

declare write_path_loop.simps [simp del]

section \<open>The system as a store of bytes\<close>

text \<open>A positioned write, padding a gap after the end with zeros.\<close>

definition file_put :: "nat \<Rightarrow> byte list \<Rightarrow> byte list \<Rightarrow> byte list" where
  "file_put off xs c =
     (if xs = [] then c else take off (c @ replicate (off - length c) 0) @ xs @ drop (off + length xs) c)"

lemma file_put_length: "xs \<noteq> [] \<Longrightarrow> length (file_put off xs c) = max (length c) (off + length xs)"
  by (auto simp: file_put_def)

lemma file_put_nth:
  assumes "xs \<noteq> []" and "i < length (file_put off xs c)"
  shows "file_put off xs c ! i =
    (if i < off then if i < length c then c ! i else 0 else if i < off + length xs then xs ! (i - off) else c ! i)"
  using assms by (auto simp: file_put_def nth_append min_def)

text \<open>Writing in two pieces is writing at once.\<close>

lemma file_put_append: "file_put (off + length xs) ys (file_put off xs c) = file_put off (xs @ ys) c"
proof (cases "xs = [] \<or> ys = []")
  case False
  then have ne: "xs \<noteq> []" "ys \<noteq> []" by auto
  show ?thesis
  proof (rule nth_equalityI)
    show "length (file_put (off + length xs) ys (file_put off xs c)) = length (file_put off (xs @ ys) c)"
      using ne by (simp add: file_put_length)
    fix i
    assume "i < length (file_put (off + length xs) ys (file_put off xs c))"
    then show "file_put (off + length xs) ys (file_put off xs c) ! i = file_put off (xs @ ys) c ! i"
      using ne by (auto simp: file_put_nth file_put_length nth_append)
  qed
qed (auto simp: file_put_def)

lemma file_put_nil [simp]: "file_put off [] c = c"
  by (simp add: file_put_def)

lemma file_put_at_end: "file_put (length c) xs c = c @ xs"
  by (simp add: file_put_def)

text \<open>
  The contract of \<open>pread\<close> and \<open>pwrite\<close> on a regular file that nobody else changes and that is not
  in append mode: reads may be short but are empty only at the end, writes may be short.
\<close>

locale file_store =
  fixes ops :: "'f fs_ops" and contents :: "'f \<Rightarrow> byte list"
  assumes pread_ok: "fs_pread ops off n f = (Inr bs, f') \<Longrightarrow>
      contents f' = contents f \<and> length bs \<le> n \<and> bs = take (length bs) (drop off (contents f))"
    and pread_eof: "fs_pread ops off n f = (Inr [], f') \<Longrightarrow> 0 < n \<Longrightarrow> length (contents f) \<le> off"
    and pread_err: "fs_pread ops off n f = (Inl err, f') \<Longrightarrow> contents f' = contents f"
    and pwrite_ok: "fs_pwrite ops off xs f = (Inr n, f') \<Longrightarrow> n \<le> length xs \<and> contents f' = file_put off (take n xs) (contents f)"
    and pwrite_err: "fs_pwrite ops off xs f = (Inl err, f') \<Longrightarrow> contents f' = contents f"
    and clone_keeps: "contents (snd (fs_clone ops f)) = contents f"
    and pool_keeps: "contents (snd (fs_pool ops f)) = contents f"

text \<open>A buffer whose slice is what a read may fill, in the given mode.\<close>

definition fillable :: "file_io \<Rightarrow> mem_buf \<Rightarrow> bool" where
  "fillable io b = (mb_cursor b \<le> mb_len b \<and> mb_len b \<le> length (mb_mem b) \<and>
     (io = CompletionIo \<longrightarrow> mb_fixed b \<and> mb_len b = length (mb_mem b)))"

lemma fillable_len: "fillable io b \<Longrightarrow> read_len io b = mb_len b - mb_cursor b"
  by (auto simp: fillable_def read_len_def mb_room_def mb_slice_def split: file_io.splits)

lemma length_overwrite [simp]: "off + length bs \<le> length xs \<Longrightarrow> length (overwrite off bs xs) = length xs"
  by (simp add: overwrite_def)

lemma take_overwrite: "off \<le> length xs \<Longrightarrow> take (off + length bs) (overwrite off bs xs) = take off xs @ bs"
  by (simp add: overwrite_def)

lemma fillable_step:
  assumes "fillable io b" and "length bs \<le> mb_len b - mb_cursor b"
  shows "fillable io (mb_advance (length bs) (read_into io bs b))"
  using assms by (auto simp: fillable_def)

lemma saturating_add_exact [simp]: "a + b < U64_LIMIT \<Longrightarrow> saturating_add a b = a + b"
  by (simp add: saturating_add_def)

lemma taken_within:
  assumes "bs = take n (drop off c)" and "n = length bs" and "0 < n"
  shows "off + n \<le> length c"
proof -
  have "length bs = min n (length c - off)" by (simp add: assms(1))
  then show ?thesis using assms(2,3) by linarith
qed

context file_store
begin

lemma read_at_reads:
  assumes "read_at io offload ops b off f = (Resolved (Inr n), b1, f1)" and "fillable io b" and "mb_cursor b < mb_len b"
  obtains bs where "n = length bs" and "b1 = read_into io bs b" and "contents f1 = contents f"
    and "n \<le> mb_len b - mb_cursor b" and "bs = take n (drop off (contents f))" and "n = 0 \<Longrightarrow> length (contents f) \<le> off"
proof (rule read_at_ok[OF assms(1,3)])
  fix bs fr
  assume p: "fs_pread ops off (read_len io b) fr = (Inr bs, f1)" and n: "n = length bs" and b1: "b1 = read_into io bs b"
    and fr: "fr = f \<or> fr = snd (fs_pool ops (snd (fs_clone ops f)))"
  have c: "contents fr = contents f" using fr clone_keeps pool_keeps by auto
  note ok = pread_ok[OF p, unfolded c fillable_len[OF assms(2)]]
  show thesis
  proof (rule that[OF n b1])
    show "n = 0 \<Longrightarrow> length (contents f) \<le> off"
      using pread_eof[of off "read_len io b" fr f1] p n fillable_len[OF assms(2)] assms(3) c by simp
  qed (use ok n in auto)
qed

text \<open>One round fills the slice up to the new cursor; the rest is filled from the new offset.\<close>

lemma fill_round:
  assumes "bs = take (length bs) (drop off c)" and "length bs \<le> m" and "cur + m \<le> length mem"
    and "take (cur + length bs) mem' = take (cur + length bs) (overwrite cur bs mem)"
    and "take (m - length bs) (drop (cur + length bs) mem') = take (m - length bs) (drop (off + length bs) c)"
  shows "take cur mem' = take cur mem" and "take m (drop cur mem') = take m (drop off c)"
proof -
  have t: "take (cur + length bs) mem' = take cur mem @ bs" using assms(2-4) by (simp add: take_overwrite)
  have l: "length (take cur mem) = cur" using assms(3) by simp
  have "take cur (take (cur + length bs) mem') = take cur mem" unfolding t using l by simp
  then show "take cur mem' = take cur mem" by (simp add: min_def)
  have d: "take (length bs) (drop cur mem') = bs"
    using arg_cong[OF t, of "drop cur"] l by (simp add: drop_take)
  have "take m (drop cur mem') = take (length bs) (drop cur mem') @ take (m - length bs) (drop (cur + length bs) mem')"
    using assms(2) take_add[of "length bs" "m - length bs" "drop cur mem'"] by (simp add: add.commute)
  also have "\<dots> = take (length bs) (drop off c) @ take (m - length bs) (drop (off + length bs) c)"
    using d assms(1,5) by simp
  also have "\<dots> = take m (drop off c)"
    using assms(2) take_add[of "length bs" "m - length bs" "drop off c"] by (simp add: add.commute)
  finally show "take m (drop cur mem') = take m (drop off c)" .
qed

lemma read_exact_at_loop:
  assumes "fillable io b" and "off + mb_len b < U64_LIMIT + mb_cursor b"
    and "read_exact_at io offload ops b off f = (Resolved (Inr ()), b', f')"
  shows "contents f' = contents f \<and> mb_len b' = mb_len b \<and> take (mb_cursor b) (mb_mem b') = take (mb_cursor b) (mb_mem b) \<and>
    take (mb_len b - mb_cursor b) (drop (mb_cursor b) (mb_mem b')) = take (mb_len b - mb_cursor b) (drop off (contents f)) \<and>
    (mb_cursor b < mb_len b \<longrightarrow> off + (mb_len b - mb_cursor b) \<le> length (contents f))"
  using assms
proof (induction "mb_len b - mb_cursor b" arbitrary: b off f rule: less_induct)
  case less
  have le: "mb_cursor b \<le> mb_len b" "mb_len b \<le> length (mb_mem b)" using less.prems(1) by (auto simp: fillable_def)
  show ?case
  proof (cases "mb_cursor b = mb_len b")
    case True
    then show ?thesis using less.prems(3) by (auto simp: read_exact_at.simps[of io] mb_avail_def mb_into_inner_def)
  next
    case False
    then have lt: "mb_cursor b < mb_len b" using le by simp
    obtain r b1 f1 where r: "read_at io offload ops b off f = (r, b1, f1)" by (metis prod_cases3)
    obtain n where n: "r = Resolved (Inr n)" "0 < n"
      and rest: "read_exact_at io offload ops (mb_advance n b1) (saturating_add off n) f1 = (Resolved (Inr ()), b', f')"
      using less.prems(3) lt r by (auto simp: read_exact_at.simps[of io _ _ b] mb_avail_def split: outcome.splits sum.splits if_splits)
    from r n(1) have r': "read_at io offload ops b off f = (Resolved (Inr n), b1, f1)" by simp
    show ?thesis
    proof (rule read_at_reads[OF r' less.prems(1) lt])
      fix bs
      assume bs: "n = length bs" "b1 = read_into io bs b" "contents f1 = contents f" "n \<le> mb_len b - mb_cursor b"
        "bs = take n (drop off (contents f))"
      let ?b = "mb_advance n b1"
      have fixed: "mb_len b1 = mb_len b" using less.prems(1) bs(2) by (auto simp: fillable_def)
      have off: "saturating_add off n = off + n" using less.prems(2) bs(4) lt by (intro saturating_add_exact) simp
      have "mb_len ?b - mb_cursor ?b < mb_len b - mb_cursor b" using n(2) lt bs(2) fixed by simp
      moreover have "fillable io ?b" using fillable_step[OF less.prems(1), of bs] bs(1,2,4) by simp
      moreover have "off + n + mb_len ?b < U64_LIMIT + mb_cursor ?b" using less.prems(2) bs(2) fixed by simp
      ultimately have IH: "contents f' = contents f1" "mb_len b' = mb_len ?b"
        "take (mb_cursor ?b) (mb_mem b') = take (mb_cursor ?b) (mb_mem ?b)"
        "take (mb_len ?b - mb_cursor ?b) (drop (mb_cursor ?b) (mb_mem b')) = take (mb_len ?b - mb_cursor ?b) (drop (off + n) (contents f1))"
        "mb_cursor ?b < mb_len ?b \<longrightarrow> off + n + (mb_len ?b - mb_cursor ?b) \<le> length (contents f1)"
        using less.hyps[OF _ _ _ rest[unfolded off]] by blast+
      have m: "mb_cursor b + (mb_len b - mb_cursor b) \<le> length (mb_mem b)" using le by simp
      have "take (mb_cursor b + length bs) (mb_mem b') = take (mb_cursor b + length bs) (overwrite (mb_cursor b) bs (mb_mem b))"
        using IH(3) bs(1,2) by simp
      moreover have "take (mb_len b - mb_cursor b - length bs) (drop (mb_cursor b + length bs) (mb_mem b')) =
          take (mb_len b - mb_cursor b - length bs) (drop (off + length bs) (contents f))"
        using IH(4) bs(1-3) fixed by simp
      ultimately have fr: "take (mb_cursor b) (mb_mem b') = take (mb_cursor b) (mb_mem b)"
        "take (mb_len b - mb_cursor b) (drop (mb_cursor b) (mb_mem b')) = take (mb_len b - mb_cursor b) (drop off (contents f))"
        using fill_round[OF bs(5)[unfolded bs(1)] bs(4)[unfolded bs(1)] m] by blast+
      have "off + n \<le> length (contents f)" using taken_within[OF bs(5,1) n(2)] .
      then have bound: "off + (mb_len b - mb_cursor b) \<le> length (contents f)"
        using IH(5) bs(2-4) fixed lt by (cases "mb_cursor b + n = mb_len b") auto
      show ?thesis using fr IH(1,2) bs(3) fixed bound by auto
    qed
  qed
qed

lemma write_at_writes:
  assumes "write_at io offload ops b off f = (r, f1)"
  obtains n where "n \<le> length (mb_slice b)" and "contents f1 = file_put off (take n (mb_slice b)) (contents f)"
    and "\<And>m. r = Resolved (Inr m) \<Longrightarrow> mb_cursor b < mb_len b \<Longrightarrow> m = n"
proof -
  note T = that
  have w: "\<exists>n \<le> length (mb_slice b). contents g1 = file_put off (take n (mb_slice b)) (contents g) \<and> (\<forall>m. x = Inr m \<longrightarrow> m = n)"
    if "fs_pwrite ops off (mb_slice b) g = (x, g1)" for x g g1
    using that pwrite_ok[of off "mb_slice b" g _ g1] pwrite_err[of off "mb_slice b" g _ g1] by (cases x) (auto intro: exI[of _ 0])
  have idle: thesis if "contents f1 = contents f" "\<And>m. r = Resolved (Inr m) \<Longrightarrow> mb_cursor b < mb_len b \<Longrightarrow> m = 0"
    using that by (intro T[of 0]) simp_all
  show thesis
  proof (cases "mb_cursor b < mb_len b")
    case False
    then show thesis using assms by (intro idle) (auto simp: write_at_def mb_avail_def split: if_splits)
  next
    case True
    obtain fc an fp jb where fc: "fs_clone ops f = (an, fc)" and fp: "fs_pool ops fc = (jb, fp)" by fastforce
    obtain x g where x: "fs_pwrite ops off (mb_slice b) f = (x, g)" by fastforce
    have keep: "contents fc = contents f" "contents fp = contents f" using clone_keeps[of f] pool_keeps[of fc] fc fp by simp_all
    consider "contents f1 = contents f" "\<And>m. r \<noteq> Resolved (Inr m)"
      | g x where "fs_pwrite ops off (mb_slice b) g = (x, f1)" "contents g = contents f" "r = Resolved x"
      using assms True fc fp keep x
      by (auto simp: write_at_def mb_avail_def write_at_completion_def write_at_blocking_def write_at_in_blocking_pool_def
          len_u32_def Let_def split: file_io.splits if_splits option.splits job.splits prod.splits)
    then show thesis
    proof cases
      case 1
      then show thesis by (intro idle) auto
    next
      case 2
      from w[OF 2(1)] obtain n where "n \<le> length (mb_slice b)" "contents f1 = file_put off (take n (mb_slice b)) (contents f)"
        "\<forall>m. x = Inr m \<longrightarrow> m = n" using 2(2) by auto
      then show thesis using 2(3) by (intro T[of n]) auto
    qed
  qed
qed

text \<open>The loop writes a prefix of the buffer, all of it on success.\<close>

lemma write_exact_at_loop:
  assumes "mb_cursor b \<le> mb_len b" and "mb_len b \<le> length (mb_mem b)" and "off + mb_len b < U64_LIMIT + mb_cursor b"
    and "write_exact_at io offload ops b off f = (res, b', f')"
  shows "\<exists>k \<le> length (mb_slice b). contents f' = file_put off (take k (mb_slice b)) (contents f) \<and>
    (res = Resolved (Inr ()) \<longrightarrow> k = length (mb_slice b))"
  using assms
proof (induction "mb_len b - mb_cursor b" arbitrary: b off f rule: less_induct)
  case less
  let ?xs = "mb_slice b"
  have len: "length ?xs = mb_len b - mb_cursor b" using less.prems(1,2) by (simp add: mb_slice_def)
  show ?case
  proof (cases "mb_cursor b = mb_len b")
    case True
    then show ?thesis using less.prems(4) len by (auto simp: write_exact_at.simps[of io] mb_avail_def)
  next
    case False
    then have lt: "mb_cursor b < mb_len b" using less.prems(1) by simp
    obtain r f1 where w: "write_at io offload ops b off f = (r, f1)" by fastforce
    show ?thesis
    proof (rule write_at_writes[OF w])
      fix n
      assume n: "n \<le> length ?xs" "contents f1 = file_put off (take n ?xs) (contents f)"
        "\<And>m. r = Resolved (Inr m) \<Longrightarrow> mb_cursor b < mb_len b \<Longrightarrow> m = n"
      show ?thesis
      proof (cases "r = Resolved (Inr n) \<and> 0 < n")
        case False
        consider "r = Panicked" | err where "r = Resolved (Inl err)" | "r = Resolved (Inr 0)"
        proof (cases r)
          case (Resolved x)
          then show ?thesis using that n(3)[OF _ lt] False by (cases x) auto
        qed (use that in simp)
        then have "f' = f1 \<and> res \<noteq> Resolved (Inr ())"
          using less.prems(4) lt w by cases (auto simp: write_exact_at.simps[of io offload ops b off f] mb_avail_def)
        then show ?thesis using n by auto
      next
        case True
        let ?b = "mb_advance n b"
        have off: "saturating_add off n = off + n" using less.prems(3) n(1) len lt by (intro saturating_add_exact) simp
        have rest: "write_exact_at io offload ops ?b (off + n) f1 = (res, b', f')"
          using less.prems(4) lt w True by (simp add: write_exact_at.simps[of io _ _ b] mb_avail_def off)
        have sl: "mb_slice ?b = drop n ?xs" by (simp add: mb_slice_def drop_take add.commute)
        have "\<exists>k \<le> length (mb_slice ?b). contents f' = file_put (off + n) (take k (mb_slice ?b)) (contents f1) \<and>
            (res = Resolved (Inr ()) \<longrightarrow> k = length (mb_slice ?b))"
          by (rule less.hyps[OF _ _ _ _ rest]) (use less.prems(1-3) True n(1) len lt diff_less_mono2 in \<open>auto intro: diff_less_mono2\<close>)
        then obtain k where k: "k \<le> length (drop n ?xs)" "contents f' = file_put (off + n) (take k (drop n ?xs)) (contents f1)"
          "res = Resolved (Inr ()) \<longrightarrow> k = length (drop n ?xs)" unfolding sl by blast
        have "contents f' = file_put off (take n ?xs @ take k (drop n ?xs)) (contents f)"
          unfolding k(2) n(2) file_put_append[symmetric] using n(1) by simp
        also have "take n ?xs @ take k (drop n ?xs) = take (n + k) ?xs" by (simp add: take_add)
        finally show ?thesis using k(1,3) n(1) by (intro exI[of _ "n + k"]) auto
      qed
    qed
  qed
qed

text \<open>One read of a fresh array at the cursor of a file, and one write of a vector.\<close>

lemma file_read_reads:
  assumes "file_read offload ops b fl = (Resolved (Inr n), b1, fl1)" and "fillable (fl_io fl) b" and "mb_cursor b = 0"
    and "0 < mb_len b" and "fl_cursor fl + mb_len b < U64_LIMIT"
  shows "n \<le> mb_len b \<and> fl_io fl1 = fl_io fl \<and> contents (fl_inner fl1) = contents (fl_inner fl) \<and>
    fl_cursor fl1 = fl_cursor fl + n \<and> take n (mb_mem b1) = take n (drop (fl_cursor fl) (contents (fl_inner fl))) \<and>
    fillable (fl_io fl) b1 \<and> mb_cursor b1 = 0 \<and> mb_len b1 = mb_len b \<and>
    (if n = 0 then length (contents (fl_inner fl)) \<le> fl_cursor fl else fl_cursor fl + n \<le> length (contents (fl_inner fl)))"
proof -
  obtain f1 where r: "read_at (fl_io fl) offload ops b (fl_cursor fl) (fl_inner fl) = (Resolved (Inr n), b1, f1)"
    and fl1: "fl1 = fl\<lparr>fl_inner := f1, fl_cursor := saturating_add (fl_cursor fl) n\<rparr>"
    using assms(1) by (auto simp: file_read_def split: prod.splits outcome.splits sum.splits)
  have lt: "mb_cursor b < mb_len b" using assms(3,4) by simp
  show ?thesis
  proof (rule read_at_reads[OF r assms(2) lt])
    fix bs
    assume bs: "n = length bs" "b1 = read_into (fl_io fl) bs b" "contents f1 = contents (fl_inner fl)" "n \<le> mb_len b - mb_cursor b"
      "bs = take n (drop (fl_cursor fl) (contents (fl_inner fl)))" "n = 0 \<Longrightarrow> length (contents (fl_inner fl)) \<le> fl_cursor fl"
    have n: "n \<le> mb_len b" using bs(4) by simp
    have "take n (mb_mem b1) = bs" using bs(1,2) assms(3) by (simp add: overwrite_def)
    then have m: "take n (mb_mem b1) = take n (drop (fl_cursor fl) (contents (fl_inner fl)))" using bs(5) by simp
    have w: "n \<noteq> 0 \<Longrightarrow> fl_cursor fl + n \<le> length (contents (fl_inner fl))" using taken_within[OF bs(5,1)] by simp
    have k: "fillable (fl_io fl) b1 \<and> mb_cursor b1 = 0 \<and> mb_len b1 = mb_len b"
      using assms(2,3) bs(1,2) n by (auto simp: fillable_def)
    show ?thesis using n m w k bs(3,6) assms(5) by (simp add: fl1)
  qed
qed

lemma file_write_writes:
  assumes "file_write offload ops (vec_buf xs) fl = (r, fl1)" and "xs \<noteq> []" and "fl_cursor fl + length xs < U64_LIMIT"
  shows "\<exists>n \<le> length xs. contents (fl_inner fl1) = file_put (fl_cursor fl) (take n xs) (contents (fl_inner fl)) \<and>
    fl_io fl1 = fl_io fl \<and> (\<forall>m. r = Resolved (Inr m) \<longrightarrow> m = n \<and> fl_cursor fl1 = fl_cursor fl + n)"
proof -
  obtain r' f1 where w: "write_at (fl_io fl) offload ops (vec_buf xs) (fl_cursor fl) (fl_inner fl) = (r', f1)" by fastforce
  have sl: "mb_slice (vec_buf xs) = xs" "mb_cursor (vec_buf xs) < mb_len (vec_buf xs)"
    using assms(2) by (simp_all add: mb_slice_def vec_buf_def)
  have r: "r = r'" "fl_inner fl1 = f1" "fl_io fl1 = fl_io fl" "\<And>m. r' = Resolved (Inr m) \<Longrightarrow> fl_cursor fl1 = saturating_add (fl_cursor fl) m"
    using assms(1) w by (auto simp: file_write_def split: outcome.splits sum.splits)
  show ?thesis
  proof (rule write_at_writes[OF w])
    fix n
    assume "n \<le> length (mb_slice (vec_buf xs))"
      "contents f1 = file_put (fl_cursor fl) (take n (mb_slice (vec_buf xs))) (contents (fl_inner fl))"
      "\<And>m. r' = Resolved (Inr m) \<Longrightarrow> mb_cursor (vec_buf xs) < mb_len (vec_buf xs) \<Longrightarrow> m = n"
    then show ?thesis using r sl assms(3) by (intro exI[of _ n]) auto
  qed
qed

lemma write_path_loop_writes:
  assumes "write_path_loop offload ops xs fl = (Resolved (Inr ()), fl')" and "fl_cursor fl + length xs < U64_LIMIT"
  shows "contents (fl_inner fl') = file_put (fl_cursor fl) xs (contents (fl_inner fl)) \<and> fl_io fl' = fl_io fl"
  using assms
proof (induction "length xs" arbitrary: xs fl rule: less_induct)
  case less
  show ?case
  proof (cases "xs = []")
    case True
    then show ?thesis using less.prems by (simp add: write_path_loop.simps[of offload ops "[]"])
  next
    case False
    obtain r fl1 where w: "file_write offload ops (vec_buf xs) fl = (r, fl1)" by fastforce
    obtain n where r: "r = Resolved (Inr n)" and n: "0 < n" "n \<le> length xs"
      and rest: "write_path_loop offload ops (drop n xs) fl1 = (Resolved (Inr ()), fl')"
      using less.prems(1) False w
      by (auto simp: write_path_loop.simps[of offload ops xs fl] split: outcome.splits sum.splits if_splits)
    from file_write_writes[OF w False less.prems(2)] r
    have f: "contents (fl_inner fl1) = file_put (fl_cursor fl) (take n xs) (contents (fl_inner fl))" "fl_io fl1 = fl_io fl"
      "fl_cursor fl1 = fl_cursor fl + n" by auto
    have "contents (fl_inner fl') = file_put (fl_cursor fl1) (drop n xs) (contents (fl_inner fl1)) \<and> fl_io fl' = fl_io fl1"
      by (rule less.hyps[OF _ rest]) (use n less.prems(2) f(3) False in auto)
    moreover have "length (take n xs) = n" using n(2) by simp
    ultimately show ?thesis
      using file_put_append[of "fl_cursor fl" "take n xs" "drop n xs" "contents (fl_inner fl)"] f n(2) by (simp only: append_take_drop_id)
  qed
qed

text \<open>Without failures of the system the loop of \<open>fs::read\<close> ends with the rest of the file.\<close>

lemma read_path_loop_reads:
  assumes ok: "\<And>b fl. fillable (fl_io fl) b \<Longrightarrow> mb_cursor b = 0 \<Longrightarrow> mb_len b = 8192 \<Longrightarrow> \<exists>n b1 fl1. file_read offload ops b fl = (Resolved (Inr n), b1, fl1)"
    and "fillable (fl_io fl) b" and "mb_cursor b = 0" and "mb_len b = 8192"
    and "length (contents (fl_inner fl)) + 8192 < U64_LIMIT" and "fl_cursor fl \<le> length (contents (fl_inner fl))"
  shows "\<exists>fl'. read_path_loop offload ops b bytes fl =
    Some (Resolved (Inr (bytes @ drop (fl_cursor fl) (contents (fl_inner fl)))), fl')"
  using assms(2-)
proof (induction "length (contents (fl_inner fl)) - fl_cursor fl" arbitrary: b bytes fl rule: less_induct)
  case less
  obtain n b1 fl1 where r: "file_read offload ops b fl = (Resolved (Inr n), b1, fl1)" using ok less.prems(1-3) by blast
  have cur: "fl_cursor fl + mb_len b < U64_LIMIT" using less.prems by simp
  note R = file_read_reads[OF r less.prems(1,2) _ cur]
  show ?case
  proof (cases "n = 0")
    case True
    then show ?thesis using r R less.prems(3,5) by (simp add: read_path_loop.simps[of offload ops b])
  next
    case False
    let ?c = "contents (fl_inner fl)" and ?bytes = "bytes @ take (min (mb_len b1) n) (mb_mem b1)"
    have "min (mb_len b1) n = n" using R less.prems(3) by simp
    then have e: "take (min (mb_len b1) n) (mb_mem b1) = take n (drop (fl_cursor fl) ?c)" "fl_cursor fl + n \<le> length ?c"
      using R False less.prems(3) by simp_all
    have "\<exists>fl'. read_path_loop offload ops b1 ?bytes fl1 = Some (Resolved (Inr (?bytes @ drop (fl_cursor fl1) (contents (fl_inner fl1)))), fl')"
      by (rule less.hyps) (use R False less.prems e in auto)
    moreover have "?bytes @ drop (fl_cursor fl1) (contents (fl_inner fl1)) = bytes @ drop (fl_cursor fl) ?c"
      using R e less.prems(3) append_take_drop_id[of n "drop (fl_cursor fl) ?c"] by (simp add: add.commute)
    ultimately show ?thesis using r False by (simp add: read_path_loop.simps[of offload ops b])
  qed
qed

end

lemma read_exact_step:
  assumes "mb_cursor b < mb_len b" and "read_at io offload ops b off f = (Resolved (Inr n), b1, f1)" and "0 < n"
  shows "read_exact_at io offload ops b off f = read_exact_at io offload ops (mb_advance n b1) (saturating_add off n) f1"
  using assms by (simp add: read_exact_at.simps[of io offload ops b] mb_avail_def)

lemma read_exact_done:
  "mb_cursor b = mb_len b \<Longrightarrow> read_exact_at io offload ops b off f = (Resolved (Inr ()), mb_into_inner b, f)"
  by (simp add: read_exact_at.simps[of io offload ops b] mb_avail_def)

lemma write_exact_step:
  assumes "mb_cursor b < mb_len b" and "write_at io offload ops b off f = (Resolved (Inr n), f1)" and "0 < n"
  shows "write_exact_at io offload ops b off f = write_exact_at io offload ops (mb_advance n b) (saturating_add off n) f1"
  using assms by (simp add: write_exact_at.simps[of io offload ops b] mb_avail_def)

lemma write_exact_done:
  "mb_cursor b = mb_len b \<Longrightarrow> write_exact_at io offload ops b off f = (Resolved (Inr ()), mb_into_inner b, f)"
  by (simp add: write_exact_at.simps[of io offload ops b] mb_avail_def)

section \<open>A store in memory\<close>

text \<open>A file that moves at most \<open>m\<close> bytes per call, as the kernel is free to do.\<close>

definition chunked_fs :: "nat \<Rightarrow> byte list fs_ops" where
  "chunked_fs m = \<lparr>fs_pread = (\<lambda>off n c. (Inr (take (min n m) (drop off c)), c)),
     fs_pwrite = (\<lambda>off xs c. (Inr (min m (length xs)), file_put off (take m xs) c)),
     fs_clone = (\<lambda>c. (None, c)), fs_pool = (\<lambda>c. (Ran, c))\<rparr>"

lemma take_min_length: "take (min (length xs) k) xs = take k xs"
  by (simp add: min_def)

interpretation chunked_store: file_store "chunked_fs 4" "\<lambda>c. c"
proof
  fix off n and xs f f' :: "byte list"
  assume "fs_pwrite (chunked_fs 4) off xs f = (Inr n, f')"
  then show "n \<le> length xs \<and> f' = file_put off (take n xs) f"
    by (cases "length xs \<le> 4") (auto simp: chunked_fs_def)
qed (auto simp: chunked_fs_def take_min_length[of "drop _ _", simplified])

section \<open>Properties\<close>

text \<open>
  \<open>read_exact_at\<close> fills the buffer. In blocking mode, and in completion mode for buffers of fixed
  size, a success means that the buffer holds exactly the bytes of the file at the offset, which
  are all there, however short the single reads were.
\<close>

theorem read_exact_at_fills_buffer:
  assumes "file_store ops contents" and "fillable io b" and "mb_cursor b = 0" and "off + mb_len b < U64_LIMIT"
    and "read_exact_at io offload ops b off f = (Resolved (Inr ()), b', f')"
  shows "mb_len b' = mb_len b \<and> take (mb_len b) (mb_mem b') = take (mb_len b) (drop off (contents f)) \<and>
    (0 < mb_len b \<longrightarrow> off + mb_len b \<le> length (contents f)) \<and> contents f' = contents f"
  using file_store.read_exact_at_loop[OF assms(1,2) _ assms(5)] assms(3,4) by simp

theorem read_exact_at_fills_buffer_witness:
  "\<exists>b'. read_exact_at BlockingIo False (chunked_fs 4) (vec_buf [0, 0, 0, 0, 0, 0]) 2 [9, 10, 11, 12, 13, 14, 15, 16, 17] =
     (Resolved (Inr ()), b', [9, 10, 11, 12, 13, 14, 15, 16, 17]) \<and> take 6 (mb_mem b') = [11, 12, 13, 14, 15, 16]"
proof -
  let ?f = "[9, 10, 11, 12, 13, 14, 15, 16, 17] :: byte list" and ?b0 = "vec_buf [0, 0, 0, 0, 0, 0]"
  let ?b1 = "vec_buf [11, 12, 13, 14, 0, 0]" and ?b2 = "(vec_buf [11, 12, 13, 14, 15, 16])\<lparr>mb_cursor := 4\<rparr>"
  note defs = read_at_def read_at_blocking_def mb_avail_def vec_buf_def mb_slice_def chunked_fs_def mb_store_def overwrite_def
  have s1: "read_at BlockingIo False (chunked_fs 4) ?b0 2 ?f = (Resolved (Inr 4), ?b1, ?f)" by (simp add: defs)
  have s2: "read_at BlockingIo False (chunked_fs 4) (mb_advance 4 ?b1) (saturating_add 2 4) ?f = (Resolved (Inr 2), ?b2, ?f)"
    by (simp add: defs mb_advance_def)
  have "read_exact_at BlockingIo False (chunked_fs 4) ?b0 2 ?f =
      read_exact_at BlockingIo False (chunked_fs 4) (mb_advance 4 ?b1) (saturating_add 2 4) ?f"
    by (rule read_exact_step[OF _ s1]) (simp_all add: vec_buf_def)
  also have "\<dots> = read_exact_at BlockingIo False (chunked_fs 4) (mb_advance 2 ?b2) (saturating_add (saturating_add 2 4) 2) ?f"
    by (rule read_exact_step[OF _ s2]) (simp_all add: vec_buf_def)
  also have "\<dots> = (Resolved (Inr ()), mb_into_inner (mb_advance 2 ?b2), ?f)"
    by (rule read_exact_done) (simp add: vec_buf_def)
  finally have r: "read_exact_at BlockingIo False (chunked_fs 4) ?b0 2 ?f = (Resolved (Inr ()), mb_into_inner (mb_advance 2 ?b2), ?f)" .
  have b: "fillable BlockingIo ?b0" "mb_cursor ?b0 = 0" "2 + mb_len ?b0 < U64_LIMIT" "mb_len ?b0 = 6"
    by (simp_all add: fillable_def vec_buf_def)
  from read_exact_at_fills_buffer[OF chunked_store.file_store_axioms b(1-3) r]
  have "take 6 (mb_mem (mb_into_inner (mb_advance 2 ?b2))) = [11, 12, 13, 14, 15, 16]" unfolding b(4) by simp
  then show ?thesis using r by blast
qed

text \<open>
  \<open>read_exact_at\<close> gives up silently after a short read. On the completion driver the operation
  sets the length of a growable buffer to what was read, so the loop sees no room left and
  reports success although the buffer was not filled.
\<close>

theorem read_exact_at_accepts_short_read:
  assumes "\<not> mb_fixed b" and "mb_cursor b = 0" and "0 < mb_len b" and "length (mb_mem b) < 2 ^ 32"
    and "fs_pread ops off (length (mb_mem b)) f = (Inr bs, f1)" and "bs \<noteq> []"
  shows "\<exists>b'. read_exact_at CompletionIo offload ops b off f = (Resolved (Inr ()), b', f1) \<and> mb_len b' = length bs"
  using assms
  by (simp add: read_exact_at.simps[of CompletionIo offload ops b] read_exact_at.simps[of CompletionIo offload ops "mb_advance _ _"]
      read_at_def mb_avail_def read_at_completion_def len_u32_def mb_room_def mb_set_init_def mb_store_def mb_into_inner_def)

theorem read_exact_at_accepts_short_read_witness:
  "\<exists>b'. read_exact_at CompletionIo False (chunked_fs 4) (vec_buf (replicate 6 0)) 1 [10, 11, 12, 13, 14, 15, 16, 17] =
     (Resolved (Inr ()), b', [10, 11, 12, 13, 14, 15, 16, 17]) \<and> mb_len b' = 4"
proof -
  let ?f = "[10, 11, 12, 13, 14, 15, 16, 17] :: byte list" and ?b = "vec_buf (replicate 6 0)"
  have b: "\<not> mb_fixed ?b" "mb_cursor ?b = 0" "0 < mb_len ?b" "length (mb_mem ?b) < 2 ^ 32" by (simp_all add: vec_buf_def)
  have p: "fs_pread (chunked_fs 4) 1 (length (mb_mem ?b)) ?f = (Inr [11, 12, 13, 14], ?f)"
    by (simp add: chunked_fs_def vec_buf_def numeral_eq_Suc)
  have "length [11, 12, 13, 14 :: byte] = 4" by simp
  then show ?thesis using read_exact_at_accepts_short_read[OF b p, of False] by (simp only: list.distinct not_False_eq_True)
qed

text \<open>
  \<open>write_exact_at\<close> writes a prefix of the buffer at the offset and all of it on success, in every
  mode; nothing else in the file changes.
\<close>

theorem write_exact_at_writes_prefix:
  assumes "file_store ops contents" and "off + length xs < U64_LIMIT"
    and "write_exact_at io offload ops (vec_buf xs) off f = (res, b', f')"
  shows "\<exists>k \<le> length xs. contents f' = file_put off (take k xs) (contents f) \<and> (res = Resolved (Inr ()) \<longrightarrow> k = length xs)"
  using file_store.write_exact_at_loop[OF assms(1) _ _ _ assms(3)] assms(2) by (simp add: vec_buf_def mb_slice_def)

theorem write_exact_at_writes_prefix_witness:
  "\<exists>b'. write_exact_at BlockingIo True (chunked_fs 4) (vec_buf [1, 2, 3, 4, 5, 6]) 2 [9, 9] =
     (Resolved (Inr ()), b', [9, 9, 1, 2, 3, 4, 5, 6])"
proof -
  let ?xs = "[1, 2, 3, 4, 5, 6] :: byte list" let ?b = "vec_buf ?xs"
  let ?f = "snd (write_at BlockingIo True (chunked_fs 4) ?b 2 [9, 9])"
  let ?g = "snd (write_at BlockingIo True (chunked_fs 4) (mb_advance 4 ?b) (saturating_add 2 4) ?f)"
  note defs = write_at_def write_at_in_blocking_pool_def write_at_blocking_def mb_avail_def vec_buf_def mb_slice_def chunked_fs_def
  have s1: "write_at BlockingIo True (chunked_fs 4) ?b 2 [9, 9] = (Resolved (Inr 4), ?f)" by (simp add: defs)
  have s2: "write_at BlockingIo True (chunked_fs 4) (mb_advance 4 ?b) (saturating_add 2 4) ?f = (Resolved (Inr 2), ?g)"
    by (simp add: defs mb_advance_def)
  have "write_exact_at BlockingIo True (chunked_fs 4) ?b 2 [9, 9] =
      write_exact_at BlockingIo True (chunked_fs 4) (mb_advance 4 ?b) (saturating_add 2 4) ?f"
    by (rule write_exact_step[OF _ s1]) (simp_all add: vec_buf_def)
  also have "\<dots> = write_exact_at BlockingIo True (chunked_fs 4) (mb_advance 2 (mb_advance 4 ?b)) (saturating_add (saturating_add 2 4) 2) ?g"
    by (rule write_exact_step[OF _ s2]) (simp_all add: vec_buf_def)
  also have "\<dots> = (Resolved (Inr ()), mb_into_inner (mb_advance 2 (mb_advance 4 ?b)), ?g)"
    by (rule write_exact_done) (simp add: vec_buf_def)
  finally have r: "write_exact_at BlockingIo True (chunked_fs 4) ?b 2 [9, 9] =
      (Resolved (Inr ()), mb_into_inner (mb_advance 2 (mb_advance 4 ?b)), ?g)" .
  have "2 + length ?xs < U64_LIMIT" by simp
  from write_exact_at_writes_prefix[OF chunked_store.file_store_axioms this r] have "?g = file_put 2 ?xs [9, 9]" by auto
  also have "\<dots> = [9, 9] @ ?xs" by (simp add: file_put_def)
  finally show ?thesis using r by (simp only: append.simps) blast
qed


lemma chunked_file_read_ok:
  assumes "fillable (fl_io fl) b" and "mb_cursor b = 0" and "mb_len b = 8192"
  shows "\<exists>n b1 fl1. file_read offload (chunked_fs 4) b fl = (Resolved (Inr n), b1, fl1)"
proof (cases "fl_io fl")
  case CompletionIo
  then show ?thesis using assms
    by (simp add: file_read_def read_at_def mb_avail_def read_at_completion_def len_u32_def mb_room_def fillable_def chunked_fs_def Let_def)
next
  case BlockingIo
  then show ?thesis using assms
    by (simp add: file_read_def read_at_def mb_avail_def read_at_blocking_def read_at_in_blocking_pool_def chunked_fs_def Let_def)
qed


text \<open>The reader that \<open>copy\<close> sees: its buffer is an empty vector with capacity only.\<close>

definition file_copy_read ::
  "bool \<Rightarrow> 'f fs_ops \<Rightarrow> nat \<Rightarrow> 'f file_handle \<Rightarrow> nat io_result \<times> byte list \<times> 'f file_handle" where
  "file_copy_read offload ops cap fl =
     (case file_read offload ops (empty_vec cap) fl of
        (Resolved r, b1, fl1) \<Rightarrow> (r, take (mb_len b1) (mb_mem b1), fl1)
      | (Panicked, b1, fl1) \<Rightarrow> (Inl (Simple OtherKind), [], fl1))"

text \<open>
  Copying from a file copies nothing. \<open>copy\<close> offers an empty buffer with capacity, and \<open>File\<close> takes
  a buffer of length zero for a request of no bytes: whatever the file holds, the copy ends at once
  and reports zero bytes.
\<close>

theorem copy_from_file_copies_nothing:
  assumes "fl_cursor fl < U64_LIMIT" and "flush w = (Inr (), w1)"
  shows "copy (file_copy_read offload ops) wr flush fl w = Some (Resolved (Inr 0), fl, w1)"
proof -
  have "file_copy_read offload ops COPY_BUFFER fl = (Inr 0, [], fl)"
    using assms(1) by (simp add: file_copy_read_def file_read_def read_at_def mb_avail_def empty_vec_def)
  then show ?thesis using assms(2) by (simp add: copy_def copy_loop.simps)
qed

theorem copy_from_file_copies_nothing_witness:
  "copy (file_copy_read False (chunked_fs 4)) (\<lambda>xs w. (Inr (length xs), w @ xs)) (\<lambda>w. (Inr (), w))
     \<lparr>fl_io = BlockingIo, fl_inner = [1, 2, 3], fl_cursor = 0\<rparr> [] =
   Some (Resolved (Inr 0), \<lparr>fl_io = BlockingIo, fl_inner = [1, 2, 3], fl_cursor = 0\<rparr>, [])"
  by (rule copy_from_file_copies_nothing) simp_all

end
