(* ===== verification/Io_Streams.thy ===== *)
theory Io_Streams
  imports Fs_File Net_Sockets
begin

text \<open>
  Pipes (\<open>io/pipe.rs\<close>), standard streams (\<open>io/stdio.rs\<close>) and the blocking pool (\<open>blocking/mod.rs\<close>). Pipes are handles over
  descriptors, like the sockets of \<open>Net_Sockets\<close>; standard streams lend their buffer to a job of the
  pool. The system is a record of operations on its state.
\<close>

section \<open>The blocking pool\<close>

text \<open>
  \<open>spawn_blocking\<close>: the job's result over a channel, or an error when the pool dropped the job or the job
  panicked. A buffer is lent through a shared cell that the job empties: if the job was never run,
  the caller takes it back; if the job died with it, the caller panics.
\<close>

definition spawn_blocking :: "job \<Rightarrow> ('k \<Rightarrow> 'a \<times> 'k) \<Rightarrow> 'k \<Rightarrow> 'a option \<times> 'k" where
  "spawn_blocking j f k = (case j of Ran \<Rightarrow> (let (a, k1) = f k in (Some a, k1)) | _ \<Rightarrow> (None, k))"

definition lend :: "job \<Rightarrow> ('b \<Rightarrow> 'k \<Rightarrow> ('a io_result \<times> 'b) \<times> 'k) \<Rightarrow> 'b \<Rightarrow> 'k \<Rightarrow> 'a outcome \<times> 'b option \<times> 'k" where
  "lend j f b k =
     (case spawn_blocking j (f b) k of
        (Some (r, b1), k1) \<Rightarrow> (Resolved r, Some b1, k1)
      | (None, k1) \<Rightarrow>
          if j = NotSpawned then (Resolved (Inl (Simple OtherKind)), Some b, k1) else (Panicked, None, k1))"

section \<open>Standard streams\<close>

record 'k stream_ops =
  so_read :: "nat \<Rightarrow> 'k \<Rightarrow> byte list io_result \<times> 'k"
  so_write :: "byte list \<Rightarrow> 'k \<Rightarrow> nat io_result \<times> 'k"
  so_flush :: "'k \<Rightarrow> unit io_result \<times> 'k"

definition read_stream_blocking :: "'k stream_ops \<Rightarrow> mem_buf \<Rightarrow> 'k \<Rightarrow> (nat io_result \<times> mem_buf) \<times> 'k" where
  "read_stream_blocking ops b k =
     (case so_read ops (length (mb_slice b)) k of
        (Inl err, k1) \<Rightarrow> ((Inl err, b), k1)
      | (Inr bs, k1) \<Rightarrow> ((Inr (length bs), mb_store bs b), k1))"

definition write_stream_blocking :: "'k stream_ops \<Rightarrow> mem_buf \<Rightarrow> 'k \<Rightarrow> (nat io_result \<times> mem_buf) \<times> 'k" where
  "write_stream_blocking ops b k = (case so_write ops (mb_slice b) k of (r, k1) \<Rightarrow> ((r, b), k1))"

definition read_in_blocking_pool :: "job \<Rightarrow> 'k stream_ops \<Rightarrow> mem_buf \<Rightarrow> 'k \<Rightarrow> nat outcome \<times> mem_buf option \<times> 'k" where
  "read_in_blocking_pool j ops b k = lend j (read_stream_blocking ops) b k"

definition write_in_blocking_pool :: "job \<Rightarrow> 'k stream_ops \<Rightarrow> mem_buf \<Rightarrow> 'k \<Rightarrow> nat outcome \<times> mem_buf option \<times> 'k" where
  "write_in_blocking_pool j ops b k = lend j (write_stream_blocking ops) b k"

definition flush_in_blocking_pool :: "job \<Rightarrow> 'k stream_ops \<Rightarrow> 'k \<Rightarrow> unit io_result \<times> 'k" where
  "flush_in_blocking_pool j ops k =
     (case spawn_blocking j (so_flush ops) k of
        (Some r, k1) \<Rightarrow> (r, k1)
      | (None, k1) \<Rightarrow> (Inl (Simple OtherKind), k1))"

text \<open>\<open>inside\<close> tells whether a runtime is current.\<close>

definition stdin_read :: "bool \<Rightarrow> job \<Rightarrow> 'k stream_ops \<Rightarrow> mem_buf \<Rightarrow> 'k \<Rightarrow> nat outcome \<times> mem_buf option \<times> 'k" where
  "stdin_read inside j ops b k =
     (case mb_avail b of
        None \<Rightarrow> (Panicked, None, k)
      | Some n \<Rightarrow>
          if n = 0 then (Resolved (Inr 0), Some b, k)
          else if inside then read_in_blocking_pool j ops b k
          else (case read_stream_blocking ops b k of ((r, b1), k1) \<Rightarrow> (Resolved r, Some b1, k1)))"

definition stdout_write :: "bool \<Rightarrow> job \<Rightarrow> 'k stream_ops \<Rightarrow> mem_buf \<Rightarrow> 'k \<Rightarrow> nat outcome \<times> mem_buf option \<times> 'k" where
  "stdout_write inside j ops b k =
     (case mb_avail b of
        None \<Rightarrow> (Panicked, None, k)
      | Some n \<Rightarrow>
          if n = 0 then (Resolved (Inr 0), Some b, k)
          else if inside then write_in_blocking_pool j ops b k
          else (case write_stream_blocking ops b k of ((r, b1), k1) \<Rightarrow> (Resolved r, Some b1, k1)))"

definition stdout_flush :: "bool \<Rightarrow> job \<Rightarrow> 'k stream_ops \<Rightarrow> 'k \<Rightarrow> unit io_result \<times> 'k" where
  "stdout_flush inside j ops k = (if inside then flush_in_blocking_pool j ops k else so_flush ops k)"

section \<open>Pipes\<close>

text \<open>
  The flags of a pipe: \<open>F_GETFL\<close> and \<open>F_SETFL\<close> may fail, and both failures are ignored.
\<close>

definition set_pipe_flags :: "os_answer \<Rightarrow> os_answer \<Rightarrow> raw_fd \<Rightarrow> bool \<Rightarrow> ('ms, 'r, 's, 'c) net \<Rightarrow> ('ms, 'r, 's, 'c) net" where
  "set_pipe_flags getfl setfl fd c n =
     (if getfl = None then snd (set_nonblocking setfl fd (\<not> c) n) else n)"

definition pipe_from_std ::
  "('ms, 'r, 's, 'c) op_cfg \<Rightarrow> os_answer \<Rightarrow> os_answer \<Rightarrow> os_answer \<Rightarrow> registration_mode \<Rightarrow> raw_fd
   \<Rightarrow> ('ms, 'r, 's, 'c) net \<Rightarrow> async_socket io_result \<times> ('ms, 'r, 's, 'c) net" where
  "pipe_from_std cfg ra getfl setfl mode fd n =
     (case new_with_mode cfg ra fd READ_WRITE mode (current_driver n) of
        (Inl err, cur) \<Rightarrow> (Inl err, close_fd fd (set_current cur n))
      | (Inr h, cur) \<Rightarrow>
          (let n1 = set_current cur n in
           (Inr \<lparr>sk_fd = fd, sk_handle = h\<rparr>, set_pipe_flags getfl setfl fd (uses_completion (nt_driver n1) h) n1)))"

definition pipe_switch ::
  "('ms, 'r, 's, 'c) op_cfg \<Rightarrow> os_answer \<Rightarrow> os_answer \<Rightarrow> os_answer \<Rightarrow> os_answer \<Rightarrow> os_answer \<Rightarrow> registration_mode \<Rightarrow> async_socket
   \<Rightarrow> ('ms, 'r, 's, 'c) net \<Rightarrow> async_socket io_result \<times> ('ms, 'r, 's, 'c) net" where
  "pipe_switch cfg da ra getfl setfl ca mode p n =
     (case rebind_mode cfg da ra mode (sk_handle p) (nt_driver n) of
        (Inl err, h, drv) \<Rightarrow> (Inl err, socket_drop cfg ca (p\<lparr>sk_handle := h\<rparr>) (n\<lparr>nt_driver := drv\<rparr>))
      | (Inr _, h, drv) \<Rightarrow>
          (Inr (p\<lparr>sk_handle := h\<rparr>), set_pipe_flags getfl setfl (sk_fd p) (uses_completion drv h) (n\<lparr>nt_driver := drv\<rparr>)))"

definition pipe_into_poll where
  "pipe_into_poll cfg da ra getfl setfl ca p n = pipe_switch cfg da ra getfl setfl ca PollMode p n"

definition pipe_into_completion where
  "pipe_into_completion cfg da ra getfl setfl ca p n = pipe_switch cfg da ra getfl setfl ca CompletionMode p n"

text \<open>
  \<open>pipe\<close>: the answer of the system call gives both ends with their file descriptions. When the first
  end cannot be registered the second is closed, when the second cannot, the first is dropped.
\<close>

definition pipe ::
  "('ms, 'r, 's, 'c) op_cfg \<Rightarrow> ((raw_fd \<times> nat) \<times> (raw_fd \<times> nat)) io_result \<Rightarrow> (os_answer \<times> os_answer \<times> os_answer)
   \<Rightarrow> (os_answer \<times> os_answer \<times> os_answer) \<Rightarrow> os_answer \<Rightarrow> ('ms, 'r, 's, 'c) net
   \<Rightarrow> (async_socket \<times> async_socket) io_result \<times> ('ms, 'r, 's, 'c) net" where
  "pipe cfg sys ar aw da n =
     (case sys of
        Inl err \<Rightarrow> (Inl err, n)
      | Inr ((rfd, i), (wfd, j)) \<Rightarrow>
          (let (ra, ga, sa) = ar; (rb, gb, sb) = aw;
               n0 = n\<lparr>nt_files := (nt_files n)(rfd \<mapsto> i, wfd \<mapsto> j)\<rparr>
           in case pipe_from_std cfg ra ga sa CompletionMode rfd n0 of
                (Inl err, n1) \<Rightarrow> (Inl err, close_fd wfd n1)
              | (Inr p, n1) \<Rightarrow>
                  (case pipe_from_std cfg rb gb sb CompletionMode wfd n1 of
                     (Inl err, n2) \<Rightarrow> (Inl err, socket_drop cfg da p n2)
                   | (Inr q, n2) \<Rightarrow> (Inr (p, q), n2))))"

section \<open>Properties\<close>

text \<open>
  Standard streams never lose the caller's buffer unless the job of the pool panicked: the buffer
  comes back in every other case, unchanged after a write and after an error, and a read has
  stored exactly the bytes it reports.
\<close>

lemma mb_store_Nil [simp]: "mb_store [] b = b"
  by (simp add: mb_store_def overwrite_def)

lemma lend_write:
  assumes "j \<noteq> JobPanicked"
  shows "\<exists>r k'. write_in_blocking_pool j ops b k = (Resolved r, Some b, k')"
  using assms
  by (cases j) (auto simp: write_in_blocking_pool_def lend_def spawn_blocking_def write_stream_blocking_def split: prod.splits)

lemma read_stream_result:
  "\<exists>r b' k'. read_stream_blocking ops b k = ((r, b'), k') \<and>
    (case r of Inl err \<Rightarrow> b' = b | Inr n \<Rightarrow> \<exists>bs. n = length bs \<and> b' = mb_store bs b)"
  by (cases "so_read ops (length (mb_slice b)) k") (auto simp: read_stream_blocking_def split: sum.split)

lemma lend_read:
  assumes "j \<noteq> JobPanicked"
  shows "\<exists>r b' k'. read_in_blocking_pool j ops b k = (Resolved r, Some b', k') \<and>
    (case r of Inl err \<Rightarrow> b' = b | Inr n \<Rightarrow> \<exists>bs. n = length bs \<and> b' = mb_store bs b)"
  using assms read_stream_result[of ops b k]
  by (cases j) (auto simp: read_in_blocking_pool_def lend_def spawn_blocking_def)

theorem stdio_buffer_returned:
  assumes "mb_cursor b \<le> mb_len b" and "inside \<longrightarrow> j \<noteq> JobPanicked"
  shows "(\<exists>r k'. stdout_write inside j ops b k = (Resolved r, Some b, k')) \<and>
    (\<exists>r b' k'. stdin_read inside j ops b k = (Resolved r, Some b', k') \<and>
      (case r of Inl err \<Rightarrow> b' = b | Inr n \<Rightarrow> \<exists>bs. n = length bs \<and> b' = mb_store bs b))"
proof -
  have a: "mb_avail b = Some (mb_len b - mb_cursor b)" using assms(1) by (simp add: mb_avail_def)
  have "\<exists>r k'. stdout_write inside j ops b k = (Resolved r, Some b, k')"
    using assms(2) lend_write[of j ops b k] a
    by (auto simp: stdout_write_def write_stream_blocking_def split: prod.splits)
  moreover have "\<exists>r b' k'. stdin_read inside j ops b k = (Resolved r, Some b', k') \<and>
      (case r of Inl err \<Rightarrow> b' = b | Inr n \<Rightarrow> \<exists>bs. n = length bs \<and> b' = mb_store bs b)"
  proof (cases "mb_len b - mb_cursor b = 0")
    case True
    then show ?thesis using a by (auto simp: stdin_read_def intro!: exI[of _ "[]"])
  next
    case False
    then show ?thesis using a assms(2) lend_read[of j ops b k] read_stream_result[of ops b k]
      by (cases inside) (auto simp: stdin_read_def)
  qed
  ultimately show ?thesis ..
qed

lemma set_pipe_flags_simps [simp]:
  "nt_files (set_pipe_flags g s fd c n) = nt_files n" "nt_driver (set_pipe_flags g s fd c n) = nt_driver n"
  "nt_entered (set_pipe_flags g s fd c n) = nt_entered n"
  by (auto simp: set_pipe_flags_def set_nonblocking_def split: option.splits)

lemma pipe_from_std_error:
  assumes "pipe_from_std cfg ra g st mode fd n = (Inl err, n')"
  shows "nt_files n' = (nt_files n)(fd := None)"
  using assms by (auto simp: pipe_from_std_def Let_def files_close_fd split: prod.splits sum.splits)

lemma pipe_from_std_ok:
  assumes "slab (dc_mio cfg)" and "slab (u_regs (dc_uring cfg))"
    and "pipe_from_std cfg ra None None mode fd n = (Inr p, n')" and "nt_files n fd = Some i"
  shows "socket_ok cfg n' p" "sk_fd p = fd" "nt_files n' = nt_files n"
    "handle_regs cfg (nt_driver n) \<subseteq> handle_regs cfg (nt_driver n')"
    "any_supports_completion (nt_driver n') = any_supports_completion (nt_driver n)"
    "k \<noteq> i \<Longrightarrow> nt_nonblock n' k = nt_nonblock n k"
  using assms(3,4)
  by (auto simp: pipe_from_std_def Let_def socket_ok_def set_pipe_flags_def set_nonblocking_def
      split: prod.splits sum.splits elim!: new_with_mode_ok dest: register_regs[OF assms(1,2)])

text \<open>
  C28: A pipe is created whole or not at all. When \<open>pipe\<close> fails, at the system call or at the registration of
  either end, no descriptor of it stays open; when it succeeds (and the flags can be read and set)
  both ends are open, registered, and non-blocking exactly when they do not use completions.
\<close>

theorem pipe_all_or_nothing:
  assumes "slab (dc_mio cfg)" and "slab (u_regs (dc_uring cfg))"
    and "nt_files n rfd = None" and "nt_files n wfd = None" and "rfd \<noteq> wfd" and "i \<noteq> j"
    and "pipe cfg (Inr ((rfd, i), (wfd, j))) (ra, None, None) (rb, None, None) da n = (r, n')"
  shows "case r of
      Inl err \<Rightarrow> nt_files n' = nt_files n
    | Inr (p, q) \<Rightarrow> nt_files n' = (nt_files n)(rfd \<mapsto> i, wfd \<mapsto> j) \<and> sk_fd p = rfd \<and> sk_fd q = wfd \<and>
        socket_ok cfg n' p \<and> socket_ok cfg n' q"
proof -
  let ?n0 = "n\<lparr>nt_files := (nt_files n)(rfd \<mapsto> i, wfd \<mapsto> j)\<rparr>"
  have closed: "(nt_files n)(rfd := None, wfd := None) = nt_files n" using assms(3,4) by (auto simp: fun_eq_iff)
  obtain x n1 where x: "pipe_from_std cfg ra None None CompletionMode rfd ?n0 = (x, n1)" by fastforce
  show ?thesis
  proof (cases x)
    case (Inl err)
    then show ?thesis using assms(5,7) x closed pipe_from_std_error[of cfg ra None None CompletionMode rfd ?n0 err n1]
      by (auto simp: pipe_def files_close_fd fun_upd_twist)
  next
    case (Inr p)
    have "nt_files ?n0 rfd = Some i" using assms(5) by simp
    note P = pipe_from_std_ok[OF assms(1,2) x[unfolded Inr] this]
    obtain y n2 where y: "pipe_from_std cfg rb None None CompletionMode wfd n1 = (y, n2)" by fastforce
    show ?thesis
    proof (cases y)
      case (Inl err)
      then show ?thesis using assms(5,7) x Inr y closed P(2,3) pipe_from_std_error[of cfg rb None None CompletionMode wfd n1 err n2]
        by (auto simp: pipe_def socket_drop_def files_close_fd fun_upd_twist)
    next
      case y': (Inr q)
      have "nt_files n1 wfd = Some j" using P(3) by simp
      note Q = pipe_from_std_ok[OF assms(1,2) y[unfolded y'] this]
      have "socket_ok cfg n2 p"
        using P(1,2,3) Q(3,4,5) Q(6)[of i] assms(5,6) by (auto simp: socket_ok_def uses_completion_def)
      then show ?thesis using assms(7) x Inr y y' P(2,3) Q(1,2,3) by (auto simp: pipe_def)
    qed
  qed
qed

section \<open>Concrete runs\<close>

theorem stdio_buffer_returned_witness:
  "\<exists>r k'. stdout_write True NotSpawned \<lparr>so_read = \<lambda>n k. (Inr [], k), so_write = \<lambda>bs k. (Inr (length bs), k @ bs), so_flush = \<lambda>k. (Inr (), k)\<rparr>
     \<lparr>mb_mem = [1, 2], mb_len = 2, mb_fixed = True, mb_cursor = 0\<rparr> [] =
   (Resolved r, Some \<lparr>mb_mem = [1, 2], mb_len = 2, mb_fixed = True, mb_cursor = 0\<rparr>, k')"
  by (rule stdio_buffer_returned[THEN conjunct1]) simp_all

theorem pipe_all_or_nothing_witness:
  "\<exists>p q n'. pipe demo_opcfg (Inr ((7, 41), (8, 42))) (None, None, None) (None, None, None) None demo_net = (Inr (p, q), n') \<and>
     socket_ok demo_opcfg n' p \<and> socket_ok demo_opcfg n' q"
proof -
  have "\<exists>p q n'. pipe demo_opcfg (Inr ((7, 41), (8, 42))) (None, None, None) (None, None, None) None demo_net = (Inr (p, q), n')"
    by (simp add: pipe_def pipe_from_std_def demo_net_eval)
  then obtain p q n' where r: "pipe demo_opcfg (Inr ((7, 41), (8, 42))) (None, None, None) (None, None, None) None demo_net =
      (Inr (p, q), n')" by blast
  have "nt_files demo_net 7 = None" "nt_files demo_net 8 = None" "(7 :: nat) \<noteq> 8" "(41 :: nat) \<noteq> 42"
    by (simp_all add: demo_net_def)
  from pipe_all_or_nothing[OF demo_opcfg_slabs(1,2) this r] r show ?thesis by auto
qed

end
