(* ===== verification/Signals.thy ===== *)
theory Signals
  imports Io_Ops
begin

text \<open>
  Unix signals (\<open>signal/unix.rs\<close>): the registry of handlers with its reference counts, the
  listeners, and the dispatch thread that reassembles signal numbers from a pipe. Dispositions
  of the process are a map from signal numbers to actions; answers of \<open>sigaction\<close>, \<open>pipe2\<close> and
  thread creation are arguments. A listener shares its counter and its list of wakers with the
  registry through the identity of the state (\<open>Arc\<close>).
\<close>

type_synonym signum = int

record signal_state =
  ss_counter :: usize
  ss_wakers :: "waker list"

record 'a registered_signal =
  rs_state :: nat
  rs_refs :: usize
  rs_prev :: 'a

record 'a signals =
  sg_ready :: bool
  sg_write_fd :: int
  sg_table :: "signum \<rightharpoonup> 'a registered_signal"
  sg_states :: "nat \<Rightarrow> signal_state"
  sg_next :: nat
  sg_action :: "signum \<Rightarrow> 'a"

record signal =
  sig_kind :: signum
  sig_state :: nat
  sig_last :: usize

section \<open>Registration\<close>

text \<open>
  \<open>REGISTRY.get_or_try_init(init_registry)\<close>, with the answers of \<open>pipe2\<close> and of the thread. A
  failed thread leaves the descriptor of the pipe stored and the registry unset.
\<close>

type_synonym init_answers = "(int \<times> int) io_result \<times> os_answer"

definition registry :: "init_answers \<Rightarrow> 'a signals \<Rightarrow> unit io_result \<times> 'a signals" where
  "registry ia g =
     (if sg_ready g then (Inr (), g)
      else case ia of
             (Inl err, _) \<Rightarrow> (Inl err, g)
           | (Inr (rfd, wfd), Some err) \<Rightarrow> (Inl (Simple OtherKind), g\<lparr>sg_write_fd := wfd\<rparr>)
           | (Inr (rfd, wfd), None) \<Rightarrow> (Inr (), g\<lparr>sg_write_fd := wfd, sg_ready := True\<rparr>))"

definition install_handler :: "'a \<Rightarrow> os_answer \<Rightarrow> signum \<Rightarrow> 'a signals \<Rightarrow> 'a io_result \<times> 'a signals" where
  "install_handler handler ans k g =
     (case ans of
        Some err \<Rightarrow> (Inl err, g)
      | None \<Rightarrow> (Inr (sg_action g k), g\<lparr>sg_action := (sg_action g)(k := handler)\<rparr>))"

definition restore_handler :: "os_answer \<Rightarrow> signum \<Rightarrow> 'a \<Rightarrow> 'a signals \<Rightarrow> 'a signals" where
  "restore_handler ans k prev g =
     (case ans of Some err \<Rightarrow> g | None \<Rightarrow> g\<lparr>sg_action := (sg_action g)(k := prev)\<rparr>)"

definition register_signal ::
  "'a \<Rightarrow> init_answers \<Rightarrow> os_answer \<Rightarrow> signum \<Rightarrow> 'a signals \<Rightarrow> nat io_result \<times> 'a signals" where
  "register_signal handler ia ans k g =
     (case registry ia g of
        (Inl err, g1) \<Rightarrow> (Inl err, g1)
      | (Inr _, g1) \<Rightarrow>
          (case sg_table g1 k of
             Some e \<Rightarrow> (Inr (rs_state e), g1\<lparr>sg_table := (sg_table g1)(k \<mapsto> e\<lparr>rs_refs := rs_refs e + 1\<rparr>)\<rparr>)
           | None \<Rightarrow>
               (case install_handler handler ans k g1 of
                  (Inl err, g2) \<Rightarrow> (Inl err, g2)
                | (Inr prev, g2) \<Rightarrow>
                    (Inr (sg_next g2),
                     g2\<lparr>sg_table := (sg_table g2)(k \<mapsto> \<lparr>rs_state = sg_next g2, rs_refs = 1, rs_prev = prev\<rparr>),
                        sg_states := (sg_states g2)(sg_next g2 := \<lparr>ss_counter = 0, ss_wakers = []\<rparr>),
                        sg_next := sg_next g2 + 1\<rparr>))))"

text \<open>
  \<open>unregister_signal\<close> drops the lock of the table between removing the entry and restoring the
  previous action: two steps, which another thread may come between.
\<close>

definition unregister_entry :: "init_answers \<Rightarrow> signum \<Rightarrow> 'a signals \<Rightarrow> 'a option \<times> 'a signals" where
  "unregister_entry ia k g =
     (case registry ia g of
        (Inl err, g1) \<Rightarrow> (None, g1)
      | (Inr _, g1) \<Rightarrow>
          (case sg_table g1 k of
             None \<Rightarrow> (None, g1)
           | Some e \<Rightarrow>
               if 1 < rs_refs e then (None, g1\<lparr>sg_table := (sg_table g1)(k \<mapsto> e\<lparr>rs_refs := rs_refs e - 1\<rparr>)\<rparr>)
               else (Some (rs_prev e), g1\<lparr>sg_table := (sg_table g1)(k := None)\<rparr>)))"

definition unregister_signal :: "init_answers \<Rightarrow> os_answer \<Rightarrow> signum \<Rightarrow> 'a signals \<Rightarrow> 'a signals" where
  "unregister_signal ia ans k g =
     (case unregister_entry ia k g of
        (None, g1) \<Rightarrow> g1
      | (Some prev, g1) \<Rightarrow> restore_handler ans k prev g1)"

definition signal_new ::
  "'a \<Rightarrow> init_answers \<Rightarrow> os_answer \<Rightarrow> signum \<Rightarrow> 'a signals \<Rightarrow> signal io_result \<times> 'a signals" where
  "signal_new handler ia ans k g =
     (case register_signal handler ia ans k g of
        (Inl err, g1) \<Rightarrow> (Inl err, g1)
      | (Inr i, g1) \<Rightarrow>
          (Inr \<lparr>sig_kind = k, sig_state = i, sig_last = ss_counter (sg_states g1 i)\<rparr>, g1))"

definition signal_drop :: "init_answers \<Rightarrow> os_answer \<Rightarrow> signal \<Rightarrow> 'a signals \<Rightarrow> 'a signals" where
  "signal_drop ia ans s g = unregister_signal ia ans (sig_kind s) g"

section \<open>Waiting and dispatching\<close>

definition register_waker :: "waker \<Rightarrow> signal_state \<Rightarrow> signal_state" where
  "register_waker w st = (if w \<in> set (ss_wakers st) then st else st\<lparr>ss_wakers := ss_wakers st @ [w]\<rparr>)"

text \<open>
  \<open>poll_recv\<close> and \<open>dispatch_signal\<close> run on different threads; each is two atomic steps, an
  access to the counter and one to the list of wakers under its lock.
\<close>

definition recv_load :: "signal \<Rightarrow> 'a signals \<Rightarrow> bool \<times> signal" where
  "recv_load s g =
     (let current = ss_counter (sg_states g (sig_state s)) in
      if current \<noteq> sig_last s then (True, s\<lparr>sig_last := current\<rparr>) else (False, s))"

definition recv_register :: "waker \<Rightarrow> signal \<Rightarrow> 'a signals \<Rightarrow> 'a signals" where
  "recv_register w s g = g\<lparr>sg_states := (sg_states g)(sig_state s := register_waker w (sg_states g (sig_state s)))\<rparr>"

definition poll_recv :: "waker \<Rightarrow> signal \<Rightarrow> 'a signals \<Rightarrow> unit io_result poll \<times> signal \<times> 'a signals" where
  "poll_recv w s g =
     (case recv_load s g of
        (True, s1) \<Rightarrow> (Ready (Inr ()), s1, g)
      | (False, s1) \<Rightarrow> (Pending, s1, recv_register w s1 g))"

definition disp_add :: "nat \<Rightarrow> 'a signals \<Rightarrow> 'a signals" where
  "disp_add i g = g\<lparr>sg_states := (sg_states g)(i := (sg_states g i)\<lparr>ss_counter := u64_add (ss_counter (sg_states g i)) 1\<rparr>)\<rparr>"

definition disp_take :: "nat \<Rightarrow> 'a signals \<Rightarrow> waker list \<times> 'a signals" where
  "disp_take i g = (ss_wakers (sg_states g i), g\<lparr>sg_states := (sg_states g)(i := (sg_states g i)\<lparr>ss_wakers := []\<rparr>)\<rparr>)"

definition dispatch_signal :: "signum \<Rightarrow> 'a signals \<Rightarrow> waker list \<times> 'a signals" where
  "dispatch_signal k g =
     (case sg_table g k of
        None \<Rightarrow> ([], g)
      | Some e \<Rightarrow> disp_take (rs_state e) (disp_add (rs_state e) g))"

section \<open>The pipe\<close>

text \<open>The handler writes the four bytes of the number; the dispatch loop collects them again.\<close>

definition to_ne_bytes :: "bool \<Rightarrow> nat \<Rightarrow> byte list" where
  "to_ne_bytes le n = (let bs = [n mod 256, n div 256 mod 256, n div 2 ^ 16 mod 256, n div 2 ^ 24 mod 256]
     in if le then bs else rev bs)"

definition to_u32 :: "int \<Rightarrow> nat" where
  "to_u32 i = nat (i mod 2 ^ 32)"

definition to_i32 :: "nat \<Rightarrow> int" where
  "to_i32 n = (if n < 2 ^ 31 then int n else int n - 2 ^ 32)"

definition signal_handler :: "bool \<Rightarrow> 'a signals \<Rightarrow> signum \<Rightarrow> byte list" where
  "signal_handler le g k = (if sg_write_fd g < 0 then [] else to_ne_bytes le (to_u32 k))"

fun dispatch_byte ::
  "bool \<Rightarrow> byte \<Rightarrow> byte list \<times> waker list \<times> 'a signals \<Rightarrow> byte list \<times> waker list \<times> 'a signals" where
  "dispatch_byte le b (pend, ws, g) =
     (case pend @ [b] of
        [x, y, z, v] \<Rightarrow> (let (ws1, g1) = dispatch_signal (to_i32 (from_ne_bytes le (x, y, z, v))) g in ([], ws @ ws1, g1))
      | pend1 \<Rightarrow> (pend1, ws, g))"

text \<open>One iteration of the loop: an error or an empty read changes nothing.\<close>

definition dispatch_iter ::
  "bool \<Rightarrow> byte list io_result \<Rightarrow> byte list \<times> waker list \<times> 'a signals \<Rightarrow> byte list \<times> waker list \<times> 'a signals" where
  "dispatch_iter le ans acc = (case ans of Inl err \<Rightarrow> acc | Inr bytes \<Rightarrow> fold (dispatch_byte le) bytes acc)"

text \<open>What the dispatch thread does for a list of signal numbers.\<close>

fun dispatch_all :: "signum list \<Rightarrow> 'a signals \<Rightarrow> waker list \<times> 'a signals" where
  "dispatch_all [] g = ([], g)"
| "dispatch_all (k # ks) g =
     (let (ws, g1) = dispatch_signal k g; (ws', g2) = dispatch_all ks g1 in (ws @ ws', g2))"

section \<open>Reassembly\<close>

lemma bytes_join:
  assumes "n < 2 ^ 32"
  shows "n mod 256 + n div 256 mod 256 * 256 + n div 2 ^ 16 mod 256 * 2 ^ 16 + n div 2 ^ 24 mod 256 * 2 ^ 24 = (n :: nat)"
proof -
  have "n div 16777216 mod 256 = n div 16777216" using assms by simp
  moreover have "n div 65536 = n div 16777216 * 256 + n div 65536 mod 256"
    using div_mult_mod_eq[of "n div 65536" 256] by (simp add: div_mult2_eq[symmetric])
  moreover have "n div 256 = n div 65536 * 256 + n div 256 mod 256"
    using div_mult_mod_eq[of "n div 256" 256] by (simp add: div_mult2_eq[symmetric])
  moreover have "n = n div 256 * 256 + n mod 256" by (rule div_mult_mod_eq[symmetric])
  ultimately have "n mod 256 + n div 256 mod 256 * 256 + n div 65536 mod 256 * 65536 +
    n div 16777216 mod 256 * 16777216 = n" by linarith
  moreover have "(2 :: nat) ^ 16 = 65536" and "(2 :: nat) ^ 24 = 16777216" by simp_all
  ultimately show ?thesis by (simp only:)
qed

lemma to_u32_bound: "to_u32 k < 2 ^ 32"
  by (simp add: to_u32_def nat_less_iff)

lemma to_i32_to_u32:
  assumes "- (2 ^ 31) \<le> k" and "k < 2 ^ 31"
  shows "to_i32 (to_u32 k) = k"
proof (cases "0 \<le> k")
  case True
  then have "k mod 2 ^ 32 = k" using assms by simp
  then show ?thesis using True assms by (simp add: to_i32_def to_u32_def)
next
  case False
  have "k mod 2 ^ 32 = (k + 2 ^ 32) mod 2 ^ 32" by simp
  also have "\<dots> = k + 2 ^ 32" using False assms by (intro mod_pos_pos_trivial) simp_all
  finally have "k mod 4294967296 = k + 4294967296" by simp
  then show ?thesis using False assms by (simp add: to_i32_def to_u32_def)
qed

lemma from_to_ne_bytes:
  assumes "n < 2 ^ 32" and "to_ne_bytes le n = [x, y, z, v]"
  shows "from_ne_bytes le (x, y, z, v) = n"
  using assms(2) bytes_join[OF assms(1)]
  by (cases le) (auto simp only: to_ne_bytes_def from_ne_bytes_def Let_def rev.simps append.simps list.inject
        if_True if_False prod.case ac_simps)

lemma to_ne_bytes_four:
  obtains x y z v where "to_ne_bytes le n = [x, y, z, v]"
  by (cases le) (auto simp: to_ne_bytes_def Let_def)

lemma dispatch_number:
  assumes "- (2 ^ 31) \<le> k" and "k < 2 ^ 31" and "dispatch_signal k g = (ws1, g1)"
  shows "fold (dispatch_byte le) (to_ne_bytes le (to_u32 k)) ([], ws, g) = ([], ws @ ws1, g1)"
proof -
  obtain x y z v where b: "to_ne_bytes le (to_u32 k) = [x, y, z, v]" by (rule to_ne_bytes_four)
  show ?thesis using assms(3) from_to_ne_bytes[OF to_u32_bound b] to_i32_to_u32[OF assms(1,2)] by (simp add: b)
qed

lemma dispatch_numbers:
  assumes "\<And>k. k \<in> set ks \<Longrightarrow> - (2 ^ 31) \<le> k \<and> k < 2 ^ 31" and "dispatch_all ks g = (ws1, g1)"
  shows "fold (dispatch_byte le) (concat (map (\<lambda>k. to_ne_bytes le (to_u32 k)) ks)) ([], ws, g) = ([], ws @ ws1, g1)"
  using assms
proof (induction ks arbitrary: g ws ws1)
  case (Cons k ks)
  obtain ws2 g2 where d: "dispatch_signal k g = (ws2, g2)" by fastforce
  obtain ws3 where r: "dispatch_all ks g2 = (ws3, g1)" and ws1: "ws1 = ws2 @ ws3"
    using Cons.prems(2) d by (auto split: prod.splits)
  have "fold (dispatch_byte le) (to_ne_bytes le (to_u32 k)) ([], ws, g) = ([], ws @ ws2, g2)"
    using Cons.prems(1)[of k] by (intro dispatch_number[OF _ _ d]) simp_all
  then show ?case using Cons.IH[OF _ r, of "ws @ ws2"] Cons.prems(1) by (simp add: ws1)
qed simp

lemma dispatch_iters:
  "fold (dispatch_iter le) answers acc = fold (dispatch_byte le) (concat (map (case_sum (\<lambda>_. []) id) answers)) acc"
  by (induction answers arbitrary: acc) (auto simp: dispatch_iter_def split: sum.splits)

text \<open>
  The dispatch thread recovers every signal number. However the reads of the pipe cut the bytes
  that the handlers wrote, in pieces of any size and with failed or empty reads in between, the
  loop dispatches exactly the written numbers, in order, and has no bytes left over.
\<close>

theorem signal_bytes_reassembled:
  assumes "\<And>k. k \<in> set ks \<Longrightarrow> - (2 ^ 31) \<le> k \<and> k < 2 ^ 31" and "0 \<le> sg_write_fd g"
    and "concat (map (case_sum (\<lambda>_. []) id) answers) = concat (map (signal_handler le g) ks)"
    and "dispatch_all ks g = (ws, g')"
  shows "fold (dispatch_iter le) answers ([], [], g) = ([], ws, g')"
proof -
  have "signal_handler le g = (\<lambda>k. to_ne_bytes le (to_u32 k))" using assms(2) by (simp add: signal_handler_def fun_eq_iff)
  then show ?thesis using dispatch_numbers[OF assms(1,4), of le "[]"] by (simp add: dispatch_iters assms(3))
qed

definition demo_signals :: "nat signals" where
  "demo_signals = \<lparr>sg_ready = False, sg_write_fd = -1, sg_table = Map.empty,
     sg_states = (\<lambda>_. \<lparr>ss_counter = 0, ss_wakers = []\<rparr>), sg_next = 0, sg_action = (\<lambda>_. 0)\<rparr>"

definition demo_listening :: "nat signals" where
  "demo_listening = (snd \<circ> snd) (poll_recv (TaskWaker 3) \<lparr>sig_kind = 15, sig_state = 0, sig_last = 0\<rparr>
     (snd (signal_new 1 (Inr (8, 9), None) None 15 demo_signals)))"

theorem signal_bytes_reassembled_witness:
  "fold (dispatch_iter True) [Inr [15, 0], Inl (Simple WouldBlock), Inr [0], Inr [0]] ([], [], demo_listening) =
     ([], dispatch_all [15] demo_listening)"
proof -
  obtain ws g' where d: "dispatch_all [15] demo_listening = (ws, g')" by fastforce
  have f: "0 \<le> sg_write_fd demo_listening"
    by (simp add: demo_listening_def demo_signals_def signal_new_def register_signal_def registry_def install_handler_def
        poll_recv_def recv_load_def recv_register_def)
  have h: "concat (map (case_sum (\<lambda>_. []) id) [Inr [15, 0], Inl (Simple WouldBlock), Inr [0], Inr [0]]) =
      concat (map (signal_handler True demo_listening) [15])"
    using f by (simp add: signal_handler_def to_ne_bytes_def to_u32_def)
  show ?thesis using signal_bytes_reassembled[OF _ f h d] unfolding d by simp
qed

section \<open>The registry over time\<close>

text \<open>
  The states of the registry together with the live listeners, from a process whose dispositions
  are \<open>a0\<close>: listeners are created (or fail), polled, dropped and dispatched to in any order. The
  restoring \<open>sigaction\<close> of a drop succeeds: it names a number that \<open>sigaction\<close> accepted before.
\<close>

inductive sig_reach :: "'a \<Rightarrow> (signum \<Rightarrow> 'a) \<Rightarrow> 'a signals \<Rightarrow> signal list \<Rightarrow> bool" for handler a0 where
  start: "sig_reach handler a0 \<lparr>sg_ready = False, sg_write_fd = -1, sg_table = Map.empty,
      sg_states = st, sg_next = n, sg_action = a0\<rparr> []"
| create: "sig_reach handler a0 g L \<Longrightarrow> signal_new handler ia ans k g = (Inr s, g') \<Longrightarrow> sig_reach handler a0 g' (s # L)"
| create_fails: "sig_reach handler a0 g L \<Longrightarrow> signal_new handler ia ans k g = (Inl err, g') \<Longrightarrow> sig_reach handler a0 g' L"
| recv: "sig_reach handler a0 g L \<Longrightarrow> s \<in> set L \<Longrightarrow> poll_recv w s g = (r, s', g') \<Longrightarrow>
    sig_reach handler a0 g' (s' # remove1 s L)"
| release: "sig_reach handler a0 g L \<Longrightarrow> s \<in> set L \<Longrightarrow> sig_reach handler a0 (signal_drop ia None s g) (remove1 s L)"
| deliver: "sig_reach handler a0 g L \<Longrightarrow> dispatch_signal k g = (ws, g') \<Longrightarrow> sig_reach handler a0 g' L"

definition listeners :: "signum \<Rightarrow> signal list \<Rightarrow> nat" where
  "listeners k L = length (filter (\<lambda>s. sig_kind s = k) L)"

text \<open>What the registry holds for one signal number with \<open>n\<close> listeners.\<close>

definition entry_ok :: "'a \<Rightarrow> 'a \<Rightarrow> nat \<Rightarrow> 'a registered_signal option \<Rightarrow> 'a \<Rightarrow> bool" where
  "entry_ok handler orig n entry action =
     (case entry of
        None \<Rightarrow> n = 0 \<and> action = orig
      | Some e \<Rightarrow> 0 < n \<and> rs_refs e = n \<and> rs_prev e = orig \<and> action = handler)"

definition shares_state :: "'a signals \<Rightarrow> signal \<Rightarrow> bool" where
  "shares_state g s = (case sg_table g (sig_kind s) of None \<Rightarrow> False | Some e \<Rightarrow> rs_state e = sig_state s)"

definition sig_inv :: "'a \<Rightarrow> (signum \<Rightarrow> 'a) \<Rightarrow> 'a signals \<Rightarrow> signal list \<Rightarrow> bool" where
  "sig_inv handler a0 g L =
     ((\<forall>k. entry_ok handler (a0 k) (listeners k L) (sg_table g k) (sg_action g k)) \<and>
      (\<forall>s \<in> set L. shares_state g s) \<and> (\<forall>k. sg_table g k \<noteq> None \<longrightarrow> sg_ready g))"

lemma listeners_simps [simp]:
  "listeners k [] = 0"
  "listeners k (s # L) = (if sig_kind s = k then listeners k L + 1 else listeners k L)"
  by (simp_all add: listeners_def)

lemma listeners_remove1:
  "s \<in> set L \<Longrightarrow> listeners k (remove1 s L) = (if sig_kind s = k then listeners k L - 1 else listeners k L)"
  by (auto simp: listeners_def filter_remove1 length_remove1)

lemma listeners_pos: "s \<in> set L \<Longrightarrow> 0 < listeners (sig_kind s) L"
  by (auto simp: listeners_def length_greater_0_conv filter_empty_conv)

lemma registry_keeps:
  assumes "registry ia g = (r, g')"
  shows "sg_table g' = sg_table g" and "sg_action g' = sg_action g" and "r = Inr () \<Longrightarrow> sg_ready g'"
    and "sg_ready g \<Longrightarrow> sg_ready g'" and "sg_states g' = sg_states g"
  using assms by (auto simp: registry_def split: if_splits sum.splits prod.splits option.splits)

text \<open>Only the table, the actions and the ready flag matter to the invariant.\<close>

lemma sig_inv_cong:
  assumes "sig_inv handler a0 g L" and "sg_table g' = sg_table g" and "sg_action g' = sg_action g"
    and "sg_ready g \<Longrightarrow> sg_ready g'"
  shows "sig_inv handler a0 g' L"
  using assms by (auto simp: sig_inv_def shares_state_def)

text \<open>A step that touches one signal number has to be looked at for that number only.\<close>

lemma sig_inv_update:
  assumes "sig_inv handler a0 g L"
    and "sg_table g' = (sg_table g)(k := entry)" and "sg_action g' = (sg_action g)(k := action)" and "sg_ready g'"
    and "\<And>i. i \<noteq> k \<Longrightarrow> listeners i L' = listeners i L"
    and "entry_ok handler (a0 k) (listeners k L') entry action"
    and "\<And>s. s \<in> set L' \<Longrightarrow> sig_kind s \<noteq> k \<Longrightarrow> s \<in> set L"
    and "\<And>s. s \<in> set L' \<Longrightarrow> sig_kind s = k \<Longrightarrow> \<exists>e. entry = Some e \<and> rs_state e = sig_state s"
  shows "sig_inv handler a0 g' L'"
proof -
  have "entry_ok handler (a0 i) (listeners i L') (sg_table g' i) (sg_action g' i)" for i
    using assms(1,6) assms(5)[of i] by (cases "i = k") (simp_all add: assms(2,3) sig_inv_def)
  moreover have "shares_state g' s" if "s \<in> set L'" for s
    using assms(1) assms(7,8)[OF that] by (cases "sig_kind s = k") (auto simp: shares_state_def assms(2) sig_inv_def)
  ultimately show ?thesis using assms(4) by (simp add: sig_inv_def)
qed

lemma sig_inv_entry:
  assumes "sig_inv handler a0 g L"
  shows "entry_ok handler (a0 k) (listeners k L) (sg_table g k) (sg_action g k)"
    and "s \<in> set L \<Longrightarrow> \<exists>e. sg_table g (sig_kind s) = Some e \<and> rs_state e = sig_state s"
    and "sg_table g k = Some e \<Longrightarrow> sg_ready g"
  using assms by (auto simp: sig_inv_def shares_state_def split: option.splits)

lemma sig_inv_create:
  assumes "sig_inv handler a0 g L" and new: "signal_new handler ia ans k g = (Inr s, g')"
  shows "sig_inv handler a0 g' (s # L)"
proof -
  obtain g1 where r: "registry ia g = (Inr (), g1)" and s: "sig_kind s = k"
    using new by (auto simp: signal_new_def register_signal_def split: sum.splits prod.splits)
  note keep = registry_keeps[OF r]
  have inv: "sig_inv handler a0 g1 L" using sig_inv_cong[OF assms(1) keep(1,2,4)] .
  note ok = sig_inv_entry(1)[OF inv, of k] and shared = sig_inv_entry(2)[OF inv]
  show ?thesis
  proof (cases "sg_table g1 k")
    case (Some e)
    have g': "g' = g1\<lparr>sg_table := (sg_table g1)(k \<mapsto> e\<lparr>rs_refs := rs_refs e + 1\<rparr>)\<rparr>" and st: "sig_state s = rs_state e"
      using new r Some by (auto simp: signal_new_def register_signal_def)
    show ?thesis
      by (rule sig_inv_update[OF inv, where k = k and entry = "Some (e\<lparr>rs_refs := rs_refs e + 1\<rparr>)" and action = "sg_action g1 k"])
        (use ok shared Some s st keep(3) in \<open>auto simp: g' entry_ok_def dest: shared\<close>)
  next
    case None
    let ?e = "\<lparr>rs_state = sg_next g1, rs_refs = 1, rs_prev = sg_action g1 k\<rparr>"
    have g': "sg_table g' = (sg_table g1)(k \<mapsto> ?e)" "sg_action g' = (sg_action g1)(k := handler)" "sg_ready g' = sg_ready g1"
      and st: "sig_state s = sg_next g1"
      using new r None by (auto simp: signal_new_def register_signal_def install_handler_def split: option.splits)
    show ?thesis
      by (rule sig_inv_update[OF inv g'(1,2)])
        (use ok shared None s st keep(3) g'(3) in \<open>auto simp: entry_ok_def dest: shared\<close>)
  qed
qed

lemma sig_inv_create_fails:
  assumes "sig_inv handler a0 g L" and "signal_new handler ia ans k g = (Inl err, g')"
  shows "sig_inv handler a0 g' L"
proof -
  obtain r g1 where r: "registry ia g = (r, g1)" by fastforce
  then have "g' = g1"
    using assms(2)
    by (auto simp: signal_new_def register_signal_def install_handler_def split: sum.splits prod.splits option.splits)
  then show ?thesis using sig_inv_cong[OF assms(1) registry_keeps(1,2,4)[OF r]] by simp
qed

lemma sig_inv_release:
  assumes inv: "sig_inv handler a0 g L" and s: "s \<in> set L"
  shows "sig_inv handler a0 (signal_drop ia None s g) (remove1 s L)"
proof -
  let ?k = "sig_kind s" and ?g = "signal_drop ia None s g"
  obtain e where e: "sg_table g ?k = Some e" "rs_state e = sig_state s" using sig_inv_entry(2)[OF inv s] by auto
  note ready = sig_inv_entry(3)[OF inv e(1)] and ok = sig_inv_entry(1)[OF inv, of ?k]
  have reg: "registry ia g = (Inr (), g)" by (simp add: registry_def ready)
  note others = listeners_remove1[OF s]
  have same: "x \<in> set (remove1 s L) \<Longrightarrow> sig_kind x = ?k \<Longrightarrow> rs_state e = sig_state x \<and> 1 < rs_refs e" for x
    using sig_inv_entry(2)[OF inv, of x] listeners_pos[of x "remove1 s L"] others[of ?k] ok e(1) set_remove1_subset[of s L]
    by (auto simp: entry_ok_def)
  show ?thesis
  proof (cases "1 < rs_refs e")
    case True
    let ?e = "e\<lparr>rs_refs := rs_refs e - 1\<rparr>"
    have g': "?g = g\<lparr>sg_table := (sg_table g)(?k \<mapsto> ?e)\<rparr>"
      using True by (simp add: signal_drop_def unregister_signal_def unregister_entry_def reg e(1))
    show ?thesis
      by (rule sig_inv_update[OF inv, where k = ?k and entry = "Some ?e" and action = "sg_action g ?k"])
        (use ok True others ready e(1) same set_remove1_subset[of s L] in \<open>auto simp: g' entry_ok_def\<close>)
  next
    case False
    have g': "?g = g\<lparr>sg_table := (sg_table g)(?k := None), sg_action := (sg_action g)(?k := rs_prev e)\<rparr>"
      using False by (simp add: signal_drop_def unregister_signal_def unregister_entry_def reg e(1) restore_handler_def)
    show ?thesis
      by (rule sig_inv_update[OF inv, where k = ?k and entry = None and action = "rs_prev e"])
        (use ok False others ready e(1) same set_remove1_subset[of s L] in \<open>auto simp: g' entry_ok_def\<close>)
  qed
qed

lemma sig_inv_recv:
  assumes inv: "sig_inv handler a0 g L" and s: "s \<in> set L" and p: "poll_recv w s g = (r, s', g')"
  shows "sig_inv handler a0 g' (s' # remove1 s L)"
proof -
  let ?k = "sig_kind s"
  obtain e where e: "sg_table g ?k = Some e" "rs_state e = sig_state s" using sig_inv_entry(2)[OF inv s] by auto
  have keep: "sg_table g' = sg_table g" "sg_action g' = sg_action g" "sg_ready g' = sg_ready g"
    and s': "sig_kind s' = ?k" "sig_state s' = sig_state s"
    using p by (auto simp: poll_recv_def recv_load_def recv_register_def Let_def split: if_splits)
  have n: "listeners i (s' # remove1 s L) = listeners i L" for i
    using listeners_remove1[OF s, of i] listeners_pos[OF s] by (auto simp: s')
  show ?thesis
    by (rule sig_inv_update[OF inv, where k = ?k and entry = "Some e" and action = "sg_action g ?k"])
      (use e s' keep n sig_inv_entry(1)[OF inv, of ?k] sig_inv_entry(3)[OF inv e(1)] sig_inv_entry(2)[OF inv]
        set_remove1_subset[of s L] in \<open>fastforce simp del: listeners_simps\<close>)+
qed

lemma sig_inv_deliver:
  assumes "sig_inv handler a0 g L" and "dispatch_signal k g = (ws, g')"
  shows "sig_inv handler a0 g' L"
  using assms(2)
  by (intro sig_inv_cong[OF assms(1)]) (auto simp: dispatch_signal_def disp_take_def disp_add_def split: option.splits)

lemma sig_reach_inv: "sig_reach handler a0 g L \<Longrightarrow> sig_inv handler a0 g L"
proof (induction rule: sig_reach.induct)
  case (start st n)
  show ?case by (simp add: sig_inv_def entry_ok_def)
qed (blast intro: sig_inv_create sig_inv_create_fails sig_inv_recv sig_inv_release sig_inv_deliver)+



section \<open>Wakeups\<close>

lemma u64_succ_differs [simp]: "u64_add c 1 \<noteq> c" "u64_add c (Suc 0) \<noteq> c"
proof -
  show "u64_add c 1 \<noteq> c"
  proof (cases "c + 1 < U64_LIMIT")
    case False
    show ?thesis
    proof
      assume e: "u64_add c 1 = c"
      then have "c + 1 = U64_LIMIT" using False u64_add_bound[of c 1] by simp
      then show False using e by (simp add: u64_add_def)
    qed
  qed simp
  then show "u64_add c (Suc 0) \<noteq> c" by simp
qed

lemma register_waker_in: "w \<in> set (ss_wakers (register_waker w st))"
  and register_waker_counter: "ss_counter (register_waker w st) = ss_counter st"
  by (simp_all add: register_waker_def)

text \<open>
  C32: A waiting listener is woken by the next signal. If a live listener is polled and pending, then
  dispatching its signal number calls the waker of that poll, and polling it again reports the
  signal, whatever the counter is, also when it wraps around.
\<close>

theorem dispatch_wakes_pending_listener:
  assumes "sig_reach handler a0 g L" and "s \<in> set L"
    and "poll_recv w s g = (Pending, s1, g1)" and "dispatch_signal (sig_kind s) g1 = (ws, g2)"
  shows "w \<in> set ws \<and> fst (poll_recv w' s1 g2) = Ready (Inr ())"
proof -
  obtain e where e: "sg_table g (sig_kind s) = Some e" "rs_state e = sig_state s"
    using sig_inv_entry(2)[OF sig_reach_inv[OF assms(1)] assms(2)] by auto
  have p: "s1 = s" "g1 = recv_register w s g" "ss_counter (sg_states g (sig_state s)) = sig_last s"
    using assms(3) by (auto simp: poll_recv_def recv_load_def Let_def split: if_splits)
  show ?thesis using assms(4) e p(3) register_waker_in[of w]
    by (auto simp: p(1,2) dispatch_signal_def disp_take_def disp_add_def poll_recv_def recv_load_def recv_register_def
          register_waker_counter Let_def)
qed

theorem dispatch_wakes_pending_listener_witness:
  "TaskWaker 3 \<in> set (fst (dispatch_signal 15 demo_listening))"
proof -
  let ?s = "\<lparr>sig_kind = 15, sig_state = 0, sig_last = 0\<rparr>"
  let ?g = "snd (signal_new 1 (Inr (8, 9), None) None 15 demo_signals)"
  have "signal_new 1 (Inr (8, 9), None) None 15 demo_signals = (Inr ?s, ?g)"
    by (simp add: demo_signals_def signal_new_def register_signal_def registry_def install_handler_def)
  moreover have "sig_reach 1 (\<lambda>_. 0) demo_signals []" unfolding demo_signals_def by (rule sig_reach.start)
  ultimately have r: "sig_reach 1 (\<lambda>_. 0) ?g [?s]" by (rule sig_reach.create[rotated])
  have p: "poll_recv (TaskWaker 3) ?s ?g = (Pending, ?s, demo_listening)"
    unfolding demo_listening_def
    by (simp add: demo_signals_def signal_new_def register_signal_def registry_def install_handler_def poll_recv_def recv_load_def)
  obtain ws g2 where d: "dispatch_signal 15 demo_listening = (ws, g2)" by fastforce
  then have "dispatch_signal (sig_kind ?s) demo_listening = (ws, g2)" by simp
  from dispatch_wakes_pending_listener[OF r _ p this] show ?thesis unfolding d by simp
qed

text \<open>
  A signal can be missed for good. \<open>poll_recv\<close> reads the counter before it registers its waker:
  if the dispatch thread runs in between, it takes a list that does not have the waker yet, so
  nobody wakes the listener although its next poll would report the signal.
\<close>

theorem dispatch_between_load_and_register_is_lost:
  assumes "sg_table g (sig_kind s) = Some e" and "rs_state e = sig_state s"
    and "recv_load s g = (False, s1)" and "w \<notin> set (ss_wakers (sg_states g (sig_state s)))"
    and "dispatch_signal (sig_kind s) g = (ws, g1)" and "g2 = recv_register w s1 g1"
  shows "w \<notin> set ws \<and> ss_wakers (sg_states g2 (sig_state s1)) = [w] \<and> fst (recv_load s1 g2)"
  using assms
  by (auto simp: recv_load_def recv_register_def dispatch_signal_def disp_take_def disp_add_def register_waker_def Let_def
      split: if_splits)

theorem dispatch_between_load_and_register_is_lost_witness:
  "TaskWaker 3 \<notin> set (fst (dispatch_signal 15 (snd (signal_new 1 (Inr (8, 9), None) None 15 demo_signals))))"
proof -
  let ?s = "\<lparr>sig_kind = 15, sig_state = 0, sig_last = 0\<rparr>"
  let ?g = "snd (signal_new 1 (Inr (8, 9), None) None 15 demo_signals)"
  let ?e = "\<lparr>rs_state = 0, rs_refs = 1, rs_prev = 0\<rparr>"
  note defs = demo_signals_def signal_new_def register_signal_def registry_def install_handler_def recv_load_def
  obtain ws g1 where d: "dispatch_signal 15 ?g = (ws, g1)" by fastforce
  then have d': "dispatch_signal (sig_kind ?s) ?g = (ws, g1)" by simp
  have "sg_table ?g (sig_kind ?s) = Some ?e" and "rs_state ?e = sig_state ?s" and "recv_load ?s ?g = (False, ?s)"
    and "TaskWaker 3 \<notin> set (ss_wakers (sg_states ?g (sig_state ?s)))"
    by (simp_all add: defs)
  from dispatch_between_load_and_register_is_lost[OF this d' refl] show ?thesis unfolding d by simp
qed

text \<open>
  A new listener can lose its handler. The last drop removes the entry and restores the previous
  action in two steps: a listener created in between installs the handler, and the restoring step
  takes it away again, with the listener registered.
\<close>

theorem drop_race_uninstalls_handler:
  assumes "unregister_entry ia k g = (Some prev, g1)" and "signal_new handler ia' None k g1 = (Inr s, g2)"
  shows "sg_action (restore_handler None k prev g2) k = prev \<and>
    (\<exists>e. sg_table (restore_handler None k prev g2) k = Some e \<and> rs_refs e = 1 \<and> rs_state e = sig_state s)"
proof -
  obtain g3 where r: "registry ia' g1 = (Inr (), g3)"
    using assms(2) by (auto simp: signal_new_def register_signal_def split: sum.splits prod.splits)
  have "sg_table g1 k = None"
    using assms(1) by (auto simp: unregister_entry_def split: sum.splits prod.splits option.splits if_splits)
  then have "sg_table g3 k = None" by (simp add: registry_keeps(1)[OF r])
  then show ?thesis using assms(2) r
    by (auto simp: signal_new_def register_signal_def install_handler_def restore_handler_def)
qed

theorem drop_race_uninstalls_handler_witness:
  "\<exists>g2 s. signal_new 1 (Inr (8, 9), None) None 15
     (snd (unregister_entry (Inr (8, 9), None) 15 (snd (signal_new 1 (Inr (8, 9), None) None 15 demo_signals)))) = (Inr s, g2) \<and>
     sg_action (restore_handler None 15 0 g2) 15 = 0"
proof -
  let ?g = "snd (signal_new 1 (Inr (8, 9), None) None 15 demo_signals)"
  note defs = demo_signals_def signal_new_def register_signal_def registry_def install_handler_def unregister_entry_def
  obtain g1 where u: "unregister_entry (Inr (8, 9), None) 15 ?g = (Some 0, g1)" by (simp add: defs)
  obtain s g2 where n: "signal_new 1 (Inr (8, 9), None) None 15 g1 = (Inr s, g2)"
    using u by (auto simp: defs)
  show ?thesis using drop_race_uninstalls_handler[OF u n] n unfolding u by auto
qed

end
