(* ===== verification/Reaper.thy ===== *)
theory Reaper
  imports Signals "HOL-Library.Multiset" "HOL-Library.Sublist"
begin

text \<open>
  Waiting for child processes (\<open>process/reaper.rs\<close>): the front end of the reaper and its two
  back ends, the one on \<open>SIGCHLD\<close> and the one that gives every child a task with a pidfd
  (\<open>WaitPidOp\<close>). A message is a child with the sender that waits for its status; the answers of
  \<open>try_wait\<close> and of the operations are arguments, and the statuses that are sent are kept in a log.
\<close>

type_synonym child = nat
type_synonym exit_status = int
type_synonym message = "child \<times> nat option"
type_synonym try_wait = "exit_status option io_result"
type_synonym reaped = "message \<times> exit_status io_result"

section \<open>Front end\<close>

text \<open>
  \<open>ZombieReaper::wait\<close>: with a reaper, its answer over the channel (\<open>None\<close> when the sender was
  dropped); without one, a blocking wait.
\<close>

definition reaper_wait :: "bool \<Rightarrow> exit_status io_result option \<Rightarrow> exit_status io_result \<Rightarrow> exit_status io_result" where
  "reaper_wait has_reaper answer direct =
     (if has_reaper then case answer of Some r \<Rightarrow> r | None \<Rightarrow> Inl (Simple OtherKind) else direct)"

datatype drop_action = AlreadyReaped | HandToReaper message | WaitOnThread child

definition reap_on_drop :: "try_wait \<Rightarrow> bool \<Rightarrow> nat \<Rightarrow> child \<Rightarrow> drop_action" where
  "reap_on_drop ans has_reaper sender c =
     (case ans of
        Inr (Some _) \<Rightarrow> AlreadyReaped
      | _ \<Rightarrow> if has_reaper then HandToReaper (c, Some sender) else WaitOnThread c)"

text \<open>The probe for \<open>pidfd_open\<close>: only \<open>ENOSYS\<close> says that it is missing.\<close>

definition pidfd_available :: "nat io_result \<Rightarrow> bool" where
  "pidfd_available ans = (case ans of Inr _ \<Rightarrow> True | Inl err \<Rightarrow> raw_os_error err \<noteq> Some 38)"

section \<open>The reaper on \<open>SIGCHLD\<close>\<close>

record unix_reaper =
  ur_processes :: "message list"
  ur_log :: "reaped list"

definition reap_one :: "try_wait \<Rightarrow> message \<Rightarrow> unix_reaper \<Rightarrow> unix_reaper" where
  "reap_one ans m s =
     (case ans of
        Inr (Some status) \<Rightarrow> s\<lparr>ur_log := ur_log s @ [(m, Inr status)]\<rparr>
      | Inr None \<Rightarrow> s\<lparr>ur_processes := ur_processes s @ [m]\<rparr>
      | Inl err \<Rightarrow> s\<lparr>ur_log := ur_log s @ [(m, Inl err)]\<rparr>)"

text \<open>What the \<open>select\<close> yields: a message (or a closed channel), or the signal (or its error).\<close>

datatype unix_event =
  Received "message option" try_wait
| Sigchld "unit io_result" "child \<Rightarrow> try_wait"

fun zombie_reaper_unix :: "unix_event \<Rightarrow> unix_reaper \<Rightarrow> unix_reaper option" where
  "zombie_reaper_unix (Received None ans) s = None"
| "zombie_reaper_unix (Received (Some m) ans) s = Some (reap_one ans m s)"
| "zombie_reaper_unix (Sigchld (Inl err) ans) s = None"
| "zombie_reaper_unix (Sigchld (Inr ok) ans) s =
     Some (fold (\<lambda>m. reap_one (ans (fst m)) m) (ur_processes s) (s\<lparr>ur_processes := []\<rparr>))"

section \<open>The reaper on pidfds\<close>

text \<open>The tasks of the children that are still running, and the log; a task ends with its operation.\<close>

record pidfd_reaper =
  pr_tasks :: "message list"
  pr_log :: "reaped list"

datatype pidfd_event =
  PidReceived "message option" try_wait
| TaskDone nat "exit_status io_result"

fun zombie_reaper_pidfd :: "pidfd_event \<Rightarrow> pidfd_reaper \<Rightarrow> pidfd_reaper option" where
  "zombie_reaper_pidfd (PidReceived None ans) s = None"
| "zombie_reaper_pidfd (PidReceived (Some m) ans) s =
     (case ans of
        Inr (Some status) \<Rightarrow> Some (s\<lparr>pr_log := pr_log s @ [(m, Inr status)]\<rparr>)
      | Inl err \<Rightarrow> Some (s\<lparr>pr_log := pr_log s @ [(m, Inl err)]\<rparr>)
      | Inr None \<Rightarrow> Some (s\<lparr>pr_tasks := pr_tasks s @ [m]\<rparr>))"
| "zombie_reaper_pidfd (TaskDone i r) s =
     (if i < length (pr_tasks s)
      then Some (s\<lparr>pr_tasks := take i (pr_tasks s) @ drop (Suc i) (pr_tasks s), pr_log := pr_log s @ [(pr_tasks s ! i, r)]\<rparr>)
      else Some s)"

section \<open>Accounting\<close>

text \<open>The messages that the senders of the log are waiting for, by sender.\<close>

definition sent_to :: "nat \<Rightarrow> reaped list \<Rightarrow> exit_status io_result list" where
  "sent_to n lg = map snd (filter (\<lambda>r. snd (fst r) = Some n) lg)"

fun unix_received :: "unix_event \<Rightarrow> message list" where
  "unix_received (Received (Some m) ans) = [m]"
| "unix_received ev = []"

fun pidfd_received :: "pidfd_event \<Rightarrow> message list" where
  "pidfd_received (PidReceived (Some m) ans) = [m]"
| "pidfd_received ev = []"

text \<open>A loop that ends at the first event that breaks it, and the events it handled.\<close>

fun reaper_run :: "('e \<Rightarrow> 's \<Rightarrow> 's option) \<Rightarrow> 'e list \<Rightarrow> 's \<Rightarrow> 's \<times> 'e list" where
  "reaper_run step [] s = (s, [])"
| "reaper_run step (ev # evs) s =
     (case step ev s of
        None \<Rightarrow> (s, [])
      | Some s1 \<Rightarrow> (let (s2, handled) = reaper_run step evs s1 in (s2, ev # handled)))"

text \<open>The messages a reaper is answerable for: the answered ones and the waiting ones.\<close>

definition account :: "reaped list \<Rightarrow> message list \<Rightarrow> message multiset" where
  "account lg ms = mset (map fst lg) + mset ms"

lemma account_simps [simp]:
  "account (lg @ [r]) ms = add_mset (fst r) (account lg ms)"
  "account lg (ms @ [m]) = add_mset m (account lg ms)"
  "account [] [] = {#}"
  by (simp_all add: account_def)

lemma count_answers: "length (filter (\<lambda>r. fst r = m) lg) = count (mset (map fst lg)) m"
  by (induction lg) auto

text \<open>
  A reaper: a step that moves every message it receives to the waiting children or to the log and
  never takes one back from the log.
\<close>

locale child_reaper =
  fixes step :: "'e \<Rightarrow> 's \<Rightarrow> 's option"
    and received :: "'e \<Rightarrow> message list"
    and waiting :: "'s \<Rightarrow> message list"
    and reaped :: "'s \<Rightarrow> reaped list"
  assumes step_accounts: "step ev s = Some s' \<Longrightarrow>
      account (reaped s') (waiting s') = account (reaped s) (waiting s) + mset (received ev)"
    and step_extends: "step ev s = Some s' \<Longrightarrow> prefix (reaped s) (reaped s')"
begin

lemma run_accounts:
  "reaper_run step evs s = (s', handled) \<Longrightarrow>
     account (reaped s') (waiting s') = account (reaped s) (waiting s) + mset (concat (map received handled))"
proof (induction evs arbitrary: s s' handled)
  case (Cons ev evs)
  show ?case
  proof (cases "step ev s")
    case (Some s1)
    obtain rest where r: "reaper_run step evs s1 = (s', rest)" and d: "handled = ev # rest"
      using Cons.prems Some by (auto split: prod.splits)
    show ?thesis using Cons.IH[OF r] step_accounts[OF Some] by (simp add: d ac_simps)
  qed (use Cons.prems in simp)
qed simp

lemma run_extends: "reaper_run step evs s = (s', handled) \<Longrightarrow> prefix (reaped s) (reaped s')"
proof (induction evs arbitrary: s s' handled)
  case (Cons ev evs)
  then show ?case
    by (cases "step ev s") (auto split: prod.splits dest: step_extends intro: prefix_order.trans)
qed simp

text \<open>With senders that occur once, no sender is sent two statuses, nor one while its child waits.\<close>

lemma answered_once:
  assumes "reaper_run step evs s = (s', handled)" and "reaped s = []" and "waiting s = []"
    and "distinct (concat (map received handled))" and "(c, Some n) \<in> set (concat (map received handled))"
    and "\<And>c'. (c', Some n) \<in> set (concat (map received handled)) \<Longrightarrow> c' = c"
  shows "length (sent_to n (reaped s')) + (if (c, Some n) \<in> set (waiting s') then 1 else 0) = 1"
proof -
  let ?in = "concat (map received handled)" and ?m = "(c, Some n)"
  have bal: "mset (map fst (reaped s')) + mset (waiting s') = mset ?in"
    using run_accounts[OF assms(1)] assms(2,3) by (simp add: account_def)
  have sub: "x \<in> set ?in" if "x \<in> set (map fst (reaped s'))" for x
  proof -
    have "x \<in># mset (map fst (reaped s')) + mset (waiting s')" using that by auto
    then show ?thesis unfolding bal by auto
  qed
  have "count (mset ?in) ?m = 1" using assms(4,5) distinct_count_atmost_1[of ?in] by auto
  then have one: "count (mset (map fst (reaped s'))) ?m + count (mset (waiting s')) ?m = 1"
    by (metis bal count_union)
  have "snd (fst r) = Some n \<longleftrightarrow> fst r = ?m" if "r \<in> set (reaped s')" for r
  proof -
    have "fst r \<in> set ?in" using that by (intro sub) simp
    then show ?thesis using assms(6)[of "fst (fst r)"] by (metis prod.collapse snd_conv)
  qed
  then have "filter (\<lambda>r. snd (fst r) = Some n) (reaped s') = filter (\<lambda>r. fst r = ?m) (reaped s')"
    by (intro filter_cong) simp_all
  then have "length (sent_to n (reaped s')) = count (mset (map fst (reaped s'))) ?m"
    by (simp only: sent_to_def length_map count_answers)
  moreover have "(if ?m \<in> set (waiting s') then 1 else 0) = count (mset (waiting s')) ?m"
  proof (cases "?m \<in> set (waiting s')")
    case True
    then have "0 < count (mset (waiting s')) ?m" by (simp add: count_greater_zero_iff)
    then show ?thesis unfolding if_P[OF True] using one by linarith
  qed (simp add: count_eq_zero_iff)
  ultimately show ?thesis using one by simp
qed

end

lemma reap_one_accounts:
  "account (ur_log (reap_one ans m s)) (ur_processes (reap_one ans m s)) = add_mset m (account (ur_log s) (ur_processes s))"
  by (simp add: reap_one_def split: sum.splits option.splits)

lemma reap_one_extends: "prefix (ur_log s) (ur_log (reap_one ans m s))"
  by (simp add: reap_one_def split: sum.splits option.splits)

lemma reap_all_accounts:
  "account (ur_log (fold (\<lambda>m. reap_one (ans (fst m)) m) ms s)) (ur_processes (fold (\<lambda>m. reap_one (ans (fst m)) m) ms s)) =
     account (ur_log s) (ur_processes s) + mset ms"
  by (induction ms arbitrary: s) (simp_all add: reap_one_accounts)

lemma reap_all_extends: "prefix (ur_log s) (ur_log (fold (\<lambda>m. reap_one (ans (fst m)) m) ms s))"
proof (induction ms arbitrary: s)
  case (Cons m ms)
  show ?case using prefix_order.trans[OF reap_one_extends Cons.IH] by simp
qed simp

interpretation unix_reaping: child_reaper zombie_reaper_unix unix_received ur_processes ur_log
proof
  fix ev and s s' :: unix_reaper
  assume st: "zombie_reaper_unix ev s = Some s'"
  then consider (msg) m ans where "ev = Received (Some m) ans" "s' = reap_one ans m s"
    | (sig) u ans where "ev = Sigchld (Inr u) ans"
        "s' = fold (\<lambda>m. reap_one (ans (fst m)) m) (ur_processes s) (s\<lparr>ur_processes := []\<rparr>)"
    by (cases "(ev, s)" rule: zombie_reaper_unix.cases) auto
  note cs = this
  show "account (ur_log s') (ur_processes s') = account (ur_log s) (ur_processes s) + mset (unix_received ev)"
    using cs by cases (simp_all add: reap_one_accounts reap_all_accounts, simp add: account_def)
  show "prefix (ur_log s) (ur_log s')"
    using cs reap_all_extends[of "s\<lparr>ur_processes := []\<rparr>"] by cases (simp_all add: reap_one_extends)
qed

lemma mset_remove_nth: "i < length xs \<Longrightarrow> mset (take i xs @ drop (Suc i) xs) + {#xs ! i#} = mset xs"
  using id_take_nth_drop[of i xs] by (metis mset_append mset.simps(2) union_mset_add_mset_right add.right_neutral mset.simps(1))

interpretation pidfd_reaping: child_reaper zombie_reaper_pidfd pidfd_received pr_tasks pr_log
proof
  fix ev and s s' :: pidfd_reaper
  assume st: "zombie_reaper_pidfd ev s = Some s'"
  show "account (pr_log s') (pr_tasks s') = account (pr_log s) (pr_tasks s) + mset (pidfd_received ev)"
  proof (cases "(ev, s)" rule: zombie_reaper_pidfd.cases)
    case (3 i r s1)
    then show ?thesis using st mset_remove_nth[of i "pr_tasks s"] by (auto simp: account_def split: if_splits)
  qed (use st in \<open>auto split: sum.splits option.splits\<close>)
  show "prefix (pr_log s) (pr_log s')"
    using st by (cases "(ev, s)" rule: zombie_reaper_pidfd.cases) (auto split: sum.splits option.splits if_splits)
qed

text \<open>
  C33: Every child handed to the \<open>SIGCHLD\<close> reaper is accounted for. Over any run of its loop, the
  messages it received are, counted with multiplicity, those it has answered and those it still
  waits for.
\<close>

theorem reaper_accounts_for_every_child:
  assumes "reaper_run zombie_reaper_unix evs \<lparr>ur_processes = [], ur_log = []\<rparr> = (s, handled)"
  shows "account (ur_log s) (ur_processes s) = mset (concat (map unix_received handled))"
  using unix_reaping.run_accounts[OF assms] by simp

definition demo_reaper_events :: "unix_event list" where
  "demo_reaper_events =
     [Received (Some (7, Some 1)) (Inr None), Received (Some (8, Some 2)) (Inr (Some 0)),
      Sigchld (Inr ()) (\<lambda>c. if c = 7 then Inr (Some 256) else Inr None)]"

lemma demo_reaper_run:
  "reaper_run zombie_reaper_unix demo_reaper_events \<lparr>ur_processes = [], ur_log = []\<rparr> =
     (\<lparr>ur_processes = [], ur_log = [((8, Some 2), Inr 0), ((7, Some 1), Inr 256)]\<rparr>, demo_reaper_events)"
  by (simp add: demo_reaper_events_def reap_one_def)

theorem reaper_accounts_for_every_child_witness:
  "account [((8, Some 2), Inr 0), ((7, Some 1), Inr 256)] [] = mset (concat (map unix_received demo_reaper_events))"
  using reaper_accounts_for_every_child[OF demo_reaper_run] by simp

text \<open>
  A sender is answered once. On the pidfd back end, when every child comes with a sender of its own,
  a received child has exactly one status sent to its sender, or none and it is still waited for.
\<close>

theorem each_child_answered_once:
  assumes "reaper_run zombie_reaper_pidfd evs \<lparr>pr_tasks = [], pr_log = []\<rparr> = (s, handled)"
    and "distinct (concat (map pidfd_received handled))" and "(c, Some n) \<in> set (concat (map pidfd_received handled))"
    and "\<And>c'. (c', Some n) \<in> set (concat (map pidfd_received handled)) \<Longrightarrow> c' = c"
  shows "length (sent_to n (pr_log s)) + (if (c, Some n) \<in> set (pr_tasks s) then 1 else 0) = 1"
  using pidfd_reaping.answered_once[OF assms(1) _ _ assms(2-4)] by simp

theorem each_child_answered_once_witness:
  "length (sent_to 1 [((7, Some 1), Inr 256)]) = 1"
proof -
  let ?evs = "[PidReceived (Some (7, Some 1)) (Inr None), PidReceived (Some (8, Some 2)) (Inr None), TaskDone 0 (Inr 256)]"
  have "reaper_run zombie_reaper_pidfd ?evs \<lparr>pr_tasks = [], pr_log = []\<rparr> =
      (\<lparr>pr_tasks = [(8, Some 2)], pr_log = [((7, Some 1), Inr 256)]\<rparr>, ?evs)"
    by simp
  from each_child_answered_once[OF this, of 7 1] show ?thesis by auto
qed

text \<open>
  A \<open>SIGCHLD\<close> leaves no exited child behind. After the loop has handled the signal, the children
  it still waits for are exactly those that \<open>try_wait\<close> reports as running, in their order, and
  every other one has got the status or the error of its own \<open>try_wait\<close>.
\<close>

lemma reap_all_filters:
  "ur_processes (fold (\<lambda>m. reap_one (ans (fst m)) m) ms s) = ur_processes s @ filter (\<lambda>m. ans (fst m) = Inr None) ms"
  by (induction ms arbitrary: s) (auto simp: reap_one_def split: sum.splits option.splits)

lemma reap_all_log:
  "ur_log (fold (\<lambda>m. reap_one (ans (fst m)) m) ms s) = ur_log s @
     map (\<lambda>m. (m, map_sum id the (ans (fst m)))) (filter (\<lambda>m. ans (fst m) \<noteq> Inr None) ms)"
  by (induction ms arbitrary: s) (auto simp: reap_one_def split: sum.splits option.splits)

theorem sigchld_reaps_all_exited:
  assumes "zombie_reaper_unix (Sigchld (Inr ()) ans) s = Some s'"
  shows "ur_processes s' = filter (\<lambda>m. ans (fst m) = Inr None) (ur_processes s) \<and>
    ur_log s' = ur_log s @ map (\<lambda>m. (m, map_sum id the (ans (fst m))))
      (filter (\<lambda>m. ans (fst m) \<noteq> Inr None) (ur_processes s))"
  using assms by (auto simp: reap_all_filters reap_all_log)

theorem sigchld_reaps_all_exited_witness:
  "ur_processes (the (zombie_reaper_unix (Sigchld (Inr ()) (\<lambda>c. if c = 7 then Inr (Some 256) else Inr None))
     \<lparr>ur_processes = [(7, Some 1), (8, None)], ur_log = []\<rparr>)) = [(8, None)]"
  using sigchld_reaps_all_exited[of "\<lambda>c. if c = 7 then Inr (Some 256) else Inr None"
      "\<lparr>ur_processes = [(7, Some 1), (8, None)], ur_log = []\<rparr>", OF zombie_reaper_unix.simps(4)]
  by simp

end
