(* ===== verification/Processes.thy ===== *)
theory Processes
  imports Io_Streams Reaper
begin

text \<open>
  Child processes (\<open>process/mod.rs\<close>): the streams of a child, the child and the command builder, over the
  handles of \<open>Any_Driver\<close>, the blocking pool of \<open>Io_Streams\<close> and the front end of the \<open>Reaper\<close>. An awaited call that
  takes something out of its object has two phases, so that dropping its future in between can be
  stated. Commands and processes of the standard library are parameters.
\<close>

section \<open>Streams of a child\<close>

datatype child_io = AsyncIo raw_handle | BlockingChildIo

record child_stream =
  cs_inner :: "raw_fd option"
  cs_io :: child_io

text \<open>The flags are changed only when they differ; failures are ignored.\<close>

definition configure_nonblocking ::
  "os_answer \<Rightarrow> os_answer \<Rightarrow> raw_fd \<Rightarrow> bool \<Rightarrow> ('ms, 'r, 's, 'c) net \<Rightarrow> ('ms, 'r, 's, 'c) net" where
  "configure_nonblocking getfl setfl fd cq n =
     (if getfl = None \<and> map_option (nt_nonblock n) (nt_files n fd) \<noteq> Some (\<not> cq)
      then snd (set_nonblocking setfl fd (\<not> cq) n) else n)"

definition make_child_io ::
  "('ms, 'r, 's, 'c) op_cfg \<Rightarrow> os_answer \<Rightarrow> os_answer \<Rightarrow> os_answer \<Rightarrow> raw_fd \<Rightarrow> interest
   \<Rightarrow> ('ms, 'r, 's, 'c) net \<Rightarrow> child_io \<times> ('ms, 'r, 's, 'c) net" where
  "make_child_io cfg ra getfl setfl fd want n =
     (if nt_entered n then
        (case new_with_driver_and_mode cfg ra fd want CompletionMode (nt_driver n) of
           (Inr h, drv) \<Rightarrow> (AsyncIo h, configure_nonblocking getfl setfl fd (uses_completion drv h) (n\<lparr>nt_driver := drv\<rparr>))
         | (Inl _, drv) \<Rightarrow> (BlockingChildIo, n\<lparr>nt_driver := drv\<rparr>))
      else (BlockingChildIo, n))"

definition child_stream_from_std ::
  "('ms, 'r, 's, 'c) op_cfg \<Rightarrow> os_answer \<Rightarrow> os_answer \<Rightarrow> os_answer \<Rightarrow> interest \<Rightarrow> raw_fd
   \<Rightarrow> ('ms, 'r, 's, 'c) net \<Rightarrow> child_stream \<times> ('ms, 'r, 's, 'c) net" where
  "child_stream_from_std cfg ra getfl setfl want fd n =
     (let (io, n1) = make_child_io cfg ra getfl setfl fd want n in (\<lparr>cs_inner = Some fd, cs_io = io\<rparr>, n1))"

definition drop_child_handle ::
  "('ms, 'r, 's, 'c) op_cfg \<Rightarrow> os_answer \<Rightarrow> child_stream \<Rightarrow> ('ms, 'r, 's, 'c) net \<Rightarrow> ('ms, 'r, 's, 'c) net" where
  "drop_child_handle cfg da s n =
     (case cs_io s of
        AsyncIo h \<Rightarrow> n\<lparr>nt_driver := handle_drop cfg da h (nt_driver n)\<rparr>
      | BlockingChildIo \<Rightarrow> n)"

definition child_stream_drop ::
  "('ms, 'r, 's, 'c) op_cfg \<Rightarrow> os_answer \<Rightarrow> child_stream \<Rightarrow> ('ms, 'r, 's, 'c) net \<Rightarrow> ('ms, 'r, 's, 'c) net" where
  "child_stream_drop cfg da s n =
     (let n1 = drop_child_handle cfg da s n in case cs_inner s of Some fd \<Rightarrow> close_fd fd n1 | None \<Rightarrow> n1)"

text \<open>\<open>into_std\<close> panics when the standard stream has been taken.\<close>

definition child_stream_into_std ::
  "('ms, 'r, 's, 'c) op_cfg \<Rightarrow> os_answer \<Rightarrow> child_stream \<Rightarrow> ('ms, 'r, 's, 'c) net \<Rightarrow> raw_fd option \<times> ('ms, 'r, 's, 'c) net" where
  "child_stream_into_std cfg da s n = (cs_inner s, drop_child_handle cfg da s n)"

text \<open>\<open>ReadOp\<close> and \<open>WriteOp\<close> on the descriptor: the capacity is offered to a read, the initialised bytes to a write.\<close>

definition child_read_op :: "bool \<Rightarrow> 'k stream_ops \<Rightarrow> mem_buf \<Rightarrow> 'k \<Rightarrow> nat io_result \<times> mem_buf \<times> 'k" where
  "child_read_op cq ops b k =
     (case (if cq then len_u32 (mb_room b) else Inr (mb_room b)) of
        Inl err \<Rightarrow> (Inl err, b, k)
      | Inr n \<Rightarrow>
          (case so_read ops n k of
             (Inl err, k1) \<Rightarrow> (Inl err, b, k1)
           | (Inr bs, k1) \<Rightarrow> (Inr (length bs), mb_set_init (length bs) (mb_store bs b), k1)))"

definition child_write_op :: "bool \<Rightarrow> 'k stream_ops \<Rightarrow> mem_buf \<Rightarrow> 'k \<Rightarrow> nat io_result \<times> 'k" where
  "child_write_op cq ops b k =
     (case (if cq then len_u32 (length (mb_slice b)) else Inr (length (mb_slice b))) of
        Inl err \<Rightarrow> (Inl err, k)
      | Inr _ \<Rightarrow> so_write ops (mb_slice b) k)"

text \<open>
  A call on the blocking path takes the standard stream, gives it with the buffer to a job, and puts
  it back; a job that panics takes both with it. \<open>lent\<close> is the stream while the future is suspended.
\<close>

definition lent :: "child_stream \<Rightarrow> child_stream" where
  "lent s = s\<lparr>cs_inner := None\<rparr>"

definition child_read ::
  "bool \<Rightarrow> bool \<Rightarrow> job \<Rightarrow> 'k stream_ops \<Rightarrow> mem_buf \<Rightarrow> child_stream \<Rightarrow> 'k
   \<Rightarrow> nat outcome \<times> mem_buf option \<times> child_stream \<times> 'k" where
  "child_read cq inside j ops b s k =
     (case mb_avail b of
        None \<Rightarrow> (Panicked, None, s, k)
      | Some n \<Rightarrow>
          if n = 0 then (Resolved (Inr 0), Some b, s, k)
          else
            (case cs_io s of
               AsyncIo h \<Rightarrow> (case child_read_op cq ops b k of (r, b1, k1) \<Rightarrow> (Resolved r, Some b1, s, k1))
             | BlockingChildIo \<Rightarrow>
                 (case cs_inner s of
                    None \<Rightarrow> (Resolved (Inl (Simple BrokenPipe)), Some b, s, k)
                  | Some fd \<Rightarrow>
                      if inside then
                        (case read_in_blocking_pool j ops b k of
                           (Panicked, b1, k1) \<Rightarrow> (Panicked, b1, lent s, k1)
                         | (r, b1, k1) \<Rightarrow> (r, b1, s, k1))
                      else (case read_stream_blocking ops b k of ((r, b1), k1) \<Rightarrow> (Resolved r, Some b1, s, k1)))))"

definition child_write ::
  "bool \<Rightarrow> bool \<Rightarrow> job \<Rightarrow> 'k stream_ops \<Rightarrow> mem_buf \<Rightarrow> child_stream \<Rightarrow> 'k
   \<Rightarrow> nat outcome \<times> mem_buf option \<times> child_stream \<times> 'k" where
  "child_write cq inside j ops b s k =
     (case mb_avail b of
        None \<Rightarrow> (Panicked, None, s, k)
      | Some n \<Rightarrow>
          if n = 0 then (Resolved (Inr 0), Some b, s, k)
          else
            (case cs_io s of
               AsyncIo h \<Rightarrow> (case child_write_op cq ops b k of (r, k1) \<Rightarrow> (Resolved r, Some b, s, k1))
             | BlockingChildIo \<Rightarrow>
                 (case cs_inner s of
                    None \<Rightarrow> (Resolved (Inl (Simple BrokenPipe)), Some b, s, k)
                  | Some fd \<Rightarrow>
                      if inside then
                        (case write_in_blocking_pool j ops b k of
                           (Panicked, b1, k1) \<Rightarrow> (Panicked, b1, lent s, k1)
                         | (r, b1, k1) \<Rightarrow> (r, b1, s, k1))
                      else (case write_stream_blocking ops b k of ((r, b1), k1) \<Rightarrow> (Resolved r, Some b1, s, k1)))))"

definition child_flush ::
  "bool \<Rightarrow> job \<Rightarrow> 'k stream_ops \<Rightarrow> child_stream \<Rightarrow> 'k \<Rightarrow> unit outcome \<times> child_stream \<times> 'k" where
  "child_flush inside j ops s k =
     (case cs_io s of
        AsyncIo h \<Rightarrow> (Resolved (Inr ()), s, k)
      | BlockingChildIo \<Rightarrow>
          (case cs_inner s of
             None \<Rightarrow> (Resolved (Inl (Simple BrokenPipe)), s, k)
           | Some fd \<Rightarrow>
               if inside then
                 (case lend j (\<lambda>u k. case so_flush ops k of (r, k1) \<Rightarrow> ((r, u), k1)) () k of
                    (Panicked, _, k1) \<Rightarrow> (Panicked, lent s, k1)
                  | (r, _, k1) \<Rightarrow> (r, s, k1))
               else (case so_flush ops k of (r, k1) \<Rightarrow> (Resolved r, s, k1))))"

text \<open>A read whose future is dropped while the job runs: the stream stays taken.\<close>

definition child_read_cancelled :: "bool \<Rightarrow> mem_buf \<Rightarrow> child_stream \<Rightarrow> child_stream" where
  "child_read_cancelled inside b s =
     (if mb_avail b \<noteq> Some 0 \<and> cs_io s = BlockingChildIo \<and> inside then lent s else s)"

section \<open>Children\<close>

record child_obj =
  ch_inner :: "child option"
  ch_id :: nat
  ch_stdin :: "child_stream option"
  ch_stdout :: "child_stream option"
  ch_stderr :: "child_stream option"

text \<open>\<open>Child::from_std\<close>: the pipes that the standard child has, each registered in turn.\<close>

definition option_stream ::
  "('ms, 'r, 's, 'c) op_cfg \<Rightarrow> os_answer \<times> os_answer \<times> os_answer \<Rightarrow> interest \<Rightarrow> raw_fd option
   \<Rightarrow> ('ms, 'r, 's, 'c) net \<Rightarrow> child_stream option \<times> ('ms, 'r, 's, 'c) net" where
  "option_stream cfg a want fd n =
     (case fd of
        None \<Rightarrow> (None, n)
      | Some fd \<Rightarrow> (case a of (ra, g, sf) \<Rightarrow> map_prod Some id (child_stream_from_std cfg ra g sf want fd n)))"

definition child_from_std ::
  "('ms, 'r, 's, 'c) op_cfg \<Rightarrow> (nat \<Rightarrow> os_answer \<times> os_answer \<times> os_answer) \<Rightarrow> child \<Rightarrow> raw_fd option \<Rightarrow> raw_fd option
   \<Rightarrow> raw_fd option \<Rightarrow> ('ms, 'r, 's, 'c) net \<Rightarrow> child_obj \<times> ('ms, 'r, 's, 'c) net" where
  "child_from_std cfg ans p fin fout ferr n =
     (let (i, n1) = option_stream cfg (ans 0) WRITABLE fin n;
          (o1, n2) = option_stream cfg (ans 1) READABLE fout n1;
          (e, n3) = option_stream cfg (ans 2) READABLE ferr n2
      in (\<lparr>ch_inner = Some p, ch_id = p, ch_stdin = i, ch_stdout = o1, ch_stderr = e\<rparr>, n3))"

definition child_kill :: "unit io_result \<Rightarrow> child_obj \<Rightarrow> unit io_result" where
  "child_kill ans c = (case ch_inner c of None \<Rightarrow> Inl (Simple InvalidInput) | Some _ \<Rightarrow> ans)"

definition child_try_wait :: "try_wait \<Rightarrow> child_obj \<Rightarrow> try_wait" where
  "child_try_wait ans c = (case ch_inner c of None \<Rightarrow> Inl (Simple InvalidInput) | Some _ \<Rightarrow> ans)"

definition drop_stream_field ::
  "('ms, 'r, 's, 'c) op_cfg \<Rightarrow> os_answer \<Rightarrow> child_stream option \<Rightarrow> ('ms, 'r, 's, 'c) net \<Rightarrow> ('ms, 'r, 's, 'c) net" where
  "drop_stream_field cfg da so n = (case so of Some s \<Rightarrow> child_stream_drop cfg da s n | None \<Rightarrow> n)"

text \<open>
  \<open>wait\<close>: the first poll drops the standard input, takes the process and hands it over; what is left of
  the child does not depend on whether the future is polled to its end.
\<close>

definition child_wait_begin ::
  "('ms, 'r, 's, 'c) op_cfg \<Rightarrow> os_answer \<Rightarrow> child_obj \<Rightarrow> ('ms, 'r, 's, 'c) net \<Rightarrow> child io_result \<times> child_obj \<times> ('ms, 'r, 's, 'c) net" where
  "child_wait_begin cfg da c n =
     (let n1 = drop_stream_field cfg da (ch_stdin c) n; c1 = c\<lparr>ch_stdin := None\<rparr>
      in case ch_inner c1 of
           None \<Rightarrow> (Inl (Simple InvalidInput), c1, n1)
         | Some p \<Rightarrow> (Inr p, c1\<lparr>ch_inner := None\<rparr>, n1))"

definition child_wait ::
  "('ms, 'r, 's, 'c) op_cfg \<Rightarrow> os_answer \<Rightarrow> bool \<Rightarrow> exit_status io_result option \<Rightarrow> exit_status io_result \<Rightarrow> child_obj
   \<Rightarrow> ('ms, 'r, 's, 'c) net \<Rightarrow> exit_status io_result \<times> child_obj \<times> ('ms, 'r, 's, 'c) net" where
  "child_wait cfg da has_reaper answer direct c n =
     (case child_wait_begin cfg da c n of
        (Inl err, c1, n1) \<Rightarrow> (Inl err, c1, n1)
      | (Inr p, c1, n1) \<Rightarrow> (reaper_wait has_reaper answer direct, c1, n1))"

text \<open>
  \<open>drop\<close> closes the standard input and passes the process on; then the fields that are left, the other two pipes, are
  dropped. \<open>das\<close> are the answers to the three deregistrations.
\<close>

definition child_drop ::
  "('ms, 'r, 's, 'c) op_cfg \<Rightarrow> (nat \<Rightarrow> os_answer) \<Rightarrow> try_wait \<Rightarrow> bool \<Rightarrow> nat \<Rightarrow> child_obj \<Rightarrow> ('ms, 'r, 's, 'c) net
   \<Rightarrow> drop_action option \<times> ('ms, 'r, 's, 'c) net" where
  "child_drop cfg das ans has_reaper sender c n =
     (let n1 = drop_stream_field cfg (das 0) (ch_stdin c) n;
          action = map_option (reap_on_drop ans has_reaper sender) (ch_inner c);
          n2 = drop_stream_field cfg (das 1) (ch_stdout c) n1
      in (action, drop_stream_field cfg (das 2) (ch_stderr c) n2))"

section \<open>Commands\<close>

record 'x command =
  cm_inner :: "'x option"

definition command_new :: "'x \<Rightarrow> 'x command" where
  "command_new x = \<lparr>cm_inner = Some x\<rparr>"

text \<open>\<open>inner_mut\<close> under every builder method: it panics (\<open>None\<close>) on a consumed command.\<close>

definition command_edit :: "('x \<Rightarrow> 'x) \<Rightarrow> 'x command \<Rightarrow> 'x command option" where
  "command_edit f c = (case cm_inner c of None \<Rightarrow> None | Some x \<Rightarrow> Some (c\<lparr>cm_inner := Some (f x)\<rparr>))"

definition command_spawn ::
  "('x \<Rightarrow> 'k \<Rightarrow> ((child \<times> raw_fd option \<times> raw_fd option \<times> raw_fd option) io_result \<times> 'x) \<times> 'k)
   \<Rightarrow> ('ms, 'r, 's, 'c) op_cfg \<Rightarrow> (nat \<Rightarrow> os_answer \<times> os_answer \<times> os_answer) \<Rightarrow> 'x command \<Rightarrow> 'k \<Rightarrow> ('ms, 'r, 's, 'c) net
   \<Rightarrow> child_obj io_result \<times> 'x command \<times> 'k \<times> ('ms, 'r, 's, 'c) net" where
  "command_spawn fork cfg ans c k n =
     (case cm_inner c of
        None \<Rightarrow> (Inl (Simple InvalidInput), c, k, n)
      | Some x \<Rightarrow>
          (case fork x k of
             ((Inl err, x1), k1) \<Rightarrow> (Inl err, c\<lparr>cm_inner := Some x1\<rparr>, k1, n)
           | ((Inr (p, fin, fout, ferr), x1), k1) \<Rightarrow>
               (let (ch, n1) = child_from_std cfg ans p fin fout ferr n
                in (Inr ch, c\<lparr>cm_inner := Some x1\<rparr>, k1, n1))))"

text \<open>\<open>status\<close> and \<open>output\<close> differ in what the standard command computes.\<close>

definition command_run ::
  "bool \<Rightarrow> job \<Rightarrow> ('x \<Rightarrow> 'k \<Rightarrow> ('a io_result \<times> 'x) \<times> 'k) \<Rightarrow> 'x command \<Rightarrow> 'k \<Rightarrow> 'a outcome \<times> 'x command \<times> 'k" where
  "command_run inside j run c k =
     (if inside then
        (case cm_inner c of
           None \<Rightarrow> (Resolved (Inl (Simple InvalidInput)), c, k)
         | Some x \<Rightarrow> (case lend j run x k of (r, x1, k1) \<Rightarrow> (r, c\<lparr>cm_inner := x1\<rparr>, k1)))
      else
        (case cm_inner c of
           None \<Rightarrow> (Panicked, c, k)
         | Some x \<Rightarrow> (case run x k of ((r, x1), k1) \<Rightarrow> (Resolved r, c\<lparr>cm_inner := Some x1\<rparr>, k1))))"

definition command_status ::
  "bool \<Rightarrow> job \<Rightarrow> ('x \<Rightarrow> 'k \<Rightarrow> (exit_status io_result \<times> 'x) \<times> 'k) \<Rightarrow> 'x command \<Rightarrow> 'k \<Rightarrow> exit_status outcome \<times> 'x command \<times> 'k" where
  "command_status inside j run c k = command_run inside j run c k"

definition command_output ::
  "bool \<Rightarrow> job \<Rightarrow> ('x \<Rightarrow> 'k \<Rightarrow> ((exit_status \<times> byte list \<times> byte list) io_result \<times> 'x) \<times> 'k) \<Rightarrow> 'x command \<Rightarrow> 'k
   \<Rightarrow> (exit_status \<times> byte list \<times> byte list) outcome \<times> 'x command \<times> 'k" where
  "command_output inside j run c k = command_run inside j run c k"

text \<open>A run whose future is dropped before the job has answered.\<close>

definition command_run_cancelled :: "bool \<Rightarrow> 'x command \<Rightarrow> 'x command" where
  "command_run_cancelled inside c = (if inside then c\<lparr>cm_inner := None\<rparr> else c)"

definition command_into_std :: "'x command \<Rightarrow> 'x option" where
  "command_into_std c = cm_inner c"

section \<open>Properties\<close>

text \<open>The calls on a child between its creation and its drop; \<open>WaitCall\<close> may be cancelled after its first poll.\<close>

datatype child_call = KillCall "unit io_result" | TryWaitCall try_wait | WaitCall os_answer

fun child_calls ::
  "('ms, 'r, 's, 'c) op_cfg \<Rightarrow> child_call list \<Rightarrow> child_obj \<Rightarrow> ('ms, 'r, 's, 'c) net
   \<Rightarrow> child list \<times> child_obj \<times> ('ms, 'r, 's, 'c) net" where
  "child_calls cfg [] c n = ([], c, n)"
| "child_calls cfg (KillCall ans # xs) c n = child_calls cfg xs c n"
| "child_calls cfg (TryWaitCall ans # xs) c n = child_calls cfg xs c n"
| "child_calls cfg (WaitCall da # xs) c n =
     (let (r, c1, n1) = child_wait_begin cfg da c n; (ps, c2, n2) = child_calls cfg xs c1 n1
      in ((case r of Inr p \<Rightarrow> [p] | Inl _ \<Rightarrow> []) @ ps, c2, n2))"

definition dropped_to_reaper :: "drop_action option \<Rightarrow> child list" where
  "dropped_to_reaper a = (case a of Some (HandToReaper (p, _)) \<Rightarrow> [p] | Some (WaitOnThread p) \<Rightarrow> [p] | _ \<Rightarrow> [])"

lemma child_wait_begin_inner:
  assumes "child_wait_begin cfg da c n = (r, c', n')"
  shows "ch_inner c' = None" "r = (case ch_inner c of None \<Rightarrow> Inl (Simple InvalidInput) | Some p \<Rightarrow> Inr p)"
  using assms by (auto simp: child_wait_begin_def Let_def split: option.splits)

lemma child_calls_handed:
  "child_calls cfg xs c n = (ps, c', n') \<Longrightarrow> (case ch_inner c of None \<Rightarrow> [] | Some p \<Rightarrow> [p]) = ps @ (case ch_inner c' of None \<Rightarrow> [] | Some p \<Rightarrow> [p])"
proof (induction cfg xs c n arbitrary: ps rule: child_calls.induct)
  case (4 cfg da xs c n)
  obtain r c1 n1 where b: "child_wait_begin cfg da c n = (r, c1, n1)" by (metis prod_cases3)
  obtain qs c2 n2 where q: "child_calls cfg xs c1 n1 = (qs, c2, n2)" by (metis prod_cases3)
  have "[] = qs @ (case ch_inner c2 of None \<Rightarrow> [] | Some p \<Rightarrow> [p])"
    using "4.IH"[OF b[symmetric] refl refl] "4.prems" b q child_wait_begin_inner(1)[OF b] by (auto split: sum.splits)
  then show ?case using "4.prems" b q child_wait_begin_inner(2)[OF b] by (auto split: option.splits)
qed auto

lemma files_drop_stream_field:
  "nt_files (drop_stream_field cfg da so n) =
    (\<lambda>fd. if Option.bind so cs_inner = Some fd then None else nt_files n fd)"
  by (auto simp: drop_stream_field_def child_stream_drop_def drop_child_handle_def close_fd_def fun_eq_iff Let_def
      split: option.splits child_io.splits)

text \<open>
  C26: Every child is handed over exactly once and its pipes are closed. Whatever calls are made on a child (killing, polling,
  waiting, waits that are given up), by the time it is dropped its process has been given to the
  reaper or to a waiting thread once and only once, unless the last poll at the drop has found it dead
  and so reaped it; and of the descriptors, the drop closes those of the pipes the child still has
  and no other.
\<close>

theorem child_handed_over_once:
  assumes "ch_inner c = Some p" and "child_calls cfg xs c n = (ps, c', n')"
    and "child_drop cfg das ans has_reaper sender c' n' = (action, n'')"
  shows "(ps @ dropped_to_reaper action = [p] \<or> ps = [] \<and> (\<exists>status. ans = Inr (Some status))) \<and>
    (\<forall>fd. nt_files n'' fd =
      (if Some fd \<in> (\<lambda>so. Option.bind so cs_inner) ` {ch_stdin c', ch_stdout c', ch_stderr c'} then None else nt_files n' fd))"
proof
  have action: "action = map_option (reap_on_drop ans has_reaper sender) (ch_inner c')"
    using assms(3) by (auto simp: child_drop_def Let_def)
  show "ps @ dropped_to_reaper action = [p] \<or> ps = [] \<and> (\<exists>status. ans = Inr (Some status))"
    using child_calls_handed[OF assms(2)] assms(1) action
    by (cases "ch_inner c'")
       (auto simp: dropped_to_reaper_def reap_on_drop_def split: sum.splits option.splits drop_action.splits)
  show "\<forall>fd. nt_files n'' fd =
      (if Some fd \<in> (\<lambda>so. Option.bind so cs_inner) ` {ch_stdin c', ch_stdout c', ch_stderr c'} then None else nt_files n' fd)"
    using assms(3) by (auto simp: child_drop_def Let_def files_drop_stream_field)
qed

text \<open>
  Waiting consumes the child. Once \<open>wait\<close> has been polled, also when its future is then dropped (as
  a timeout does), the child can neither be killed nor polled nor waited for again: all three fail
  with \<open>InvalidInput\<close>, whatever the operating system would answer.
\<close>

theorem wait_consumes_child:
  assumes "child_wait_begin cfg da c n = (r, c', n')"
  shows "child_kill k c' = Inl (Simple InvalidInput) \<and> child_try_wait t c' = Inl (Simple InvalidInput) \<and>
    fst (child_wait cfg da2 has_reaper answer direct c' n2) = Inl (Simple InvalidInput)"
  using child_wait_begin_inner(1)[OF assms]
  by (simp add: child_kill_def child_try_wait_def child_wait_def child_wait_begin_def Let_def split: option.split)

text \<open>
  Streams and commands survive their blocking calls, but not a dropped call. If no job panics, a
  read, write or flush leaves the standard stream in place and a run leaves the command as the
  standard library returned it; a call whose future is dropped on the way has lost it: later reads
  fail with \<open>BrokenPipe\<close>, later runs with \<open>InvalidInput\<close>, and the builder methods panic.
\<close>

theorem lent_values_return:
  assumes "j \<noteq> JobPanicked" and "mb_cursor b < mb_len b"
  shows "(\<exists>r b' k'. child_read cq True j ops b s k = (Resolved r, Some b', s, k')) \<and>
    (\<exists>r k'. child_write cq True j ops b s k = (Resolved r, Some b, s, k')) \<and>
    (\<exists>r k'. child_flush True j ops s k = (Resolved r, s, k')) \<and>
    (\<exists>r c' kc'. command_run True j run c kc = (Resolved r, c', kc') \<and> (cm_inner c' = None \<longleftrightarrow> cm_inner c = None)) \<and>
    (cs_io s = BlockingChildIo \<longrightarrow>
      child_read cq True j ops b (child_read_cancelled True b s) k = (Resolved (Inl (Simple BrokenPipe)), Some b, lent s, k)) \<and>
    command_run True j run (command_run_cancelled True c) kc = (Resolved (Inl (Simple InvalidInput)), c\<lparr>cm_inner := None\<rparr>, kc) \<and>
    command_edit f (command_run_cancelled True c) = None"
proof -
  have a: "mb_avail b = Some (mb_len b - mb_cursor b)" "mb_len b - mb_cursor b \<noteq> 0" using assms(2) by (simp_all add: mb_avail_def)
  have "\<exists>r b' k'. child_read cq True j ops b s k = (Resolved r, Some b', s, k')"
    using a lend_read[OF assms(1), of ops b k]
    by (cases "child_read_op cq ops b k") (auto simp: child_read_def split: child_io.split option.split)
  moreover have "\<exists>r k'. child_write cq True j ops b s k = (Resolved r, Some b, s, k')"
    using a lend_write[OF assms(1), of ops b k]
    by (cases "child_write_op cq ops b k") (auto simp: child_write_def split: child_io.split option.split)
  moreover have "\<exists>r k'. child_flush True j ops s k = (Resolved r, s, k')"
    using assms(1) by (cases j) (auto simp: child_flush_def lend_def spawn_blocking_def split: child_io.split option.split prod.split)
  moreover have "\<exists>r c' kc'. command_run True j run c kc = (Resolved r, c', kc') \<and> (cm_inner c' = None \<longleftrightarrow> cm_inner c = None)"
    using assms(1) by (cases j) (auto simp: command_run_def lend_def spawn_blocking_def split: option.split prod.split)
  moreover have "cs_io s = BlockingChildIo \<longrightarrow>
      child_read cq True j ops b (child_read_cancelled True b s) k = (Resolved (Inl (Simple BrokenPipe)), Some b, lent s, k)"
    using a by (simp add: child_read_cancelled_def child_read_def lent_def)
  moreover have "command_run True j run (command_run_cancelled True c) kc = (Resolved (Inl (Simple InvalidInput)), c\<lparr>cm_inner := None\<rparr>, kc)"
    "command_edit f (command_run_cancelled True c) = None"
    by (simp_all add: command_run_cancelled_def command_run_def command_edit_def)
  ultimately show ?thesis by blast
qed

text \<open>
  \<open>copy\<close> offers an empty vector, which the streams of a child and the standard input take for a request of
  no bytes, so that nothing is copied from them.
\<close>

definition child_copy_read ::
  "bool \<Rightarrow> bool \<Rightarrow> job \<Rightarrow> 'k stream_ops \<Rightarrow> nat \<Rightarrow> child_stream \<times> 'k \<Rightarrow> nat io_result \<times> byte list \<times> child_stream \<times> 'k" where
  "child_copy_read cq inside j ops cap sk =
     (case child_read cq inside j ops (empty_vec cap) (fst sk) (snd sk) of
        (Resolved r, Some b1, s1, k1) \<Rightarrow> (r, take (mb_len b1) (mb_mem b1), s1, k1)
      | (_, _, s1, k1) \<Rightarrow> (Inl (Simple OtherKind), [], s1, k1))"

theorem copy_from_child_copies_nothing:
  assumes "flush w = (Inr (), w1)"
  shows "copy (child_copy_read cq inside j ops) wr flush (s, k) w = Some (Resolved (Inr 0), (s, k), w1)"
proof -
  have "child_copy_read cq inside j ops COPY_BUFFER (s, k) = (Inr 0, [], s, k)"
    by (simp add: child_copy_read_def child_read_def mb_avail_def empty_vec_def)
  then show ?thesis using assms by (simp add: copy_def copy_loop.simps)
qed

section \<open>Concrete runs\<close>

definition demo_child :: child_obj where
  "demo_child = \<lparr>ch_inner = Some 77, ch_id = 77, ch_stdin = None, ch_stdout = None, ch_stderr = None\<rparr>"

theorem child_handed_over_once_witness:
  "\<exists>ps c' n' action n''. child_calls demo_opcfg [KillCall (Inr ()), TryWaitCall (Inr None)] demo_child demo_net = (ps, c', n') \<and>
     child_drop demo_opcfg (\<lambda>_. None) (Inr None) True 5 c' n' = (action, n'') \<and> ps @ dropped_to_reaper action = [77]"
proof -
  obtain ps c' n' where r: "child_calls demo_opcfg [KillCall (Inr ()), TryWaitCall (Inr None)] demo_child demo_net = (ps, c', n')"
    by (metis prod_cases3)
  obtain action n'' where d: "child_drop demo_opcfg (\<lambda>_. None) (Inr None) True 5 c' n' = (action, n'')" by fastforce
  have "ch_inner demo_child = Some 77" by (simp add: demo_child_def)
  from child_handed_over_once[OF this r d] have "ps @ dropped_to_reaper action = [77]" by simp
  with r d show ?thesis by blast
qed

theorem wait_consumes_child_witness:
  "child_kill (Inr ()) (fst (snd (child_wait_begin demo_opcfg None demo_child demo_net))) = Inl (Simple InvalidInput)"
proof -
  obtain r c' n' where r: "child_wait_begin demo_opcfg None demo_child demo_net = (r, c', n')" by (metis prod_cases3)
  show ?thesis using wait_consumes_child[OF r] by (simp add: r)
qed

theorem lent_values_return_witness:
  "child_read True True NotSpawned \<lparr>so_read = \<lambda>n k. (Inr [], k), so_write = \<lambda>bs k. (Inr (length bs), k), so_flush = \<lambda>k. (Inr (), k)\<rparr>
     \<lparr>mb_mem = [1, 2], mb_len = 2, mb_fixed = True, mb_cursor = 0\<rparr>
     (child_read_cancelled True \<lparr>mb_mem = [1, 2], mb_len = 2, mb_fixed = True, mb_cursor = 0\<rparr>
       \<lparr>cs_inner = Some 6, cs_io = BlockingChildIo\<rparr>) () =
   (Resolved (Inl (Simple BrokenPipe)), Some \<lparr>mb_mem = [1, 2], mb_len = 2, mb_fixed = True, mb_cursor = 0\<rparr>,
     lent \<lparr>cs_inner = Some 6, cs_io = BlockingChildIo\<rparr>, ())"
  by (rule lent_values_return[THEN conjunct2, THEN conjunct2, THEN conjunct2, THEN conjunct2, THEN conjunct1, rule_format]) simp_all

theorem copy_from_child_copies_nothing_witness:
  "copy (child_copy_read True True Ran \<lparr>so_read = (\<lambda>n k. (Inr (take n k), drop n k)), so_write = (\<lambda>bs k. (Inr (length bs), k)),
      so_flush = (\<lambda>k. (Inr (), k))\<rparr>) (\<lambda>bs out. (Inr (length bs), out @ bs)) (\<lambda>out. (Inr (), out))
     (\<lparr>cs_inner = Some 5, cs_io = BlockingChildIo\<rparr>, [65, 66]) [] =
   Some (Resolved (Inr 0), (\<lparr>cs_inner = Some 5, cs_io = BlockingChildIo\<rparr>, [65, 66]), [])"
  by (rule copy_from_child_copies_nothing) simp

end
