(* ===== verification/Io_Split.thy ===== *)
theory Io_Split
  imports Io_Copy "HOL-Library.Sublist"
begin

text \<open>
  \<open>split\<close> and \<open>copy_bidirectional\<close> (\<open>io/util.rs\<close>). Both halves of an object share it behind one asynchronous mutex, and a half holds
  the mutex for the whole of a call. The two copies are polled together; a step of the relation is one
  action of one copy between two points where it may wait, or one action of a peer. Of the mutex the model uses that it has
  one holder at a time and is released when the guard is dropped.
\<close>

section \<open>The two copies\<close>

datatype dir = AtoB | BtoA

fun other :: "dir \<Rightarrow> dir" where
  "other AtoB = BtoA"
| "other BtoA = AtoB"

lemma other_simps [simp]: "other d \<noteq> d" "d \<noteq> other d" "other (other d) = d"
  by (cases d; simp)+

lemma dir_cases: "d' = d \<or> d' = other d"
  by (cases d; cases d') simp_all

text \<open>Where a copy is: waiting for a mutex or inside a call with the mutex held.\<close>

datatype copy_pc = WantRead | Reading | WantWrite "byte list" | Writing "byte list" | WantFlush | Flushing
  | CopyDone | CopyFailed

text \<open>
  A direction stands for the object it reads from: the copy in direction \<open>d\<close> reads object \<open>d\<close> and writes
  object \<open>other d\<close>. \<open>bd_arrived\<close> records all bytes a peer has sent.
\<close>

record bidi =
  bd_in :: "dir \<Rightarrow> byte list"
  bd_eof :: "dir \<Rightarrow> bool"
  bd_out :: "dir \<Rightarrow> byte list"
  bd_lock :: "dir \<Rightarrow> dir option"
  bd_pc :: "dir \<Rightarrow> copy_pc"
  bd_arrived :: "dir \<Rightarrow> byte list"

definition split :: "(dir \<Rightarrow> byte list) \<Rightarrow> bidi" where
  "split input = \<lparr>bd_in = input, bd_eof = (\<lambda>_. False), bd_out = (\<lambda>_. []), bd_lock = (\<lambda>_. None),
     bd_pc = (\<lambda>_. WantRead), bd_arrived = input\<rparr>"

definition go :: "dir \<Rightarrow> copy_pc \<Rightarrow> bidi \<Rightarrow> bidi" where
  "go d p s = s\<lparr>bd_pc := (bd_pc s)(d := p)\<rparr>"

definition acquire :: "dir \<Rightarrow> dir \<Rightarrow> bidi \<Rightarrow> bidi" where
  "acquire obj d s = s\<lparr>bd_lock := (bd_lock s)(obj := Some d)\<rparr>"

definition release :: "dir \<Rightarrow> bidi \<Rightarrow> bidi" where
  "release obj s = s\<lparr>bd_lock := (bd_lock s)(obj := None)\<rparr>"

inductive bidi_step :: "bidi \<Rightarrow> bidi \<Rightarrow> bool" where
  lock_read: "bd_pc s d = WantRead \<Longrightarrow> bd_lock s d = None \<Longrightarrow> bidi_step s (go d Reading (acquire d d s))"
| got_bytes: "bd_pc s d = Reading \<Longrightarrow> bd_in s d = xs @ ys \<Longrightarrow> xs \<noteq> [] \<Longrightarrow> length xs \<le> COPY_BUFFER
    \<Longrightarrow> bidi_step s (go d (WantWrite xs) (release d (s\<lparr>bd_in := (bd_in s)(d := ys)\<rparr>)))"
| got_eof: "bd_pc s d = Reading \<Longrightarrow> bd_in s d = [] \<Longrightarrow> bd_eof s d \<Longrightarrow> bidi_step s (go d WantFlush (release d s))"
| read_failed: "bd_pc s d = Reading \<Longrightarrow> bidi_step s (go d CopyFailed (release d s))"
| lock_write: "bd_pc s d = WantWrite xs \<Longrightarrow> bd_lock s (other d) = None
    \<Longrightarrow> bidi_step s (go d (Writing xs) (acquire (other d) d s))"
| wrote_bytes: "bd_pc s d = Writing (xs @ ys) \<Longrightarrow> xs \<noteq> []
    \<Longrightarrow> bidi_step s (go d (if ys = [] then WantRead else WantWrite ys)
          (release (other d) (s\<lparr>bd_out := (bd_out s)(d := bd_out s d @ xs)\<rparr>)))"
| write_failed: "bd_pc s d = Writing xs \<Longrightarrow> bidi_step s (go d CopyFailed (release (other d) s))"
| lock_flush: "bd_pc s d = WantFlush \<Longrightarrow> bd_lock s (other d) = None \<Longrightarrow> bidi_step s (go d Flushing (acquire (other d) d s))"
| flushed: "bd_pc s d = Flushing \<Longrightarrow> bidi_step s (go d CopyDone (release (other d) s))"
| flush_failed: "bd_pc s d = Flushing \<Longrightarrow> bidi_step s (go d CopyFailed (release (other d) s))"

text \<open>What the peers do: send bytes, or close their side.\<close>

inductive peer_step :: "dir \<Rightarrow> bidi \<Rightarrow> bidi \<Rightarrow> bool" where
  sends: "\<not> bd_eof s d \<Longrightarrow> peer_step d s (s\<lparr>bd_in := (bd_in s)(d := bd_in s d @ xs), bd_arrived := (bd_arrived s)(d := bd_arrived s d @ xs)\<rparr>)"
| closes: "peer_step d s (s\<lparr>bd_eof := (bd_eof s)(d := True)\<rparr>)"

inductive bidi_reach :: "(dir \<Rightarrow> byte list) \<Rightarrow> bidi \<Rightarrow> bool" for input where
  start: "bidi_reach input (split input)"
| copies: "bidi_reach input s \<Longrightarrow> bidi_step s s' \<Longrightarrow> bidi_reach input s'"
| peers: "bidi_reach input s \<Longrightarrow> peer_step d s s' \<Longrightarrow> bidi_reach input s'"

text \<open>
  \<open>copy_bidirectional\<close> returns the result of the first copy when it failed, otherwise of the second; the
  counts of the bytes on success.
\<close>

definition copy_bidirectional_result :: "u64 io_result \<Rightarrow> u64 io_result \<Rightarrow> (u64 \<times> u64) io_result" where
  "copy_bidirectional_result r1 r2 =
     (case r1 of Inl err \<Rightarrow> Inl err | Inr n1 \<Rightarrow> (case r2 of Inl err \<Rightarrow> Inl err | Inr n2 \<Rightarrow> Inr (n1, n2)))"

section \<open>Bytes and mutexes\<close>

fun held_bytes :: "copy_pc \<Rightarrow> byte list" where
  "held_bytes (WantWrite xs) = xs"
| "held_bytes (Writing xs) = xs"
| "held_bytes _ = []"

text \<open>The object whose mutex a copy holds.\<close>

fun holds :: "dir \<Rightarrow> copy_pc \<Rightarrow> dir option" where
  "holds d Reading = Some d"
| "holds d (Writing xs) = Some (other d)"
| "holds d Flushing = Some (other d)"
| "holds d _ = None"

definition bidi_inv :: "bidi \<Rightarrow> bool" where
  "bidi_inv s \<longleftrightarrow> (\<forall>d obj. bd_lock s obj = Some d \<longleftrightarrow> holds d (bd_pc s d) = Some obj)"

lemmas bidi_defs = go_def acquire_def release_def

lemma all_dir: "(\<forall>d. P d) \<longleftrightarrow> P AtoB \<and> P BtoA"
  using dir.exhaust by metis

lemma bidi_inv_step: "bidi_step s s' \<Longrightarrow> bidi_inv s \<Longrightarrow> bidi_inv s'"
  by (erule bidi_step.cases; case_tac d; auto simp: bidi_inv_def bidi_defs all_dir)

definition bytes_ok :: "bidi \<Rightarrow> dir \<Rightarrow> bool" where
  "bytes_ok s d \<longleftrightarrow> prefix (bd_out s d) (bd_arrived s d) \<and>
     (bd_pc s d \<noteq> CopyFailed \<longrightarrow> bd_out s d @ held_bytes (bd_pc s d) @ bd_in s d = bd_arrived s d) \<and>
     (bd_pc s d \<in> {WantFlush, Flushing, CopyDone} \<longrightarrow> bd_eof s d \<and> bd_in s d = [])"

lemma prefix_of_append: "xs @ ys @ zs = t \<Longrightarrow> prefix (xs @ ys) t"
  by (auto simp: prefix_def)

lemma bytes_ok_step: "bidi_step s s' \<Longrightarrow> bytes_ok s d \<Longrightarrow> bytes_ok s' d"
  by (erule bidi_step.cases)
    (auto simp: bytes_ok_def bidi_defs intro: prefix_of_append prefixI[OF sym] split: if_splits)

lemma bytes_ok_peer: "peer_step e s s' \<Longrightarrow> bytes_ok s d \<Longrightarrow> bytes_ok s' d"
  by (erule peer_step.cases) (auto simp: bytes_ok_def prefix_def)

text \<open>
  C25: \<open>copy_bidirectional\<close> keeps the two streams apart and in order. In every state that is reachable under any
  interleaving of the copies and the peers, each mutex has one holder, what was written in a direction is a prefix of
  what the peer of that direction has sent, nothing sent is lost while the copy runs, and a copy that
  has ended without an error has written everything.
\<close>

theorem copy_bidirectional_in_order:
  assumes "bidi_reach input s"
  shows "prefix (bd_out s d) (bd_arrived s d) \<and>
    (bd_pc s d \<noteq> CopyFailed \<longrightarrow> bd_out s d @ held_bytes (bd_pc s d) @ bd_in s d = bd_arrived s d) \<and>
    (bd_pc s d = CopyDone \<longrightarrow> bd_out s d = bd_arrived s d) \<and>
    (\<forall>obj. bd_lock s obj = Some d \<longleftrightarrow> holds d (bd_pc s d) = Some obj)"
proof -
  have "bidi_inv s \<and> (\<forall>d. bytes_ok s d)"
    using assms
  proof induction
    case start
    show ?case by (simp add: bidi_inv_def bytes_ok_def split_def)
  next
    case (copies s s')
    then show ?case using bidi_inv_step bytes_ok_step by blast
  next
    case (peers s e s')
    have "bidi_inv s'" using peers.hyps(2) peers.IH by cases (auto simp: bidi_inv_def)
    then show ?case using peers bytes_ok_peer by blast
  qed
  then show ?thesis by (auto simp: bidi_inv_def bytes_ok_def)
qed

section \<open>A waiting reader blocks the writer\<close>

text \<open>Steps of everybody but the peer of one object.\<close>

inductive silent_step :: "dir \<Rightarrow> bidi \<Rightarrow> bidi \<Rightarrow> bool" for quiet where
  "bidi_step s s' \<Longrightarrow> \<not> (bd_pc s quiet = Reading \<and> bd_pc s' quiet = CopyFailed) \<Longrightarrow> silent_step quiet s s'"
| "peer_step (other quiet) s s' \<Longrightarrow> silent_step quiet s s'"

text \<open>The join polls the first copy first, which takes the mutex of its object.\<close>

definition first_poll :: "bidi \<Rightarrow> bidi" where
  "first_poll s = go AtoB Reading (acquire AtoB AtoB s)"

definition stuck :: "dir \<Rightarrow> bidi \<Rightarrow> bool" where
  "stuck d s \<longleftrightarrow> bd_pc s d = Reading \<and> bd_lock s d = Some d \<and> bd_in s d = [] \<and> \<not> bd_eof s d \<and>
     bd_out s (other d) = [] \<and> (\<forall>xs. bd_pc s (other d) \<noteq> Writing xs) \<and> bd_pc s (other d) \<noteq> Flushing"

lemma stuck_step:
  assumes "silent_step d s s'" and "stuck d s"
  shows "stuck d s'"
  using assms
proof cases
  case 1
  from 1(1) show ?thesis
  proof cases
    case (lock_read e)
    then show ?thesis using assms(2) dir_cases[of e d] by (auto simp: stuck_def bidi_defs)
  next
    case (got_bytes e xs ys)
    then show ?thesis using assms(2) dir_cases[of e d] by (auto simp: stuck_def bidi_defs)
  next
    case (got_eof e)
    then show ?thesis using assms(2) dir_cases[of e d] by (auto simp: stuck_def bidi_defs)
  next
    case (read_failed e)
    then show ?thesis using assms(2) 1(2) dir_cases[of e d] by (auto simp: stuck_def bidi_defs)
  qed (use assms(2) dir_cases in \<open>auto simp: stuck_def bidi_defs\<close>)
next
  case 2
  then show ?thesis using assms(2) by cases (auto simp: stuck_def)
qed

text \<open>
  C38: While one object is silent, nothing is written to it. The first copy holds the mutex of its object while it
  waits for bytes, and the second copy needs the same mutex to write: as long as the peer of the
  first object neither sends nor closes (and its read does not fail), no byte reaches it, however much the other
  peer has sent and whatever the copies do.
\<close>

theorem waiting_reader_blocks_writer:
  assumes "input AtoB = []" and "(silent_step AtoB)\<^sup>*\<^sup>* (first_poll (split input)) s"
  shows "bd_out s BtoA = []"
proof -
  have "stuck AtoB s"
    using assms(2)
  proof induction
    case base
    show ?case using assms(1) by (simp add: stuck_def first_poll_def split_def bidi_defs)
  next
    case (step t u)
    then show ?case using stuck_step by blast
  qed
  then show ?thesis by (simp add: stuck_def)
qed

section \<open>Concrete runs\<close>

definition demo_input :: "dir \<Rightarrow> byte list" where
  "demo_input d = (case d of AtoB \<Rightarrow> [] | BtoA \<Rightarrow> [2, 3])"

theorem copy_bidirectional_in_order_witness:
  "prefix (bd_out (go BtoA (WantWrite [2]) (release BtoA ((go BtoA Reading (acquire BtoA BtoA (split demo_input)))
     \<lparr>bd_in := (demo_input(BtoA := [3]))\<rparr>))) BtoA) [2, 3]"
proof -
  let ?s = "go BtoA Reading (acquire BtoA BtoA (split demo_input))"
  have "bidi_reach demo_input ?s"
    by (rule bidi_reach.copies[OF bidi_reach.start bidi_step.lock_read]) (simp_all add: split_def)
  then have "bidi_reach demo_input (go BtoA (WantWrite [2]) (release BtoA (?s\<lparr>bd_in := (bd_in ?s)(BtoA := [3])\<rparr>)))"
    by (rule bidi_reach.copies[OF _ bidi_step.got_bytes])
      (simp_all add: split_def bidi_defs demo_input_def COPY_BUFFER_def)
  from copy_bidirectional_in_order[OF this, of BtoA] show ?thesis
    by (simp add: split_def bidi_defs demo_input_def)
qed

theorem waiting_reader_blocks_writer_witness:
  "bd_in (first_poll (split demo_input)) BtoA = [2, 3] \<and> bd_out (first_poll (split demo_input)) BtoA = []"
  using waiting_reader_blocks_writer[of demo_input "first_poll (split demo_input)"]
  by (simp add: demo_input_def first_poll_def split_def bidi_defs)

end
