(* ===== verification/Fs_Metadata.thy ===== *)
theory Fs_Metadata
  imports Prelude "HOL-Library.Word"
begin

unbundle bit_operations_syntax

text \<open>
  File metadata (\<open>fs/metadata.rs\<close>), from the result of the \<open>statx\<close> operation or of the standard library. Widths
  are those of the sources; \<open>i64\<close> is a word read as signed. \<open>makedev\<close> of the C library is the
  parameter \<open>mk\<close>. The standard library's own metadata is what it makes of the same \<open>statx\<close> answer.
\<close>

section \<open>Data\<close>

record statx_timestamp =
  tv_sec :: "64 word"
  tv_nsec :: "32 word"

record statx =
  stx_mask :: "32 word"
  stx_blksize :: "32 word"
  stx_attributes :: "64 word"
  stx_nlink :: "32 word"
  stx_uid :: "32 word"
  stx_gid :: "32 word"
  stx_mode :: "16 word"
  stx_ino :: "64 word"
  stx_size :: "64 word"
  stx_blocks :: "64 word"
  stx_atime :: statx_timestamp
  stx_btime :: statx_timestamp
  stx_ctime :: statx_timestamp
  stx_mtime :: statx_timestamp
  stx_rdev_major :: "32 word"
  stx_rdev_minor :: "32 word"
  stx_dev_major :: "32 word"
  stx_dev_minor :: "32 word"
  stx_subvol :: "64 word"

text \<open>\<open>std::fs::Metadata\<close>: a \<open>stat64\<close> and the creation time with the mask of the answered fields.\<close>

record std_metadata =
  sd_dev :: "64 word"
  sd_ino :: "64 word"
  sd_mode :: "32 word"
  sd_nlink :: "64 word"
  sd_uid :: "32 word"
  sd_gid :: "32 word"
  sd_rdev :: "64 word"
  sd_size :: "64 word"
  sd_atime :: "64 word"
  sd_atime_nsec :: "64 word"
  sd_mtime :: "64 word"
  sd_mtime_nsec :: "64 word"
  sd_ctime :: "64 word"
  sd_ctime_nsec :: "64 word"
  sd_blksize :: "64 word"
  sd_blocks :: "64 word"
  sd_btime :: statx_timestamp
  sd_mask :: "32 word"

datatype metadata = Statx statx | Std std_metadata

definition md_from_std :: "std_metadata \<Rightarrow> metadata" where
  "md_from_std md = Std md"

definition md_from_statx :: "statx \<Rightarrow> metadata" where
  "md_from_statx st = Statx st"

definition S_IFMT :: "32 word" where "S_IFMT = 0xF000"
definition S_IFDIR :: "32 word" where "S_IFDIR = 0x4000"
definition S_IFREG :: "32 word" where "S_IFREG = 0x8000"
definition S_IFLNK :: "32 word" where "S_IFLNK = 0xA000"
definition STATX_BTIME :: "32 word" where "STATX_BTIME = 0x800"

section \<open>Time stamps\<close>

text \<open>
  \<open>SystemTime\<close> counts nanoseconds from the epoch, with seconds that fit an \<open>i64\<close>. A panic is \<open>None\<close>; the
  negation of an \<open>i64\<close> wraps around, as in a release build.
\<close>

definition system_time_ok :: "int \<Rightarrow> bool" where
  "system_time_ok t \<longleftrightarrow> - (2 ^ 63) * 10 ^ 9 \<le> t \<and> t < 2 ^ 63 * 10 ^ 9"

definition statx_timestamp_to_system_time :: "statx_timestamp \<Rightarrow> int io_result option" where
  "statx_timestamp_to_system_time ts =
     (let secs = tv_sec ts; nanos = uint (tv_nsec ts) in
      if 0 \<le> sint secs then
        (let t = sint secs * 10 ^ 9 + nanos in if system_time_ok t then Some (Inr t) else None)
      else if sint (- secs) < 0 then Some (Inl (Simple InvalidInput))
      else
        (let t = - (sint (- secs) * 10 ^ 9 + nanos) in
         if system_time_ok t then Some (Inr t) else Some (Inl (Simple InvalidData))))"

text \<open>The standard library's time of a \<open>stat64\<close> field: nanoseconds count forward from the second.\<close>

definition std_system_time :: "64 word \<Rightarrow> 64 word \<Rightarrow> int io_result" where
  "std_system_time secs nsec =
     (if 0 \<le> sint nsec \<and> sint nsec < 10 ^ 9 then Inr (sint secs * 10 ^ 9 + sint nsec) else Inl (Simple InvalidData))"

definition std_created :: "std_metadata \<Rightarrow> int io_result" where
  "std_created md =
     (if sd_mask md AND STATX_BTIME \<noteq> 0 then std_system_time (tv_sec (sd_btime md)) (ucast (tv_nsec (sd_btime md)))
      else Inl (Simple Unsupported))"

definition md_accessed :: "metadata \<Rightarrow> int io_result option" where
  "md_accessed m = (case m of Statx st \<Rightarrow> statx_timestamp_to_system_time (stx_atime st)
     | Std md \<Rightarrow> Some (std_system_time (sd_atime md) (sd_atime_nsec md)))"

definition md_created :: "metadata \<Rightarrow> int io_result option" where
  "md_created m = (case m of Statx st \<Rightarrow> statx_timestamp_to_system_time (stx_btime st) | Std md \<Rightarrow> Some (std_created md))"

definition md_modified :: "metadata \<Rightarrow> int io_result option" where
  "md_modified m = (case m of Statx st \<Rightarrow> statx_timestamp_to_system_time (stx_mtime st)
     | Std md \<Rightarrow> Some (std_system_time (sd_mtime md) (sd_mtime_nsec md)))"

section \<open>File types\<close>

record file_type =
  ft_is_dir :: bool
  ft_is_file :: bool
  ft_is_symlink :: bool

definition md_is_dir :: "metadata \<Rightarrow> bool" where
  "md_is_dir m = (case m of Statx st \<Rightarrow> ucast (stx_mode st) AND S_IFMT = S_IFDIR | Std md \<Rightarrow> sd_mode md AND S_IFMT = S_IFDIR)"

definition md_is_file :: "metadata \<Rightarrow> bool" where
  "md_is_file m = (case m of Statx st \<Rightarrow> ucast (stx_mode st) AND S_IFMT = S_IFREG | Std md \<Rightarrow> sd_mode md AND S_IFMT = S_IFREG)"

definition md_is_symlink :: "metadata \<Rightarrow> bool" where
  "md_is_symlink m = (case m of Statx st \<Rightarrow> ucast (stx_mode st) AND S_IFMT = S_IFLNK | Std md \<Rightarrow> sd_mode md AND S_IFMT = S_IFLNK)"

definition md_file_type :: "metadata \<Rightarrow> file_type" where
  "md_file_type m = \<lparr>ft_is_dir = md_is_dir m, ft_is_file = md_is_file m, ft_is_symlink = md_is_symlink m\<rparr>"

definition md_permissions :: "metadata \<Rightarrow> 32 word" where
  "md_permissions m = (case m of Statx st \<Rightarrow> ucast (stx_mode st) | Std md \<Rightarrow> sd_mode md)"

definition md_len :: "metadata \<Rightarrow> 64 word" where
  "md_len m = (case m of Statx st \<Rightarrow> stx_size st | Std md \<Rightarrow> sd_size md)"

section \<open>Accessors\<close>

definition md_st_dev :: "(32 word \<Rightarrow> 32 word \<Rightarrow> 64 word) \<Rightarrow> metadata \<Rightarrow> 64 word" where
  "md_st_dev mk m = (case m of Statx st \<Rightarrow> mk (stx_dev_major st) (stx_dev_minor st) | Std md \<Rightarrow> sd_dev md)"

definition md_st_ino :: "metadata \<Rightarrow> 64 word" where
  "md_st_ino m = (case m of Statx st \<Rightarrow> stx_ino st | Std md \<Rightarrow> sd_ino md)"

definition md_st_mode :: "metadata \<Rightarrow> 32 word" where
  "md_st_mode m = (case m of Statx st \<Rightarrow> ucast (stx_mode st) | Std md \<Rightarrow> sd_mode md)"

definition md_st_nlink :: "metadata \<Rightarrow> 64 word" where
  "md_st_nlink m = (case m of Statx st \<Rightarrow> ucast (stx_nlink st) | Std md \<Rightarrow> sd_nlink md)"

definition md_st_uid :: "metadata \<Rightarrow> 32 word" where
  "md_st_uid m = (case m of Statx st \<Rightarrow> stx_uid st | Std md \<Rightarrow> sd_uid md)"

definition md_st_gid :: "metadata \<Rightarrow> 32 word" where
  "md_st_gid m = (case m of Statx st \<Rightarrow> stx_gid st | Std md \<Rightarrow> sd_gid md)"

definition md_st_rdev :: "(32 word \<Rightarrow> 32 word \<Rightarrow> 64 word) \<Rightarrow> metadata \<Rightarrow> 64 word" where
  "md_st_rdev mk m = (case m of Statx st \<Rightarrow> mk (stx_rdev_major st) (stx_rdev_minor st) | Std md \<Rightarrow> sd_rdev md)"

definition md_st_size :: "metadata \<Rightarrow> 64 word" where
  "md_st_size m = (case m of Statx st \<Rightarrow> stx_size st | Std md \<Rightarrow> sd_size md)"

definition md_st_atime :: "metadata \<Rightarrow> 64 word" where
  "md_st_atime m = (case m of Statx st \<Rightarrow> tv_sec (stx_atime st) | Std md \<Rightarrow> sd_atime md)"

definition md_st_atime_nsec :: "metadata \<Rightarrow> 64 word" where
  "md_st_atime_nsec m = (case m of Statx st \<Rightarrow> ucast (tv_nsec (stx_atime st)) | Std md \<Rightarrow> sd_atime_nsec md)"

definition md_st_mtime :: "metadata \<Rightarrow> 64 word" where
  "md_st_mtime m = (case m of Statx st \<Rightarrow> tv_sec (stx_mtime st) | Std md \<Rightarrow> sd_mtime md)"

definition md_st_mtime_nsec :: "metadata \<Rightarrow> 64 word" where
  "md_st_mtime_nsec m = (case m of Statx st \<Rightarrow> ucast (tv_nsec (stx_mtime st)) | Std md \<Rightarrow> sd_mtime_nsec md)"

definition md_st_ctime :: "metadata \<Rightarrow> 64 word" where
  "md_st_ctime m = (case m of Statx st \<Rightarrow> tv_sec (stx_ctime st) | Std md \<Rightarrow> sd_ctime md)"

definition md_st_ctime_nsec :: "metadata \<Rightarrow> 64 word" where
  "md_st_ctime_nsec m = (case m of Statx st \<Rightarrow> ucast (tv_nsec (stx_ctime st)) | Std md \<Rightarrow> sd_ctime_nsec md)"

definition md_st_blksize :: "metadata \<Rightarrow> 64 word" where
  "md_st_blksize m = (case m of Statx st \<Rightarrow> ucast (stx_blksize st) | Std md \<Rightarrow> sd_blksize md)"

definition md_st_blocks :: "metadata \<Rightarrow> 64 word" where
  "md_st_blocks m = (case m of Statx st \<Rightarrow> stx_blocks st | Std md \<Rightarrow> sd_blocks md)"

definition md_st_subvol :: "metadata \<Rightarrow> 64 word option" where
  "md_st_subvol m = (case m of Statx st \<Rightarrow> Some (stx_subvol st) | Std md \<Rightarrow> None)"

definition md_st_attributes :: "metadata \<Rightarrow> 64 word option" where
  "md_st_attributes m = (case m of Statx st \<Rightarrow> Some (stx_attributes st) | Std md \<Rightarrow> None)"

text \<open>The accessors of the Unix extension trait.\<close>

definition md_dev :: "(32 word \<Rightarrow> 32 word \<Rightarrow> 64 word) \<Rightarrow> metadata \<Rightarrow> 64 word" where
  "md_dev mk m = (case m of Std md \<Rightarrow> sd_dev md | Statx st \<Rightarrow> mk (stx_dev_major st) (stx_dev_minor st))"

definition md_ino :: "metadata \<Rightarrow> 64 word" where
  "md_ino m = (case m of Std md \<Rightarrow> sd_ino md | Statx st \<Rightarrow> stx_ino st)"

definition md_mode :: "metadata \<Rightarrow> 32 word" where
  "md_mode m = (case m of Std md \<Rightarrow> sd_mode md | Statx st \<Rightarrow> ucast (stx_mode st))"

definition md_nlink :: "metadata \<Rightarrow> 64 word" where
  "md_nlink m = (case m of Std md \<Rightarrow> sd_nlink md | Statx st \<Rightarrow> ucast (stx_nlink st))"

definition md_uid :: "metadata \<Rightarrow> 32 word" where
  "md_uid m = (case m of Std md \<Rightarrow> sd_uid md | Statx st \<Rightarrow> stx_uid st)"

definition md_gid :: "metadata \<Rightarrow> 32 word" where
  "md_gid m = (case m of Std md \<Rightarrow> sd_gid md | Statx st \<Rightarrow> stx_gid st)"

definition md_rdev :: "(32 word \<Rightarrow> 32 word \<Rightarrow> 64 word) \<Rightarrow> metadata \<Rightarrow> 64 word" where
  "md_rdev mk m = (case m of Std md \<Rightarrow> sd_rdev md | Statx st \<Rightarrow> mk (stx_rdev_major st) (stx_rdev_minor st))"

definition md_size :: "metadata \<Rightarrow> 64 word" where
  "md_size m = (case m of Std md \<Rightarrow> sd_size md | Statx st \<Rightarrow> stx_size st)"

definition md_atime :: "metadata \<Rightarrow> 64 word" where
  "md_atime m = (case m of Std md \<Rightarrow> sd_atime md | Statx st \<Rightarrow> tv_sec (stx_atime st))"

definition md_atime_nsec :: "metadata \<Rightarrow> 64 word" where
  "md_atime_nsec m = (case m of Std md \<Rightarrow> sd_atime_nsec md | Statx st \<Rightarrow> ucast (tv_nsec (stx_atime st)))"

definition md_mtime :: "metadata \<Rightarrow> 64 word" where
  "md_mtime m = (case m of Std md \<Rightarrow> sd_mtime md | Statx st \<Rightarrow> tv_sec (stx_mtime st))"

definition md_mtime_nsec :: "metadata \<Rightarrow> 64 word" where
  "md_mtime_nsec m = (case m of Std md \<Rightarrow> sd_mtime_nsec md | Statx st \<Rightarrow> ucast (tv_nsec (stx_mtime st)))"

definition md_ctime :: "metadata \<Rightarrow> 64 word" where
  "md_ctime m = (case m of Std md \<Rightarrow> sd_ctime md | Statx st \<Rightarrow> tv_sec (stx_ctime st))"

definition md_ctime_nsec :: "metadata \<Rightarrow> 64 word" where
  "md_ctime_nsec m = (case m of Std md \<Rightarrow> sd_ctime_nsec md | Statx st \<Rightarrow> ucast (tv_nsec (stx_ctime st)))"

definition md_blksize :: "metadata \<Rightarrow> 64 word" where
  "md_blksize m = (case m of Std md \<Rightarrow> sd_blksize md | Statx st \<Rightarrow> ucast (stx_blksize st))"

definition md_blocks :: "metadata \<Rightarrow> 64 word" where
  "md_blocks m = (case m of Std md \<Rightarrow> sd_blocks md | Statx st \<Rightarrow> stx_blocks st)"

lemmas accessor_defs =
  md_st_dev_def md_st_ino_def md_st_mode_def md_st_nlink_def md_st_uid_def md_st_gid_def md_st_rdev_def
  md_st_size_def md_st_atime_def md_st_atime_nsec_def md_st_mtime_def md_st_mtime_nsec_def md_st_ctime_def
  md_st_ctime_nsec_def md_st_blksize_def md_st_blocks_def md_dev_def md_ino_def md_mode_def md_nlink_def
  md_uid_def md_gid_def md_rdev_def md_size_def md_atime_def md_atime_nsec_def md_mtime_def
  md_mtime_nsec_def md_ctime_def md_ctime_nsec_def md_blksize_def md_blocks_def md_len_def
  md_permissions_def md_is_dir_def md_is_file_def md_is_symlink_def

section \<open>Properties\<close>

text \<open>What the standard library makes of the answer of \<open>statx\<close>.\<close>

definition std_of_statx :: "(32 word \<Rightarrow> 32 word \<Rightarrow> 64 word) \<Rightarrow> statx \<Rightarrow> std_metadata" where
  "std_of_statx mk st = \<lparr>sd_dev = mk (stx_dev_major st) (stx_dev_minor st), sd_ino = stx_ino st,
     sd_mode = ucast (stx_mode st), sd_nlink = ucast (stx_nlink st), sd_uid = stx_uid st, sd_gid = stx_gid st,
     sd_rdev = mk (stx_rdev_major st) (stx_rdev_minor st), sd_size = stx_size st,
     sd_atime = tv_sec (stx_atime st), sd_atime_nsec = ucast (tv_nsec (stx_atime st)),
     sd_mtime = tv_sec (stx_mtime st), sd_mtime_nsec = ucast (tv_nsec (stx_mtime st)),
     sd_ctime = tv_sec (stx_ctime st), sd_ctime_nsec = ucast (tv_nsec (stx_ctime st)),
     sd_blksize = ucast (stx_blksize st), sd_blocks = stx_blocks st, sd_btime = stx_btime st, sd_mask = stx_mask st\<rparr>"

text \<open>Two values of metadata that no accessor (of file types, sizes and fields) tells apart.\<close>

definition same_fields :: "(32 word \<Rightarrow> 32 word \<Rightarrow> 64 word) \<Rightarrow> metadata \<Rightarrow> metadata \<Rightarrow> bool" where
  "same_fields mk a b \<longleftrightarrow>
     md_file_type a = md_file_type b \<and>
     md_permissions a = md_permissions b \<and>
     md_len a = md_len b \<and>
     md_st_dev mk a = md_st_dev mk b \<and>
     md_st_ino a = md_st_ino b \<and>
     md_st_mode a = md_st_mode b \<and>
     md_st_nlink a = md_st_nlink b \<and>
     md_st_uid a = md_st_uid b \<and>
     md_st_gid a = md_st_gid b \<and>
     md_st_rdev mk a = md_st_rdev mk b \<and>
     md_st_size a = md_st_size b \<and>
     md_st_atime a = md_st_atime b \<and>
     md_st_atime_nsec a = md_st_atime_nsec b \<and>
     md_st_mtime a = md_st_mtime b \<and>
     md_st_mtime_nsec a = md_st_mtime_nsec b \<and>
     md_st_ctime a = md_st_ctime b \<and>
     md_st_ctime_nsec a = md_st_ctime_nsec b \<and>
     md_st_blksize a = md_st_blksize b \<and>
     md_st_blocks a = md_st_blocks b \<and>
     md_dev mk a = md_dev mk b \<and>
     md_ino a = md_ino b \<and>
     md_mode a = md_mode b \<and>
     md_nlink a = md_nlink b \<and>
     md_uid a = md_uid b \<and>
     md_gid a = md_gid b \<and>
     md_rdev mk a = md_rdev mk b \<and>
     md_size a = md_size b \<and>
     md_atime a = md_atime b \<and>
     md_atime_nsec a = md_atime_nsec b \<and>
     md_mtime a = md_mtime b \<and>
     md_mtime_nsec a = md_mtime_nsec b \<and>
     md_ctime a = md_ctime b \<and>
     md_ctime_nsec a = md_ctime_nsec b \<and>
     md_blksize a = md_blksize b \<and>
     md_blocks a = md_blocks b"

text \<open>Both families of accessors read the same fields.\<close>

lemma accessor_families_agree:
  "md_st_dev mk m = md_dev mk m \<and>
    md_st_ino m = md_ino m \<and>
    md_st_mode m = md_mode m \<and>
    md_st_nlink m = md_nlink m \<and>
    md_st_uid m = md_uid m \<and>
    md_st_gid m = md_gid m \<and>
    md_st_rdev mk m = md_rdev mk m \<and>
    md_st_size m = md_size m \<and>
    md_st_atime m = md_atime m \<and>
    md_st_atime_nsec m = md_atime_nsec m \<and>
    md_st_mtime m = md_mtime m \<and>
    md_st_mtime_nsec m = md_mtime_nsec m \<and>
    md_st_ctime m = md_ctime m \<and>
    md_st_ctime_nsec m = md_ctime_nsec m \<and>
    md_st_blksize m = md_blksize m \<and>
    md_st_blocks m = md_blocks m"
  by (cases m; simp add: accessor_defs)+

lemma sint_uminus:
  assumes "sint (x :: 64 word) \<noteq> - (2 ^ 63)"
  shows "sint (- x) = - sint x"
proof -
  have b: "- (2 ^ 63) \<le> sint x" "sint x < 2 ^ 63" using sint_range_size[of x] by (simp_all add: word_size)
  have "sint (- x) = signed_take_bit 63 (- sint x)" by (simp add: sint_word_minus)
  also have "\<dots> = - sint x" by (rule signed_take_bit_int_eq_self) (use assms b in auto)
  finally show ?thesis .
qed

lemma sint_ucast_32 [simp]: "sint (ucast (x :: 32 word) :: 64 word) = uint x"
proof -
  have "uint x < 2 ^ 32" using uint_bounded[of x] by simp
  then have "signed_take_bit 63 (uint x) = uint x" by (intro signed_take_bit_int_eq_self) (simp_all add: order.trans[of "- 9223372036854775808" 0])
  then show ?thesis using \<open>uint x < 2 ^ 32\<close> by (simp add: sint_uint unsigned_ucast_eq take_bit_int_eq_self)
qed

lemma statx_time_eq:
  assumes "uint (tv_nsec ts) < 10 ^ 9" and "- (2 ^ 63) < sint (tv_sec ts) - (if tv_nsec ts = 0 then 0 else 1)"
  shows "statx_timestamp_to_system_time ts =
    Some (Inr (sint (tv_sec ts) * 10 ^ 9 + (if sint (tv_sec ts) < 0 then - uint (tv_nsec ts) else uint (tv_nsec ts))))"
proof -
  have b: "sint (tv_sec ts) < 2 ^ 63" using sint_range_size[of "tv_sec ts"] by (simp add: word_size)
  have n: "0 \<le> uint (tv_nsec ts)" "tv_nsec ts = 0 \<Longrightarrow> uint (tv_nsec ts) = 0" by simp_all
  show ?thesis
  proof (cases "sint (tv_sec ts) < 0")
    case True
    have m: "sint (- tv_sec ts) = - sint (tv_sec ts)" by (rule sint_uminus) (use assms(2) in \<open>auto split: if_splits\<close>)
    have bound: "sint (tv_sec ts) * 1000000000 - uint (tv_nsec ts) < 9223372036854775808000000000" using True n(1) by linarith
    show ?thesis using True m assms n
      by (auto simp: bound statx_timestamp_to_system_time_def Let_def system_time_ok_def split: if_splits)
  next
    case False
    have bound: "- 9223372036854775808000000000 \<le> sint (tv_sec ts) * 1000000000 + uint (tv_nsec ts)"
      using False n(1) by linarith
    show ?thesis using False assms b n by (auto simp: bound statx_timestamp_to_system_time_def Let_def system_time_ok_def)
  qed
qed


text \<open>
  Times before the epoch are wrong. The time stamp of \<open>statx\<close> counts its nanoseconds forward
  from a negative second; the conversion subtracts them, so that a time before 1970 with a fraction of
  a second comes out earlier than the standard library's by twice the fraction.
\<close>

theorem pre_epoch_time_is_shifted:
  assumes "sint (tv_sec ts) < 0" and "- (2 ^ 63) < sint (tv_sec ts) - 1" and "0 < uint (tv_nsec ts)" "uint (tv_nsec ts) < 10 ^ 9"
  shows "\<exists>t. std_system_time (tv_sec ts) (ucast (tv_nsec ts)) = Inr t \<and>
    statx_timestamp_to_system_time ts = Some (Inr (t - 2 * uint (tv_nsec ts)))"
  using statx_time_eq[of ts] assms by (auto simp: std_system_time_def)

text \<open>Where the kernel has no creation time, \<open>created\<close> returns a time on \<open>statx\<close> and an error on the standard library.\<close>

theorem missing_creation_time_differs:
  assumes "stx_mask st AND STATX_BTIME = 0" and "stx_btime st = \<lparr>tv_sec = 0, tv_nsec = 0\<rparr>"
  shows "md_created (md_from_statx st) = Some (Inr 0) \<and>
    md_created (md_from_std (std_of_statx mk st)) = Some (Inl (Simple Unsupported))"
  using assms
  by (simp add: md_created_def md_from_statx_def md_from_std_def std_created_def std_of_statx_def
      statx_timestamp_to_system_time_def system_time_ok_def Let_def)


section \<open>Concrete runs\<close>

definition demo_statx :: statx where
  "demo_statx = \<lparr>stx_mask = 0xFFF, stx_blksize = 4096, stx_attributes = 0, stx_nlink = 1, stx_uid = 0, stx_gid = 0,
     stx_mode = 0x81A4, stx_ino = 12, stx_size = 100, stx_blocks = 8, stx_atime = \<lparr>tv_sec = 1000, tv_nsec = 5\<rparr>,
     stx_btime = \<lparr>tv_sec = 0, tv_nsec = 0\<rparr>, stx_ctime = \<lparr>tv_sec = 1000, tv_nsec = 5\<rparr>,
     stx_mtime = \<lparr>tv_sec = - 3, tv_nsec = 0\<rparr>, stx_rdev_major = 0, stx_rdev_minor = 0, stx_dev_major = 8,
     stx_dev_minor = 1, stx_subvol = 0\<rparr>"


theorem pre_epoch_time_is_shifted_witness:
  "\<exists>t. std_system_time (- 1) 500000000 = Inr t \<and>
    statx_timestamp_to_system_time \<lparr>tv_sec = - 1, tv_nsec = 500000000\<rparr> = Some (Inr (t - 1000000000))"
  using pre_epoch_time_is_shifted[of "\<lparr>tv_sec = - 1, tv_nsec = 500000000\<rparr>"] by simp


end
