(* ===== verification/Fs_Paths.thy ===== *)
theory Fs_Paths
  imports Prelude "HOL-Library.Sublist"
begin

text \<open>
  Operations on paths (\<open>fs/dirs.rs\<close>, \<open>fs/links.rs\<close>, \<open>fs/stat.rs\<close>): each goes to the completion
  driver, to the blocking pool or to the calling thread. A path is its list of components (its
  parent is the list without the last one); the calls of the kernel are a record of functions on
  the state of the file system.
\<close>

type_synonym path = "string list"

definition has_nul :: "path \<Rightarrow> bool" where
  "has_nul p = (\<exists>c \<in> set p. CHR 0x00 \<in> set c)"

text \<open>
  \<open>ViaPool ok\<close> says whether the pool could run the job. \<open>CString::new\<close> refuses a NUL byte on the
  first way, the standard library's own conversion on the other two.
\<close>

datatype fs_route = ViaCompletion | ViaPool bool | Direct

definition fs_route_of :: "bool \<Rightarrow> bool \<Rightarrow> bool \<Rightarrow> fs_route" where
  "fs_route_of completion offload ok = (if completion then ViaCompletion else if offload then ViaPool ok else Direct)"

definition path_call :: "fs_route \<Rightarrow> path list \<Rightarrow> ('d \<Rightarrow> 'a io_result \<times> 'd) \<Rightarrow> 'd \<Rightarrow> 'a io_result \<times> 'd" where
  "path_call route ps call d =
     (case route of
        ViaCompletion \<Rightarrow> if \<exists>p \<in> set ps. has_nul p then (Inl (Simple InvalidInput), d) else call d
      | ViaPool ok \<Rightarrow>
          if \<not> ok then (Inl (Simple OtherKind), d)
          else if \<exists>p \<in> set ps. has_nul p then (Inl (Simple InvalidInput), d) else call d
      | Direct \<Rightarrow> if \<exists>p \<in> set ps. has_nul p then (Inl (Simple InvalidInput), d) else call d)"

record ('d, 'm) kernel_fs =
  k_rename :: "path \<Rightarrow> path \<Rightarrow> 'd \<Rightarrow> unit io_result \<times> 'd"
  k_unlink :: "path \<Rightarrow> bool \<Rightarrow> 'd \<Rightarrow> unit io_result \<times> 'd"
  k_mkdir :: "path \<Rightarrow> nat \<Rightarrow> 'd \<Rightarrow> unit io_result \<times> 'd"
  k_link :: "path \<Rightarrow> path \<Rightarrow> 'd \<Rightarrow> unit io_result \<times> 'd"
  k_symlink :: "path \<Rightarrow> path \<Rightarrow> 'd \<Rightarrow> unit io_result \<times> 'd"
  k_stat :: "path \<Rightarrow> bool \<Rightarrow> 'd \<Rightarrow> 'm io_result \<times> 'd"

definition fs_rename :: "('d, 'm) kernel_fs \<Rightarrow> fs_route \<Rightarrow> path \<Rightarrow> path \<Rightarrow> 'd \<Rightarrow> unit io_result \<times> 'd" where
  "fs_rename k route src dst = path_call route [src, dst] (k_rename k src dst)"

definition fs_remove_dir :: "('d, 'm) kernel_fs \<Rightarrow> fs_route \<Rightarrow> path \<Rightarrow> 'd \<Rightarrow> unit io_result \<times> 'd" where
  "fs_remove_dir k route p = path_call route [p] (k_unlink k p True)"

definition fs_remove_file :: "('d, 'm) kernel_fs \<Rightarrow> fs_route \<Rightarrow> path \<Rightarrow> 'd \<Rightarrow> unit io_result \<times> 'd" where
  "fs_remove_file k route p = path_call route [p] (k_unlink k p False)"

definition fs_create_dir :: "('d, 'm) kernel_fs \<Rightarrow> fs_route \<Rightarrow> path \<Rightarrow> 'd \<Rightarrow> unit io_result \<times> 'd" where
  "fs_create_dir k route p = path_call route [p] (k_mkdir k p 511)"

definition fs_hard_link :: "('d, 'm) kernel_fs \<Rightarrow> fs_route \<Rightarrow> path \<Rightarrow> path \<Rightarrow> 'd \<Rightarrow> unit io_result \<times> 'd" where
  "fs_hard_link k route src dst = path_call route [src, dst] (k_link k src dst)"

definition fs_symlink_dir :: "('d, 'm) kernel_fs \<Rightarrow> fs_route \<Rightarrow> path \<Rightarrow> path \<Rightarrow> 'd \<Rightarrow> unit io_result \<times> 'd" where
  "fs_symlink_dir k route src dst = path_call route [src, dst] (k_symlink k src dst)"

definition fs_symlink_file :: "('d, 'm) kernel_fs \<Rightarrow> fs_route \<Rightarrow> path \<Rightarrow> path \<Rightarrow> 'd \<Rightarrow> unit io_result \<times> 'd" where
  "fs_symlink_file k route src dst = path_call route [src, dst] (k_symlink k src dst)"

definition fs_symlink :: "('d, 'm) kernel_fs \<Rightarrow> fs_route \<Rightarrow> path \<Rightarrow> path \<Rightarrow> 'd \<Rightarrow> unit io_result \<times> 'd" where
  "fs_symlink k route src dst = fs_symlink_file k route src dst"

text \<open>The flag of \<open>k_stat\<close> says whether links are followed.\<close>

definition fs_metadata :: "('d, 'm) kernel_fs \<Rightarrow> fs_route \<Rightarrow> path \<Rightarrow> 'd \<Rightarrow> 'm io_result \<times> 'd" where
  "fs_metadata k route p = path_call route [p] (k_stat k p True)"

definition fs_symlink_metadata :: "('d, 'm) kernel_fs \<Rightarrow> fs_route \<Rightarrow> path \<Rightarrow> 'd \<Rightarrow> 'm io_result \<times> 'd" where
  "fs_symlink_metadata k route p = path_call route [p] (k_stat k p False)"

section \<open>\<open>create_dir_all\<close>\<close>

definition path_parent :: "path \<Rightarrow> path option" where
  "path_parent p = (if p = [] then None else Some (butlast p))"

text \<open>An existing entry is fine if it is a directory; its metadata may fail to be read.\<close>

definition existing_dir ::
  "('d, 'm) kernel_fs \<Rightarrow> ('m \<Rightarrow> bool) \<Rightarrow> fs_route \<Rightarrow> io_error \<Rightarrow> path \<Rightarrow> 'd \<Rightarrow> unit io_result \<times> 'd" where
  "existing_dir k is_dir route err p d =
     (case fs_metadata k route p d of
        (Inr m, d1) \<Rightarrow> if is_dir m then (Inr (), d1) else (Inl err, d1)
      | (Inl _, d1) \<Rightarrow> (Inl err, d1))"

text \<open>The first loop: up to the first ancestor that is there or can be made.\<close>

function climb ::
  "('d, 'm) kernel_fs \<Rightarrow> ('m \<Rightarrow> bool) \<Rightarrow> fs_route \<Rightarrow> path \<Rightarrow> path list \<Rightarrow> 'd \<Rightarrow> path list io_result \<times> 'd" where
  "climb k is_dir route p stack d =
     (case fs_create_dir k route p d of
        (Inr _, d1) \<Rightarrow> (Inr stack, d1)
      | (Inl err, d1) \<Rightarrow>
          if kind_of err = AlreadyExists then
            (case existing_dir k is_dir route err p d1 of
               (Inr _, d2) \<Rightarrow> (Inr stack, d2)
             | (Inl err, d2) \<Rightarrow> (Inl err, d2))
          else if kind_of err = NotFound then
            (case path_parent p of
               Some q \<Rightarrow> climb k is_dir route q (p # stack) d1
             | None \<Rightarrow> (Inl err, d1))
          else (Inl err, d1))"
  by pat_completeness auto

termination
  by (relation "measure (\<lambda>(k, is_dir, route, p, stack, d). length p)") (auto simp: path_parent_def split: if_splits)

declare climb.simps [simp del]

text \<open>The second loop: back down, popping the stack.\<close>

fun descend ::
  "('d, 'm) kernel_fs \<Rightarrow> ('m \<Rightarrow> bool) \<Rightarrow> fs_route \<Rightarrow> path list \<Rightarrow> 'd \<Rightarrow> unit io_result \<times> 'd" where
  "descend k is_dir route [] d = (Inr (), d)"
| "descend k is_dir route (p # stack) d =
     (case fs_create_dir k route p d of
        (Inr _, d1) \<Rightarrow> descend k is_dir route stack d1
      | (Inl err, d1) \<Rightarrow>
          if kind_of err = AlreadyExists then
            (case existing_dir k is_dir route err p d1 of
               (Inr _, d2) \<Rightarrow> descend k is_dir route stack d2
             | (Inl err, d2) \<Rightarrow> (Inl err, d2))
          else (Inl err, d1))"

definition create_dir_all ::
  "('d, 'm) kernel_fs \<Rightarrow> ('m \<Rightarrow> bool) \<Rightarrow> fs_route \<Rightarrow> path \<Rightarrow> 'd \<Rightarrow> unit io_result \<times> 'd" where
  "create_dir_all k is_dir route p d =
     (case climb k is_dir route p [] d of
        (Inl err, d1) \<Rightarrow> (Inl err, d1)
      | (Inr stack, d1) \<Rightarrow> descend k is_dir route stack d1)"

section \<open>Directory trees\<close>

text \<open>
  What the operation relies on of \<open>mkdir\<close> and \<open>stat\<close> on a tree that nobody else changes: a
  successful \<open>mkdir\<close> adds its path, which was not there, under an existing directory, a failed
  one adds nothing; \<open>stat\<close> changes nothing and a directory it reports is one.
\<close>

locale dir_tree =
  fixes k :: "('d, 'm) kernel_fs" and is_dir :: "'m \<Rightarrow> bool" and dirs :: "'d \<Rightarrow> path set"
  assumes mkdir_ok: "k_mkdir k p mode d = (Inr (), d') \<Longrightarrow> dirs d' = insert p (dirs d) \<and> (p \<noteq> [] \<longrightarrow> butlast p \<in> dirs d)"
    and mkdir_err: "k_mkdir k p mode d = (Inl err, d') \<Longrightarrow> dirs d' = dirs d"
    and stat_keeps: "k_stat k p follow d = (r, d') \<Longrightarrow> dirs d' = dirs d"
    and stat_dir: "k_stat k p True d = (Inr m, d') \<Longrightarrow> is_dir m \<Longrightarrow> p \<in> dirs d"
begin

lemma create_dir_ok:
  "fs_create_dir k route p d = (Inr u, d') \<Longrightarrow> dirs d' = insert p (dirs d) \<and> (p \<noteq> [] \<longrightarrow> butlast p \<in> dirs d)"
  by (auto simp: fs_create_dir_def path_call_def dest: mkdir_ok split: fs_route.splits if_splits)

lemma create_dir_err: "fs_create_dir k route p d = (Inl err, d') \<Longrightarrow> dirs d' = dirs d"
  by (auto simp: fs_create_dir_def path_call_def dest: mkdir_err split: fs_route.splits if_splits)

lemma existing_dir_keeps:
  "existing_dir k is_dir route err p d = (r, d') \<Longrightarrow> dirs d' = dirs d \<and> (\<forall>u. r = Inr u \<longrightarrow> p \<in> dirs d)"
  by (auto simp: existing_dir_def fs_metadata_def path_call_def dest: stat_keeps stat_dir
      split: fs_route.splits if_splits sum.splits prod.splits)

lemma climb_grows: "climb k is_dir route p stack d = (r, d') \<Longrightarrow> dirs d \<subseteq> dirs d' \<and> dirs d' \<subseteq> dirs d \<union> set (prefixes p)"
proof (induction "length p" arbitrary: p stack d rule: less_induct)
  case less
  obtain r1 d1 where c: "fs_create_dir k route p d = (r1, d1)" by fastforce
  have self: "p \<in> set (prefixes p)" by simp
  show ?case
  proof (cases r1)
    case (Inr u)
    then show ?thesis using less.prems c create_dir_ok[of route p d u d1] self by (auto simp: climb.simps[of k is_dir route p])
  next
    case (Inl err)
    have d1: "dirs d1 = dirs d" using c Inl create_dir_err by blast
    obtain r2 d2 where e: "existing_dir k is_dir route err p d1 = (r2, d2)" by fastforce
    have d2: "dirs d2 = dirs d" using existing_dir_keeps[OF e] d1 by simp
    show ?thesis
    proof (cases "kind_of err = NotFound \<and> p \<noteq> []")
      case True
      then have "climb k is_dir route (butlast p) (p # stack) d1 = (r, d')"
        using less.prems c Inl by (simp add: climb.simps[of k is_dir route p] path_parent_def)
      then have "dirs d1 \<subseteq> dirs d' \<and> dirs d' \<subseteq> dirs d1 \<union> set (prefixes (butlast p))"
        using True by (intro less.hyps) simp_all
      moreover have "set (prefixes (butlast p)) \<subseteq> set (prefixes p)" using prefixeq_butlast[of p] by (auto intro: prefix_order.trans)
      ultimately show ?thesis using d1 by blast
    next
      case False
      then have "d' = d1 \<or> d' = d2"
        using less.prems c Inl e by (auto simp: climb.simps[of k is_dir route p] path_parent_def split: if_splits sum.splits)
      then show ?thesis using d1 d2 by auto
    qed
  qed
qed

lemma climb_stack:
  "climb k is_dir route p stack d = (Inr stack', d') \<Longrightarrow>
     (stack' = stack \<and> p \<in> dirs d' \<or> (\<exists>ss. stack' = ss @ p # stack)) \<and> set stack' \<subseteq> set (prefixes p) \<union> set stack"
proof (induction "length p" arbitrary: p stack d rule: less_induct)
  case less
  obtain r1 d1 where c: "fs_create_dir k route p d = (r1, d1)" by fastforce
  show ?case
  proof (cases r1)
    case (Inr u)
    then show ?thesis using less.prems c create_dir_ok[of route p d u d1] by (auto simp: climb.simps[of k is_dir route p])
  next
    case (Inl err)
    show ?thesis
    proof (cases "kind_of err = NotFound \<and> p \<noteq> []")
      case True
      then have "climb k is_dir route (butlast p) (p # stack) d1 = (Inr stack', d')"
        using less.prems c Inl by (simp add: climb.simps[of k is_dir route p] path_parent_def)
      then have IH: "(stack' = p # stack \<and> butlast p \<in> dirs d' \<or> (\<exists>ss. stack' = ss @ butlast p # p # stack)) \<and>
          set stack' \<subseteq> set (prefixes (butlast p)) \<union> set (p # stack)"
        using True by (intro less.hyps) simp_all
      have "set (prefixes (butlast p)) \<subseteq> set (prefixes p)" using prefixeq_butlast[of p] by (auto intro: prefix_order.trans)
      then have "set stack' \<subseteq> set (prefixes p) \<union> set stack" using IH by auto
      moreover have "\<exists>ss. stack' = ss @ p # stack" using IH by (metis append.assoc append_Cons append_Nil)
      ultimately show ?thesis by blast
    next
      case False
      obtain r2 d2 where e: "existing_dir k is_dir route err p d1 = (r2, d2)" by fastforce
      have "stack' = stack \<and> d' = d2 \<and> (\<exists>u. r2 = Inr u)"
        using less.prems c Inl False e by (auto simp: climb.simps[of k is_dir route p] path_parent_def split: if_splits sum.splits)
      then show ?thesis using existing_dir_keeps[OF e] by auto
    qed
  qed
qed

lemma descend_dirs:
  "descend k is_dir route stack d = (r, d') \<Longrightarrow>
     dirs d \<subseteq> dirs d' \<and> dirs d' \<subseteq> dirs d \<union> set stack \<and> (\<forall>u. r = Inr u \<longrightarrow> set stack \<subseteq> dirs d')"
proof (induction stack arbitrary: d)
  case (Cons p stack)
  obtain r1 d1 where c: "fs_create_dir k route p d = (r1, d1)" by fastforce
  show ?case
  proof (cases r1)
    case (Inr u)
    have d1: "dirs d1 = insert p (dirs d)" using c Inr create_dir_ok by blast
    have "descend k is_dir route stack d1 = (r, d')" using Cons.prems c Inr by simp
    from Cons.IH[OF this] d1 show ?thesis by auto
  next
    case (Inl err)
    have d1: "dirs d1 = dirs d" using c Inl create_dir_err by blast
    obtain r2 d2 where e: "existing_dir k is_dir route err p d1 = (r2, d2)" by fastforce
    have d2: "dirs d2 = dirs d" "\<And>u. r2 = Inr u \<Longrightarrow> p \<in> dirs d" using existing_dir_keeps[OF e] d1 by auto
    show ?thesis
    proof (cases "kind_of err = AlreadyExists \<and> (\<exists>u. r2 = Inr u)")
      case True
      then have "descend k is_dir route stack d2 = (r, d')" using Cons.prems c Inl e by auto
      from Cons.IH[OF this] d2 True show ?thesis by auto
    next
      case False
      then have "(d' = d1 \<or> d' = d2) \<and> (\<forall>u. r \<noteq> Inr u)" using Cons.prems c Inl e by (auto split: if_splits sum.splits)
      then show ?thesis using d1 d2(1) by auto
    qed
  qed
qed simp

lemma create_dir_all_dirs:
  assumes "create_dir_all k is_dir route p d = (r, d')"
  shows "dirs d \<subseteq> dirs d' \<and> dirs d' \<subseteq> dirs d \<union> set (prefixes p) \<and> (r = Inr () \<longrightarrow> p \<in> dirs d')"
proof -
  obtain r1 d1 where c: "climb k is_dir route p [] d = (r1, d1)" by fastforce
  show ?thesis
  proof (cases r1)
    case (Inl err)
    then show ?thesis using assms c climb_grows[OF c] by (auto simp: create_dir_all_def)
  next
    case (Inr stack)
    then have "descend k is_dir route stack d1 = (r, d')" using assms c by (simp add: create_dir_all_def)
    from descend_dirs[OF this] climb_grows[OF c] climb_stack[OF c[unfolded Inr]] show ?thesis by auto
  qed
qed

end

text \<open>
  A tree whose \<open>mkdir\<close> fails only for the reasons \<open>create_dir_all\<close> expects: the entry exists, or its
  parent is missing.
\<close>

locale regular_tree = dir_tree k is_dir dirs
  for k :: "('d, 'm) kernel_fs" and is_dir :: "'m \<Rightarrow> bool" and dirs :: "'d \<Rightarrow> path set" +
  fixes others :: "'d \<Rightarrow> path set"
  assumes mkdir_fresh: "p \<notin> dirs d \<Longrightarrow> p \<notin> others d \<Longrightarrow> p \<noteq> [] \<Longrightarrow> butlast p \<in> dirs d \<Longrightarrow> \<exists>d'. k_mkdir k p mode d = (Inr (), d')"
    and mkdir_exists: "p \<in> dirs d \<Longrightarrow> \<exists>err d'. k_mkdir k p mode d = (Inl err, d') \<and> kind_of err = AlreadyExists"
    and mkdir_missing: "p \<notin> dirs d \<Longrightarrow> p \<notin> others d \<Longrightarrow> p \<noteq> [] \<Longrightarrow> butlast p \<notin> dirs d \<Longrightarrow>
      \<exists>err d'. k_mkdir k p mode d = (Inl err, d') \<and> kind_of err = NotFound"
    and stat_reports: "p \<in> dirs d \<Longrightarrow> \<exists>m d'. k_stat k p True d = (Inr m, d') \<and> is_dir m"
    and mkdir_others: "k_mkdir k p mode d = (r, d') \<Longrightarrow> others d' = others d"
    and stat_others: "k_stat k p follow d = (m, d') \<Longrightarrow> others d' = others d"
begin

definition makeable :: "fs_route \<Rightarrow> path \<Rightarrow> 'd \<Rightarrow> bool" where
  "makeable route p d \<longleftrightarrow> route \<noteq> ViaPool False \<and> \<not> has_nul p \<and> [] \<in> dirs d \<and> set (prefixes p) \<inter> others d = {}"

lemma create_dir_is_mkdir: "makeable route p d \<Longrightarrow> fs_create_dir k route p d' = k_mkdir k p 511 d'"
  by (auto simp: makeable_def fs_create_dir_def path_call_def split: fs_route.splits)

lemma existing_dir_ok:
  assumes "makeable route p d" and "p \<in> dirs d"
  obtains d' where "existing_dir k is_dir route err p d = (Inr (), d')" and "dirs d' = dirs d" and "others d' = others d"
proof -
  obtain m d' where s: "k_stat k p True d = (Inr m, d')" "is_dir m" using stat_reports[OF assms(2)] by blast
  then have "existing_dir k is_dir route err p d = (Inr (), d')"
    using assms(1) by (auto simp: existing_dir_def fs_metadata_def path_call_def makeable_def split: fs_route.splits)
  then show thesis using that stat_keeps[OF s(1)] stat_others[OF s(1)] by blast
qed

lemma makeable_parent: "makeable route p d \<Longrightarrow> makeable route (butlast p) d"
  unfolding makeable_def has_nul_def
  by (auto dest: in_set_butlastD) (metis prefixeq_butlast prefix_order.trans disjoint_iff in_set_prefixes)

lemma makeable_cong: "makeable route p d \<Longrightarrow> dirs d \<subseteq> dirs d' \<Longrightarrow> others d' = others d \<Longrightarrow> makeable route p d'"
  by (auto simp: makeable_def)

text \<open>The chain of paths that a climb leaves on the stack, each the parent of the next.\<close>

fun chain :: "path \<Rightarrow> path list \<Rightarrow> bool" where
  "chain q [] = True"
| "chain q (p # ps) = (p \<noteq> [] \<and> butlast p = q \<and> chain p ps)"

lemma climb_succeeds:
  assumes "makeable route p d" and "chain p stack"
  shows "\<exists>q stack' d'. climb k is_dir route p stack d = (Inr stack', d') \<and> chain q stack' \<and> q \<in> dirs d' \<and>
    dirs d \<subseteq> dirs d' \<and> others d' = others d"
  using assms
proof (induction "length p" arbitrary: p stack d rule: less_induct)
  case less
  note mk = create_dir_is_mkdir[OF less.prems(1)]
  have free: "p \<notin> others d" using less.prems(1) by (auto simp: makeable_def)
  consider (there) "p \<in> dirs d" | (fresh) "p \<notin> dirs d" "p \<noteq> []" "butlast p \<in> dirs d" | (missing) "p \<notin> dirs d" "p \<noteq> []" "butlast p \<notin> dirs d"
    using less.prems(1) by (auto simp: makeable_def)
  then show ?case
  proof cases
    case there
    obtain err d1 where m: "k_mkdir k p 511 d = (Inl err, d1)" "kind_of err = AlreadyExists" using mkdir_exists[OF there] by blast
    have d1: "dirs d1 = dirs d" "others d1 = others d" using mkdir_err[OF m(1)] mkdir_others[OF m(1)] by auto
    have mk1: "makeable route p d1" using makeable_cong[OF less.prems(1)] d1 by simp
    obtain d2 where e: "existing_dir k is_dir route err p d1 = (Inr (), d2)" "dirs d2 = dirs d1" "others d2 = others d1"
      by (rule existing_dir_ok[OF mk1]) (use there d1 in auto)
    then have "climb k is_dir route p stack d = (Inr stack, d2)" using m by (simp add: climb.simps[of k is_dir route p] mk)
    then show ?thesis using less.prems(2) there d1 e by blast
  next
    case fresh
    obtain d1 where m: "k_mkdir k p 511 d = (Inr (), d1)" using mkdir_fresh[OF fresh(1) free fresh(2,3)] by blast
    then have "climb k is_dir route p stack d = (Inr stack, d1)" by (simp add: climb.simps[of k is_dir route p] mk)
    then show ?thesis using less.prems(2) mkdir_ok[OF m] mkdir_others[OF m] by blast
  next
    case missing
    obtain err d1 where m: "k_mkdir k p 511 d = (Inl err, d1)" "kind_of err = NotFound"
      using mkdir_missing[OF missing(1) free missing(2,3)] by blast
    have d1: "dirs d1 = dirs d" "others d1 = others d" using mkdir_err[OF m(1)] mkdir_others[OF m(1)] by auto
    have "makeable route (butlast p) d1" using makeable_cong[OF makeable_parent[OF less.prems(1)]] d1 by simp
    moreover have "chain (butlast p) (p # stack)" using less.prems(2) missing(2) by simp
    moreover have "climb k is_dir route p stack d = climb k is_dir route (butlast p) (p # stack) d1"
      using m missing(2) by (simp add: climb.simps[of k is_dir route p] mk path_parent_def)
    ultimately show ?thesis using less.hyps[of "butlast p" d1 "p # stack"] missing(2) d1 by auto
  qed
qed

lemma descend_succeeds:
  assumes "chain q stack" and "q \<in> dirs d" and "\<And>p. p \<in> set stack \<Longrightarrow> makeable route p d"
  shows "\<exists>d'. descend k is_dir route stack d = (Inr (), d')"
  using assms
proof (induction stack arbitrary: q d)
  case (Cons p stack)
  have mp: "makeable route p d" using Cons.prems(3) by simp
  note mk = create_dir_is_mkdir[OF mp]
  have free: "p \<notin> others d" using mp by (auto simp: makeable_def)
  show ?case
  proof (cases "p \<in> dirs d")
    case True
    obtain err d1 where m: "k_mkdir k p 511 d = (Inl err, d1)" "kind_of err = AlreadyExists" using mkdir_exists[OF True] by blast
    have d1: "dirs d1 = dirs d" "others d1 = others d" using mkdir_err[OF m(1)] mkdir_others[OF m(1)] by auto
    have mk1: "makeable route p d1" using makeable_cong[OF mp] d1 by simp
    obtain d2 where e: "existing_dir k is_dir route err p d1 = (Inr (), d2)" "dirs d2 = dirs d1" "others d2 = others d1"
      by (rule existing_dir_ok[OF mk1]) (use True d1 in auto)
    have "\<exists>d'. descend k is_dir route stack d2 = (Inr (), d')"
      by (rule Cons.IH[of p]) (use Cons.prems True d1 e makeable_cong[of route _ d d2] in auto)
    then show ?thesis using m e by (simp add: mk)
  next
    case False
    obtain d1 where m: "k_mkdir k p 511 d = (Inr (), d1)" using mkdir_fresh[OF False free, of 511] Cons.prems(1,2) by auto
    have "\<exists>d'. descend k is_dir route stack d1 = (Inr (), d')"
      by (rule Cons.IH[of p]) (use Cons.prems mkdir_ok[OF m] mkdir_others[OF m] makeable_cong[of route _ d d1] in auto)
    then show ?thesis using m by (simp add: mk)
  qed
qed simp

lemma create_dir_all_succeeds:
  assumes "makeable route p d"
  shows "\<exists>d'. create_dir_all k is_dir route p d = (Inr (), d')"
proof -
  obtain q stack d1 where c: "climb k is_dir route p [] d = (Inr stack, d1)" "chain q stack" "q \<in> dirs d1" "dirs d \<subseteq> dirs d1"
    "others d1 = others d" using climb_succeeds[OF assms, of "[]"] by auto
  have "makeable route x d1" if "x \<in> set stack" for x
  proof -
    have "prefix x p" using climb_stack[OF c(1)] that by auto
    then have "\<not> has_nul x" "set (prefixes x) \<subseteq> set (prefixes p)"
      using assms set_mono_prefix[of x p] by (auto simp: makeable_def has_nul_def intro: prefix_order.trans)
    then show ?thesis using assms c(4,5) by (auto simp: makeable_def)
  qed
  from descend_succeeds[OF c(2,3) this] c(1) show ?thesis by (auto simp: create_dir_all_def)
qed

end

section \<open>A tree in memory\<close>

text \<open>The directories and the other entries of a tree, with the calls that \<open>create_dir_all\<close> makes.\<close>

record mem_tree =
  mt_dirs :: "path list"
  mt_files :: "path list"

definition mem_kernel :: "(mem_tree, bool) kernel_fs" where
  "mem_kernel = \<lparr>k_rename = (\<lambda>p q d. (Inl (Simple Unsupported), d)), k_unlink = (\<lambda>p r d. (Inl (Simple Unsupported), d)),
     k_mkdir = (\<lambda>p mode d.
       if p = [] \<or> p \<in> set (mt_dirs d) \<or> p \<in> set (mt_files d) then (Inl (Os EEXIST), d)
       else if butlast p \<notin> set (mt_dirs d) then (Inl (Os ENOENT), d)
       else (Inr (), d\<lparr>mt_dirs := p # mt_dirs d\<rparr>)),
     k_link = (\<lambda>p q d. (Inl (Simple Unsupported), d)), k_symlink = (\<lambda>p q d. (Inl (Simple Unsupported), d)),
     k_stat = (\<lambda>p follow d. if p \<in> set (mt_dirs d) then (Inr True, d)
       else if p \<in> set (mt_files d) then (Inr False, d) else (Inl (Os ENOENT), d))\<rparr>"

interpretation mem_tree: regular_tree mem_kernel "\<lambda>m. m" "\<lambda>d. set (mt_dirs d)" "\<lambda>d. set (mt_files d)"
  by unfold_locales (auto simp: mem_kernel_def split: if_splits)

section \<open>Properties\<close>

text \<open>
  \<open>create_dir_all\<close> adds only the directories that lead to the path. On every outcome the existing
  directories stay and every new one is a prefix of the path; on success the path itself is a
  directory.
\<close>

theorem create_dir_all_adds_prefixes:
  assumes "dir_tree k is_dir dirs" and "create_dir_all k is_dir route p d = (r, d')"
  shows "dirs d \<subseteq> dirs d' \<and> dirs d' \<subseteq> dirs d \<union> set (prefixes p) \<and> (r = Inr () \<longrightarrow> p \<in> dirs d')"
  by (rule dir_tree.create_dir_all_dirs[OF assms])

theorem create_dir_all_adds_prefixes_witness:
  "set (prefixes [''a'', ''b'']) \<supseteq>
     set (mt_dirs (snd (create_dir_all mem_kernel (\<lambda>m. m) Direct [''a'', ''b''] \<lparr>mt_dirs = [], mt_files = [[''x'']]\<rparr>)))"
proof -
  let ?d = "\<lparr>mt_dirs = [], mt_files = [[''x'']]\<rparr>"
  obtain r d' where c: "create_dir_all mem_kernel (\<lambda>m. m) Direct [''a'', ''b''] ?d = (r, d')" by fastforce
  from create_dir_all_adds_prefixes[OF mem_tree.dir_tree_axioms c] show ?thesis by (simp add: c)
qed

text \<open>
  C30: \<open>create_dir_all\<close> makes any missing chain of directories. If the root exists, no entry of another
  kind is in the way and the path has no NUL byte, it ends, succeeds and the path is a directory,
  on the completion driver, in the pool and on the calling thread, whatever is missing.
\<close>

theorem create_dir_all_succeeds_on_regular_tree:
  assumes "regular_tree k is_dir dirs others" and "route \<noteq> ViaPool False" and "\<not> has_nul p" and "[] \<in> dirs d"
    and "set (prefixes p) \<inter> others d = {}"
  shows "\<exists>d'. create_dir_all k is_dir route p d = (Inr (), d') \<and> p \<in> dirs d'"
proof -
  have "regular_tree.makeable dirs others route p d"
    using assms(2-) by (simp add: regular_tree.makeable_def[OF assms(1)])
  then obtain d' where c: "create_dir_all k is_dir route p d = (Inr (), d')"
    using regular_tree.create_dir_all_succeeds[OF assms(1)] by blast
  then show ?thesis using dir_tree.create_dir_all_dirs[OF regular_tree.axioms(1)[OF assms(1)] c] by auto
qed

theorem create_dir_all_succeeds_on_regular_tree_witness:
  "\<exists>d'. create_dir_all mem_kernel (\<lambda>m. m) ViaCompletion [''a'', ''b'', ''c''] \<lparr>mt_dirs = [[]], mt_files = [[''x'']]\<rparr> = (Inr (), d') \<and>
     [''a'', ''b'', ''c''] \<in> set (mt_dirs d')"
  by (rule create_dir_all_succeeds_on_regular_tree[OF mem_tree.regular_tree_axioms]) (auto simp: has_nul_def)

text \<open>The three ways agree on every operation as long as the pool can run its job.\<close>

lemma path_call_route: "route \<noteq> ViaPool False \<Longrightarrow> path_call route ps call d = path_call Direct ps call d"
  by (auto simp: path_call_def split: fs_route.splits)

end
