(* ===== verification/Driver_Iocp.thy ===== *)
theory Driver_Iocp
  imports Driver_Base "HOL-Library.Word"
begin

unbundle bit_operations_syntax

text \<open>
  The driver of the Windows configuration (\<open>driver/iocp.rs\<close>): completions over an I/O completion
  port, readiness as polls of the AFD device whose answers arrive on the same port. The calls of
  Windows are answers given as arguments. An entry of the port points to a context that
  the driver has allocated and that holds a token; the entry of the model carries the token,
  and \<open>id_kernel_ops\<close> and \<open>id_kernel_polls\<close> record the contexts that the kernel has, so that the
  proofs can say that they are still allocated when their entries arrive. Status and error
  codes are 32-bit words; \<open>io::Error\<close> keeps the bit pattern.
\<close>

section \<open>Data\<close>

definition INTERRUPT_KEY :: usize where "INTERRUPT_KEY = 2 ^ 64 - 1"
definition AFD_POLL_COMPLETION_KEY :: usize where "AFD_POLL_COMPLETION_KEY = 2 ^ 64 - 2"

definition STATUS_PENDING :: "32 word" where "STATUS_PENDING = 0x103"

definition AFD_POLL_RECEIVE :: "32 word" where "AFD_POLL_RECEIVE = 0x1"
definition AFD_POLL_RECEIVE_EXPEDITED :: "32 word" where "AFD_POLL_RECEIVE_EXPEDITED = 0x2"
definition AFD_POLL_SEND :: "32 word" where "AFD_POLL_SEND = 0x4"
definition AFD_POLL_DISCONNECT :: "32 word" where "AFD_POLL_DISCONNECT = 0x8"
definition AFD_POLL_ABORT :: "32 word" where "AFD_POLL_ABORT = 0x10"
definition AFD_POLL_LOCAL_CLOSE :: "32 word" where "AFD_POLL_LOCAL_CLOSE = 0x20"
definition AFD_POLL_CONNECT :: "32 word" where "AFD_POLL_CONNECT = 0x40"
definition AFD_POLL_ACCEPT :: "32 word" where "AFD_POLL_ACCEPT = 0x80"
definition AFD_POLL_CONNECT_FAIL :: "32 word" where "AFD_POLL_CONNECT_FAIL = 0x100"

lemmas afd_defs = AFD_POLL_RECEIVE_def AFD_POLL_RECEIVE_EXPEDITED_def AFD_POLL_SEND_def AFD_POLL_DISCONNECT_def
  AFD_POLL_ABORT_def AFD_POLL_LOCAL_CLOSE_def AFD_POLL_CONNECT_def AFD_POLL_ACCEPT_def AFD_POLL_CONNECT_FAIL_def

datatype raw_os_handle = SocketHandle nat | OtherHandle nat

record 'data iocp_completion =
  ic_waiter :: "waker option"
  ic_completed :: "int option"
  ic_overlapped :: bool
  ic_ignored_data :: "'data option"

record iocp_poll_op =
  po_registration :: token
  po_socket :: nat
  po_events :: "32 word"

record iocp_registration =
  ir_socket :: nat
  ir_waiter :: "waker option"
  ir_interest :: interest
  ir_poll_token :: "token option"

datatype iocp_handle = IocpCompletion | IocpPoll iocp_registration

record ('s, 'c, 'p) iocp_driver =
  id_afd :: bool
  id_regs :: 's
  id_comps :: 'c
  id_polls :: 'p
  id_kernel_ops :: "token set"
  id_kernel_polls :: "token set"

record ('s, 'c, 'p, 'data) iocp_cfg =
  ip_regs :: "('s, iocp_handle) slab_ops"
  ip_comps :: "('c, 'data iocp_completion) slab_ops"
  ip_polls :: "('p, iocp_poll_op) slab_ops"
  ip_to_dos :: "32 word \<Rightarrow> 32 word"

text \<open>An \<open>OVERLAPPED_ENTRY\<close>; no token is the null pointer.\<close>

record overlapped_entry =
  oe_key :: usize
  oe_token :: "token option"
  oe_internal :: "64 word"
  oe_bytes :: "32 word"

definition iocp_new :: "('s, 'c, 'p, 'data) iocp_cfg \<Rightarrow> os_answer \<Rightarrow> ('s, 'c, 'p) iocp_driver io_result" where
  "iocp_new cfg ans =
     (case ans of
        Some err \<Rightarrow> Inl err
      | None \<Rightarrow> Inr \<lparr>id_afd = False, id_regs = sl_new (ip_regs cfg), id_comps = sl_new (ip_comps cfg),
                    id_polls = sl_new (ip_polls cfg), id_kernel_ops = {}, id_kernel_polls = {}\<rparr>)"

section \<open>Conversions\<close>

definition status_is_success :: "32 word \<Rightarrow> bool" where
  "status_is_success status \<longleftrightarrow> 0 \<le> sint status"

definition ntstatus_to_io_error :: "(32 word \<Rightarrow> 32 word) \<Rightarrow> 32 word \<Rightarrow> io_error" where
  "ntstatus_to_io_error to_dos status =
     (let mapped = to_dos status in if mapped \<noteq> 0 then Os (unat mapped) else Os (unat status))"

definition raw_os_handle_to_socket :: "raw_os_handle \<Rightarrow> nat io_result" where
  "raw_os_handle_to_socket h =
     (case h of SocketHandle s \<Rightarrow> Inr s | OtherHandle _ \<Rightarrow> Inl (Simple Unsupported))"

definition duration_to_timeout_ms :: "duration option \<Rightarrow> nat" where
  "duration_to_timeout_ms timeout =
     (case timeout of Some t \<Rightarrow> min (as_millis t) (2 ^ 32 - 1) | None \<Rightarrow> 2 ^ 32 - 1)"

text \<open>The negation is that of \<open>i32\<close>, which wraps in release builds.\<close>

definition completion_result_from_entry :: "(32 word \<Rightarrow> 32 word) \<Rightarrow> overlapped_entry \<Rightarrow> int" where
  "completion_result_from_entry to_dos e =
     (if oe_internal e = 0 then sint (oe_bytes e)
      else
        (let ntstatus = ucast (oe_internal e); win32_error = to_dos ntstatus;
             mapped_error = (if win32_error = 0 then ntstatus else win32_error)
         in sint (- mapped_error)))"

definition interest_to_afd_events :: "interest \<Rightarrow> 32 word" where
  "interest_to_afd_events want =
     (let base = AFD_POLL_DISCONNECT OR AFD_POLL_ABORT OR AFD_POLL_LOCAL_CLOSE;
          e1 = (if is_readable want then base OR (AFD_POLL_RECEIVE OR AFD_POLL_RECEIVE_EXPEDITED OR AFD_POLL_ACCEPT) else base);
          e2 = (if is_writable want then e1 OR (AFD_POLL_SEND OR AFD_POLL_CONNECT OR AFD_POLL_CONNECT_FAIL) else e1)
      in if e2 = base then e2 OR (AFD_POLL_RECEIVE OR AFD_POLL_SEND OR AFD_POLL_ACCEPT OR AFD_POLL_CONNECT) else e2)"

text \<open>
  Sockets of layered providers are resolved step by step. \<open>base\<close> and \<open>bsp\<close> are the answers of the two
  control codes. Nothing bounds the number of steps.
\<close>

definition INVALID_SOCKET :: nat where "INVALID_SOCKET = 2 ^ 64 - 1"

partial_function (option) resolve_base_socket ::
  "(nat \<Rightarrow> nat io_result) \<Rightarrow> (nat \<Rightarrow> nat io_result) \<Rightarrow> nat \<Rightarrow> nat io_result option" where
  "resolve_base_socket base bsp socket =
     (case base socket of
        Inr s \<Rightarrow> Some (Inr s)
      | Inl _ \<Rightarrow>
          (case bsp socket of
             Inl err \<Rightarrow> Some (Inl err)
           | Inr s \<Rightarrow> if s \<noteq> INVALID_SOCKET \<and> s \<noteq> socket then resolve_base_socket base bsp s
                       else Some (Inl (Simple OtherKind))))"

section \<open>Polls\<close>

text \<open>Opening the device, attaching it to the port, setting its notification mode.\<close>

record afd_env =
  ae_open :: os_answer
  ae_port :: os_answer
  ae_mode :: os_answer

definition ensure_afd_handle ::
  "afd_env \<Rightarrow> ('s, 'c, 'p) iocp_driver \<Rightarrow> unit io_result \<times> ('s, 'c, 'p) iocp_driver" where
  "ensure_afd_handle env d =
     (if id_afd d then (Inr (), d)
      else
        (case ae_open env of
           Some err \<Rightarrow> (Inl err, d)
         | None \<Rightarrow>
             (case ae_port env of
                Some err \<Rightarrow> (Inl err, d)
              | None \<Rightarrow> (case ae_mode env of Some err \<Rightarrow> (Inl err, d) | None \<Rightarrow> (Inr (), d\<lparr>id_afd := True\<rparr>)))))"

definition set_reg ::
  "('s, 'c, 'p, 'data) iocp_cfg \<Rightarrow> token \<Rightarrow> iocp_registration \<Rightarrow> ('s, 'c, 'p) iocp_driver \<Rightarrow> ('s, 'c, 'p) iocp_driver" where
  "set_reg cfg k r d = d\<lparr>id_regs := sl_set (ip_regs cfg) (id_regs d) k (IocpPoll r)\<rparr>"

definition arm_poll_operation ::
  "('s, 'c, 'p, 'data) iocp_cfg \<Rightarrow> afd_env \<Rightarrow> 32 word \<Rightarrow> token \<Rightarrow> nat \<Rightarrow> interest \<Rightarrow> ('s, 'c, 'p) iocp_driver
   \<Rightarrow> unit io_result \<times> ('s, 'c, 'p) iocp_driver" where
  "arm_poll_operation cfg env status k socket want d =
     (case ensure_afd_handle env d of
        (Inl err, d0) \<Rightarrow> (Inl err, d0)
      | (Inr _, d0) \<Rightarrow>
          (case sl_get (ip_regs cfg) (id_regs d0) k of
             None \<Rightarrow> (Inl (Simple NotFound), d0)
           | Some IocpCompletion \<Rightarrow> (Inl (Simple Unsupported), d0)
           | Some (IocpPoll r) \<Rightarrow>
               if ir_poll_token r \<noteq> None then (Inr (), d0)
               else
                 (let t = sl_vacant_key (ip_polls cfg) (id_polls d0);
                      d1 = d0\<lparr>id_polls := sl_insert (ip_polls cfg) (id_polls d0)
                              \<lparr>po_registration = k, po_socket = socket, po_events = interest_to_afd_events want\<rparr>\<rparr>;
                      d2 = set_reg cfg k (r\<lparr>ir_poll_token := Some t\<rparr>) d1
                  in if status_is_success status \<or> status = STATUS_PENDING
                     then (Inr (), d2\<lparr>id_kernel_polls := insert t (id_kernel_polls d2)\<rparr>)
                     else (Inl (ntstatus_to_io_error (ip_to_dos cfg) status),
                           set_reg cfg k (r\<lparr>ir_poll_token := None\<rparr>)
                             (d2\<lparr>id_polls := sl_remove (ip_polls cfg) (id_polls d2) t\<rparr>)))))"

definition iocp_submit_poll ::
  "('s, 'c, 'p, 'data) iocp_cfg \<Rightarrow> afd_env \<Rightarrow> 32 word \<Rightarrow> token \<Rightarrow> waker \<Rightarrow> interest \<Rightarrow> ('s, 'c, 'p) iocp_driver
   \<Rightarrow> unit io_result \<times> ('s, 'c, 'p) iocp_driver" where
  "iocp_submit_poll cfg env status k w want d =
     (case sl_get (ip_regs cfg) (id_regs d) k of
        None \<Rightarrow> (Inl (Simple NotFound), d)
      | Some IocpCompletion \<Rightarrow> (Inl (Simple Unsupported), d)
      | Some (IocpPoll r) \<Rightarrow>
          (let d1 = set_reg cfg k (r\<lparr>ir_interest := want, ir_waiter := update_waiter (ir_waiter r) w\<rparr>) d
           in if ir_poll_token r = None then arm_poll_operation cfg env status k (ir_socket r) want d1 else (Inr (), d1)))"

section \<open>Registration\<close>

definition iocp_register_handle_with_mode ::
  "('s, 'c, 'p, 'data) iocp_cfg \<Rightarrow> os_answer \<Rightarrow> (nat \<Rightarrow> nat io_result) \<Rightarrow> (nat \<Rightarrow> nat io_result) \<Rightarrow> afd_env
   \<Rightarrow> raw_os_handle \<Rightarrow> interest \<Rightarrow> registration_mode \<Rightarrow> ('s, 'c, 'p) iocp_driver
   \<Rightarrow> (token io_result \<times> ('s, 'c, 'p) iocp_driver) option" where
  "iocp_register_handle_with_mode cfg port base bsp env h want mode d =
     (case mode of
        CompletionMode \<Rightarrow>
          (let k = sl_vacant_key (ip_regs cfg) (id_regs d); regs = sl_insert (ip_regs cfg) (id_regs d) IocpCompletion
           in case port of
                Some err \<Rightarrow> Some (Inl err, d\<lparr>id_regs := sl_remove (ip_regs cfg) regs k\<rparr>)
              | None \<Rightarrow> Some (Inr k, d\<lparr>id_regs := regs\<rparr>))
      | PollMode \<Rightarrow>
          (case raw_os_handle_to_socket h of
             Inl err \<Rightarrow> Some (Inl err, d)
           | Inr s \<Rightarrow>
               (case resolve_base_socket base bsp s of
                  None \<Rightarrow> None
                | Some (Inl err) \<Rightarrow> Some (Inl err, d)
                | Some (Inr b) \<Rightarrow>
                    (case ensure_afd_handle env d of
                       (Inl err, d1) \<Rightarrow> Some (Inl err, d1)
                     | (Inr _, d1) \<Rightarrow>
                         Some (Inr (sl_vacant_key (ip_regs cfg) (id_regs d1)),
                           d1\<lparr>id_regs := sl_insert (ip_regs cfg) (id_regs d1)
                                (IocpPoll \<lparr>ir_socket = b, ir_waiter = None, ir_interest = want, ir_poll_token = None\<rparr>)\<rparr>)))))"

definition iocp_register_handle where
  "iocp_register_handle cfg port base bsp env h want d =
     iocp_register_handle_with_mode cfg port base bsp env h want CompletionMode d"

definition iocp_reregister_handle ::
  "('s, 'c, 'p, 'data) iocp_cfg \<Rightarrow> token \<Rightarrow> interest \<Rightarrow> ('s, 'c, 'p) iocp_driver \<Rightarrow> unit io_result \<times> ('s, 'c, 'p) iocp_driver" where
  "iocp_reregister_handle cfg k want d =
     (case sl_get (ip_regs cfg) (id_regs d) k of
        Some IocpCompletion \<Rightarrow> (Inr (), d)
      | Some (IocpPoll r) \<Rightarrow> (Inr (), set_reg cfg k (r\<lparr>ir_interest := want\<rparr>) d)
      | None \<Rightarrow> (Inl (Simple NotFound), d))"

text \<open>What deregistration asks of Windows; a cancelled poll still reports its entry.\<close>

datatype iocp_request = CancelPoll token | Disassociate | NothingAsked

definition cancel_poll_operation ::
  "('s, 'c, 'p, 'data) iocp_cfg \<Rightarrow> token \<Rightarrow> ('s, 'c, 'p) iocp_driver \<Rightarrow> iocp_request" where
  "cancel_poll_operation cfg t d =
     (if id_afd d \<and> sl_get (ip_polls cfg) (id_polls d) t \<noteq> None then CancelPoll t else NothingAsked)"

definition iocp_deregister_handle ::
  "('s, 'c, 'p, 'data) iocp_cfg \<Rightarrow> token \<Rightarrow> ('s, 'c, 'p) iocp_driver
   \<Rightarrow> unit io_result \<times> iocp_request \<times> ('s, 'c, 'p) iocp_driver" where
  "iocp_deregister_handle cfg k d =
     (case sl_get (ip_regs cfg) (id_regs d) k of
        None \<Rightarrow> (Inl (Simple NotFound), NothingAsked, d)
      | Some h \<Rightarrow>
          (let d1 = d\<lparr>id_regs := sl_remove (ip_regs cfg) (id_regs d) k\<rparr>;
               poll_token = (case h of IocpCompletion \<Rightarrow> None | IocpPoll r \<Rightarrow> ir_poll_token r)
           in (Inr (), (case poll_token of Some t \<Rightarrow> cancel_poll_operation cfg t d1 | None \<Rightarrow> Disassociate), d1)))"

section \<open>Entries of the port\<close>

definition afd_completed ::
  "('s, 'c, 'p, 'data) iocp_cfg \<Rightarrow> token \<Rightarrow> ('s, 'c, 'p) iocp_driver \<Rightarrow> waker list \<times> ('s, 'c, 'p) iocp_driver" where
  "afd_completed cfg t d =
     (case sl_get (ip_polls cfg) (id_polls d) t of
        None \<Rightarrow> ([], d)
      | Some op \<Rightarrow>
          (let d1 = d\<lparr>id_polls := sl_remove (ip_polls cfg) (id_polls d) t, id_kernel_polls := id_kernel_polls d - {t}\<rparr>
           in case sl_get (ip_regs cfg) (id_regs d1) (po_registration op) of
                Some (IocpPoll r) \<Rightarrow>
                  (let r1 = (if ir_poll_token r = Some t then r\<lparr>ir_poll_token := None\<rparr> else r)
                   in (case ir_waiter r1 of None \<Rightarrow> [] | Some w \<Rightarrow> [w],
                       set_reg cfg (po_registration op) (r1\<lparr>ir_waiter := None\<rparr>) d1))
              | _ \<Rightarrow> ([], d1)))"

definition overlapped_completed ::
  "('s, 'c, 'p, 'data) iocp_cfg \<Rightarrow> overlapped_entry \<Rightarrow> token \<Rightarrow> ('s, 'c, 'p) iocp_driver \<Rightarrow> waker list \<times> ('s, 'c, 'p) iocp_driver" where
  "overlapped_completed cfg e t d =
     (case sl_get (ip_comps cfg) (id_comps d) t of
        None \<Rightarrow> ([], d)
      | Some c \<Rightarrow>
          (let c1 = c\<lparr>ic_completed := Some (completion_result_from_entry (ip_to_dos cfg) e), ic_overlapped := False, ic_waiter := None\<rparr>;
               comps = sl_set (ip_comps cfg) (id_comps d) t c1
           in (case ic_waiter c of None \<Rightarrow> [] | Some w \<Rightarrow> [w],
               d\<lparr>id_comps := (if ic_ignored_data c1 = None then comps else sl_remove (ip_comps cfg) comps t),
                 id_kernel_ops := id_kernel_ops d - {t}\<rparr>)))"

definition process_entry ::
  "('s, 'c, 'p, 'data) iocp_cfg \<Rightarrow> overlapped_entry \<Rightarrow> ('s, 'c, 'p) iocp_driver \<Rightarrow> waker list \<times> ('s, 'c, 'p) iocp_driver" where
  "process_entry cfg e d =
     (if oe_key e = INTERRUPT_KEY then ([], d)
      else
        (case oe_token e of
           None \<Rightarrow> ([], d)
         | Some t \<Rightarrow> if oe_key e = AFD_POLL_COMPLETION_KEY then afd_completed cfg t d else overlapped_completed cfg e t d))"

fun process_entries ::
  "('s, 'c, 'p, 'data) iocp_cfg \<Rightarrow> overlapped_entry list \<Rightarrow> ('s, 'c, 'p) iocp_driver \<Rightarrow> waker list \<times> ('s, 'c, 'p) iocp_driver" where
  "process_entries cfg [] d = ([], d)"
| "process_entries cfg (e # es) d =
     (let (ws, d1) = process_entry cfg e d; (ws', d2) = process_entries cfg es d1 in (ws @ ws', d2))"

text \<open>\<open>WAIT_TIMEOUT\<close> and \<open>ERROR_ABANDONED_WAIT_0\<close> are no errors. The kind of \<open>WSAEINTR\<close> is \<open>Interrupted\<close>.\<close>

definition process_batch ::
  "('s, 'c, 'p, 'data) iocp_cfg \<Rightarrow> overlapped_entry list io_result \<Rightarrow> ('s, 'c, 'p) iocp_driver
   \<Rightarrow> nat io_result \<times> waker list \<times> ('s, 'c, 'p) iocp_driver" where
  "process_batch cfg ans d =
     (case ans of
        Inl err \<Rightarrow> (if raw_os_error err \<in> {Some 258, Some 735} then Inr 0 else Inl err, [], d)
      | Inr es \<Rightarrow> (Inr (length es), process_entries cfg es d))"

definition win_interrupted :: "io_error \<Rightarrow> bool" where
  "win_interrupted err \<longleftrightarrow> (case err of Simple k \<Rightarrow> k = Interrupted | Os c \<Rightarrow> c = 10004)"

text \<open>
  \<open>port\<close> is the completion port with a timeout. The drain collects what it wakes in \<open>ws\<close>.
\<close>

partial_function (option) process_ready_completions ::
  "('s, 'c, 'p, 'data) iocp_cfg \<Rightarrow> (nat \<Rightarrow> 'k \<Rightarrow> overlapped_entry list io_result \<times> 'k) \<Rightarrow> waker list
   \<Rightarrow> ('s, 'c, 'p) iocp_driver \<Rightarrow> 'k \<Rightarrow> (unit io_result \<times> waker list \<times> ('s, 'c, 'p) iocp_driver \<times> 'k) option" where
  "process_ready_completions cfg port ws d k =
     (case port 0 k of
        (ans, k1) \<Rightarrow>
          (case process_batch cfg ans d of
             (Inl err, ws1, d1) \<Rightarrow> Some (Inl err, ws @ ws1, d1, k1)
           | (Inr n, ws1, d1) \<Rightarrow>
               if n > 0 then process_ready_completions cfg port (ws @ ws1) d1 k1 else Some (Inr (), ws @ ws1, d1, k1)))"

text \<open>The result of \<open>flush\<close> and \<open>wait\<close> is the woken wakers or the error of a panic.\<close>

definition iocp_flush ::
  "('s, 'c, 'p, 'data) iocp_cfg \<Rightarrow> (nat \<Rightarrow> 'k \<Rightarrow> overlapped_entry list io_result \<times> 'k) \<Rightarrow> ('s, 'c, 'p) iocp_driver \<Rightarrow> 'k
   \<Rightarrow> (waker list io_result \<times> ('s, 'c, 'p) iocp_driver \<times> 'k) option" where
  "iocp_flush cfg port d k =
     map_option (\<lambda>(r, ws, d1, k1).
         ((case r of Inr _ \<Rightarrow> Inr ws | Inl err \<Rightarrow> if win_interrupted err then Inr ws else Inl err), d1, k1))
       (process_ready_completions cfg port [] d k)"

definition iocp_wait ::
  "('s, 'c, 'p, 'data) iocp_cfg \<Rightarrow> (nat \<Rightarrow> 'k \<Rightarrow> overlapped_entry list io_result \<times> 'k) \<Rightarrow> duration option
   \<Rightarrow> ('s, 'c, 'p) iocp_driver \<Rightarrow> 'k \<Rightarrow> (waker list io_result \<times> ('s, 'c, 'p) iocp_driver \<times> 'k) option" where
  "iocp_wait cfg port timeout d k =
     (case port (duration_to_timeout_ms timeout) k of
        (ans, k1) \<Rightarrow>
          (case process_batch cfg ans d of
             (Inl err, ws, d1) \<Rightarrow> Some (if win_interrupted err then Inr ws else Inl err, d1, k1)
           | (Inr n, ws, d1) \<Rightarrow>
               if n > 0 then
                 map_option (\<lambda>(r, ws', d2, k2). ((case r of Inr _ \<Rightarrow> Inr ws' | Inl err \<Rightarrow> Inl err), d2, k2))
                   (process_ready_completions cfg port ws d1 k1)
               else Some (Inr ws, d1, k1)))"

section \<open>Completions\<close>

definition iocp_submit_completion ::
  "('s, 'c, 'p, 'data) iocp_cfg \<Rightarrow> os_answer \<Rightarrow> waker \<Rightarrow> ('s, 'c, 'p) iocp_driver \<Rightarrow> completion_io_result \<times> ('s, 'c, 'p) iocp_driver" where
  "iocp_submit_completion cfg submit_windows w d =
     (let t = sl_vacant_key (ip_comps cfg) (id_comps d);
          d1 = d\<lparr>id_comps := sl_insert (ip_comps cfg) (id_comps d)
                  \<lparr>ic_waiter = Some w, ic_completed = None, ic_overlapped = True, ic_ignored_data = None\<rparr>\<rparr>
      in case submit_windows of
           Some err \<Rightarrow> (SubmitErr err, d1\<lparr>id_comps := sl_remove (ip_comps cfg) (id_comps d1) t\<rparr>)
         | None \<Rightarrow> (Retry t, d1\<lparr>id_kernel_ops := insert t (id_kernel_ops d1)\<rparr>))"

definition iocp_get_completion_result ::
  "('s, 'c, 'p, 'data) iocp_cfg \<Rightarrow> token \<Rightarrow> ('s, 'c, 'p) iocp_driver \<Rightarrow> int option \<times> ('s, 'c, 'p) iocp_driver" where
  "iocp_get_completion_result cfg t d =
     (let completed = Option.bind (sl_get (ip_comps cfg) (id_comps d) t) ic_completed
      in (completed, if completed = None then d else d\<lparr>id_comps := sl_remove (ip_comps cfg) (id_comps d) t\<rparr>))"

definition iocp_set_completion_waker ::
  "('s, 'c, 'p, 'data) iocp_cfg \<Rightarrow> token \<Rightarrow> waker \<Rightarrow> ('s, 'c, 'p) iocp_driver \<Rightarrow> ('s, 'c, 'p) iocp_driver" where
  "iocp_set_completion_waker cfg t w d =
     (case sl_get (ip_comps cfg) (id_comps d) t of
        None \<Rightarrow> d
      | Some c \<Rightarrow> d\<lparr>id_comps := sl_set (ip_comps cfg) (id_comps d) t (c\<lparr>ic_waiter := update_waiter (ic_waiter c) w\<rparr>)\<rparr>)"

definition iocp_ignore_completion ::
  "('s, 'c, 'p, 'data) iocp_cfg \<Rightarrow> token \<Rightarrow> 'data \<Rightarrow> ('s, 'c, 'p) iocp_driver \<Rightarrow> ('s, 'c, 'p) iocp_driver" where
  "iocp_ignore_completion cfg t data d =
     (case sl_get (ip_comps cfg) (id_comps d) t of
        None \<Rightarrow> d
      | Some c \<Rightarrow> d\<lparr>id_comps := sl_set (ip_comps cfg) (id_comps d) t (c\<lparr>ic_ignored_data := Some data\<rparr>)\<rparr>)"

end
