(* ===== verification/Iocp_Safety.thy ===== *)
theory Iocp_Safety
  imports Driver_Iocp
begin

text \<open>
  What holds of the driver of the Windows configuration in every reachable state: the memory the kernel
  writes to is allocated, a waiting task is armed or woken, and where one waiter per
  handle is not enough.
\<close>

section \<open>Reachable states\<close>

text \<open>The port returns entries of operations that the kernel has, and interrupts.\<close>

definition from_kernel :: "overlapped_entry \<Rightarrow> ('s, 'c, 'p) iocp_driver \<Rightarrow> bool" where
  "from_kernel e d \<longleftrightarrow> oe_key e = INTERRUPT_KEY \<or>
     (case oe_token e of
        None \<Rightarrow> True
      | Some t \<Rightarrow> if oe_key e = AFD_POLL_COMPLETION_KEY then t \<in> id_kernel_polls d else t \<in> id_kernel_ops d)"

fun batch_from_kernel :: "('s, 'c, 'p, 'data) iocp_cfg \<Rightarrow> overlapped_entry list \<Rightarrow> ('s, 'c, 'p) iocp_driver \<Rightarrow> bool" where
  "batch_from_kernel cfg [] d \<longleftrightarrow> True"
| "batch_from_kernel cfg (e # es) d \<longleftrightarrow> from_kernel e d \<and> batch_from_kernel cfg es (snd (process_entry cfg e d))"

text \<open>The label of a step is the handle whose waiter it sets or removes.\<close>

inductive iocp_step ::
  "('s, 'c, 'p, 'data) iocp_cfg \<Rightarrow> token option \<Rightarrow> ('s, 'c, 'p) iocp_driver \<Rightarrow> waker list \<Rightarrow> ('s, 'c, 'p) iocp_driver \<Rightarrow> bool"
  for cfg where
  st_register: "iocp_register_handle_with_mode cfg port base bsp env h want mode d = Some (res, d') \<Longrightarrow> iocp_step cfg None d [] d'"
| st_reregister: "iocp_reregister_handle cfg k want d = (res, d') \<Longrightarrow> iocp_step cfg None d [] d'"
| st_deregister: "iocp_deregister_handle cfg k d = (res, req, d') \<Longrightarrow> iocp_step cfg (Some k) d [] d'"
| st_submit_poll: "iocp_submit_poll cfg env status k w want d = (res, d') \<Longrightarrow> iocp_step cfg (Some k) d [] d'"
| st_submit: "iocp_submit_completion cfg ans w d = (cr, d') \<Longrightarrow> iocp_step cfg None d [] d'"
| st_result: "iocp_get_completion_result cfg t d = (r, d') \<Longrightarrow> iocp_step cfg None d [] d'"
| st_waker: "iocp_step cfg None d [] (iocp_set_completion_waker cfg t w d)"
| st_ignore: "iocp_step cfg None d [] (iocp_ignore_completion cfg t data d)"
| st_batch: "batch_from_kernel cfg es d \<Longrightarrow> process_entries cfg es d = (ws, d') \<Longrightarrow> iocp_step cfg None d ws d'"

inductive iocp_reach :: "('s, 'c, 'p, 'data) iocp_cfg \<Rightarrow> ('s, 'c, 'p) iocp_driver \<Rightarrow> bool" for cfg where
  iocp_start: "iocp_new cfg None = Inr d \<Longrightarrow> iocp_reach cfg d"
| iocp_next: "iocp_reach cfg d \<Longrightarrow> iocp_step cfg lbl d ws d' \<Longrightarrow> iocp_reach cfg d'"

text \<open>Steps that leave the waiter of one handle alone, with everything they wake.\<close>

inductive quiet_run ::
  "('s, 'c, 'p, 'data) iocp_cfg \<Rightarrow> token \<Rightarrow> ('s, 'c, 'p) iocp_driver \<Rightarrow> waker list \<Rightarrow> ('s, 'c, 'p) iocp_driver \<Rightarrow> bool"
  for cfg k where
  "quiet_run cfg k d [] d"
| "quiet_run cfg k d ws d' \<Longrightarrow> iocp_step cfg lbl d' ws' d'' \<Longrightarrow> lbl \<noteq> Some k \<Longrightarrow> quiet_run cfg k d (ws @ ws') d''"

section \<open>Invariants\<close>

definition ops_inv :: "('s, 'c, 'p, 'data) iocp_cfg \<Rightarrow> ('s, 'c, 'p) iocp_driver \<Rightarrow> bool" where
  "ops_inv cfg d \<longleftrightarrow>
     (\<forall>t. t \<in> id_kernel_ops d \<longleftrightarrow> (\<exists>c. sl_get (ip_comps cfg) (id_comps d) t = Some c \<and> ic_completed c = None)) \<and>
     (\<forall>t c. sl_get (ip_comps cfg) (id_comps d) t = Some c \<longrightarrow> (ic_overlapped c \<longleftrightarrow> ic_completed c = None))"

definition polls_inv :: "('s, 'c, 'p, 'data) iocp_cfg \<Rightarrow> ('s, 'c, 'p) iocp_driver \<Rightarrow> bool" where
  "polls_inv cfg d \<longleftrightarrow>
     (\<forall>t. t \<in> id_kernel_polls d \<longleftrightarrow> sl_get (ip_polls cfg) (id_polls d) t \<noteq> None) \<and>
     (\<forall>k r p. sl_get (ip_regs cfg) (id_regs d) k = Some (IocpPoll r) \<longrightarrow> ir_poll_token r = Some p \<longrightarrow>
        (\<exists>op. sl_get (ip_polls cfg) (id_polls d) p = Some op \<and> po_registration op = k))"

lemmas iocp_ops = iocp_register_handle_with_mode_def iocp_reregister_handle_def iocp_deregister_handle_def
  iocp_submit_poll_def arm_poll_operation_def iocp_submit_completion_def iocp_get_completion_result_def
  iocp_set_completion_waker_def iocp_ignore_completion_def ensure_afd_handle_def set_reg_def

text \<open>Operations on polls do not touch completions and the other way round.\<close>

lemma register_keeps:
  assumes "iocp_register_handle_with_mode cfg port base bsp env h want mode d = Some (res, d')"
  shows "id_comps d' = id_comps d" "id_kernel_ops d' = id_kernel_ops d" "id_polls d' = id_polls d"
    "id_kernel_polls d' = id_kernel_polls d"
  using assms by (auto simp: iocp_ops Let_def split: registration_mode.splits option.splits sum.splits if_splits)

lemma reregister_keeps:
  assumes "iocp_reregister_handle cfg k want d = (res, d')"
  shows "id_comps d' = id_comps d" "id_kernel_ops d' = id_kernel_ops d" "id_polls d' = id_polls d"
    "id_kernel_polls d' = id_kernel_polls d"
  using assms by (auto simp: iocp_ops split: option.splits iocp_handle.splits)

lemma deregister_keeps:
  assumes "iocp_deregister_handle cfg k d = (res, req, d')"
  shows "id_comps d' = id_comps d" "id_kernel_ops d' = id_kernel_ops d" "id_polls d' = id_polls d"
    "id_kernel_polls d' = id_kernel_polls d"
  using assms by (auto simp: iocp_ops Let_def split: option.splits)

lemma set_reg_keeps [simp]:
  "id_comps (set_reg cfg k r d) = id_comps d" "id_kernel_ops (set_reg cfg k r d) = id_kernel_ops d"
  "id_polls (set_reg cfg k r d) = id_polls d" "id_kernel_polls (set_reg cfg k r d) = id_kernel_polls d"
  "id_regs (set_reg cfg k r d) = sl_set (ip_regs cfg) (id_regs d) k (IocpPoll r)"
  by (simp_all add: set_reg_def)

lemma ensure_afd_keeps [simp]:
  "id_comps (snd (ensure_afd_handle env d)) = id_comps d" "id_kernel_ops (snd (ensure_afd_handle env d)) = id_kernel_ops d"
  "id_polls (snd (ensure_afd_handle env d)) = id_polls d" "id_kernel_polls (snd (ensure_afd_handle env d)) = id_kernel_polls d"
  "id_regs (snd (ensure_afd_handle env d)) = id_regs d"
  by (simp_all add: ensure_afd_handle_def split: option.splits)

lemma arm_keeps_ops [simp]:
  "id_comps (snd (arm_poll_operation cfg env status k s want d)) = id_comps d"
  "id_kernel_ops (snd (arm_poll_operation cfg env status k s want d)) = id_kernel_ops d"
  using ensure_afd_keeps[of env d]
  by (cases "ensure_afd_handle env d"; simp add: arm_poll_operation_def Let_def split: sum.splits option.splits iocp_handle.splits)+

lemma submit_poll_keeps_ops [simp]:
  "id_comps (snd (iocp_submit_poll cfg env status k w want d)) = id_comps d"
  "id_kernel_ops (snd (iocp_submit_poll cfg env status k w want d)) = id_kernel_ops d"
  by (simp_all add: iocp_submit_poll_def Let_def split: option.splits iocp_handle.splits)

lemma completion_calls_keep:
  "id_polls (snd (iocp_submit_completion cfg ans w d)) = id_polls d"
  "id_kernel_polls (snd (iocp_submit_completion cfg ans w d)) = id_kernel_polls d"
  "id_regs (snd (iocp_submit_completion cfg ans w d)) = id_regs d"
  "id_polls (snd (iocp_get_completion_result cfg t d)) = id_polls d"
  "id_kernel_polls (snd (iocp_get_completion_result cfg t d)) = id_kernel_polls d"
  "id_regs (snd (iocp_get_completion_result cfg t d)) = id_regs d"
  "id_polls (iocp_set_completion_waker cfg t w d) = id_polls d"
  "id_kernel_polls (iocp_set_completion_waker cfg t w d) = id_kernel_polls d"
  "id_regs (iocp_set_completion_waker cfg t w d) = id_regs d"
  "id_polls (iocp_ignore_completion cfg t data d) = id_polls d"
  "id_kernel_polls (iocp_ignore_completion cfg t data d) = id_kernel_polls d"
  "id_regs (iocp_ignore_completion cfg t data d) = id_regs d"
  "id_polls (snd (overlapped_completed cfg e t d)) = id_polls d"
  "id_kernel_polls (snd (overlapped_completed cfg e t d)) = id_kernel_polls d"
  "id_regs (snd (overlapped_completed cfg e t d)) = id_regs d"
  by (auto simp: iocp_ops overlapped_completed_def Let_def split: option.splits)

lemma afd_completed_keeps:
  "id_comps (snd (afd_completed cfg t d)) = id_comps d" "id_kernel_ops (snd (afd_completed cfg t d)) = id_kernel_ops d"
  by (auto simp: afd_completed_def Let_def split: option.splits iocp_handle.splits)

lemma ops_inv_cong: "id_comps d' = id_comps d \<Longrightarrow> id_kernel_ops d' = id_kernel_ops d \<Longrightarrow> ops_inv cfg d \<Longrightarrow> ops_inv cfg d'"
  by (simp add: ops_inv_def)

lemma polls_inv_cong: "id_polls d' = id_polls d \<Longrightarrow> id_kernel_polls d' = id_kernel_polls d \<Longrightarrow> id_regs d' = id_regs d
    \<Longrightarrow> polls_inv cfg d \<Longrightarrow> polls_inv cfg d'"
  by (simp add: polls_inv_def)

locale iocp_slabs =
  regs: slab "ip_regs cfg" + comps: slab "ip_comps cfg" + polls: slab "ip_polls cfg"
  for cfg :: "('s, 'c, 'p, 'data) iocp_cfg"
begin

lemma ops_submit: "ops_inv cfg d \<Longrightarrow> ops_inv cfg (snd (iocp_submit_completion cfg ans w d))"
  by (cases ans) (auto simp: ops_inv_def iocp_submit_completion_def Let_def comps.get_insert comps.get_vacant
      comps.get_remove split: if_splits)

lemma ops_result: "ops_inv cfg d \<Longrightarrow> ops_inv cfg (snd (iocp_get_completion_result cfg t d))"
  by (cases "sl_get (ip_comps cfg) (id_comps d) t")
    (auto simp: ops_inv_def iocp_get_completion_result_def Let_def comps.get_remove split: if_splits)

lemma ops_waker: "ops_inv cfg d \<Longrightarrow> ops_inv cfg (iocp_set_completion_waker cfg t w d)"
  by (cases "sl_get (ip_comps cfg) (id_comps d) t")
    (auto simp: ops_inv_def iocp_set_completion_waker_def comps.get_set split: if_splits)

lemma ops_ignore: "ops_inv cfg d \<Longrightarrow> ops_inv cfg (iocp_ignore_completion cfg t data d)"
  by (cases "sl_get (ip_comps cfg) (id_comps d) t")
    (auto simp: ops_inv_def iocp_ignore_completion_def comps.get_set split: if_splits)

lemma ops_overlapped: "ops_inv cfg d \<Longrightarrow> ops_inv cfg (snd (overlapped_completed cfg e t d))"
  by (cases "sl_get (ip_comps cfg) (id_comps d) t")
    (auto simp: ops_inv_def overlapped_completed_def Let_def comps.get_set comps.get_remove split: if_splits)

lemma polls_insert_reg:
  "polls_inv cfg d \<Longrightarrow> ir_poll_token r = None \<Longrightarrow> polls_inv cfg (d\<lparr>id_regs := sl_insert (ip_regs cfg) (id_regs d) (IocpPoll r)\<rparr>)"
  by (auto simp: polls_inv_def regs.get_insert split: if_splits)

lemma polls_register:
  assumes "polls_inv cfg d" and "iocp_register_handle_with_mode cfg port base bsp env h want mode d = Some (res, d')"
  shows "polls_inv cfg d'"
proof (cases mode)
  case PollMode
  have "polls_inv cfg (snd (ensure_afd_handle env d))" using assms(1) by (simp add: polls_inv_def)
  then show ?thesis using assms PollMode polls_insert_reg
    by (auto simp: iocp_register_handle_with_mode_def split: sum.splits option.splits prod.splits)
next
  case CompletionMode
  then show ?thesis using assms
    by (auto simp: polls_inv_def iocp_register_handle_with_mode_def Let_def regs.get_insert regs.get_remove split: option.splits if_splits)
qed

lemma polls_set_reg:
  assumes "polls_inv cfg d" and "sl_get (ip_regs cfg) (id_regs d) k = Some (IocpPoll r)"
    and "ir_poll_token r' = None \<or> ir_poll_token r' = ir_poll_token r"
  shows "polls_inv cfg (set_reg cfg k r' d)"
  using assms by (auto simp: polls_inv_def regs.get_set split: if_splits)

lemma polls_reregister:
  "polls_inv cfg d \<Longrightarrow> iocp_reregister_handle cfg k want d = (res, d') \<Longrightarrow> polls_inv cfg d'"
  using polls_set_reg[of d k] by (auto simp: iocp_reregister_handle_def split: option.splits iocp_handle.splits)

lemma polls_deregister:
  "polls_inv cfg d \<Longrightarrow> iocp_deregister_handle cfg k d = (res, req, d') \<Longrightarrow> polls_inv cfg d'"
  by (auto simp: polls_inv_def iocp_deregister_handle_def Let_def regs.get_remove split: option.splits if_splits)

text \<open>What arming does to a handle in poll mode without a poll in flight.\<close>

lemma arm_poll_effect:
  assumes "sl_get (ip_regs cfg) (id_regs d) k = Some (IocpPoll r)" and "ir_poll_token r = None"
    and "arm_poll_operation cfg env status k s want d = (res, d')"
  shows "case res of
      Inl err \<Rightarrow> sl_get (ip_regs cfg) (id_regs d') = sl_get (ip_regs cfg) (id_regs d) \<and>
        sl_get (ip_polls cfg) (id_polls d') = sl_get (ip_polls cfg) (id_polls d) \<and> id_kernel_polls d' = id_kernel_polls d
    | Inr _ \<Rightarrow> \<exists>t. sl_get (ip_polls cfg) (id_polls d) t = None \<and>
        sl_get (ip_regs cfg) (id_regs d') = (sl_get (ip_regs cfg) (id_regs d))(k \<mapsto> IocpPoll (r\<lparr>ir_poll_token := Some t\<rparr>)) \<and>
        sl_get (ip_polls cfg) (id_polls d') = (sl_get (ip_polls cfg) (id_polls d))
          (t \<mapsto> \<lparr>po_registration = k, po_socket = s, po_events = interest_to_afd_events want\<rparr>) \<and>
        id_kernel_polls d' = insert t (id_kernel_polls d)"
proof -
  obtain a d0 where a: "ensure_afd_handle env d = (a, d0)" by fastforce
  have keep: "id_regs d0 = id_regs d" "id_polls d0 = id_polls d" "id_kernel_polls d0 = id_kernel_polls d"
    using ensure_afd_keeps[of env d] a by simp_all
  have r: "r\<lparr>ir_poll_token := None\<rparr> = r" using assms(2) by (cases r) simp
  have s: "sl_get (ip_regs cfg) (sl_set (ip_regs cfg) (sl_set (ip_regs cfg) (id_regs d) k u) k v) =
      (sl_get (ip_regs cfg) (id_regs d))(k \<mapsto> v)" for u v
    using regs.get_set[OF assms(1), of u] regs.get_set[of "sl_set (ip_regs cfg) (id_regs d) k u" k u v] by simp
  have p: "sl_get (ip_polls cfg) (sl_remove (ip_polls cfg) (sl_insert (ip_polls cfg) (id_polls d) v) (sl_vacant_key (ip_polls cfg) (id_polls d))) =
      sl_get (ip_polls cfg) (id_polls d)" for v
    using polls.get_remove[of "sl_insert (ip_polls cfg) (id_polls d) v" "sl_vacant_key (ip_polls cfg) (id_polls d)" v]
    by (simp add: polls.get_insert polls.get_vacant fun_upd_idem_iff)
  show ?thesis
  proof (cases a)
    case (Inl err)
    then show ?thesis using assms(3) a keep by (auto simp: arm_poll_operation_def)
  next
    case (Inr u)
    show ?thesis
    proof (cases "status_is_success status \<or> status = STATUS_PENDING")
      case True
      then have "res = Inr ()" using assms a keep Inr by (auto simp: arm_poll_operation_def Let_def)
      then show ?thesis using True assms a keep Inr
        by (auto simp: arm_poll_operation_def Let_def regs.get_set polls.get_insert polls.get_vacant
            intro!: exI[of _ "sl_vacant_key (ip_polls cfg) (id_polls d)"])
    next
      case False
      then obtain err where "res = Inl err" using assms a keep Inr by (auto simp: arm_poll_operation_def Let_def)
      then show ?thesis using False assms a keep Inr s p
        by (auto simp: arm_poll_operation_def Let_def r fun_upd_idem_iff)
    qed
  qed
qed

lemma polls_arm:
  assumes "polls_inv cfg d" and "sl_get (ip_regs cfg) (id_regs d) k = Some (IocpPoll r)" and "ir_poll_token r = None"
  shows "polls_inv cfg (snd (arm_poll_operation cfg env status k s want d))"
proof -
  obtain res d' where a: "arm_poll_operation cfg env status k s want d = (res, d')" by fastforce
  show ?thesis using arm_poll_effect[OF assms(2,3) a] assms(1) a
    by (auto simp: polls_inv_def split: sum.splits if_splits; fastforce)
qed

lemma polls_submit_poll:
  assumes "polls_inv cfg d"
  shows "polls_inv cfg (snd (iocp_submit_poll cfg env status k w want d))"
proof (cases "sl_get (ip_regs cfg) (id_regs d) k")
  case (Some h)
  show ?thesis
  proof (cases h)
    case (IocpPoll r)
    let ?r = "r\<lparr>ir_interest := want, ir_waiter := Some w\<rparr>"
    have "polls_inv cfg (set_reg cfg k ?r d)" using polls_set_reg[OF assms, of k r ?r] Some IocpPoll by simp
    moreover have "sl_get (ip_regs cfg) (id_regs (set_reg cfg k ?r d)) k = Some (IocpPoll ?r)"
      using Some by (simp add: regs.get_set)
    ultimately show ?thesis using Some IocpPoll polls_arm[of "set_reg cfg k ?r d" k ?r]
      by (simp add: iocp_submit_poll_def Let_def)
  qed (use assms Some in \<open>simp add: iocp_submit_poll_def\<close>)
qed (use assms in \<open>simp add: iocp_submit_poll_def\<close>)

lemma polls_afd: "polls_inv cfg d \<Longrightarrow> polls_inv cfg (snd (afd_completed cfg t d))"
  by (cases "sl_get (ip_polls cfg) (id_polls d) t";
      auto simp: polls_inv_def afd_completed_def Let_def polls.get_remove regs.get_set split: option.splits iocp_handle.splits if_splits;
      fastforce)

lemma entry_inv:
  assumes "ops_inv cfg d" and "polls_inv cfg d"
  shows "ops_inv cfg (snd (process_entry cfg e d)) \<and> polls_inv cfg (snd (process_entry cfg e d))"
  using assms ops_overlapped polls_afd ops_inv_cong[OF afd_completed_keeps]
    polls_inv_cong[OF completion_calls_keep(13,14,15)]
  by (auto simp: process_entry_def split: option.splits)

lemma batch_inv:
  "ops_inv cfg d \<Longrightarrow> polls_inv cfg d \<Longrightarrow>
    ops_inv cfg (snd (process_entries cfg es d)) \<and> polls_inv cfg (snd (process_entries cfg es d))"
proof (induction es arbitrary: d)
  case (Cons e es)
  obtain ws d1 where e: "process_entry cfg e d = (ws, d1)" by fastforce
  show ?case using entry_inv[OF Cons.prems, of e] Cons.IH[of d1] e by (auto split: prod.splits)
qed simp

lemma step_ops: "iocp_step cfg lbl d ws d' \<Longrightarrow> ops_inv cfg d \<Longrightarrow> polls_inv cfg d \<Longrightarrow> ops_inv cfg d'"
proof (induction rule: iocp_step.induct)
  case (st_submit ans w d cr d')
  then show ?case using ops_submit[of d ans w] by simp
next
  case (st_result t d r d')
  then show ?case using ops_result[of d t] by simp
next
  case (st_submit_poll env status k w want d res d')
  then show ?case using submit_poll_keeps_ops[of cfg env status k w want d] ops_inv_cong[of d' d] by simp
next
  case (st_batch es d ws d')
  then show ?case using batch_inv[of d es] by simp
next
  case (st_register port base bsp env h want mode d res d')
  then show ?case using ops_inv_cong[OF register_keeps(1,2)] by metis
next
  case (st_reregister k want d res d')
  then show ?case using ops_inv_cong[OF reregister_keeps(1,2)] by metis
next
  case (st_deregister k d res req d')
  then show ?case using ops_inv_cong[OF deregister_keeps(1,2)] by metis
qed (simp_all add: ops_waker ops_ignore)

lemma step_polls: "iocp_step cfg lbl d ws d' \<Longrightarrow> ops_inv cfg d \<Longrightarrow> polls_inv cfg d \<Longrightarrow> polls_inv cfg d'"
proof (induction rule: iocp_step.induct)
  case (st_submit ans w d cr d')
  then show ?case using polls_inv_cong[OF completion_calls_keep(1-3)[of cfg ans w d]] by simp
next
  case (st_result t d r d')
  then show ?case using polls_inv_cong[OF completion_calls_keep(4-6)[of cfg t d]] by simp
next
  case (st_submit_poll env status k w want d res d')
  then show ?case using polls_submit_poll[of d env status k w want] by simp
next
  case (st_batch es d ws d')
  then show ?case using batch_inv[of d es] by simp
next
  case (st_waker d t w)
  then show ?case by (blast intro: polls_inv_cong[OF completion_calls_keep(7-9)])
next
  case (st_ignore d t data)
  then show ?case by (blast intro: polls_inv_cong[OF completion_calls_keep(10-12)])
next
  case (st_register port base bsp env h want mode d res d')
  then show ?case using polls_register by metis
next
  case (st_reregister k want d res d')
  then show ?case using polls_reregister by metis
next
  case (st_deregister k d res req d')
  then show ?case using polls_deregister by metis
qed

lemma reach_inv: "iocp_reach cfg d \<Longrightarrow> ops_inv cfg d \<and> polls_inv cfg d"
proof (induction rule: iocp_reach.induct)
  case (iocp_start d)
  then show ?case by (auto simp: iocp_new_def ops_inv_def polls_inv_def comps.get_new polls.get_new regs.get_new)
qed (use step_ops step_polls in blast)

lemma submit_poll_other:
  assumes "k' \<noteq> k"
  shows "sl_get (ip_regs cfg) (id_regs (snd (iocp_submit_poll cfg env status k w want d))) k' = sl_get (ip_regs cfg) (id_regs d) k'"
proof (cases "\<exists>r. sl_get (ip_regs cfg) (id_regs d) k = Some (IocpPoll r)")
  case True
  then obtain r where r: "sl_get (ip_regs cfg) (id_regs d) k = Some (IocpPoll r)" by blast
  let ?r = "r\<lparr>ir_interest := want, ir_waiter := Some w\<rparr>"
  have g: "sl_get (ip_regs cfg) (id_regs (set_reg cfg k ?r d)) = (sl_get (ip_regs cfg) (id_regs d))(k \<mapsto> IocpPoll ?r)"
    using regs.get_set[OF r] by simp
  obtain res d' where a: "arm_poll_operation cfg env status k (ir_socket r) want (set_reg cfg k ?r d) = (res, d')" by fastforce
  show ?thesis
  proof (cases "ir_poll_token r")
    case None
    have "sl_get (ip_regs cfg) (id_regs d') k' = sl_get (ip_regs cfg) (id_regs d) k'"
      using arm_poll_effect[OF _ _ a, of ?r] g None assms by (auto split: sum.splits)
    then show ?thesis using r a None by (simp add: iocp_submit_poll_def Let_def)
  qed (use r g assms in \<open>simp add: iocp_submit_poll_def Let_def\<close>)
qed (auto simp: iocp_submit_poll_def split: option.splits iocp_handle.splits)

lemma register_other:
  assumes "iocp_register_handle_with_mode cfg port base bsp env h want mode d = Some (res, d')"
    and "sl_get (ip_regs cfg) (id_regs d) k = Some x"
  shows "sl_get (ip_regs cfg) (id_regs d') k = Some x"
proof (cases mode)
  case PollMode
  obtain a d1 where e: "ensure_afd_handle env d = (a, d1)" by fastforce
  then have g: "sl_get (ip_regs cfg) (id_regs d1) k = Some x" using assms(2) ensure_afd_keeps(5)[of env d] by simp
  show ?thesis using assms PollMode e g regs.vacant_fresh[OF g]
    by (auto simp: iocp_register_handle_with_mode_def regs.get_insert split: sum.splits option.splits)
next
  case CompletionMode
  then show ?thesis using assms regs.vacant_fresh[OF assms(2)]
    by (auto simp: iocp_register_handle_with_mode_def Let_def regs.get_insert regs.get_remove split: option.splits)
qed

end

text \<open>A task waits on a handle with a poll in flight.\<close>

definition waits_armed :: "('s, 'c, 'p, 'data) iocp_cfg \<Rightarrow> token \<Rightarrow> waker \<Rightarrow> ('s, 'c, 'p) iocp_driver \<Rightarrow> bool" where
  "waits_armed cfg k w d \<longleftrightarrow>
     (\<exists>r p. sl_get (ip_regs cfg) (id_regs d) k = Some (IocpPoll r) \<and> ir_waiter r = Some w \<and> ir_poll_token r = Some p)"

context iocp_slabs
begin

lemma submit_waits_armed:
  assumes "iocp_submit_poll cfg env status k w want d = (Inr u, d')"
  shows "waits_armed cfg k w d'"
proof -
  obtain r where r: "sl_get (ip_regs cfg) (id_regs d) k = Some (IocpPoll r)"
    using assms by (auto simp: iocp_submit_poll_def split: option.splits iocp_handle.splits)
  let ?r = "r\<lparr>ir_interest := want, ir_waiter := Some w\<rparr>"
  have g: "sl_get (ip_regs cfg) (id_regs (set_reg cfg k ?r d)) = (sl_get (ip_regs cfg) (id_regs d))(k \<mapsto> IocpPoll ?r)"
    using regs.get_set[OF r] by simp
  show ?thesis
  proof (cases "ir_poll_token r")
    case None
    then have a: "arm_poll_operation cfg env status k (ir_socket r) want (set_reg cfg k ?r d) = (Inr u, d')"
      using assms r by (simp add: iocp_submit_poll_def Let_def)
    show ?thesis using arm_poll_effect[OF _ _ a, of ?r] g None by (auto simp: waits_armed_def)
  qed (use assms r g in \<open>auto simp: waits_armed_def iocp_submit_poll_def Let_def\<close>)
qed

lemma second_direction:
  assumes "sl_get (ip_regs cfg) (id_regs d) k = Some (IocpPoll r)" and "ir_poll_token r = None"
    and "iocp_submit_poll cfg env status k w1 i1 d = (Inr u, d1)"
  shows "\<exists>d2 r2 p op. iocp_submit_poll cfg env' status' k w2 i2 d1 = (Inr (), d2) \<and>
    sl_get (ip_regs cfg) (id_regs d2) k = Some (IocpPoll r2) \<and> ir_waiter r2 = Some w2 \<and> ir_poll_token r2 = Some p \<and>
    id_kernel_polls d2 = id_kernel_polls d1 \<and>
    sl_get (ip_polls cfg) (id_polls d2) p = Some op \<and> po_events op = interest_to_afd_events i1"
proof -
  let ?r1 = "r\<lparr>ir_interest := i1, ir_waiter := Some w1\<rparr>"
  have g: "sl_get (ip_regs cfg) (id_regs (set_reg cfg k ?r1 d)) k = Some (IocpPoll ?r1)" using assms(1) by (simp add: regs.get_set)
  have a: "arm_poll_operation cfg env status k (ir_socket r) i1 (set_reg cfg k ?r1 d) = (Inr u, d1)"
    using assms by (simp add: iocp_submit_poll_def Let_def)
  obtain t where t: "sl_get (ip_regs cfg) (id_regs d1) k = Some (IocpPoll (?r1\<lparr>ir_poll_token := Some t\<rparr>))"
    "sl_get (ip_polls cfg) (id_polls d1) t = Some \<lparr>po_registration = k, po_socket = ir_socket r, po_events = interest_to_afd_events i1\<rparr>"
    using arm_poll_effect[OF g _ a] assms(2) by auto
  let ?r2 = "?r1\<lparr>ir_poll_token := Some t, ir_interest := i2, ir_waiter := Some w2\<rparr>"
  have "iocp_submit_poll cfg env' status' k w2 i2 d1 = (Inr (), set_reg cfg k ?r2 d1)"
    using t(1) by (simp add: iocp_submit_poll_def Let_def)
  moreover have "sl_get (ip_regs cfg) (id_regs (set_reg cfg k ?r2 d1)) k = Some (IocpPoll ?r2)"
    using t(1) by (simp add: regs.get_set)
  ultimately show ?thesis using t(2) by (intro exI conjI) (assumption | simp)+
qed

lemma entry_waits:
  assumes "waits_armed cfg k w d"
  shows "waits_armed cfg k w (snd (process_entry cfg e d)) \<or> w \<in> set (fst (process_entry cfg e d))"
  using assms
  by (auto simp: waits_armed_def process_entry_def afd_completed_def Let_def regs.get_set completion_calls_keep(15)
      split: option.splits iocp_handle.splits if_splits)

lemma batch_waits:
  "waits_armed cfg k w d \<Longrightarrow> waits_armed cfg k w (snd (process_entries cfg es d)) \<or> w \<in> set (fst (process_entries cfg es d))"
proof (induction es arbitrary: d)
  case (Cons e es)
  obtain ws d1 where e: "process_entry cfg e d = (ws, d1)" by fastforce
  show ?case using entry_waits[OF Cons.prems, of e] Cons.IH[of d1] e by (auto split: prod.splits)
qed simp

lemma waits_cong: "id_regs d' = id_regs d \<Longrightarrow> waits_armed cfg k w d \<Longrightarrow> waits_armed cfg k w d'"
  by (simp add: waits_armed_def)

lemma step_waits:
  "iocp_step cfg lbl d ws d' \<Longrightarrow> lbl \<noteq> Some k \<Longrightarrow> waits_armed cfg k w d \<Longrightarrow> waits_armed cfg k w d' \<or> w \<in> set ws"
proof (induction rule: iocp_step.induct)
  case (st_register port base bsp env h want mode d res d')
  then show ?case using register_other unfolding waits_armed_def by metis
next
  case (st_reregister k' want d res d')
  then show ?case
    by (auto simp: waits_armed_def iocp_reregister_handle_def regs.get_set split: option.splits iocp_handle.splits)
next
  case (st_deregister k' d res req d')
  then show ?case
    by (auto simp: waits_armed_def iocp_deregister_handle_def Let_def regs.get_remove split: option.splits)
next
  case (st_submit_poll env status k' v want d res d')
  then have "sl_get (ip_regs cfg) (id_regs d') k = sl_get (ip_regs cfg) (id_regs d) k"
    using submit_poll_other[of k k' env status v want d] by simp
  then show ?case using st_submit_poll by (simp add: waits_armed_def)
next
  case (st_submit ans v d cr d')
  then show ?case using waits_cong[OF completion_calls_keep(3)[of cfg ans v d]] by simp
next
  case (st_result t d r d')
  then show ?case using waits_cong[OF completion_calls_keep(6)[of cfg t d]] by simp
next
  case (st_batch es d ws d')
  then show ?case using batch_waits[of k w d es] by simp
qed (blast intro: waits_cong completion_calls_keep(9,12))+

lemma quiet_waits:
  "quiet_run cfg k d ws d' \<Longrightarrow> waits_armed cfg k w d \<Longrightarrow> waits_armed cfg k w d' \<or> w \<in> set ws"
  by (induction rule: quiet_run.induct) (auto dest: step_waits)

lemma quiet_reach: "quiet_run cfg k d ws d' \<Longrightarrow> iocp_reach cfg d \<Longrightarrow> iocp_reach cfg d'"
  by (induction rule: quiet_run.induct) (auto intro: iocp_reach.iocp_next)

end

section \<open>Properties\<close>

definition vec_iocp_cfg ::
  "(32 word \<Rightarrow> 32 word) \<Rightarrow> (iocp_handle option list, 'data iocp_completion option list, iocp_poll_op option list, 'data) iocp_cfg" where
  "vec_iocp_cfg to_dos = \<lparr>ip_regs = vec_slab_ops, ip_comps = vec_slab_ops, ip_polls = vec_slab_ops, ip_to_dos = to_dos\<rparr>"

interpretation vec_iocp: iocp_slabs "vec_iocp_cfg to_dos" for to_dos
  by (simp add: iocp_slabs_def vec_iocp_cfg_def vec_slab.slab_axioms)

text \<open>
  C17: The memory the kernel has is allocated, and nothing else is kept for it. In every reachable state each
  operation in flight has its context in the slab of completions, not yet completed; each poll
  in flight has its context in the slab of polls; and a context is kept only as long as the kernel
  has it. So the pointer in an entry of the port is never dangling, and no context leaks.
\<close>

theorem iocp_kernel_memory_alive:
  assumes "iocp_slabs cfg" and "iocp_reach cfg d"
  shows "(\<forall>t. t \<in> id_kernel_ops d \<longleftrightarrow> (\<exists>c. sl_get (ip_comps cfg) (id_comps d) t = Some c \<and> ic_overlapped c)) \<and>
    (\<forall>t. t \<in> id_kernel_polls d \<longleftrightarrow> (\<exists>op. sl_get (ip_polls cfg) (id_polls d) t = Some op))"
  using iocp_slabs.reach_inv[OF assms] by (auto simp: ops_inv_def polls_inv_def)

lemma afd_key_distinct: "AFD_POLL_COMPLETION_KEY \<noteq> INTERRUPT_KEY"
  by (simp add: AFD_POLL_COMPLETION_KEY_def INTERRUPT_KEY_def)


lemma read_events_exclude_send: "interest_to_afd_events READABLE AND AFD_POLL_SEND = 0"
  by (simp add: interest_to_afd_events_def afd_defs Let_def)

text \<open>
  Only one task can wait on a handle. While a reader waits, a task that waits to write on the same handle is told
  that it waits, but it takes the place of the reader, which is not woken, and no poll is added: the
  one in flight was asked for read events only. So the reader has lost its wakeup and the writer
  is not told when the socket becomes writable.
\<close>

theorem iocp_second_direction_is_lost:
  assumes "iocp_slabs cfg" and "sl_get (ip_regs cfg) (id_regs d) k = Some (IocpPoll r)" and "ir_poll_token r = None"
    and "iocp_submit_poll cfg env status k reader READABLE d = (Inr (), d1)"
  shows "\<exists>d2 r2 p op. iocp_submit_poll cfg env' status' k writer WRITABLE d1 = (Inr (), d2) \<and>
    sl_get (ip_regs cfg) (id_regs d2) k = Some (IocpPoll r2) \<and> ir_waiter r2 = Some writer \<and> ir_poll_token r2 = Some p \<and>
    id_kernel_polls d2 = id_kernel_polls d1 \<and>
    sl_get (ip_polls cfg) (id_polls d2) p = Some op \<and> po_events op AND AFD_POLL_SEND = 0"
  using iocp_slabs.second_direction[OF assms] read_events_exclude_send by metis

lemma ready_ends:
  fixes rank :: "'k \<Rightarrow> nat"
  assumes "\<forall>k es k'. port 0 k = (Inr es, k') \<longrightarrow> es \<noteq> [] \<longrightarrow> rank k' < rank k"
  shows "\<exists>res ws' d' k'. process_ready_completions cfg port ws d k = Some (res, ws', d', k') \<and>
    (\<forall>err. res = Inl err \<longrightarrow> (\<exists>j k''. port 0 j = (Inl err, k'')))"
proof (induction "rank k" arbitrary: k ws d rule: less_induct)
  case less
  obtain ans k1 where p: "port 0 k = (ans, k1)" by fastforce
  show ?case
  proof (cases ans)
    case (Inl err)
    then show ?thesis using p by (subst process_ready_completions.simps) (auto simp: process_batch_def)
  next
    case (Inr es)
    obtain ws1 d1 where b: "process_entries cfg es d = (ws1, d1)" by fastforce
    show ?thesis
    proof (cases "es = []")
      case True
      then show ?thesis using p Inr by (subst process_ready_completions.simps) (simp add: process_batch_def)
    next
      case False
      then have "rank k1 < rank k" using assms p Inr by blast
      from less[OF this, of "ws @ ws1" d1] show ?thesis using p Inr b False
        by (subst process_ready_completions.simps) (simp add: process_batch_def)
    qed
  qed
qed

text \<open>
  Draining the port ends when the port runs dry. If every batch that is not empty leaves less to come and
  the port reports no error but interruptions, \<open>flush\<close> returns without a panic.
\<close>

theorem iocp_flush_ends:
  fixes rank :: "'k \<Rightarrow> nat"
  assumes "\<forall>k es k'. port 0 k = (Inr es, k') \<longrightarrow> es \<noteq> [] \<longrightarrow> rank k' < rank k"
    and "\<forall>k err k'. port 0 k = (Inl err, k') \<longrightarrow> win_interrupted err"
  shows "\<exists>ws d' k'. iocp_flush cfg port d k = Some (Inr ws, d', k')"
proof -
  obtain res ws d' k' where r: "process_ready_completions cfg port [] d k = Some (res, ws, d', k')"
    "\<forall>err. res = Inl err \<longrightarrow> (\<exists>j k''. port 0 j = (Inl err, k''))"
    using ready_ends[where port = port and rank = rank, OF assms(1)] by metis
  show ?thesis using r assms(2) by (cases res) (auto simp: iocp_flush_def)
qed

text \<open>
  Resolving a layered socket ends when the providers are finitely many layers.
\<close>

theorem resolve_base_socket_ends:
  fixes depth :: "nat \<Rightarrow> nat"
  assumes "\<forall>s b. bsp s = Inr b \<longrightarrow> b \<noteq> s \<longrightarrow> depth b < depth s"
  shows "\<exists>r. resolve_base_socket base bsp s = Some r"
proof (induction "depth s" arbitrary: s rule: less_induct)
  case less
  then show ?case using assms
    by (subst resolve_base_socket.simps) (auto split: sum.splits)
qed

text \<open>A finite timeout of \<open>2 ^ 32 - 1\<close> milliseconds or more waits forever, as if there were none.\<close>

theorem iocp_long_timeout_is_infinite:
  "2 ^ 32 - 1 \<le> as_millis t \<Longrightarrow> duration_to_timeout_ms (Some t) = duration_to_timeout_ms None"
  by (simp add: duration_to_timeout_ms_def)

section \<open>Concrete runs\<close>

abbreviation demo_iocp_cfg ::
  "(iocp_handle option list, nat iocp_completion option list, iocp_poll_op option list, nat) iocp_cfg" where
  "demo_iocp_cfg \<equiv> vec_iocp_cfg id"

text \<open>A driver with one socket in poll mode.\<close>

definition demo_iocp :: "(iocp_handle option list, nat iocp_completion option list, iocp_poll_op option list) iocp_driver" where
  "demo_iocp = \<lparr>id_afd = True,
     id_regs = [Some (IocpPoll \<lparr>ir_socket = 7, ir_waiter = None, ir_interest = READ_WRITE, ir_poll_token = None\<rparr>)],
     id_comps = [], id_polls = [], id_kernel_ops = {}, id_kernel_polls = {}\<rparr>"

definition demo_afd :: afd_env where
  "demo_afd = \<lparr>ae_open = None, ae_port = None, ae_mode = None\<rparr>"

lemma demo_iocp_reach: "iocp_reach demo_iocp_cfg demo_iocp"
proof -
  have n: "iocp_new demo_iocp_cfg None = Inr \<lparr>id_afd = False, id_regs = [], id_comps = [], id_polls = [],
      id_kernel_ops = {}, id_kernel_polls = {}\<rparr>"
    by (simp add: iocp_new_def vec_iocp_cfg_def vec_slab_ops_def)
  have r: "iocp_register_handle_with_mode demo_iocp_cfg None (\<lambda>_. Inr 7) (\<lambda>_. Inr 7) demo_afd (SocketHandle 7) READ_WRITE PollMode
      \<lparr>id_afd = False, id_regs = [], id_comps = [], id_polls = [], id_kernel_ops = {}, id_kernel_polls = {}\<rparr> = Some (Inr 0, demo_iocp)"
    by (simp add: iocp_register_handle_with_mode_def raw_os_handle_to_socket_def resolve_base_socket.simps ensure_afd_handle_def
        demo_afd_def demo_iocp_def vec_iocp_cfg_def vec_slab_ops_def vec_insert_def vec_vacant_def)
  show ?thesis by (rule iocp_next[OF iocp_start[OF n] st_register[OF r]])
qed

lemma demo_iocp_submit:
  "iocp_submit_poll demo_iocp_cfg demo_afd STATUS_PENDING 0 (TaskWaker 3) READABLE demo_iocp =
   (Inr (), demo_iocp\<lparr>id_regs := [Some (IocpPoll \<lparr>ir_socket = 7, ir_waiter = Some (TaskWaker 3), ir_interest = READABLE, ir_poll_token = Some 0\<rparr>)],
      id_polls := [Some \<lparr>po_registration = 0, po_socket = 7, po_events = interest_to_afd_events READABLE\<rparr>], id_kernel_polls := {0}\<rparr>)"
  by (simp add: iocp_submit_poll_def arm_poll_operation_def set_reg_def ensure_afd_handle_def demo_iocp_def vec_iocp_cfg_def
      vec_slab_ops_def vec_get_def vec_insert_def vec_vacant_def Let_def)

theorem iocp_kernel_memory_alive_witness:
  "\<exists>op. sl_get (ip_polls demo_iocp_cfg)
     (id_polls (snd (iocp_submit_poll demo_iocp_cfg demo_afd STATUS_PENDING 0 (TaskWaker 3) READABLE demo_iocp))) 0 = Some op"
proof -
  have "iocp_reach demo_iocp_cfg (snd (iocp_submit_poll demo_iocp_cfg demo_afd STATUS_PENDING 0 (TaskWaker 3) READABLE demo_iocp))"
    using iocp_next[OF demo_iocp_reach st_submit_poll[OF demo_iocp_submit]] unfolding demo_iocp_submit by simp
  from iocp_kernel_memory_alive[OF vec_iocp.iocp_slabs_axioms this] show ?thesis unfolding demo_iocp_submit by auto
qed


theorem iocp_second_direction_is_lost_witness:
  "\<exists>d1 d2 r2. iocp_submit_poll demo_iocp_cfg demo_afd STATUS_PENDING 0 (TaskWaker 3) READABLE demo_iocp = (Inr (), d1) \<and>
     iocp_submit_poll demo_iocp_cfg demo_afd STATUS_PENDING 0 (TaskWaker 5) WRITABLE d1 = (Inr (), d2) \<and>
     sl_get (ip_regs demo_iocp_cfg) (id_regs d2) 0 = Some (IocpPoll r2) \<and> ir_waiter r2 = Some (TaskWaker 5)"
proof -
  have "sl_get (ip_regs demo_iocp_cfg) (id_regs demo_iocp) 0 =
      Some (IocpPoll \<lparr>ir_socket = 7, ir_waiter = None, ir_interest = READ_WRITE, ir_poll_token = None\<rparr>)"
    by (simp add: demo_iocp_def vec_iocp_cfg_def vec_slab_ops_def vec_get_def)
  from iocp_second_direction_is_lost[OF vec_iocp.iocp_slabs_axioms this _ demo_iocp_submit, of demo_afd STATUS_PENDING "TaskWaker 5"] demo_iocp_submit
  show ?thesis by fastforce
qed

theorem iocp_flush_ends_witness:
  "\<exists>ws d' k'. iocp_flush demo_iocp_cfg (\<lambda>timeout k. case k of [] \<Rightarrow> (Inr [], []) | b # bs \<Rightarrow> (Inr b, bs)) demo_iocp
     [[\<lparr>oe_key = INTERRUPT_KEY, oe_token = None, oe_internal = 0, oe_bytes = 0\<rparr>], []] = Some (Inr ws, d', k')"
  by (rule iocp_flush_ends[where rank = length]) (auto split: list.splits)

end
