(* ===== verification/Probing.thy ===== *)
theory Probing
  imports Io_Ops
begin

text \<open>
  The probes of \<open>util/mod.rs\<close>. The ring that is built for the probe and the operations it reports are
  answers. \<open>fs\<close>, \<open>statx\<close> and \<open>spliced\<close> tell what the crate was compiled with.
\<close>

datatype opcode = AcceptOp | ConnectOp | PollAddOp | TimeoutOp | ReadOp | ReadvOp | RecvOp | RecvMsgOp | SendOp | SendMsgOp
  | WriteOp | WritevOp | OpenAtOp | FsyncOp | MkDirAtOp | RenameAtOp | LinkAtOp | SymlinkAtOp | UnlinkAtOp | StatxOp | SpliceOp

definition required_ops :: "bool \<Rightarrow> bool \<Rightarrow> bool \<Rightarrow> opcode list" where
  "required_ops fs statx spliced =
     [AcceptOp, ConnectOp, PollAddOp, TimeoutOp, ReadOp, ReadvOp, RecvOp, RecvMsgOp, SendOp, SendMsgOp, WriteOp, WritevOp] @
     (if fs then [OpenAtOp, FsyncOp, MkDirAtOp, RenameAtOp, LinkAtOp, SymlinkAtOp, UnlinkAtOp] else []) @
     (if fs \<and> statx then [StatxOp] else []) @ (if spliced then [SpliceOp] else [])"

text \<open>A ring with the preferred flags, or else one without any.\<close>

definition build_probe_ring :: "'r io_result \<Rightarrow> 'r io_result \<Rightarrow> 'r io_result" where
  "build_probe_ring flagged plain = (case flagged of Inr r \<Rightarrow> Inr r | Inl _ \<Rightarrow> plain)"

definition detect_io_uring_support ::
  "bool \<Rightarrow> bool \<Rightarrow> bool \<Rightarrow> 'r io_result \<Rightarrow> 'r io_result \<Rightarrow> ('r \<Rightarrow> os_answer) \<Rightarrow> (opcode \<Rightarrow> bool) \<Rightarrow> bool" where
  "detect_io_uring_support fs statx spliced flagged plain register_probe is_supported =
     (case build_probe_ring flagged plain of
        Inl _ \<Rightarrow> False
      | Inr ring \<Rightarrow>
          (case register_probe ring of
             Some _ \<Rightarrow> False
           | None \<Rightarrow> list_all is_supported (required_ops fs statx spliced)))"

text \<open>The answer is kept for the rest of the program.\<close>

definition supports_io_uring :: "bool \<Rightarrow> bool option \<Rightarrow> bool \<times> bool option" where
  "supports_io_uring detected cache = (case cache of Some b \<Rightarrow> (b, cache) | None \<Rightarrow> (detected, Some detected))"

definition supports_completion :: "('ms, 'r, 's, 'c) any_driver option \<Rightarrow> bool" where
  "supports_completion current = (case current of None \<Rightarrow> False | Some drv \<Rightarrow> any_supports_completion drv)"

section \<open>What the probe covers\<close>

text \<open>The opcode of an entry, and whether the operation behind it is compiled.\<close>

fun opcode_of :: "op_entry \<Rightarrow> opcode" where
  "opcode_of (ReadE fd n off) = ReadOp"
| "opcode_of (WriteE fd n off) = WriteOp"
| "opcode_of (SendE fd n) = SendOp"
| "opcode_of (RecvE fd n peek) = RecvOp"
| "opcode_of (ReadvE fd ns) = ReadvOp"
| "opcode_of (WritevE fd ns) = WritevOp"
| "opcode_of (SendMsgE fd a l n) = SendMsgOp"
| "opcode_of (RecvMsgE fd n peek) = RecvMsgOp"
| "opcode_of (SpliceE i out n) = SpliceOp"
| "opcode_of (FsyncE fd b) = FsyncOp"
| "opcode_of (AcceptE fd b) = AcceptOp"
| "opcode_of (ConnectE fd a) = ConnectOp"
| "opcode_of (OpenAtE p fl m) = OpenAtOp"
| "opcode_of (MkDirAtE p m) = MkDirAtOp"
| "opcode_of (UnlinkAtE p b) = UnlinkAtOp"
| "opcode_of (RenameAtE p q) = RenameAtOp"
| "opcode_of (SymlinkAtE p q) = SymlinkAtOp"
| "opcode_of (LinkAtE p q) = LinkAtOp"
| "opcode_of (StatxE fd p fl m) = StatxOp"

fun sqe_opcode :: "op_entry sqe_op \<Rightarrow> opcode" where
  "sqe_opcode (PollAdd fd m) = PollAddOp"
| "sqe_opcode (ReadEventfd fd) = ReadOp"
| "sqe_opcode (TimeoutSqe t) = TimeoutOp"
| "sqe_opcode (OpSqe e) = opcode_of e"

fun compiled :: "bool \<Rightarrow> bool \<Rightarrow> bool \<Rightarrow> op_entry sqe_op \<Rightarrow> bool" where
  "compiled fs statx spliced (OpSqe (SpliceE i out n)) = spliced"
| "compiled fs statx spliced (OpSqe (StatxE fd p fl m)) = (fs \<and> statx)"
| "compiled fs statx spliced (OpSqe e) =
     (if opcode_of e \<in> {OpenAtOp, FsyncOp, MkDirAtOp, RenameAtOp, LinkAtOp, SymlinkAtOp, UnlinkAtOp} then fs else True)"
| "compiled fs statx spliced e = True"

text \<open>
  C39: A positive probe covers every entry. When support is detected, the kernel knows the opcode of every
  entry that an operation of the compiled crate or the driver itself submits.
\<close>

theorem probe_covers_every_entry:
  assumes "detect_io_uring_support fs statx spliced flagged plain register_probe is_supported"
    and "compiled fs statx spliced e"
  shows "is_supported (sqe_opcode e)"
proof -
  have "list_all is_supported (required_ops fs statx spliced)"
    using assms(1) by (auto simp: detect_io_uring_support_def split: sum.splits option.splits)
  moreover have "sqe_opcode e \<in> set (required_ops fs statx spliced)"
    using assms(2)
  proof (cases e)
    case (OpSqe x)
    then show ?thesis using assms(2) by (cases x) (auto simp: required_ops_def split: if_splits)
  qed (simp_all add: required_ops_def)
  ultimately show ?thesis by (simp add: list_all_iff)
qed

theorem probe_covers_every_entry_witness:
  "detect_io_uring_support True True False (Inl (Os EINVAL)) (Inr ()) (\<lambda>_. None) (\<lambda>x. x \<noteq> SpliceOp) \<and>
   sqe_opcode (OpSqe (StatxE 3 ''x'' 0 0)) \<noteq> SpliceOp"
proof -
  have d: "detect_io_uring_support True True False (Inl (Os EINVAL)) (Inr ()) (\<lambda>_. None) (\<lambda>x. x \<noteq> SpliceOp)"
    by (simp add: detect_io_uring_support_def build_probe_ring_def required_ops_def)
  show ?thesis using probe_covers_every_entry[OF d, of "OpSqe (StatxE 3 ''x'' 0 0)"] d by simp
qed

end
