(* ===== verification/Io_Wakeups.thy ===== *)
theory Io_Wakeups
  imports Any_Driver Scheduler
begin

text \<open>
  The executor and its driver together: how a readiness event reaches the task that waits for
  it. \<open>event_driver\<close> is what the loop of \<open>block_on\<close> relies on when it waits: the stored waker of
  a slot (a handle and a direction) is woken and taken exactly when the operating system reports
  that slot. The readiness driver, the completion driver and the driver a runtime is built with
  have these laws. \<open>io_runtime\<close> composes them with the executor's queues and with the contract of
  \<open>submit_poll\<close>.
\<close>

section \<open>The contract of a wait\<close>

locale event_driver =
  fixes waits :: "'d \<Rightarrow> token \<Rightarrow> bool \<Rightarrow> waker option"
    and collect :: "duration option \<Rightarrow> 'd \<Rightarrow> (waker list \<times> 'd) option"
    and reports :: "duration option \<Rightarrow> 'd \<Rightarrow> token \<Rightarrow> bool \<Rightarrow> bool"
  assumes reported_woken: "collect t d = Some (ws, d') \<Longrightarrow> reports t d k dir \<Longrightarrow>
      waits d' k dir = None \<and> set_option (waits d k dir) \<subseteq> set ws"
    and unreported_kept: "collect t d = Some (ws, d') \<Longrightarrow> \<not> reports t d k dir \<Longrightarrow>
      waits d' k dir = waits d k dir"
begin

lemma waiter_kept_or_woken:
  assumes "collect t d = Some (ws, d')" and "waits d k dir = Some w"
  shows "waits d' k dir = Some w \<or> w \<in> set ws"
  using reported_woken[OF assms(1), of k dir] unreported_kept[OF assms(1), of k dir] assms(2) by auto

end

section \<open>The readiness driver\<close>

definition event_ready :: "bool \<Rightarrow> mio_event \<Rightarrow> bool" where
  "event_ready dir e = (if dir then write_ready e else read_ready e)"

definition mio_reports :: "mio_event list io_result \<Rightarrow> token \<Rightarrow> bool \<Rightarrow> bool" where
  "mio_reports evs k dir \<longleftrightarrow> k \<noteq> interrupt_token \<and>
     (case evs of Inl _ \<Rightarrow> False | Inr es \<Rightarrow> \<exists>e \<in> set es. ev_token e = k \<and> event_ready dir e)"

lemma woken_member:
  "read_ready e \<Longrightarrow> waiter_read r = Some w \<Longrightarrow> w \<in> set (woken_by e r)"
  "write_ready e \<Longrightarrow> waiter_write r = Some w \<Longrightarrow> w \<in> set (woken_by e r)"
proof -
  show "w \<in> set (woken_by e r)" if "read_ready e" "waiter_read r = Some w"
  proof -
    have "\<exists>ws. woken_by e r = [w] @ ws" using that unfolding woken_by_def by simp
    then show ?thesis by auto
  qed
  show "w \<in> set (woken_by e r)" if "write_ready e" "waiter_write r = Some w"
  proof -
    have "\<exists>ws. woken_by e r = ws @ [w]" using that unfolding woken_by_def by simp
    then show ?thesis by auto
  qed
qed

context mio_slab
begin

lemma event_slot:
  assumes "handle_event ops e d = (ws, d')"
  shows "if ev_token e = k \<and> k \<noteq> interrupt_token \<and> event_ready dir e
    then mio_waits ops d' k dir = None \<and> set_option (mio_waits ops d k dir) \<subseteq> set ws
    else mio_waits ops d' k dir = mio_waits ops d k dir"
proof (cases "ev_token e = interrupt_token \<or> sl_get ops (md_regs d) (ev_token e) = None")
  case True
  then have "d' = d" using assms by (auto simp: handle_event_def split: if_splits)
  then show ?thesis using True by (auto simp: mio_waits_def Option.bind_def)
next
  case False
  then obtain r where r: "sl_get ops (md_regs d) (ev_token e) = Some r" by auto
  have "ws = woken_by e r" "md_regs d' = sl_set ops (md_regs d) (ev_token e) (after_event e r)"
    using assms False r by (auto simp: handle_event_def)
  moreover have "waiter_read (after_event e r) = (if read_ready e then None else waiter_read r)"
      "waiter_write (after_event e r) = (if write_ready e then None else waiter_write r)"
    by (simp_all add: after_event_def)
  moreover have "read_ready e \<longrightarrow> set_option (waiter_read r) \<subseteq> set (woken_by e r)"
      "write_ready e \<longrightarrow> set_option (waiter_write r) \<subseteq> set (woken_by e r)"
    using woken_member[of e r] by auto
  ultimately show ?thesis using False r
    by (cases "ev_token e = k") (auto simp: mio_waits_def event_ready_def get_set[OF r])
qed

lemma events_slot:
  assumes "handle_events ops es d = (ws, d')"
  shows "if mio_reports (Inr es) k dir
    then mio_waits ops d' k dir = None \<and> set_option (mio_waits ops d k dir) \<subseteq> set ws
    else mio_waits ops d' k dir = mio_waits ops d k dir"
  using assms
proof (induction es arbitrary: d ws)
  case Nil
  then show ?case by (simp add: mio_reports_def)
next
  case (Cons e es)
  obtain ws1 d1 where e: "handle_event ops e d = (ws1, d1)" by fastforce
  obtain ws2 where es: "handle_events ops es d1 = (ws2, d')" and ws: "ws = ws1 @ ws2"
    using Cons.prems by (auto simp: e split: prod.splits)
  show ?case using event_slot[OF e, of k dir] Cons.IH[OF es]
    by (auto simp: mio_reports_def ws split: if_splits)
qed

lemma mio_is_event_driver:
  "event_driver (mio_waits ops) (\<lambda>t. wait_timeout ops evs) (\<lambda>t d. mio_reports evs)"
proof
  fix d d' ws k dir
  assume w: "wait_timeout ops evs d = Some (ws, d')"
  have "if mio_reports evs k dir
    then mio_waits ops d' k dir = None \<and> set_option (mio_waits ops d k dir) \<subseteq> set ws
    else mio_waits ops d' k dir = mio_waits ops d k dir"
  proof (cases evs)
    case (Inl err)
    then show ?thesis using w by (auto simp: wait_timeout_def mio_reports_def split: if_splits)
  next
    case (Inr es)
    then show ?thesis using w events_slot[of es d ws d' k dir] by (simp add: wait_timeout_def)
  qed
  then show "mio_reports evs k dir \<Longrightarrow>
      mio_waits ops d' k dir = None \<and> set_option (mio_waits ops d k dir) \<subseteq> set ws"
    and "\<not> mio_reports evs k dir \<Longrightarrow> mio_waits ops d' k dir = mio_waits ops d k dir" by simp_all
qed

end

section \<open>The completion driver\<close>

text \<open>The entries that \<open>drain_cq\<close> takes as the end of the poll of handle \<open>k\<close> in one direction.\<close>

definition ends_poll :: "token \<Rightarrow> bool \<Rightarrow> cqe \<Rightarrow> bool" where
  "ends_poll k dir e \<longleftrightarrow> cqe_key e \<notin> {interrupt_key, timeout_key} \<and> decode_token (cqe_key e) = k \<and>
     decode_key_kind (cqe_key e) = (if dir then POLL_WRITE_KEY_KIND else POLL_READ_KEY_KIND)"

text \<open>The entries one \<open>collect_completions\<close> finds in the completion queue.\<close>

definition arrivals ::
  "('r, 's, 'c, 'op, 'data) uring_cfg \<Rightarrow> bool \<Rightarrow> duration option \<Rightarrow> ('r, 's, 'c) uring_driver \<Rightarrow> cqe list" where
  "arrivals cfg wait_for_one timeout d =
     (let (res, r1) = (if wait_for_one \<or> \<not> rg_sq_empty (u_ring cfg) (ud_ring d)
                       then submit_and_collect cfg wait_for_one timeout d else (Inr 0, ud_ring d))
      in case submitter_call_result res of Inl _ \<Rightarrow> [] | Inr _ \<Rightarrow> fst (rg_completions (u_ring cfg) r1))"

definition uring_reports ::
  "('r, 's, 'c, 'op, 'data) uring_cfg \<Rightarrow> duration option \<Rightarrow> ('r, 's, 'c) uring_driver \<Rightarrow> token \<Rightarrow> bool \<Rightarrow> bool" where
  "uring_reports cfg timeout d k dir \<longleftrightarrow> (\<exists>e \<in> set (arrivals cfg True timeout d). ends_poll k dir e)"

lemma uring_waits_cong: "ud_regs d' = ud_regs d \<Longrightarrow> uring_waits cfg d' = uring_waits cfg d"
  by (simp add: uring_waits_def fun_eq_iff)

lemma submit_interrupt_comps: "submit_interrupt cfg d = Some d' \<Longrightarrow> ud_comps d' = ud_comps d"
  by (auto simp: submit_interrupt_def dest: push_entry_frame(2) split: prod.splits sum.splits)

text \<open>A wait that returns has drained the arrivals into the registrations.\<close>

lemma collect_drains:
  assumes "uring_collect_or_panic (collect_completions cfg one timeout d) = Some (ws, d')"
  shows "\<exists>d1 b d2. ud_regs d1 = ud_regs d \<and> ud_comps d1 = ud_comps d \<and>
    drain_cq cfg (arrivals cfg one timeout d) d1 = (ws, b, d2) \<and> ud_regs d' = ud_regs d2 \<and> ud_comps d' = ud_comps d2"
proof -
  define s where "s = (one \<or> \<not> rg_sq_empty (u_ring cfg) (ud_ring d))"
  obtain res r1 where sub: "(if s then submit_and_collect cfg one timeout d else (Inr 0, ud_ring d)) = (res, r1)"
    by fastforce
  show ?thesis
  proof (cases "submitter_call_result res")
    case (Inl err)
    then have "ws = []" "d' = d\<lparr>ud_ring := r1\<rparr>" "arrivals cfg one timeout d = []"
      using assms sub by (auto simp: uring_collect_or_panic_def collect_completions_def arrivals_def
          s_def[symmetric] Let_def split: if_splits)
    then show ?thesis by (intro exI[of _ d] exI[of _ False]) (simp add: drain_cq_def)
  next
    case (Inr u)
    obtain cqes r2 where c: "rg_completions (u_ring cfg) r1 = (cqes, r2)" by fastforce
    define d1 where "d1 = d\<lparr>ud_pending_submissions := s \<and> \<not> rg_sq_empty (u_ring cfg) r1, ud_ring := r2\<rparr>"
    obtain ws' b d2 where dr: "drain_cq cfg cqes d1 = (ws', b, d2)" by (metis prod_cases3)
    have a: "arrivals cfg one timeout d = cqes"
      using sub Inr c by (simp add: arrivals_def s_def[symmetric] Let_def)
    have "uring_collect_or_panic (if b then map_option (\<lambda>d3. (Inr (), ws', d3)) (submit_interrupt cfg d2)
        else Some (Inr (), ws', d2)) = Some (ws, d')"
      using assms sub Inr c dr[unfolded d1_def]
      by (simp add: collect_completions_def s_def[symmetric] Let_def)
    then have "ws = ws'" "ud_regs d' = ud_regs d2" "ud_comps d' = ud_comps d2"
      by (auto simp: uring_collect_or_panic_def submit_interrupt_frame submit_interrupt_comps split: if_splits option.splits)
    then show ?thesis using dr a by (intro exI[of _ d1]) (simp add: d1_def)
  qed
qed

definition regs_wait :: "('r, 's, 'c, 'op, 'data) uring_cfg \<Rightarrow> 's \<Rightarrow> token \<Rightarrow> bool \<Rightarrow> waker option" where
  "regs_wait cfg rs k dir = (case sl_get (u_regs cfg) rs k of
     Some (PollReg p) \<Rightarrow> (if dir then pr_waiter_write p else pr_waiter_read p) | _ \<Rightarrow> None)"

lemma uring_waits_regs: "uring_waits cfg d k dir = regs_wait cfg (ud_regs d) k dir"
  by (simp add: uring_waits_def regs_wait_def)

context uring_slabs
begin

lemma cqe_slot:
  assumes "process_cqe cfg e (rs, cs, ws, b) = (rs', cs', ws', b')"
  shows "set ws \<subseteq> set ws'" and "if ends_poll k dir e
    then regs_wait cfg rs' k dir = None \<and> set_option (regs_wait cfg rs k dir) \<subseteq> set ws'
    else regs_wait cfg rs' k dir = regs_wait cfg rs k dir"
proof -
  have kinds: "POLL_READ_KEY_KIND \<noteq> POLL_WRITE_KEY_KIND"
    by (simp add: POLL_READ_KEY_KIND_def POLL_WRITE_KEY_KIND_def)
  show "set ws \<subseteq> set ws'" using assms
    by (auto simp: process_cqe_def Let_def split: if_splits option.splits handle_registration.splits prod.splits)
  show "if ends_poll k dir e
    then regs_wait cfg rs' k dir = None \<and> set_option (regs_wait cfg rs k dir) \<subseteq> set ws'
    else regs_wait cfg rs' k dir = regs_wait cfg rs k dir"
    using assms kinds
    by (cases dir) (auto simp: process_cqe_def Let_def ends_poll_def regs_wait_def take_poll_waiter_def regs.get_set
        split: if_splits option.splits handle_registration.splits)
qed

lemma cqes_slot:
  assumes "fold (process_cqe cfg) es (rs, cs, ws, b) = (rs', cs', ws', b')"
  shows "set ws \<subseteq> set ws' \<and> (if \<exists>e \<in> set es. ends_poll k dir e
    then regs_wait cfg rs' k dir = None \<and> set_option (regs_wait cfg rs k dir) \<subseteq> set ws'
    else regs_wait cfg rs' k dir = regs_wait cfg rs k dir)"
  using assms
proof (induction es arbitrary: rs cs ws b)
  case (Cons e es)
  obtain rs1 cs1 ws1 b1 where p: "process_cqe cfg e (rs, cs, ws, b) = (rs1, cs1, ws1, b1)"
    by (metis prod_cases4)
  have f: "fold (process_cqe cfg) es (rs1, cs1, ws1, b1) = (rs', cs', ws', b')" using Cons.prems p by simp
  show ?case using Cons.IH[OF f] cqe_slot(1)[OF p] cqe_slot(2)[OF p, of k dir]
    by (auto split: if_splits)
qed simp

lemma uring_is_event_driver: "event_driver (uring_waits cfg) (uring_wait cfg) (uring_reports cfg)"
proof
  fix t d d' ws k dir
  assume "uring_wait cfg t d = Some (ws, d')"
  then obtain d1 b d2 where d: "ud_regs d1 = ud_regs d" "drain_cq cfg (arrivals cfg True t d) d1 = (ws, b, d2)"
      "ud_regs d' = ud_regs d2"
    using collect_drains[of cfg True t d ws d'] by (auto simp: uring_wait_def)
  obtain rs cs ws' b' where f: "fold (process_cqe cfg) (arrivals cfg True t d) (ud_regs d1, ud_comps d1, [], False)
      = (rs, cs, ws', b')" by (metis prod_cases4)
  have "ws' = ws" "rs = ud_regs d2" using d(2) f by (auto simp: drain_cq_def)
  then have slot: "if uring_reports cfg t d k dir
    then uring_waits cfg d' k dir = None \<and> set_option (uring_waits cfg d k dir) \<subseteq> set ws
    else uring_waits cfg d' k dir = uring_waits cfg d k dir"
    using cqes_slot[OF f, of k dir] by (auto simp: uring_reports_def uring_waits_regs d(1,3) split: if_splits)
  then show "uring_reports cfg t d k dir \<Longrightarrow>
      uring_waits cfg d' k dir = None \<and> set_option (uring_waits cfg d k dir) \<subseteq> set ws"
    and "\<not> uring_reports cfg t d k dir \<Longrightarrow> uring_waits cfg d' k dir = uring_waits cfg d k dir" by simp_all
qed

end

text \<open>The key that \<open>submit_poll\<close> gives to a poll is reported for its own slot.\<close>

lemma ends_poll_own_key:
  assumes "k < 2 ^ 62 - 1"
  shows "ends_poll k' dir' \<lparr>cqe_key = encode_poll_key k dir, cqe_result = n\<rparr> \<longleftrightarrow> (k' = k \<and> dir' = dir)"
proof -
  let ?kind = "if dir then POLL_WRITE_KEY_KIND else POLL_READ_KEY_KIND"
  have kind: "?kind < 3" by (simp add: POLL_WRITE_KEY_KIND_def POLL_READ_KEY_KIND_def)
  have k: "k < 2 ^ 62" using assms by simp
  have "encode_poll_key k dir \<noteq> interrupt_key" "encode_poll_key k dir \<noteq> timeout_key"
    using decode_kind_make_key[of ?kind k] decode_token_make_key[OF k, of ?kind] special_keys assms kind
    by (auto simp: encode_make_key)
  moreover have "decode_token (encode_poll_key k dir) = k" "decode_key_kind (encode_poll_key k dir) = ?kind"
    using decode_kind_make_key[of ?kind k] decode_token_make_key[OF k, of ?kind] kind
    by (simp_all add: encode_make_key)
  ultimately show ?thesis by (auto simp: ends_poll_def POLL_WRITE_KEY_KIND_def POLL_READ_KEY_KIND_def)
qed

section \<open>The driver of the runtime\<close>

fun any_reports ::
  "('ms, 'r, 's, 'c, 'op, 'data) driver_cfg \<Rightarrow> mio_event list io_result \<Rightarrow> duration option
   \<Rightarrow> ('ms, 'r, 's, 'c) any_driver \<Rightarrow> token \<Rightarrow> bool \<Rightarrow> bool" where
  "any_reports cfg evs t (Mio d) k dir = mio_reports evs k dir"
| "any_reports cfg evs t MockDriver k dir = False"
| "any_reports cfg evs t (IoUring d) k dir = uring_reports (dc_uring cfg) t d k dir"

sublocale mio_slab \<subseteq> mio_events: event_driver "mio_waits ops" "\<lambda>t. wait_timeout ops evs" "\<lambda>t d. mio_reports evs"
  for evs by (rule mio_is_event_driver)

sublocale uring_slabs \<subseteq> uring_events: event_driver "uring_waits cfg" "uring_wait cfg" "uring_reports cfg"
  by (rule uring_is_event_driver)

sublocale any_slabs \<subseteq> any_events: event_driver "any_waits cfg" "any_wait cfg evs" "any_reports cfg evs" for evs
proof
  fix t ws k dir and d d' :: "('ms, 'r, 's, 'c) any_driver"
  assume c: "any_wait cfg evs t d = Some (ws, d')"
  show "any_reports cfg evs t d k dir \<Longrightarrow>
      any_waits cfg d' k dir = None \<and> set_option (any_waits cfg d k dir) \<subseteq> set ws"
    using c by (cases d) (auto dest: m.mio_events.reported_woken u.uring_events.reported_woken)
  show "\<not> any_reports cfg evs t d k dir \<Longrightarrow> any_waits cfg d' k dir = any_waits cfg d k dir"
    using c by (cases d) (auto dest: m.mio_events.unreported_kept u.uring_events.unreported_kept)
qed

context any_slabs
begin

lemmas is_event_driver = any_events.event_driver_axioms

end

section \<open>Executor and driver together\<close>

context exec_queues
begin

lemma wake_queues:
  assumes "exec_inv contents st" and "tasks st i \<noteq> None"
  shows "i \<in> set (queue_of contents (wake cfg same (TaskWaker i) st))"
proof -
  obtain t where t: "tasks st i = Some t" using assms(2) by auto
  have "is_queued (wake cfg same (TaskWaker i) st) i"
    using t by (auto simp: is_queued_def enqueue_if_needed_def Let_def split: option.splits)
  then show ?thesis using wake_inv[OF assms(1), of same "TaskWaker i"] unfolding exec_inv_def by blast
qed

lemma wake_keeps_queued:
  assumes "exec_inv contents st" and "i \<in> set (queue_of contents st)"
  shows "i \<in> set (queue_of contents (wake cfg same w st))"
proof -
  have "is_queued st i" using assms by (simp add: exec_inv_def)
  then have "is_queued (wake cfg same w st) i"
    by (cases w) (auto simp: is_queued_def root_wake_def enqueue_if_needed_def Let_def split: option.splits)
  then show ?thesis using wake_inv[OF assms(1), of same w] unfolding exec_inv_def by blast
qed

lemma wake_all_keeps_queued:
  assumes "exec_inv contents st" and "i \<in> set (queue_of contents st)"
  shows "i \<in> set (queue_of contents (wake_all cfg ws st))"
  using assms unfolding wake_all_def
  by (induction ws arbitrary: st) (simp_all add: wake_inv wake_keeps_queued)

lemma wake_all_queues:
  assumes "exec_inv contents st" and "tasks st i \<noteq> None" and "TaskWaker i \<in> set ws"
  shows "i \<in> set (queue_of contents (wake_all cfg ws st))"
proof -
  obtain us vs where ws: "ws = us @ TaskWaker i # vs" using assms(3) by (meson split_list)
  have inv: "exec_inv contents (wake_all cfg us st)" by (rule wake_all_inv[OF assms(1)])
  have "tasks (wake_all cfg us st) i \<noteq> None" using assms(2) by (simp add: wake_all_task_exists)
  from wake_all_keeps_queued[OF wake_inv[OF inv] wake_queues[OF inv this], of vs True]
  show ?thesis by (simp add: ws wake_all_def)
qed

text \<open>A waiting iteration queues every task whose waker the driver returned.\<close>

lemma iteration_wakes:
  assumes "uses_api cfg pu" and "0 < batch_size st" and "exec_inv contents st"
    and "block_on_iter cfg pu now1 now2 root st = Some (Waited dl root', st')"
    and d: "d = rt_driver (after_root pu root st)" and t: "tasks (after_root pu root st) i \<noteq> None"
  shows "rt_driver st' = snd (c_wait cfg dl d)"
    and "TaskWaker i \<in> set (fst (c_wait cfg dl d)) \<Longrightarrow> i \<in> set (queue_of contents st')"
proof -
  obtain idle where f: "waited_from cfg now2 dl idle st'" and di: "rt_driver idle = d"
    and ti: "tasks idle i \<noteq> None" and inv: "exec_inv contents idle"
    using waited_iteration[OF assms(1,2,4)] d t assms(3) by metis
  obtain ws d' where cw: "c_wait cfg dl d = (ws, d')"
    and st': "st' = stop_waiting (wake_all cfg ws (idle\<lparr>rt_driver := d'\<rparr>))"
    using f di by (auto simp: waited_from_def)
  show "rt_driver st' = snd (c_wait cfg dl d)" by (simp add: st' stop_waiting_def cw)
  have "queue_of contents st' = queue_of contents (wake_all cfg ws (idle\<lparr>rt_driver := d'\<rparr>))"
    by (simp add: st' stop_waiting_def queue_of_def)
  moreover have "i \<in> set (queue_of contents (wake_all cfg ws (idle\<lparr>rt_driver := d'\<rparr>)))" if "TaskWaker i \<in> set ws"
    by (rule wake_all_queues) (use inv ti that in simp_all)
  ultimately show "TaskWaker i \<in> set (fst (c_wait cfg dl d)) \<Longrightarrow> i \<in> set (queue_of contents st')"
    by (simp add: cw)
qed

lemma queued_in_next_batch:
  "set (fst (drain_ready cfg (length (queue_of contents st)) st)) = set (queue_of contents st)"
proof -
  obtain batch st'' where "drain_ready cfg (length (queue_of contents st)) st = (batch, st'')" by fastforce
  then show ?thesis using drain_ready_queue(1) by fastforce
qed

end

locale io_runtime = exec_queues cfg contents + poll_driver waits submit + event_driver waits collect reports
  for cfg :: "('q, 's, 'd) exec_cfg" and contents :: "'q \<Rightarrow> task_id list"
    and waits :: "'d \<Rightarrow> token \<Rightarrow> bool \<Rightarrow> waker option"
    and submit :: "os_answer \<Rightarrow> token \<Rightarrow> waker \<Rightarrow> interest \<Rightarrow> 'd \<Rightarrow> unit io_result \<times> 'd"
    and collect :: "duration option \<Rightarrow> 'd \<Rightarrow> (waker list \<times> 'd) option"
    and reports :: "duration option \<Rightarrow> 'd \<Rightarrow> token \<Rightarrow> bool \<Rightarrow> bool"
begin

text \<open>A waiting iteration hands every reported waker to the queues and keeps the rest.\<close>

lemma iteration_schedules_waiter:
  assumes "uses_api cfg pu" and "0 < batch_size st" and "exec_inv contents st"
    and "block_on_iter cfg pu now1 now2 root st = Some (Waited dl root', st')"
    and d: "d = rt_driver (after_root pu root st)" and c: "collect dl d = Some (c_wait cfg dl d)"
    and w: "waits d k dir = Some (TaskWaker i)" and t: "tasks (after_root pu root st) i \<noteq> None"
  shows "if reports dl d k dir then i \<in> set (queue_of contents st') \<and> waits (rt_driver st') k dir = None
    else waits (rt_driver st') k dir = Some (TaskWaker i)"
proof -
  obtain ws d' where cw: "c_wait cfg dl d = (ws, d')" by fastforce
  note I = iteration_wakes[OF assms(1-5) t, unfolded cw fst_conv snd_conv]
  show ?thesis using I w reported_woken[OF c[unfolded cw], of k dir] unreported_kept[OF c[unfolded cw], of k dir] by auto
qed

lemma submitted_poll_is_scheduled:
  assumes "uses_api cfg pu" and "0 < batch_size st" and "exec_inv contents st"
    and "block_on_iter cfg pu now1 now2 root st = Some (Waited dl root', st')"
    and s: "submit ans k (TaskWaker i) want d0 = (Inr u, d1)" "want \<noteq> READ_WRITE"
    and o: "\<And>a k' w' x. (a, k', w', x) \<in> set xs \<Longrightarrow> x \<noteq> READ_WRITE \<and> (k, is_writable want) \<noteq> (k', is_writable x)"
    and d: "rt_driver (after_root pu root st) = fold (\<lambda>(a, k, w, x) d. snd (submit a k w x d)) xs d1"
    and c: "collect dl (rt_driver (after_root pu root st)) = Some (c_wait cfg dl (rt_driver (after_root pu root st)))"
    and t: "tasks (after_root pu root st) i \<noteq> None"
  shows "if reports dl (rt_driver (after_root pu root st)) k (is_writable want)
    then i \<in> set (fst (drain_ready cfg (length (queue_of contents st')) st')) \<and>
      waits (rt_driver st') k (is_writable want) = None
    else waits (rt_driver st') k (is_writable want) = Some (TaskWaker i)"
proof -
  have "waits (rt_driver (after_root pu root st)) k (is_writable want) = Some (TaskWaker i)"
    unfolding d by (rule last_submitter_waits[OF s o])
  note W = iteration_schedules_waiter[OF assms(1-4) refl c this t]
  then show ?thesis by (simp only: queued_in_next_batch)
qed

end

lemma io_runtimeI:
  assumes "seg_queue (c_seg cfg) contents" and "slab (dc_mio dcfg)" and "slab (u_regs (dc_uring dcfg))"
    and "slab (u_comps (dc_uring dcfg))"
  shows "io_runtime cfg contents (any_waits dcfg) (any_submit_poll dcfg) (any_wait dcfg evs) (any_reports dcfg evs)"
proof -
  have "any_slabs dcfg" using assms(2-4) by (simp add: any_slabs_def mio_slab_def uring_slabs_def)
  from any_slabs.is_poll_driver[OF this] any_slabs.is_event_driver[OF this, of evs] assms(1)
  show ?thesis by (simp add: io_runtime_def exec_queues_def)
qed

section \<open>Properties\<close>


text \<open>A runtime with the readiness driver: task 0 waits to read from the handle with token 0.\<close>

type_synonym io_demo_driver =
  "(registration option list, demo_ring, handle_registration option list, nat completion option list) any_driver"

definition io_demo_event :: mio_event where
  "io_demo_event = \<lparr>ev_token = 0, ev_readable = True, ev_read_closed = False, ev_writable = False,
     ev_write_closed = False, ev_error = False\<rparr>"

definition io_demo_cfg :: "(task_id list, (waker timer_entry) option list, io_demo_driver) exec_cfg" where
  "io_demo_cfg = \<lparr>c_seg = list_seg_ops, c_wheel = vec_slab_ops,
     c_wait = (\<lambda>t d. case any_wait demo_dcfg (Inr [io_demo_event]) t d of Some r \<Rightarrow> r | None \<Rightarrow> ([], d)),
     c_flush = (\<lambda>d. ([], d)), c_should_flush = (\<lambda>_. False)\<rparr>"

definition io_demo_poll where
  "io_demo_poll u w st = (u, Pending :: nat poll, st)"

definition io_demo_reg :: registration where
  "io_demo_reg = \<lparr>r_fd = 6, waiter_read = Some (TaskWaker 0), waiter_write = None, r_interest = Some READABLE\<rparr>"

definition io_demo_rt :: "(nat, nat, task_id list, (waker timer_entry) option list, io_demo_driver) exec" where
  "io_demo_rt = (with_options (c_wheel io_demo_cfg) [] 0
     (Mio \<lparr>md_regs = [Some io_demo_reg], md_waiter_count = 1, md_armed = [0 \<mapsto> READABLE]\<rparr>) False 8)
     \<lparr>tasks := [0 \<mapsto> \<lparr>t_future = Some (DetachedFuture 0), t_queued = False\<rparr>], next_task_id := 1,
      root_ready := False\<rparr>"

interpretation io_demo: io_runtime io_demo_cfg "\<lambda>q. q" "any_waits demo_dcfg" "any_submit_poll demo_dcfg"
    "any_wait demo_dcfg evs" "any_reports demo_dcfg evs" for evs
proof (rule io_runtimeI)
  show "seg_queue (c_seg io_demo_cfg) (\<lambda>q. q)" by (simp add: io_demo_cfg_def list_seg.seg_queue_axioms)
qed (simp_all add: demo_dcfg_slabs, simp add: demo_dcfg_def demo_ucfg_slabs)

lemmas io_demo_eval = io_demo_cfg_def io_demo_rt_def io_demo_reg_def io_demo_event_def with_options_def
  demo_dcfg_def vec_slab_ops_def vec_get_def


end
