(* ===== verification/Op_Wakeups.thy ===== *)
theory Op_Wakeups
  imports Io_Wakeups Op_Properties
begin

text \<open>
  Executor, completion driver and operations together: from the submission of an operation
  through the wait of \<open>block_on\<close> to the result its future returns.
\<close>

text \<open>What a wait that found the completion of token \<open>k\<close> leaves in its slot.\<close>

lemma wait_completes:
  assumes "slab (u_regs cfg)" and "slab (u_comps cfg)" and "uring_wait cfg dl d = Some (ws, d')"
    and "arrivals cfg True dl d = xs @ e # ys" and "completes k e" and "\<And>x. x \<in> set xs \<union> set ys \<Longrightarrow> \<not> completes k x"
    and "sl_get (u_comps cfg) (ud_comps d) k = Some c"
  shows "sl_get (u_comps cfg) (ud_comps d') k = (if cp_ignored_data c \<noteq> None then None
      else Some (c\<lparr>cp_completed := Some (cqe_result e), cp_waiter := None\<rparr>))"
    and "set_option (cp_waiter c) \<subseteq> set ws"
proof -
  have sl: "uring_slabs cfg" using assms(1,2) by (simp add: uring_slabs_def)
  obtain d1 b d2 where "ud_comps d1 = ud_comps d" "drain_cq cfg (xs @ e # ys) d1 = (ws, b, d2)" "ud_comps d' = ud_comps d2"
    using collect_drains[of cfg True dl d ws d'] assms(3,4) by (auto simp: uring_wait_def)
  then show "sl_get (u_comps cfg) (ud_comps d') k = (if cp_ignored_data c \<noteq> None then None
      else Some (c\<lparr>cp_completed := Some (cqe_result e), cp_waiter := None\<rparr>))"
    and "set_option (cp_waiter c) \<subseteq> set ws"
    using uring_slabs.drain_completes[OF sl _ assms(5,6)] assms(7) by (metis, metis)
qed


text \<open>A runtime on the ring: task 1 reads, the kernel answers 17 during the wait.\<close>

type_synonym op_demo_driver =
  "(registration option list, op_entry sqe list \<times> cqe list, handle_registration option list, kept completion option list) any_driver"

definition op_demo_uring ::
  "(op_entry sqe list \<times> cqe list, handle_registration option list, kept completion option list) uring_driver" where
  "op_demo_uring = (demo_op_driver [demo_comp_by (TaskWaker 1)])
     \<lparr>ud_ring := ([op_sqe (ReadE 6 64 None) (encode_completion_key 0)], [demo_cqe])\<rparr>"

definition op_demo_cfg :: "(task_id list, (waker timer_entry) option list, op_demo_driver) exec_cfg" where
  "op_demo_cfg = \<lparr>c_seg = list_seg_ops, c_wheel = vec_slab_ops,
     c_wait = (\<lambda>t d. case any_wait demo_opcfg (Inr []) t d of Some r \<Rightarrow> r | None \<Rightarrow> ([], d)),
     c_flush = (\<lambda>d. ([], d)), c_should_flush = (\<lambda>_. False)\<rparr>"

definition op_demo_rt :: "(nat, nat, task_id list, (waker timer_entry) option list, op_demo_driver) exec" where
  "op_demo_rt = (with_options (c_wheel op_demo_cfg) [] 0 (IoUring op_demo_uring) False 8)
     \<lparr>tasks := [1 \<mapsto> \<lparr>t_future = Some (DetachedFuture 0), t_queued = False\<rparr>], next_task_id := 2, root_ready := False\<rparr>"

lemma demo_cqe_plain: "cqe_key demo_cqe \<noteq> interrupt_key"
  using demo_cqe_completes by (simp add: completes_def)


end
