(* ===== verification/Waker_Counts.thy ===== *)
theory Waker_Counts
  imports Scheduler "HOL-Library.Multiset"
begin

text \<open>
  Who owns a task. A \<open>Task\<close> and the \<open>BlockOnNotify\<close> of a \<open>block_on\<close> are \<open>Arc\<close> cells whose
  wakers are raw pointers: the functions of the two waker tables (\<open>task.rs\<close> and
  \<open>executor.rs\<close>) turn a pointer back into an \<open>Arc\<close>, and every path must clone, forget or drop
  it exactly as often as it made or consumed a reference. The state extends the executor's with
  the strong counts of the cells; \<open>held\<close> is a ghost, the wakers that exist somewhere (in
  futures, drivers, timers or on other threads). Freeing a cell is logged with the thread it
  happened on and the future that was dropped with it. Counts are unbounded (\<open>Arc\<close> aborts the
  process before its counter wraps).
\<close>

datatype arc_obj = TaskObj task_id | NotifyObj nat

record ('u, 'o, 'q, 's, 'd) counted =
  cx :: "('u, 'o, 'q, 's, 'd) exec"
  strong :: "arc_obj \<Rightarrow> nat"
  held :: "arc_obj multiset"
  in_batch :: "task_id list"
  current_root :: "nat option"
  next_notify :: nat
  freed :: "(arc_obj \<times> bool \<times> 'u task_future option) list"

section \<open>References\<close>

definition arc_clone :: "arc_obj \<Rightarrow> ('u, 'o, 'q, 's, 'd) counted \<Rightarrow> ('u, 'o, 'q, 's, 'd) counted" where
  "arc_clone x s = s\<lparr>strong := (strong s)(x := strong s x + 1)\<rparr>"

text \<open>The last reference frees the cell, on the thread that drops it (\<open>same\<close>: the runtime's).\<close>

definition arc_free :: "bool \<Rightarrow> arc_obj \<Rightarrow> ('u, 'o, 'q, 's, 'd) counted \<Rightarrow> ('u, 'o, 'q, 's, 'd) counted" where
  "arc_free same x s =
     (case x of
        NotifyObj n \<Rightarrow> s\<lparr>freed := freed s @ [(x, same, None)]\<rparr>
      | TaskObj i \<Rightarrow> s\<lparr>freed := freed s @ [(x, same, Option.bind (tasks (cx s) i) t_future)],
                       cx := (cx s)\<lparr>tasks := (tasks (cx s))(i := None)\<rparr>\<rparr>)"

definition arc_drop :: "bool \<Rightarrow> arc_obj \<Rightarrow> ('u, 'o, 'q, 's, 'd) counted \<Rightarrow> ('u, 'o, 'q, 's, 'd) counted" where
  "arc_drop same x s =
     (let s1 = s\<lparr>strong := (strong s)(x := strong s x - 1)\<rparr>
      in if strong s1 x = 0 then arc_free same x s1 else s1)"

text \<open>\<open>Task::enqueue_if_needed\<close> pushes a clone exactly when it set the flag and a queue is left.\<close>

definition counted_enqueue ::
  "('q, 's, 'd) exec_cfg \<Rightarrow> bool \<Rightarrow> task_id \<Rightarrow> ('u, 'o, 'q, 's, 'd) counted \<Rightarrow> ('u, 'o, 'q, 's, 'd) counted" where
  "counted_enqueue cfg same i s =
     (let push = (case tasks (cx s) i of Some t \<Rightarrow> \<not> t_queued t \<and> alive (cx s) | None \<Rightarrow> False);
          s1 = s\<lparr>cx := enqueue_if_needed cfg same i (cx s)\<rparr>
      in if push then arc_clone (TaskObj i) s1 else s1)"

text \<open>
  \<open>BlockOnNotify::wake_by_ref\<close>: the flag of the running \<open>block_on\<close> is \<open>root_ready\<close>; nobody reads
  the flag of an earlier one, but its wakers still interrupt a waiting driver.
\<close>

definition notify_wake ::
  "bool \<Rightarrow> nat \<Rightarrow> ('u, 'o, 'q, 's, 'd) counted \<Rightarrow> ('u, 'o, 'q, 's, 'd) counted" where
  "notify_wake same n s =
     (if current_root s = Some n then s\<lparr>cx := root_wake same (cx s)\<rparr>
      else if same then s else s\<lparr>cx := interrupt_if_waiting (cx s)\<rparr>)"

definition wake_obj ::
  "('q, 's, 'd) exec_cfg \<Rightarrow> bool \<Rightarrow> arc_obj \<Rightarrow> ('u, 'o, 'q, 's, 'd) counted \<Rightarrow> ('u, 'o, 'q, 's, 'd) counted" where
  "wake_obj cfg same x s =
     (case x of TaskObj i \<Rightarrow> counted_enqueue cfg same i s | NotifyObj n \<Rightarrow> notify_wake same n s)"

section \<open>The waker tables\<close>

text \<open>\<open>waker\<close>: a clone whose pointer goes into a new waker.\<close>

definition arc_waker :: "arc_obj \<Rightarrow> ('u, 'o, 'q, 's, 'd) counted \<Rightarrow> ('u, 'o, 'q, 's, 'd) counted" where
  "arc_waker x s = (arc_clone x s)\<lparr>held := add_mset x (held s)\<rparr>"

text \<open>The original is forgotten again (\<open>into_raw\<close>), the clone becomes the new waker.\<close>

definition raw_waker_clone :: "arc_obj \<Rightarrow> ('u, 'o, 'q, 's, 'd) counted \<Rightarrow> ('u, 'o, 'q, 's, 'd) counted" where
  "raw_waker_clone x s = (arc_clone x s)\<lparr>held := add_mset x (held s)\<rparr>"

definition raw_waker_wake ::
  "('q, 's, 'd) exec_cfg \<Rightarrow> bool \<Rightarrow> arc_obj \<Rightarrow> ('u, 'o, 'q, 's, 'd) counted \<Rightarrow> ('u, 'o, 'q, 's, 'd) counted" where
  "raw_waker_wake cfg same x s = arc_drop same x (wake_obj cfg same x (s\<lparr>held := held s - {#x#}\<rparr>))"

definition raw_waker_wake_by_ref ::
  "('q, 's, 'd) exec_cfg \<Rightarrow> bool \<Rightarrow> arc_obj \<Rightarrow> ('u, 'o, 'q, 's, 'd) counted \<Rightarrow> ('u, 'o, 'q, 's, 'd) counted" where
  "raw_waker_wake_by_ref cfg same x s = wake_obj cfg same x s"

definition raw_waker_drop ::
  "bool \<Rightarrow> arc_obj \<Rightarrow> ('u, 'o, 'q, 's, 'd) counted \<Rightarrow> ('u, 'o, 'q, 's, 'd) counted" where
  "raw_waker_drop same x s = arc_drop same x (s\<lparr>held := held s - {#x#}\<rparr>)"

section \<open>The ref_owners on the runtime's side\<close>

text \<open>A new task's only reference is moved into the ready queue.\<close>

definition counted_spawn :: "'u \<Rightarrow> ('u, 'o, 'q, 's, 'd) counted \<Rightarrow> ('u, 'o, 'q, 's, 'd) counted" where
  "counted_spawn u s = s\<lparr>cx := snd (spawn u (cx s)), strong := (strong s)(TaskObj (next_task_id (cx s)) := 1)\<rparr>"

definition counted_spawn_detached :: "'u \<Rightarrow> ('u, 'o, 'q, 's, 'd) counted \<Rightarrow> ('u, 'o, 'q, 's, 'd) counted" where
  "counted_spawn_detached u s =
     s\<lparr>cx := spawn_detached u (cx s), strong := (strong s)(TaskObj (next_task_id (cx s)) := 1)\<rparr>"

text \<open>\<open>BlockOnNotify::new\<close> at the start of \<open>block_on\<close>; its local variable goes when it returns.\<close>

definition notify_new :: "('u, 'o, 'q, 's, 'd) counted \<Rightarrow> ('u, 'o, 'q, 's, 'd) counted" where
  "notify_new s =
     s\<lparr>strong := (strong s)(NotifyObj (next_notify s) := 1), current_root := Some (next_notify s),
       next_notify := next_notify s + 1, cx := (cx s)\<lparr>root_ready := True\<rparr>\<rparr>"

definition block_on_return :: "('u, 'o, 'q, 's, 'd) counted \<Rightarrow> ('u, 'o, 'q, 's, 'd) counted" where
  "block_on_return s =
     (case current_root s of None \<Rightarrow> s | Some n \<Rightarrow> arc_drop True (NotifyObj n) (s\<lparr>current_root := None\<rparr>))"

text \<open>\<open>drain_ready\<close> moves references from the queues into the batch.\<close>

definition counted_drain ::
  "('q, 's, 'd) exec_cfg \<Rightarrow> nat \<Rightarrow> ('u, 'o, 'q, 's, 'd) counted \<Rightarrow> ('u, 'o, 'q, 's, 'd) counted" where
  "counted_drain cfg n s = (let (batch, st) = drain_ready cfg n (cx s) in s\<lparr>cx := st, in_batch := batch\<rparr>)"

text \<open>The end of the batch loop's body: the reference taken from \<open>batch.drain(..)\<close> is dropped.\<close>

definition finish_task :: "('u, 'o, 'q, 's, 'd) counted \<Rightarrow> ('u, 'o, 'q, 's, 'd) counted" where
  "finish_task s = (case in_batch s of [] \<Rightarrow> s | i # rest \<Rightarrow> arc_drop True (TaskObj i) (s\<lparr>in_batch := rest\<rparr>))"

text \<open>
  The steps. Every use of a waker is of one that exists; the scheduler makes wakers of the tasks
  of its batch and of its own notify, and changes the future of a task of its batch; anything
  else a future can do leaves tasks and queues alone.
\<close>

inductive rc_step ::
  "('q \<Rightarrow> task_id list) \<Rightarrow> ('q, 's, 'd) exec_cfg \<Rightarrow> ('u, 'o, 'q, 's, 'd) counted
   \<Rightarrow> ('u, 'o, 'q, 's, 'd) counted \<Rightarrow> bool" for contents cfg where
  rc_spawn: "rc_step contents cfg s (counted_spawn u s)"
| rc_spawn_detached: "rc_step contents cfg s (counted_spawn_detached u s)"
| rc_enter: "current_root s = None \<Longrightarrow> rc_step contents cfg s (notify_new s)"
| rc_return: "rc_step contents cfg s (block_on_return s)"
| rc_root_waker: "current_root s = Some n \<Longrightarrow> rc_step contents cfg s (arc_waker (NotifyObj n) s)"
| rc_drain: "in_batch s = [] \<Longrightarrow> rc_step contents cfg s (counted_drain cfg n s)"
| rc_task_waker: "i \<in> set (in_batch s) \<Longrightarrow> rc_step contents cfg s (arc_waker (TaskObj i) s)"
| rc_future: "i \<in> set (in_batch s) \<Longrightarrow> rc_step contents cfg s (s\<lparr>cx := set_future i f (cx s)\<rparr>)"
| rc_finish: "rc_step contents cfg s (finish_task s)"
| rc_clone: "x \<in># held s \<Longrightarrow> rc_step contents cfg s (raw_waker_clone x s)"
| rc_wake: "x \<in># held s \<Longrightarrow> rc_step contents cfg s (raw_waker_wake cfg same x s)"
| rc_wake_by_ref: "x \<in># held s \<Longrightarrow> rc_step contents cfg s (raw_waker_wake_by_ref cfg same x s)"
| rc_drop: "x \<in># held s \<Longrightarrow> rc_step contents cfg s (raw_waker_drop same x s)"
| rc_frame: "\<forall>k \<ge> next_join_id (cx s). j k = None \<Longrightarrow> rc_step contents cfg s
    (s\<lparr>cx := (cx s)\<lparr>joins := j, rt_timer := tm, rt_driver := d, waiting := w, interrupt_pending := p,
        root_ready := b\<rparr>\<rparr>)"

definition counted_new :: "('u, 'o, 'q, 's, 'd) exec \<Rightarrow> ('u, 'o, 'q, 's, 'd) counted" where
  "counted_new st = \<lparr>cx = st, strong = (\<lambda>_. 0), held = {#}, in_batch = [], current_root = None,
     next_notify = 0, freed = []\<rparr>"

inductive rc_reach ::
  "('q \<Rightarrow> task_id list) \<Rightarrow> ('q, 's, 'd) exec_cfg \<Rightarrow> ('u, 'o, 'q, 's, 'd) counted \<Rightarrow> bool" for contents cfg where
  rc_start: "contents q0 = [] \<Longrightarrow>
    rc_reach contents cfg (counted_new (with_options (c_wheel cfg) q0 now d enable_timer bs))"
| rc_next: "rc_reach contents cfg s \<Longrightarrow> rc_step contents cfg s s' \<Longrightarrow> rc_reach contents cfg s'"

section \<open>The invariant\<close>

definition runtime_refs :: "('q \<Rightarrow> task_id list) \<Rightarrow> ('u, 'o, 'q, 's, 'd) counted \<Rightarrow> arc_obj \<Rightarrow> nat" where
  "runtime_refs contents s x =
     (case x of TaskObj i \<Rightarrow> count_list (queue_of contents (cx s)) i + count_list (in_batch s) i
      | NotifyObj n \<Rightarrow> if current_root s = Some n then 1 else 0)"

definition ref_owners :: "('q \<Rightarrow> task_id list) \<Rightarrow> ('u, 'o, 'q, 's, 'd) counted \<Rightarrow> arc_obj \<Rightarrow> nat" where
  "ref_owners contents s x = count (held s) x + runtime_refs contents s x"

definition allocated :: "('u, 'o, 'q, 's, 'd) counted \<Rightarrow> arc_obj \<Rightarrow> bool" where
  "allocated s x = (case x of TaskObj i \<Rightarrow> i < next_task_id (cx s) | NotifyObj n \<Rightarrow> n < next_notify s)"

definition freed_objs :: "('u, 'o, 'q, 's, 'd) counted \<Rightarrow> arc_obj list" where
  "freed_objs s = map fst (freed s)"

text \<open>
  The books of an allocator of counted cells: what exists, its count, its ref_owners, what was ever
  allocated and what was freed. The four ways they change are cloning, dropping one of several
  references, dropping the last one, and allocating.
\<close>

definition books ::
  "(task_id \<Rightarrow> bool) \<Rightarrow> (arc_obj \<Rightarrow> nat) \<Rightarrow> (arc_obj \<Rightarrow> nat) \<Rightarrow> (arc_obj \<Rightarrow> bool) \<Rightarrow> arc_obj list \<Rightarrow> bool" where
  "books live str own alloc fr \<longleftrightarrow> str = own \<and> (\<forall>i. live i \<longleftrightarrow> 0 < str (TaskObj i)) \<and>
     (\<forall>x. 0 < str x \<longrightarrow> alloc x) \<and> distinct fr \<and> (\<forall>x. x \<in> set fr \<longleftrightarrow> alloc x \<and> str x = 0)"

definition set_live :: "arc_obj \<Rightarrow> bool \<Rightarrow> (task_id \<Rightarrow> bool) \<Rightarrow> task_id \<Rightarrow> bool" where
  "set_live x b live = (case x of TaskObj i \<Rightarrow> live(i := b) | NotifyObj n \<Rightarrow> live)"

lemma books_clone:
  "books live str own alloc fr \<Longrightarrow> 0 < str x \<Longrightarrow>
   books live (str(x := str x + 1)) (own(x := own x + 1)) alloc fr"
  by (auto simp: books_def)

lemma books_drop:
  "books live str (own(x := own x + 1)) alloc fr \<Longrightarrow> 0 < own x \<Longrightarrow> books live (str(x := str x - 1)) own alloc fr"
  by (auto simp: books_def fun_eq_iff)

lemma books_free:
  "books live str (own(x := own x + 1)) alloc fr \<Longrightarrow> own x = 0 \<Longrightarrow>
   books (set_live x False live) (str(x := str x - 1)) own alloc (fr @ [x])"
  by (cases x) (auto simp: books_def fun_eq_iff set_live_def)

lemma books_new:
  assumes "books live str own alloc fr" and "\<not> alloc x"
  shows "books (set_live x True live) (str(x := 1)) (own(x := own x + 1)) (alloc(x := True)) fr"
proof -
  have "own x = 0" "x \<notin> set fr" using assms by (auto simp: books_def)
  then show ?thesis using assms by (cases x) (auto simp: books_def fun_eq_iff set_live_def)
qed

lemma count_list_pos: "0 < count_list xs x \<longleftrightarrow> x \<in> set xs"
  by (metis bot_nat_0.not_eq_extremum count_list_0_iff)

definition task_exists :: "('u, 'o, 'q, 's, 'd) counted \<Rightarrow> task_id \<Rightarrow> bool" where
  "task_exists s i \<longleftrightarrow> tasks (cx s) i \<noteq> None"

text \<open>
  The invariant, with \<open>extra\<close> references that are counted but have no owner: none between steps,
  one to \<open>x\<close> inside a function that is about to drop it.
\<close>

definition rc_with ::
  "('q \<Rightarrow> task_id list) \<Rightarrow> (arc_obj \<Rightarrow> nat) \<Rightarrow> ('u, 'o, 'q, 's, 'd) counted \<Rightarrow> bool" where
  "rc_with contents extra s \<longleftrightarrow> exec_inv contents (cx s) \<and>
     books (task_exists s) (strong s) (\<lambda>x. ref_owners contents s x + extra x) (allocated s) (freed_objs s)"

abbreviation rc_inv :: "('q \<Rightarrow> task_id list) \<Rightarrow> ('u, 'o, 'q, 's, 'd) counted \<Rightarrow> bool" where
  "rc_inv contents \<equiv> rc_with contents (\<lambda>_. 0)"

abbreviation owed :: "arc_obj \<Rightarrow> arc_obj \<Rightarrow> nat" where
  "owed x \<equiv> (\<lambda>y. if y = x then 1 else 0)"

lemma exec_inv_free_task:
  assumes "exec_inv c st" and "i \<notin> set (queue_of c st)"
  shows "exec_inv c (st\<lparr>tasks := (tasks st)(i := None)\<rparr>)"
  using assms by (auto simp: exec_inv_def is_queued_def queue_of_def split: if_splits)

text \<open>Owners, allocation and existence depend on parts of the state only.\<close>

lemma owners_frame [simp]:
  "ref_owners c (s\<lparr>strong := f\<rparr>) = ref_owners c s"
  "ref_owners c (s\<lparr>freed := fr\<rparr>) = ref_owners c s"
  "ref_owners c (s\<lparr>cx := (cx s)\<lparr>tasks := t\<rparr>\<rparr>) = ref_owners c s"
  "ref_owners c (s\<lparr>held := add_mset x (held s)\<rparr>) = (ref_owners c s)(x := ref_owners c s x + 1)"
  by (auto simp: ref_owners_def runtime_refs_def queue_of_def fun_eq_iff split: arc_obj.split)

lemma allocated_frame [simp]:
  "allocated (s\<lparr>strong := f\<rparr>) = allocated s"
  "allocated (s\<lparr>held := h\<rparr>) = allocated s"
  "allocated (s\<lparr>freed := fr\<rparr>) = allocated s"
  "allocated (s\<lparr>in_batch := b\<rparr>) = allocated s"
  "allocated (s\<lparr>current_root := r\<rparr>) = allocated s"
  "allocated (s\<lparr>cx := (cx s)\<lparr>tasks := t\<rparr>\<rparr>) = allocated s"
  by (auto simp: allocated_def fun_eq_iff split: arc_obj.split)

lemma exists_frame [simp]:
  "task_exists (s\<lparr>strong := f\<rparr>) = task_exists s"
  "task_exists (s\<lparr>held := h\<rparr>) = task_exists s"
  "task_exists (s\<lparr>freed := fr\<rparr>) = task_exists s"
  "task_exists (s\<lparr>in_batch := b\<rparr>) = task_exists s"
  "task_exists (s\<lparr>current_root := r\<rparr>) = task_exists s"
  by (simp_all add: task_exists_def fun_eq_iff)

lemma freed_frame [simp]:
  "freed_objs (s\<lparr>strong := f\<rparr>) = freed_objs s"
  "freed_objs (s\<lparr>held := h\<rparr>) = freed_objs s"
  "freed_objs (s\<lparr>in_batch := b\<rparr>) = freed_objs s"
  "freed_objs (s\<lparr>current_root := r\<rparr>) = freed_objs s"
  "freed_objs (s\<lparr>cx := st\<rparr>) = freed_objs s"
  by (simp_all add: freed_objs_def)

lemma free_simps:
  "strong (arc_free same x s) = strong s" "ref_owners c (arc_free same x s) = ref_owners c s"
  "allocated (arc_free same x s) = allocated s" "freed_objs (arc_free same x s) = freed_objs s @ [x]"
  "task_exists (arc_free same x s) = set_live x False (task_exists s)"
  by (auto simp: arc_free_def freed_objs_def task_exists_def set_live_def fun_eq_iff ref_owners_def runtime_refs_def
      allocated_def queue_of_def split: arc_obj.split)

lemma owed_upd: "(\<lambda>y. f y + owed x y) = f(x := f x + 1)"
  by (simp add: fun_eq_iff)

lemma arc_drop_inv:
  assumes "rc_with contents (owed x) s"
  shows "rc_inv contents (arc_drop same x s)"
proof -
  let ?s = "s\<lparr>strong := (strong s)(x := strong s x - 1)\<rparr>"
  have b: "books (task_exists s) (strong s) ((ref_owners contents s)(x := ref_owners contents s x + 1)) (allocated s) (freed_objs s)"
    and e: "exec_inv contents (cx s)" using assms by (simp_all only: rc_with_def owed_upd)
  have st: "strong s x = ref_owners contents s x + 1" using b by (auto simp: books_def)
  show ?thesis
  proof (cases "ref_owners contents s x = 0")
    case True
    have "exec_inv contents (cx (arc_free same x ?s))"
    proof (cases x)
      case (TaskObj i)
      have "i \<notin> set (queue_of contents (cx s))"
        using True TaskObj by (simp add: ref_owners_def runtime_refs_def count_list_0_iff)
      then show ?thesis using exec_inv_free_task[OF e] by (simp add: arc_free_def TaskObj)
    qed (use e in \<open>simp add: arc_free_def\<close>)
    then show ?thesis using books_free[OF b True] st True
      by (simp add: arc_drop_def Let_def rc_with_def free_simps)
  next
    case False
    then show ?thesis using books_drop[OF b] st e by (simp add: arc_drop_def Let_def rc_with_def)
  qed
qed

section \<open>Every step keeps the invariant\<close>

text \<open>A new waker of an existing cell, by \<open>waker\<close> or by cloning another one.\<close>

lemma new_waker_inv:
  assumes "rc_inv contents s" and "0 < strong s x"
  shows "rc_inv contents ((arc_clone x s)\<lparr>held := add_mset x (held s)\<rparr>)"
proof -
  have "ref_owners contents ((arc_clone x s)\<lparr>held := add_mset x (held s)\<rparr>) = (ref_owners contents s)(x := ref_owners contents s x + 1)"
    by (auto simp: arc_clone_def ref_owners_def runtime_refs_def fun_eq_iff split: arc_obj.split)
  then show ?thesis using assms books_clone[of "task_exists s" "strong s" "ref_owners contents s" "allocated s" "freed_objs s" x]
    by (simp add: rc_with_def arc_clone_def del: fun_upd_apply)
qed

lemma held_owned:
  assumes "rc_inv contents s" and "x \<in># held s"
  shows "0 < strong s x" and "rc_with contents (owed x) (s\<lparr>held := held s - {#x#}\<rparr>)"
proof -
  have b: "books (task_exists s) (strong s) (ref_owners contents s) (allocated s) (freed_objs s)"
    using assms(1) by (simp add: rc_with_def)
  have c: "0 < count (held s) x" using assms(2) by simp
  then show "0 < strong s x" using b by (auto simp: books_def ref_owners_def)
  have "(\<lambda>y. ref_owners contents (s\<lparr>held := held s - {#x#}\<rparr>) y + owed x y) = ref_owners contents s"
    using c by (auto simp: ref_owners_def runtime_refs_def fun_eq_iff split: arc_obj.split)
  then show "rc_with contents (owed x) (s\<lparr>held := held s - {#x#}\<rparr>)"
    using assms(1) by (simp only: rc_with_def) simp
qed

context exec_queues
begin

lemma counted_enqueue_inv:
  assumes inv: "rc_with contents extra s" and pos: "0 < strong s (TaskObj i)"
  shows "rc_with contents extra (counted_enqueue cfg same i s)"
proof -
  let ?st = "enqueue_if_needed cfg same i (cx s)"
  have e: "exec_inv contents (cx s)"
    and b: "books (task_exists s) (strong s) (\<lambda>x. ref_owners contents s x + extra x) (allocated s) (freed_objs s)"
    using inv by (simp_all add: rc_with_def)
  have al: "alive (cx s)" using e by (simp add: exec_inv_def)
  have "task_exists s i" using b pos unfolding books_def by blast
  then obtain t where t: "tasks (cx s) i = Some t" by (auto simp: task_exists_def)
  have e': "exec_inv contents ?st" by (rule enqueue_inv[OF e])
  have fr: "task_exists (s\<lparr>cx := ?st\<rparr>) = task_exists s" "allocated (s\<lparr>cx := ?st\<rparr>) = allocated s"
    by (simp_all add: task_exists_def allocated_def fun_eq_iff split: arc_obj.split)
  show ?thesis
  proof (cases "t_queued t")
    case True
    then have "ref_owners contents (s\<lparr>cx := ?st\<rparr>) = ref_owners contents s"
      using t by (simp add: ref_owners_def runtime_refs_def enqueue_if_needed_def queue_of_def fun_eq_iff split: arc_obj.split)
    then show ?thesis using b e' fr t True by (simp add: counted_enqueue_def rc_with_def)
  next
    case False
    obtain p q where pq: "queue_of contents (cx s) = p @ q" "queue_of contents ?st = p @ i # q"
      using enqueue_idle(1)[OF al t False] by blast
    have "(\<lambda>x. ref_owners contents (s\<lparr>cx := ?st\<rparr>) x + extra x) =
        (\<lambda>x. ref_owners contents s x + extra x)(TaskObj i := ref_owners contents s (TaskObj i) + extra (TaskObj i) + 1)"
      using pq by (auto simp: ref_owners_def runtime_refs_def fun_eq_iff split: arc_obj.split)
    then show ?thesis using books_clone[OF b pos] e' fr t False al
      by (simp add: counted_enqueue_def arc_clone_def rc_with_def del: fun_upd_apply)
  qed
qed

lemma cx_frame_inv:
  assumes "rc_with contents extra s" and "exec_inv contents st" and "queue_of contents st = queue_of contents (cx s)"
    and "next_task_id st = next_task_id (cx s)" and "\<And>i. (tasks st i = None) = (tasks (cx s) i = None)"
  shows "rc_with contents extra (s\<lparr>cx := st\<rparr>)"
proof -
  have "ref_owners contents (s\<lparr>cx := st\<rparr>) = ref_owners contents s" "allocated (s\<lparr>cx := st\<rparr>) = allocated s"
    "task_exists (s\<lparr>cx := st\<rparr>) = task_exists s"
    using assms(3-5) by (simp_all add: ref_owners_def runtime_refs_def allocated_def task_exists_def fun_eq_iff split: arc_obj.split)
  then show ?thesis using assms(1,2) by (simp add: rc_with_def)
qed

lemma wake_obj_inv:
  assumes "rc_with contents extra s" and "0 < strong s x"
  shows "rc_with contents extra (wake_obj cfg same x s)"
proof (cases x)
  case (TaskObj i)
  then show ?thesis using counted_enqueue_inv[OF assms(1)] assms(2) by (simp add: wake_obj_def)
next
  case (NotifyObj n)
  have "exec_inv contents (cx s)" using assms(1) by (simp add: rc_with_def)
  then have "rc_with contents extra (s\<lparr>cx := root_wake same (cx s)\<rparr>)"
    "rc_with contents extra (s\<lparr>cx := interrupt_if_waiting (cx s)\<rparr>)"
    by (auto intro!: cx_frame_inv[OF assms(1)] simp: root_wake_def Let_def queue_of_def)
  then show ?thesis using assms(1) by (simp add: wake_obj_def NotifyObj notify_wake_def)
qed

text \<open>Spawning: the new task's one reference is in the ready queue.\<close>

lemma spawned_inv:
  assumes inv: "rc_inv contents s" and e: "exec_inv contents st"
    and q: "queue_of contents st = queue_of contents (cx s) @ [next_task_id (cx s)]"
    and n: "next_task_id st = next_task_id (cx s) + 1"
    and t: "\<And>k. (tasks st k = None) = (k \<noteq> next_task_id (cx s) \<and> tasks (cx s) k = None)"
  shows "rc_inv contents (s\<lparr>cx := st, strong := (strong s)(TaskObj (next_task_id (cx s)) := 1)\<rparr>)"
proof -
  let ?x = "TaskObj (next_task_id (cx s))"
  have b: "books (task_exists s) (strong s) (ref_owners contents s) (allocated s) (freed_objs s)"
    using inv by (simp add: rc_with_def)
  have "ref_owners contents (s\<lparr>cx := st\<rparr>) = (ref_owners contents s)(?x := ref_owners contents s ?x + 1)"
    using q by (auto simp: ref_owners_def runtime_refs_def fun_eq_iff split: arc_obj.split)
  moreover have "allocated (s\<lparr>cx := st\<rparr>) = (allocated s)(?x := True)"
    using n by (auto simp: allocated_def fun_eq_iff split: arc_obj.split)
  moreover have "task_exists (s\<lparr>cx := st\<rparr>) = set_live ?x True (task_exists s)"
    using t by (auto simp: task_exists_def set_live_def fun_eq_iff)
  moreover have "\<not> allocated s ?x" by (simp add: allocated_def)
  ultimately show ?thesis using books_new[OF b] e by (simp add: rc_with_def del: fun_upd_apply)
qed

lemma counted_spawn_inv:
  assumes "rc_inv contents s"
  shows "rc_inv contents (counted_spawn u s)" and "rc_inv contents (counted_spawn_detached u s)"
proof -
  have e: "exec_inv contents (cx s)" using assms by (simp add: rc_with_def)
  show "rc_inv contents (counted_spawn u s)"
    unfolding counted_spawn_def using spawn_inv[OF e]
    by (intro spawned_inv[OF assms]) (simp_all add: spawn_def enqueue_def Let_def queue_of_def)
  show "rc_inv contents (counted_spawn_detached u s)"
    unfolding counted_spawn_detached_def using spawn_detached_inv[OF e]
    by (intro spawned_inv[OF assms]) (simp_all add: spawn_detached_def enqueue_def Let_def queue_of_def)
qed

lemma counted_drain_inv:
  assumes inv: "rc_inv contents s" and "in_batch s = []"
  shows "rc_inv contents (counted_drain cfg n s)"
proof -
  obtain batch st where d: "drain_ready cfg n (cx s) = (batch, st)" by fastforce
  note D = drain_ready_queue[OF d]
  have e: "exec_inv contents (cx s)"
    and b: "books (task_exists s) (strong s) (ref_owners contents s) (allocated s) (freed_objs s)"
    using inv by (simp_all add: rc_with_def)
  let ?s = "s\<lparr>cx := st, in_batch := batch\<rparr>"
  have split: "count_list (queue_of contents (cx s)) i = count_list (queue_of contents st) i + count_list batch i" for i
    using count_list_append[of "take n (queue_of contents (cx s))" "drop n (queue_of contents (cx s))" i] by (simp add: D)
  have "ref_owners contents ?s = ref_owners contents s"
    using assms(2) by (auto simp: ref_owners_def runtime_refs_def fun_eq_iff split split: arc_obj.split)
  moreover have "allocated ?s = allocated s" "task_exists ?s = task_exists s"
    by (simp_all add: allocated_def task_exists_def D(4,8) fun_eq_iff split: arc_obj.split)
  ultimately show ?thesis using b drain_ready_inv[OF e d]
    by (simp add: counted_drain_def d rc_with_def)
qed

lemma finish_task_inv:
  assumes "rc_inv contents s"
  shows "rc_inv contents (finish_task s)"
proof (cases "in_batch s")
  case (Cons i rest)
  have "(\<lambda>y. ref_owners contents (s\<lparr>in_batch := rest\<rparr>) y + owed (TaskObj i) y) = ref_owners contents s"
    using Cons by (auto simp: ref_owners_def runtime_refs_def fun_eq_iff split: arc_obj.split)
  then have "rc_with contents (owed (TaskObj i)) (s\<lparr>in_batch := rest\<rparr>)"
    using assms by (simp only: rc_with_def) simp
  then show ?thesis using arc_drop_inv by (simp add: finish_task_def Cons)
qed (use assms in \<open>simp add: finish_task_def\<close>)

lemma block_on_return_inv:
  assumes "rc_inv contents s"
  shows "rc_inv contents (block_on_return s)"
proof (cases "current_root s")
  case (Some n)
  have "(\<lambda>y. ref_owners contents (s\<lparr>current_root := None\<rparr>) y + owed (NotifyObj n) y) = ref_owners contents s"
    using Some by (auto simp: ref_owners_def runtime_refs_def fun_eq_iff split: arc_obj.split)
  then have "rc_with contents (owed (NotifyObj n)) (s\<lparr>current_root := None\<rparr>)"
    using assms by (simp only: rc_with_def) simp
  then show ?thesis using arc_drop_inv by (simp add: block_on_return_def Some)
qed (use assms in \<open>simp add: block_on_return_def\<close>)

lemma notify_new_inv:
  assumes inv: "rc_inv contents s" and "current_root s = None"
  shows "rc_inv contents (notify_new s)"
proof -
  let ?x = "NotifyObj (next_notify s)"
  have b: "books (task_exists s) (strong s) (ref_owners contents s) (allocated s) (freed_objs s)"
    and e: "exec_inv contents (cx s)" using inv by (simp_all add: rc_with_def)
  have "ref_owners contents (notify_new s) = (ref_owners contents s)(?x := ref_owners contents s ?x + 1)"
    using assms(2) by (auto simp: notify_new_def ref_owners_def runtime_refs_def queue_of_def fun_eq_iff split: arc_obj.split)
  moreover have "allocated (notify_new s) = (allocated s)(?x := True)"
    by (auto simp: notify_new_def allocated_def fun_eq_iff split: arc_obj.split)
  moreover have "task_exists (notify_new s) = set_live ?x True (task_exists s)"
    by (simp add: notify_new_def task_exists_def set_live_def fun_eq_iff)
  moreover have "\<not> allocated s ?x" by (simp add: allocated_def)
  moreover have "strong (notify_new s) = (strong s)(?x := 1)" "freed_objs (notify_new s) = freed_objs s"
      "exec_inv contents (cx (notify_new s))" using e by (simp_all add: notify_new_def freed_objs_def)
  ultimately show ?thesis using books_new[OF b, of ?x] by (simp add: rc_with_def del: fun_upd_apply One_nat_def)
qed

lemma batch_owned: "rc_inv contents s \<Longrightarrow> i \<in> set (in_batch s) \<Longrightarrow> 0 < strong s (TaskObj i)"
  by (auto simp: rc_with_def books_def ref_owners_def runtime_refs_def count_list_pos)

lemma root_owned: "rc_inv contents s \<Longrightarrow> current_root s = Some n \<Longrightarrow> 0 < strong s (NotifyObj n)"
  by (auto simp: rc_with_def books_def ref_owners_def runtime_refs_def)

lemma rc_step_inv: "rc_step contents cfg s s' \<Longrightarrow> rc_inv contents s \<Longrightarrow> rc_inv contents s'"
proof (induction rule: rc_step.induct)
  case (rc_root_waker s n)
  then show ?case using new_waker_inv root_owned unfolding arc_waker_def by blast
next
  case (rc_task_waker i s)
  then show ?case using new_waker_inv batch_owned unfolding arc_waker_def by blast
next
  case (rc_clone x s)
  then show ?case using new_waker_inv held_owned(1) unfolding raw_waker_clone_def by blast
next
  case (rc_wake x s same)
  note h = held_owned[OF rc_wake(2,1)]
  have "0 < strong (s\<lparr>held := held s - {#x#}\<rparr>) x" using h(1) by simp
  from arc_drop_inv[OF wake_obj_inv[OF h(2) this]] show ?case unfolding raw_waker_wake_def .
next
  case (rc_wake_by_ref x s same)
  then show ?case using wake_obj_inv held_owned(1) unfolding raw_waker_wake_by_ref_def by blast
next
  case (rc_drop x s same)
  then show ?case using arc_drop_inv[OF held_owned(2)] unfolding raw_waker_drop_def by blast
next
  case (rc_future i s f)
  then have "exec_inv contents (cx s)" by (simp add: rc_with_def)
  then show ?case using rc_future
    by (intro cx_frame_inv) (simp_all add: exec_inv_set_future, simp_all add: set_future_def queue_of_def)
next
  case (rc_frame s j tm d w p b)
  then have "exec_inv contents ((cx s)\<lparr>joins := j\<rparr>)" by (intro exec_inv_joins) (auto simp: rc_with_def)
  then show ?case using rc_frame by (intro cx_frame_inv) (simp_all add: queue_of_def)
qed (simp_all add: counted_spawn_inv notify_new_inv block_on_return_inv counted_drain_inv finish_task_inv)

lemma rc_reach_inv: "rc_reach contents cfg s \<Longrightarrow> rc_inv contents s"
proof (induction rule: rc_reach.induct)
  case (rc_start q0 now d enable_timer bs)
  let ?st = "with_options (c_wheel cfg) q0 now d enable_timer bs"
  have "exec_inv contents ?st" by (rule with_options_inv[of q0, OF rc_start])
  then show ?case using rc_start
    by (auto simp: rc_with_def books_def counted_new_def ref_owners_def runtime_refs_def allocated_def freed_objs_def
        task_exists_def with_options_def queue_of_def fun_eq_iff split: arc_obj.split)
qed (rule rc_step_inv)

end

section \<open>Properties\<close>

text \<open>
  C5: Wakers never dangle and tasks are freed exactly once. Through any sequence of spawns,
  drained batches and uses of wakers, on any thread, the strong count of every task and of every
  \<open>block_on\<close> notification is the number of its wakers, queue entries and batch entries; so every
  waker that exists points to an existing task, a task exists exactly while it has an owner, and
  a task that does not exist any more was freed once.
\<close>

theorem reference_counts_match_owners:
  assumes "seg_queue (c_seg cfg) contents" and "rc_reach contents cfg s"
  shows "(\<forall>x. strong s x = count (held s) x + runtime_refs contents s x) \<and>
    (\<forall>i. TaskObj i \<in># held s \<longrightarrow> tasks (cx s) i \<noteq> None) \<and>
    (\<forall>i < next_task_id (cx s). if tasks (cx s) i = None then count_list (freed_objs s) (TaskObj i) = 1
       else 0 < strong s (TaskObj i) \<and> TaskObj i \<notin> set (freed_objs s))"
proof -
  have eq: "exec_queues cfg contents" using assms(1) by (simp add: exec_queues_def)
  have inv: "rc_inv contents s" by (rule exec_queues.rc_reach_inv[OF eq assms(2)])
  then have b: "strong s = ref_owners contents s" "\<And>i. tasks (cx s) i \<noteq> None \<longleftrightarrow> 0 < strong s (TaskObj i)"
    "distinct (freed_objs s)" "\<And>x. x \<in> set (freed_objs s) \<longleftrightarrow> allocated s x \<and> strong s x = 0"
    by (simp_all add: rc_with_def books_def task_exists_def)
  have "tasks (cx s) i \<noteq> None" if "TaskObj i \<in># held s" for i using held_owned(1)[OF inv that] b(2) by simp
  moreover have "if tasks (cx s) i = None then count_list (freed_objs s) (TaskObj i) = 1
      else 0 < strong s (TaskObj i) \<and> TaskObj i \<notin> set (freed_objs s)" if "i < next_task_id (cx s)" for i
    using that b(2)[of i] b(3) b(4)[of "TaskObj i"]
    by (cases "tasks (cx s) i") (simp_all add: allocated_def count_list_distinct)
  moreover have "strong s x = count (held s) x + runtime_refs contents s x" for x
    using b(1) by (simp add: ref_owners_def)
  ultimately show ?thesis by blast
qed

text \<open>
  A wake keeps its task. \<open>raw_waker_wake\<close> consumes the waker, which may be the last owner of the
  task, but the clone it queued first keeps the task: it exists afterwards and is queued.
\<close>

theorem waking_keeps_task:
  assumes "seg_queue (c_seg cfg) contents" and "rc_reach contents cfg s" and "TaskObj i \<in># held s"
  shows "tasks (cx (raw_waker_wake cfg same (TaskObj i) s)) i \<noteq> None \<and>
    i \<in> set (queue_of contents (cx (raw_waker_wake cfg same (TaskObj i) s)))"
proof -
  have eq: "exec_queues cfg contents" using assms(1) by (simp add: exec_queues_def)
  have inv: "rc_inv contents s" by (rule exec_queues.rc_reach_inv[OF eq assms(2)])
  let ?s = "s\<lparr>held := held s - {#TaskObj i#}\<rparr>"
  let ?w = "counted_enqueue cfg same i ?s"
  note h = held_owned[OF inv assms(3)]
  have p: "0 < strong ?s (TaskObj i)" using h(1) by simp
  have w: "rc_with contents (owed (TaskObj i)) ?w" by (rule exec_queues.counted_enqueue_inv[OF eq h(2) p])
  have "task_exists s i" using inv h(1) by (simp add: rc_with_def books_def)
  then obtain t where t: "tasks (cx s) i = Some t" by (auto simp: task_exists_def)
  have "cx ?w = enqueue_if_needed cfg same i (cx s)" by (simp add: counted_enqueue_def Let_def arc_clone_def)
  then have "is_queued (cx ?w) i"
    using t by (auto simp: is_queued_def enqueue_if_needed_def Let_def split: option.splits)
  then have q: "i \<in> set (queue_of contents (cx ?w))" using w by (simp add: rc_with_def exec_inv_def)
  then have o: "0 < ref_owners contents ?w (TaskObj i)" by (simp add: ref_owners_def runtime_refs_def count_list_pos)
  have "strong ?w (TaskObj i) = ref_owners contents ?w (TaskObj i) + 1" using w by (simp add: rc_with_def books_def)
  then have "cx (arc_drop same (TaskObj i) ?w) = cx ?w" using o by (simp add: arc_drop_def Let_def)
  moreover have "tasks (cx ?w) i \<noteq> None" using \<open>is_queued (cx ?w) i\<close> by (auto simp: is_queued_def split: option.splits)
  ultimately show ?thesis using q by (simp add: raw_waker_wake_def wake_obj_def)
qed

text \<open>
  C14: The last waker decides where a task's future is dropped. A task that waits is in no
  queue and no batch, so its wakers are its only ref_owners. Dropping the last of them frees the
  task with its future on the dropping thread, and nothing in the waker table brings it back to
  the runtime's thread, although the future (a \<open>LocalBoxFuture\<close>) may hold values that must not
  leave it.
\<close>

theorem last_waker_drops_future_on_its_thread:
  assumes "seg_queue (c_seg cfg) contents" and "rc_reach contents cfg s"
    and "count (held s) (TaskObj i) = 1" and "i \<notin> set (queue_of contents (cx s))" and "i \<notin> set (in_batch s)"
    and "tasks (cx s) i = Some t"
  shows "freed (raw_waker_drop same (TaskObj i) s) = freed s @ [(TaskObj i, same, t_future t)] \<and>
    tasks (cx (raw_waker_drop same (TaskObj i) s)) i = None"
proof -
  have eq: "exec_queues cfg contents" using assms(1) by (simp add: exec_queues_def)
  have "rc_inv contents s" by (rule exec_queues.rc_reach_inv[OF eq assms(2)])
  then have "strong s (TaskObj i) = 1" using assms(3-5)
    by (simp add: rc_with_def books_def ref_owners_def runtime_refs_def count_list_0_iff)
  then show ?thesis using assms(6) by (simp add: raw_waker_drop_def arc_drop_def Let_def arc_free_def)
qed

text \<open>A task that was polled once, stayed pending and gave its waker to another thread.\<close>

definition parked_rt :: "(nat, nat, task_id list, (waker timer_entry) option list, unit) counted" where
  "parked_rt = finish_task (arc_waker (TaskObj 0) (counted_drain demo_cfg 8 (counted_spawn 5 (counted_new (demo_rt 8)))))"

lemma spawned_drain:
  "counted_drain demo_cfg 8 (counted_spawn 5 (counted_new (demo_rt 8))) =
    \<lparr>cx = (demo_rt 8)\<lparr>joins := [0 \<mapsto> \<lparr>js_output = None, js_waker = None, js_canceled = False\<rparr>], next_join_id := 1,
       tasks := [0 \<mapsto> \<lparr>t_future = Some (SpawnFuture 5 0), t_queued = False\<rparr>], next_task_id := 1\<rparr>,
     strong = (\<lambda>_. 0)(TaskObj 0 := 1), held = {#}, in_batch = [0], current_root = None, next_notify = 0, freed = []\<rparr>"
  by (simp add: counted_drain_def counted_spawn_def counted_new_def demo_eval drain_ready_def drain_next_eq
      drain_local_eq demo_cfg_simps list_seg_ops_def clear_queued_def eval_nat_numeral)

lemma parked_rt_eq:
  "parked_rt = \<lparr>cx = (demo_rt 8)\<lparr>joins := [0 \<mapsto> \<lparr>js_output = None, js_waker = None, js_canceled = False\<rparr>], next_join_id := 1,
       tasks := [0 \<mapsto> \<lparr>t_future = Some (SpawnFuture 5 0), t_queued = False\<rparr>], next_task_id := 1\<rparr>,
     strong = (\<lambda>_. 0)(TaskObj 0 := 1), held = {#TaskObj 0#}, in_batch = [], current_root = None, next_notify = 0, freed = []\<rparr>"
  unfolding parked_rt_def spawned_drain
  by (simp add: finish_task_def arc_waker_def arc_clone_def arc_drop_def Let_def fun_eq_iff)

lemma parked_rt_reach: "rc_reach (\<lambda>q. q) demo_cfg parked_rt"
proof -
  let ?s = "counted_spawn 5 (counted_new (demo_rt 8))"
  have "rc_reach (\<lambda>q. q) demo_cfg (counted_new (demo_rt 8))"
    unfolding demo_rt_def by (rule rc_start) simp
  then have s: "rc_reach (\<lambda>q. q) demo_cfg ?s" by (rule rc_next[OF _ rc_spawn])
  have "in_batch ?s = []" by (simp add: counted_spawn_def counted_new_def)
  from rc_next[OF s rc_drain[OF this]] have "rc_reach (\<lambda>q. q) demo_cfg (counted_drain demo_cfg 8 ?s)" .
  then show ?thesis unfolding parked_rt_def
    by (rule rc_next[OF rc_next[OF _ rc_task_waker] rc_finish]) (simp add: spawned_drain)
qed

theorem reference_counts_match_owners_witness:
  "strong parked_rt (TaskObj 0) = count (held parked_rt) (TaskObj 0) + runtime_refs (\<lambda>q. q) parked_rt (TaskObj 0) \<and>
   tasks (cx parked_rt) 0 \<noteq> None"
proof -
  have "TaskObj 0 \<in># held parked_rt" by (simp add: parked_rt_eq)
  then show ?thesis using reference_counts_match_owners[OF demo_seg parked_rt_reach] by blast
qed

theorem waking_keeps_task_witness:
  "0 \<in> set (queue_of (\<lambda>q. q) (cx (raw_waker_wake demo_cfg False (TaskObj 0) parked_rt)))"
proof -
  have "TaskObj 0 \<in># held parked_rt" by (simp add: parked_rt_eq)
  from waking_keeps_task[OF demo_seg parked_rt_reach this] show ?thesis by blast
qed

theorem last_waker_drops_future_on_its_thread_witness:
  "freed (raw_waker_drop False (TaskObj 0) parked_rt) = [(TaskObj 0, False, Some (SpawnFuture 5 0))]"
  using last_waker_drops_future_on_its_thread[OF demo_seg parked_rt_reach, of 0
      "\<lparr>t_future = Some (SpawnFuture 5 0), t_queued = False\<rparr>" False]
  by (simp add: parked_rt_eq demo_eval)

end
