(* ===== verification/Ctrl_C.thy ===== *)
theory Ctrl_C
  imports Signals
begin

text \<open>
  Ctrl-C on Windows (\<open>signal/windows.rs\<close>): one process-wide state, initialised by the first
  listener, a counter of events and the wakers of the listeners. The console runs
  \<open>ctrl_c_handler\<close> on a thread of its own, so a poll and the handler interleave at their atomic
  accesses: the load of the counter, the registration under the lock, the increment and the
  taking of the wakers. The answer of \<open>SetConsoleCtrlHandler\<close> is an argument.
\<close>

record ctrl_c_state =
  cc_counter :: usize
  cc_wakers :: "waker list"

record ctrl_c_listener =
  cc_last_seen :: usize

definition CTRL_C_EVENT :: nat where
  "CTRL_C_EVENT = 0"

text \<open>\<open>ctrl_c_state\<close>: the cell stays empty when the handler cannot be installed.\<close>

definition get_ctrl_c_state ::
  "os_answer \<Rightarrow> ctrl_c_state option \<Rightarrow> ctrl_c_state io_result \<times> ctrl_c_state option" where
  "get_ctrl_c_state ans cell =
     (case cell of
        Some s \<Rightarrow> (Inr s, cell)
      | None \<Rightarrow>
          (case ans of
             Some err \<Rightarrow> (Inl err, None)
           | None \<Rightarrow> (let s = \<lparr>cc_counter = 0, cc_wakers = []\<rparr> in (Inr s, Some s))))"

definition ctrl_c_new ::
  "os_answer \<Rightarrow> ctrl_c_state option \<Rightarrow> ctrl_c_listener io_result \<times> ctrl_c_state option" where
  "ctrl_c_new ans cell =
     (case get_ctrl_c_state ans cell of
        (Inl err, cell1) \<Rightarrow> (Inl err, cell1)
      | (Inr s, cell1) \<Rightarrow> (Inr \<lparr>cc_last_seen = cc_counter s\<rparr>, cell1))"

text \<open>A waker that wakes the same task is replaced by its clone, which the model does not tell apart.\<close>

definition cc_register_waker :: "waker \<Rightarrow> ctrl_c_state \<Rightarrow> ctrl_c_state" where
  "cc_register_waker w s = (if w \<in> set (cc_wakers s) then s else s\<lparr>cc_wakers := cc_wakers s @ [w]\<rparr>)"

text \<open>The two halves of \<open>poll_recv\<close>: the load with its early return, and the registration.\<close>

definition cc_load :: "ctrl_c_listener \<Rightarrow> ctrl_c_state \<Rightarrow> bool \<times> ctrl_c_listener" where
  "cc_load l s =
     (if cc_counter s \<noteq> cc_last_seen l then (True, l\<lparr>cc_last_seen := cc_counter s\<rparr>) else (False, l))"

definition ctrl_c_poll ::
  "waker \<Rightarrow> ctrl_c_listener \<Rightarrow> ctrl_c_state \<Rightarrow> unit io_result poll \<times> ctrl_c_listener \<times> ctrl_c_state" where
  "ctrl_c_poll w l s =
     (case cc_load l s of
        (True, l1) \<Rightarrow> (Ready (Inr ()), l1, s)
      | (False, l1) \<Rightarrow> (Pending, l1, cc_register_waker w s))"

text \<open>The two halves of the handler; \<open>fetch_add\<close> wraps.\<close>

definition cc_count :: "ctrl_c_state \<Rightarrow> ctrl_c_state" where
  "cc_count s = s\<lparr>cc_counter := (cc_counter s + 1) mod U64_LIMIT\<rparr>"

definition cc_take :: "ctrl_c_state \<Rightarrow> waker list \<times> ctrl_c_state" where
  "cc_take s = (cc_wakers s, s\<lparr>cc_wakers := []\<rparr>)"

definition ctrl_c_handler :: "nat \<Rightarrow> ctrl_c_state option \<Rightarrow> bool \<times> waker list \<times> ctrl_c_state option" where
  "ctrl_c_handler ctrl_type cell =
     (if ctrl_type = CTRL_C_EVENT
      then (case cell of
              None \<Rightarrow> (True, [], None)
            | Some s \<Rightarrow> (let (ws, s1) = cc_take (cc_count s) in (True, ws, Some s1)))
      else (False, [], cell))"

section \<open>Properties\<close>

fun polls :: "(waker \<times> ctrl_c_listener) list \<Rightarrow> ctrl_c_state \<Rightarrow> ctrl_c_state" where
  "polls [] s = s"
| "polls ((w, l) # ps) s = polls ps (snd (snd (ctrl_c_poll w l s)))"

lemma poll_keeps:
  "cc_counter (snd (snd (ctrl_c_poll w l s))) = cc_counter s"
  "set (cc_wakers s) \<subseteq> set (cc_wakers (snd (snd (ctrl_c_poll w l s))))"
  by (auto simp: ctrl_c_poll_def cc_load_def cc_register_waker_def)

lemma polls_keep: "cc_counter (polls ps s) = cc_counter s \<and> set (cc_wakers s) \<subseteq> set (cc_wakers (polls ps s))"
proof (induction ps s rule: polls.induct)
  case (2 w l ps s)
  then show ?case using poll_keeps[where w = w and l = l and s = s] by auto
qed simp

text \<open>
  A Ctrl-C reaches every waiting listener. A listener whose poll returned pending, whatever
  other listeners poll after it, is woken by the next event, and its next poll is ready; when
  the counter is below its limit, a listener created after the event does not see it.
\<close>

theorem ctrl_c_wakes_every_listener:
  assumes "ctrl_c_poll w l s = (Pending, l', s')" and "cc_counter s < U64_LIMIT"
    and "ctrl_c_handler CTRL_C_EVENT (Some (polls ps s')) = (handled, ws, Some s'')"
  shows "handled \<and> w \<in> set ws \<and> fst (ctrl_c_poll w' l' s'') = Ready (Inr ()) \<and>
    (\<exists>new. ctrl_c_new ans (Some s'') = (Inr new, Some s'') \<and> fst (ctrl_c_poll w' new s'') = Pending)"
proof -
  have l: "l' = l" "cc_last_seen l = cc_counter s" "s' = cc_register_waker w s"
    using assms(1) by (auto simp: ctrl_c_poll_def cc_load_def split: if_splits)
  have c: "cc_counter s' = cc_counter s" "w \<in> set (cc_wakers s')" by (simp_all add: l(3) cc_register_waker_def)
  have h: "handled" "ws = cc_wakers (polls ps s')" "cc_counter s'' = (cc_counter s + 1) mod U64_LIMIT"
    using assms(3) polls_keep[of ps s'] c by (auto simp: ctrl_c_handler_def cc_take_def cc_count_def Let_def)
  have "(cc_counter s + 1) mod U64_LIMIT \<noteq> cc_counter s" using assms(2) by (cases "cc_counter s + 1 = U64_LIMIT") auto
  then have "fst (ctrl_c_poll w' l' s'') = Ready (Inr ())" using h(3) l by (simp add: ctrl_c_poll_def cc_load_def)
  moreover have "w \<in> set ws" using h(2) polls_keep[of ps s'] c(2) by auto
  ultimately show ?thesis using h(1)
    by (simp add: ctrl_c_new_def get_ctrl_c_state_def ctrl_c_poll_def cc_load_def)
qed

theorem ctrl_c_wakes_every_listener_witness:
  "fst (snd (ctrl_c_handler CTRL_C_EVENT (Some (polls [(TaskWaker 2, \<lparr>cc_last_seen = 4\<rparr>)]
      \<lparr>cc_counter = 4, cc_wakers = [TaskWaker 3]\<rparr>)))) = [TaskWaker 3, TaskWaker 2] \<and>
   fst (ctrl_c_poll RootWaker \<lparr>cc_last_seen = 4\<rparr> \<lparr>cc_counter = 5, cc_wakers = []\<rparr>) = Ready (Inr ())"
proof -
  have p: "ctrl_c_poll (TaskWaker 3) \<lparr>cc_last_seen = 4\<rparr> \<lparr>cc_counter = 4, cc_wakers = []\<rparr> =
      (Pending, \<lparr>cc_last_seen = 4\<rparr>, \<lparr>cc_counter = 4, cc_wakers = [TaskWaker 3]\<rparr>)"
    by (simp add: ctrl_c_poll_def cc_load_def cc_register_waker_def)
  have h: "ctrl_c_handler CTRL_C_EVENT (Some (polls [(TaskWaker 2, \<lparr>cc_last_seen = 4\<rparr>)]
      \<lparr>cc_counter = 4, cc_wakers = [TaskWaker 3]\<rparr>)) =
      (True, [TaskWaker 3, TaskWaker 2], Some \<lparr>cc_counter = 5, cc_wakers = []\<rparr>)"
    by (simp add: ctrl_c_handler_def cc_take_def cc_count_def ctrl_c_poll_def cc_load_def cc_register_waker_def)
  have "cc_counter \<lparr>cc_counter = 4, cc_wakers = []\<rparr> < U64_LIMIT" by simp
  from ctrl_c_wakes_every_listener[OF p this h] h show ?thesis by simp
qed

text \<open>
  The registration is not checked against the counter. When the event arrives between the load
  of a poll and its registration, the handler finds no waker: the listener has missed the event
  although the counter has moved, and stays registered and pending until the next event.
\<close>

theorem ctrl_c_between_load_and_register_is_missed:
  assumes "cc_load l s = (False, l')" and "cc_wakers s = []" and "cc_counter s < U64_LIMIT"
    and "ctrl_c_handler CTRL_C_EVENT (Some s) = (handled, ws, Some s')"
  shows "ws = [] \<and> cc_wakers (cc_register_waker w s') = [w] \<and> cc_counter s' \<noteq> cc_last_seen l'"
proof -
  have "cc_last_seen l' = cc_counter s" using assms(1) by (auto simp: cc_load_def split: if_splits)
  moreover have "ws = []" "cc_wakers s' = []" "cc_counter s' = (cc_counter s + 1) mod U64_LIMIT"
    using assms(2,4) by (auto simp: ctrl_c_handler_def cc_take_def cc_count_def Let_def)
  moreover have "(cc_counter s + 1) mod U64_LIMIT \<noteq> cc_counter s"
    using assms(3) by (cases "cc_counter s + 1 = U64_LIMIT") auto
  ultimately show ?thesis by (simp add: cc_register_waker_def)
qed

theorem ctrl_c_between_load_and_register_is_missed_witness:
  "cc_wakers (cc_register_waker RootWaker \<lparr>cc_counter = 5, cc_wakers = []\<rparr>) = [RootWaker]"
proof -
  have l: "cc_load \<lparr>cc_last_seen = 4\<rparr> \<lparr>cc_counter = 4, cc_wakers = []\<rparr> = (False, \<lparr>cc_last_seen = 4\<rparr>)"
    by (simp add: cc_load_def)
  have h: "ctrl_c_handler CTRL_C_EVENT (Some \<lparr>cc_counter = 4, cc_wakers = []\<rparr>) =
      (True, [], Some \<lparr>cc_counter = 5, cc_wakers = []\<rparr>)"
    by (simp add: ctrl_c_handler_def cc_take_def cc_count_def)
  from ctrl_c_between_load_and_register_is_missed[OF l _ _ h] show ?thesis by simp
qed

end
