(* ===== verification/Text_Files.thy ===== *)
theory Text_Files
  imports Fs_File Fs_Paths
begin

text \<open>
  The helpers of \<open>fs/paths.rs\<close> that are about text and names: \<open>read_to_string\<close>, whose check is
  the one of \<open>String::from_utf8\<close> (a string is the list of its Unicode scalar values), and
  \<open>canonicalize\<close>, with \<open>realpath\<close> as the call of the kernel.
\<close>

section \<open>UTF-8\<close>

definition scalar_value :: "nat \<Rightarrow> bool" where
  "scalar_value c \<longleftrightarrow> c < 0xD800 \<or> (0xE000 \<le> c \<and> c < 0x110000)"

definition encode_utf8 :: "nat \<Rightarrow> byte list" where
  "encode_utf8 c =
     (if c < 0x80 then [c]
      else if c < 0x800 then [0xC0 + c div 64, 0x80 + c mod 64]
      else if c < 0x10000 then [0xE0 + c div 4096, 0x80 + c div 64 mod 64, 0x80 + c mod 64]
      else [0xF0 + c div 262144, 0x80 + c div 4096 mod 64, 0x80 + c div 64 mod 64, 0x80 + c mod 64])"

definition as_bytes :: "nat list \<Rightarrow> byte list" where
  "as_bytes s = concat (map encode_utf8 s)"

definition within :: "nat \<Rightarrow> nat \<Rightarrow> nat \<Rightarrow> bool" where
  "within lo hi b \<longleftrightarrow> lo \<le> b \<and> b \<le> hi"

text \<open>The byte classes of the validation: the second byte's range depends on the first.\<close>

definition second_of_three :: "byte \<Rightarrow> byte \<Rightarrow> bool" where
  "second_of_three a b \<longleftrightarrow> (a = 0xE0 \<and> within 0xA0 0xBF b) \<or> (within 0xE1 0xEC a \<and> within 0x80 0xBF b) \<or>
     (a = 0xED \<and> within 0x80 0x9F b) \<or> (within 0xEE 0xEF a \<and> within 0x80 0xBF b)"

definition second_of_four :: "byte \<Rightarrow> byte \<Rightarrow> bool" where
  "second_of_four a b \<longleftrightarrow> (a = 0xF0 \<and> within 0x90 0xBF b) \<or> (within 0xF1 0xF3 a \<and> within 0x80 0xBF b) \<or>
     (a = 0xF4 \<and> within 0x80 0x8F b)"

fun decode_char :: "byte list \<Rightarrow> (nat \<times> byte list) option" where
  "decode_char [] = None"
| "decode_char (a # r) =
     (if a < 0x80 then Some (a, r)
      else if within 0xC2 0xDF a then
        (case r of
           b # r1 \<Rightarrow> if within 0x80 0xBF b then Some ((a - 0xC0) * 64 + (b - 0x80), r1) else None
         | _ \<Rightarrow> None)
      else if within 0xE0 0xEF a then
        (case r of
           b # c # r1 \<Rightarrow>
             if second_of_three a b \<and> within 0x80 0xBF c
             then Some ((a - 0xE0) * 4096 + (b - 0x80) * 64 + (c - 0x80), r1) else None
         | _ \<Rightarrow> None)
      else if within 0xF0 0xF4 a then
        (case r of
           b # c # d # r1 \<Rightarrow>
             if second_of_four a b \<and> within 0x80 0xBF c \<and> within 0x80 0xBF d
             then Some ((a - 0xF0) * 262144 + (b - 0x80) * 4096 + (c - 0x80) * 64 + (d - 0x80), r1) else None
         | _ \<Rightarrow> None)
      else None)"

lemma decode_char_shorter: "decode_char bs = Some (c, r) \<Longrightarrow> length r < length bs"
  by (cases bs) (auto split: if_splits list.splits)

function from_utf8 :: "byte list \<Rightarrow> nat list option" where
  "from_utf8 bs =
     (if bs = [] then Some []
      else case decode_char bs of
             None \<Rightarrow> None
           | Some (c, r) \<Rightarrow> map_option ((#) c) (from_utf8 r))"
  by pat_completeness auto
termination
  by (relation "measure length") (auto dest: decode_char_shorter)

declare from_utf8.simps [simp del]

text \<open>The six-bit digits of a code point.\<close>

lemma digits:
  fixes c :: nat
  obtains q m k l where "c div 64 = 64 * q + m" and "c mod 64 = l" and "c div 64 mod 64 = m" and "c div 4096 = q"
    and "c div 4096 mod 64 = k" and "q = 64 * (c div 262144) + k"
    and "c = 4096 * q + 64 * m + l" and "m < 64" and "l < 64" and "k < 64"
proof
  have d: "c div 4096 = c div 64 div 64" "c div 262144 = c div 4096 div 64"
    by (simp_all add: div_mult2_eq[symmetric])
  show "c div 64 = 64 * (c div 4096) + c div 64 mod 64" unfolding d by simp
  then show "c = 4096 * (c div 4096) + 64 * (c div 64 mod 64) + c mod 64"
    using mult_div_mod_eq[of 64 c] by linarith
  show "c div 4096 = 64 * (c div 262144) + c div 4096 mod 64" unfolding d(2) by simp
  show "c div 64 mod 64 < 64" "c mod 64 < 64" "c div 4096 mod 64 < 64" by simp_all
qed (rule refl)+

lemma second_three:
  assumes "c = 4096 * q + 64 * m + l" and "m < 64" and "l < 64" and "0x800 \<le> c" and "c < 0x10000" and "scalar_value c"
  shows "second_of_three (0xE0 + q) (0x80 + m)"
proof -
  have q: "q < 16" using assms(1,5) by linarith
  consider "q = 0" | "0 < q" "q < 13" | "q = 13" | "13 < q" by linarith
  then show ?thesis
  proof cases
    case 1
    then show ?thesis using assms by (simp add: second_of_three_def within_def)
  next
    case 3
    have "c < 0xD800" using assms 3 by (simp add: scalar_value_def)
    then have "m < 32" using assms(1) 3 by linarith
    then show ?thesis using 3 by (simp add: second_of_three_def within_def)
  qed (use q assms(2) in \<open>simp_all add: second_of_three_def within_def\<close>)
qed

lemma second_four:
  assumes "c = 262144 * p + 4096 * k + 64 * m + l" and "k < 64" and "m < 64" and "l < 64" and "0x10000 \<le> c" and "c < 0x110000"
  shows "second_of_four (0xF0 + p) (0x80 + k)"
proof -
  have p: "p < 5" using assms(1,6) by linarith
  consider "p = 0" | "0 < p" "p < 4" | "p = 4" using p by linarith
  then show ?thesis
  proof cases
    case 1
    then have "16 \<le> k" using assms by linarith
    then show ?thesis using 1 assms(2) by (simp add: second_of_four_def within_def)
  next
    case 3
    then have "k < 16" using assms by linarith
    then show ?thesis using 3 by (simp add: second_of_four_def within_def)
  qed (use assms(2) in \<open>simp_all add: second_of_four_def within_def\<close>)
qed

lemma decode_encode:
  assumes "scalar_value c"
  shows "decode_char (encode_utf8 c @ r) = Some (c, r)"
proof -
  obtain q m k l where D: "c div 64 = 64 * q + m" "c mod 64 = l" "c div 64 mod 64 = m" "c div 4096 = q"
    "c div 4096 mod 64 = k" "q = 64 * (c div 262144) + k" "c = 4096 * q + 64 * m + l" "m < 64" "l < 64" "k < 64"
    by (rule digits)
  consider "c < 0x80" | "0x80 \<le> c" "c < 0x800" | "0x800 \<le> c" "c < 0x10000" | "0x10000 \<le> c" "c < 0x110000"
    using assms unfolding scalar_value_def by linarith
  then show ?thesis
  proof cases
    case 2
    have q: "q = 0" using D(7) 2 by linarith
    have "2 \<le> m" "m < 32" using D(7-9) 2 unfolding q by linarith+
    then show ?thesis using q 2 D(1,2,7,9) by (simp add: encode_utf8_def within_def)
  next
    case 3
    have "q < 16" using D(7) 3 by linarith
    then show ?thesis using 3 D(2-4,7-9) second_three[OF D(7-9) 3 assms]
      by (simp add: encode_utf8_def within_def)
  next
    case 4
    define p where "p = c div 262144"
    have c: "c = 262144 * p + 4096 * k + 64 * m + l" using D(6,7) by (simp add: p_def)
    have "p < 5" using c 4 by linarith
    then have "decode_char ([0xF0 + p, 0x80 + k, 0x80 + m, 0x80 + l] @ r) = Some (p * 262144 + k * 4096 + m * 64 + l, r)"
      using second_four[OF c D(10,8,9) 4] D(8-10) by (simp add: within_def)
    moreover have "encode_utf8 c = [0xF0 + p, 0x80 + k, 0x80 + m, 0x80 + l]"
      using 4 D(2,3,5) by (simp add: encode_utf8_def p_def)
    moreover have "p * 262144 + k * 4096 + m * 64 + l = c" using c by simp
    ultimately show ?thesis by simp
  qed (simp add: encode_utf8_def)
qed

text \<open>Conversely, what the decoder accepts is the encoding of a scalar value.\<close>

lemma digit: "z < 64 \<Longrightarrow> (k * 64 + z) mod 64 = z" "z < 64 \<Longrightarrow> (k * 64 + z) div 64 = k" for k z :: nat
  by simp_all

lemma encode_decode:
  assumes "decode_char bs = Some (c, r)"
  shows "scalar_value c \<and> bs = encode_utf8 c @ r"
proof -
  obtain a r0 where bs: "bs = a # r0" using assms by (cases bs) auto
  consider "a < 0x80" | "within 0xC2 0xDF a" | "within 0xE0 0xEF a" | "within 0xF0 0xF4 a"
    using assms bs by (auto split: if_splits)
  then show ?thesis
  proof cases
    case 1
    then show ?thesis using assms by (simp add: bs encode_utf8_def scalar_value_def)
  next
    case 2
    then obtain b where r0: "r0 = b # r" and b: "within 0x80 0xBF b" and c: "c = (a - 0xC0) * 64 + (b - 0x80)"
      using assms by (auto simp: bs within_def split: if_splits list.splits)
    define x y where "x = a - 0xC0" and "y = b - 0x80"
    have xy: "a = 0xC0 + x" "b = 0x80 + y" "2 \<le> x" "x < 32" "y < 64" "c = x * 64 + y"
      using 2 b c by (auto simp: x_def y_def within_def)
    have "c div 64 = x" "c mod 64 = y" using xy(5,6) by simp_all
    moreover have "0x80 \<le> c" "c < 0x800" using xy by linarith+
    ultimately show ?thesis using xy(1,2) by (simp add: bs r0 encode_utf8_def scalar_value_def)
  next
    case 3
    then obtain b d where r0: "r0 = b # d # r" and b: "second_of_three a b" "within 0x80 0xBF d"
      and c: "c = (a - 0xE0) * 4096 + (b - 0x80) * 64 + (d - 0x80)"
      using assms by (auto simp: bs within_def split: if_splits list.splits)
    define x y z where "x = a - 0xE0" and "y = b - 0x80" and "z = d - 0x80"
    have v: "a = 0xE0 + x" "b = 0x80 + y" "d = 0x80 + z" "y < 64" "z < 64" "x < 16" "c = x * 4096 + y * 64 + z"
      using 3 b c by (auto simp: x_def y_def z_def within_def second_of_three_def)
    have s: "x = 0 \<Longrightarrow> 32 \<le> y" "x = 13 \<Longrightarrow> y < 32" using b(1) v(1,2) by (auto simp: second_of_three_def within_def)
    have c64: "c = (x * 64 + y) * 64 + z" using v(7) by simp
    have div: "c mod 64 = z" "c div 64 = x * 64 + y" unfolding c64 by (rule digit[OF v(5)])+
    have "c div 4096 = c div 64 div 64" by (simp add: div_mult2_eq[symmetric])
    then have "c div 4096 = x" "c div 64 mod 64 = y" using div(2) digit[OF v(4)] by simp_all
    moreover have "0x800 \<le> c" using s(1) v(7) by (cases "x = 0") auto
    moreover have "c < 0x10000" using v by linarith
    moreover have "scalar_value c"
    proof (cases "x < 13")
      case True
      then show ?thesis using v unfolding scalar_value_def by linarith
    next
      case False
      then show ?thesis using v s(2) by (cases "x = 13") (auto simp: scalar_value_def)
    qed
    ultimately show ?thesis using v(1-3) div(1) by (simp add: bs r0 encode_utf8_def)
  next
    case 4
    then obtain b d e where r0: "r0 = b # d # e # r" and b: "second_of_four a b" "within 0x80 0xBF d" "within 0x80 0xBF e"
      and c: "c = (a - 0xF0) * 262144 + (b - 0x80) * 4096 + (d - 0x80) * 64 + (e - 0x80)"
      using assms by (auto simp: bs within_def split: if_splits list.splits)
    define x y z w where "x = a - 0xF0" and "y = b - 0x80" and "z = d - 0x80" and "w = e - 0x80"
    have v: "a = 0xF0 + x" "b = 0x80 + y" "d = 0x80 + z" "e = 0x80 + w" "y < 64" "z < 64" "w < 64" "x < 5"
        "c = x * 262144 + y * 4096 + z * 64 + w"
      using 4 b c by (auto simp: x_def y_def z_def w_def within_def second_of_four_def)
    have s: "x = 0 \<Longrightarrow> 16 \<le> y" "x = 4 \<Longrightarrow> y < 16" using b(1) v(1,2) by (auto simp: second_of_four_def within_def)
    have c64: "c = ((x * 64 + y) * 64 + z) * 64 + w" using v(9) by simp
    have d1: "c mod 64 = w" "c div 64 = (x * 64 + y) * 64 + z" unfolding c64 by (rule digit[OF v(7)])+
    have "c div 4096 = c div 64 div 64" by (simp add: div_mult2_eq[symmetric])
    then have d2: "c div 64 mod 64 = z" "c div 4096 = x * 64 + y" unfolding d1(2) using digit[OF v(6), of "x * 64 + y"] by metis+
    have "c div 262144 = c div 4096 div 64" by (simp add: div_mult2_eq[symmetric])
    then have d3: "c div 4096 mod 64 = y" "c div 262144 = x" using d2(2) digit[OF v(5)] by simp_all
    have "0x10000 \<le> c" using s(1) v(9) by (cases "x = 0") auto
    moreover have "c < 0x110000" using s(2) v by (cases "x = 4") auto
    ultimately show ?thesis using v(1-4) d1(1) d2(1) d3 by (simp add: bs r0 encode_utf8_def scalar_value_def)
  qed
qed

lemma from_utf8_as_bytes:
  "\<forall>c \<in> set s. scalar_value c \<Longrightarrow> from_utf8 (as_bytes s) = Some s"
proof (induction s)
  case Nil
  then show ?case by (simp add: as_bytes_def from_utf8.simps[of "[]"])
next
  case (Cons c s)
  have "encode_utf8 c \<noteq> []" by (simp add: encode_utf8_def)
  then show ?case using Cons decode_encode[of c "as_bytes s"]
    by (simp add: as_bytes_def from_utf8.simps[of "encode_utf8 c @ concat (map encode_utf8 s)"])
qed

lemma from_utf8_valid:
  "from_utf8 bs = Some s \<Longrightarrow> bs = as_bytes s \<and> (\<forall>c \<in> set s. scalar_value c)"
proof (induction bs arbitrary: s rule: from_utf8.induct)
  case (1 bs)
  show ?case
  proof (cases "bs = []")
    case True
    then show ?thesis using 1(2) by (simp add: from_utf8.simps[of "[]"] as_bytes_def)
  next
    case False
    then obtain c r s' where d: "decode_char bs = Some (c, r)" and f: "from_utf8 r = Some s'" and s: "s = c # s'"
      using 1(2) by (auto simp: from_utf8.simps[of bs] split: option.splits)
    have "r = as_bytes s' \<and> (\<forall>c \<in> set s'. scalar_value c)" by (rule 1(1)[OF False d refl f])
    then show ?thesis using encode_decode[OF d] s by (simp add: as_bytes_def)
  qed
qed

section \<open>Path helpers\<close>

definition read_to_string ::
  "bool \<Rightarrow> 'f fs_ops \<Rightarrow> 'f file_handle \<Rightarrow> (nat list outcome \<times> 'f file_handle) option" where
  "read_to_string offload ops fl =
     (case read_path offload ops fl of
        None \<Rightarrow> None
      | Some (Panicked, fl1) \<Rightarrow> Some (Panicked, fl1)
      | Some (Resolved (Inl err), fl1) \<Rightarrow> Some (Resolved (Inl err), fl1)
      | Some (Resolved (Inr bytes), fl1) \<Rightarrow>
          (case from_utf8 bytes of
             Some s \<Rightarrow> Some (Resolved (Inr s), fl1)
           | None \<Rightarrow> Some (Resolved (Inl (Simple InvalidData)), fl1)))"

definition canonicalize ::
  "(path \<Rightarrow> 'd \<Rightarrow> path io_result \<times> 'd) \<Rightarrow> bool \<Rightarrow> bool \<Rightarrow> path \<Rightarrow> 'd \<Rightarrow> path io_result \<times> 'd" where
  "canonicalize realpath offload pool_ok p = path_call (fs_route_of False offload pool_ok) [p] (realpath p)"

text \<open>
  C40: Text survives a file. A string is exactly one sequence of bytes and back: \<open>from_utf8\<close> accepts
  the encodings of sequences of scalar values and nothing else. So a file holding \<open>xs\<close>, read from
  its start without failures of the system, gives the one string whose encoding is \<open>xs\<close>, and an
  \<open>InvalidData\<close> error exactly when \<open>xs\<close> is no encoding; surrogates, overlong forms and values
  above \<open>0x10FFFF\<close> are refused.
\<close>

theorem read_to_string_decodes:
  assumes "file_store ops contents" and "length (contents (fl_inner fl)) + 8192 < U64_LIMIT" and "fl_cursor fl = 0"
    and "\<And>b fl. fillable (fl_io fl) b \<Longrightarrow> mb_cursor b = 0 \<Longrightarrow> mb_len b = 8192 \<Longrightarrow>
      \<exists>n b1 fl1. file_read offload ops b fl = (Resolved (Inr n), b1, fl1)"
  shows "\<exists>r fl'. read_to_string offload ops fl = Some (Resolved r, fl') \<and>
    (\<forall>s. r = Inr s \<longleftrightarrow> contents (fl_inner fl) = as_bytes s \<and> (\<forall>c \<in> set s. scalar_value c)) \<and>
    (r = Inl (Simple InvalidData) \<longleftrightarrow>
      \<not> (\<exists>s. contents (fl_inner fl) = as_bytes s \<and> (\<forall>c \<in> set s. scalar_value c)))"
proof -
  let ?c = "contents (fl_inner fl)"
  have ab: "mb_cursor (array_buf 8192) = 0" "mb_len (array_buf 8192) = 8192" by (simp_all add: array_buf_def)
  have f: "fillable (fl_io fl) (array_buf 8192)" by (simp add: fillable_def array_buf_def)
  have "\<exists>fl'. read_path_loop offload ops (array_buf 8192) [] fl = Some (Resolved (Inr ([] @ drop (fl_cursor fl) ?c)), fl')"
    by (rule file_store.read_path_loop_reads[OF assms(1,4) f ab]) (use assms(2,3) in simp_all)
  then obtain fl' where rd: "read_path offload ops fl = Some (Resolved (Inr ?c), fl')"
    using assms(3) by (auto simp: read_path_def)
  have iff: "from_utf8 ?c = Some s \<longleftrightarrow> ?c = as_bytes s \<and> (\<forall>c \<in> set s. scalar_value c)" for s
    using from_utf8_valid[of ?c s] from_utf8_as_bytes[of s] by auto
  show ?thesis
  proof (cases "from_utf8 ?c")
    case None
    then have "\<not> (\<exists>s. ?c = as_bytes s \<and> (\<forall>c \<in> set s. scalar_value c))" using iff by (metis option.distinct(1))
    then show ?thesis using rd None by (simp add: read_to_string_def)
  next
    case (Some s)
    then have "(\<exists>s. ?c = as_bytes s \<and> (\<forall>c \<in> set s. scalar_value c))" using iff by blast
    moreover have "Inr s = (Inr s' :: nat list io_result) \<longleftrightarrow> ?c = as_bytes s' \<and> (\<forall>c \<in> set s'. scalar_value c)" for s'
      using Some iff[of s'] by auto
    ultimately show ?thesis using rd Some by (simp add: read_to_string_def)
  qed
qed

theorem read_to_string_decodes_witness:
  "\<exists>r fl'. read_to_string False (chunked_fs 4) \<lparr>fl_io = BlockingIo, fl_inner = as_bytes [0x7A, 0xE9, 0x20AC, 0x1F600], fl_cursor = 0\<rparr> =
     Some (Resolved r, fl') \<and> r = Inr [0x7A, 0xE9, 0x20AC, 0x1F600]"
proof -
  let ?s = "[0x7A, 0xE9, 0x20AC, 0x1F600] :: nat list"
  let ?fl = "\<lparr>fl_io = BlockingIo, fl_inner = as_bytes ?s, fl_cursor = 0\<rparr>"
  have len: "length (fl_inner ?fl) + 8192 < U64_LIMIT" and cur: "fl_cursor ?fl = 0"
    by (simp_all add: as_bytes_def encode_utf8_def)
  have sv: "\<forall>c \<in> set ?s. scalar_value c" by (simp add: scalar_value_def)
  obtain r fl' where r: "read_to_string False (chunked_fs 4) ?fl = Some (Resolved r, fl')"
    and "\<forall>s. r = Inr s \<longleftrightarrow> fl_inner ?fl = as_bytes s \<and> (\<forall>c \<in> set s. scalar_value c)"
    using read_to_string_decodes[OF chunked_store.file_store_axioms len cur chunked_file_read_ok, of False] by blast
  then have "r = Inr ?s \<longleftrightarrow> fl_inner ?fl = as_bytes ?s \<and> (\<forall>c \<in> set ?s. scalar_value c)" by blast
  then have "r = Inr ?s" using sv by simp
  then show ?thesis using r by blast
qed

end
