(* ===== verification/Buffers.thy ===== *)
theory Buffers
  imports Io_Ops Text_Files
begin

text \<open>
  The buffer types of \<open>io/buf.rs\<close> with their addresses and memory: the traits \<open>IoBuf\<close> and
  \<open>IoBufMut\<close> as locales, their implementations as interpretations, \<open>IoBufWithCursor\<close> over any of
  them, and \<open>CompletionBuffer\<close> (\<open>op/io_util.rs\<close>) with the places its value moves through. The
  buffers of the operations (\<^typ>\<open>io_buf\<close>) and of the files (\<^typ>\<open>mem_buf\<close>) are abstractions of these.
\<close>

section \<open>The traits\<close>

type_synonym place = nat

text \<open>A buffer value is asked for its pointer at the place where the value lives.\<close>

record 'b io_buf_ops =
  ib_ptr :: "place \<Rightarrow> 'b \<Rightarrow> place"
  ib_len :: "'b \<Rightarrow> nat"
  ib_capacity :: "'b \<Rightarrow> nat"
  ib_would_box :: "'b \<Rightarrow> bool"

text \<open>
  The contract of \<open>IoBuf\<close>: \<open>mem\<close> is the memory behind the pointer. A buffer that need not be
  boxed has the same pointer wherever the value is.
\<close>

locale io_buffer =
  fixes ops :: "'b io_buf_ops" and good :: "'b \<Rightarrow> bool" and mem :: "'b \<Rightarrow> byte list"
  assumes len_capacity: "good b \<Longrightarrow> ib_len ops b \<le> ib_capacity ops b"
    and capacity_mem: "good b \<Longrightarrow> ib_capacity ops b = length (mem b)"
    and unboxed_stays: "\<not> ib_would_box ops b \<Longrightarrow> ib_ptr ops p b = ib_ptr ops q b"

text \<open>
  The contract of \<open>IoBufMut\<close>: \<open>put\<close> is the kernel writing through the pointer, \<open>init\<close> is
  \<open>set_buf_init\<close>, which a buffer of fixed length ignores.
\<close>

locale io_buffer_mut = io_buffer ops good mem
  for ops :: "'b io_buf_ops" and good :: "'b \<Rightarrow> bool" and mem :: "'b \<Rightarrow> byte list" +
  fixes init :: "nat \<Rightarrow> 'b \<Rightarrow> 'b" and put :: "nat \<Rightarrow> byte list \<Rightarrow> 'b \<Rightarrow> 'b" and fixed :: bool
  assumes put_good: "good b \<Longrightarrow> off + length bs \<le> ib_capacity ops b \<Longrightarrow> good (put off bs b)"
    and put_mem: "good b \<Longrightarrow> off + length bs \<le> ib_capacity ops b \<Longrightarrow> mem (put off bs b) = overwrite off bs (mem b)"
    and put_len: "good b \<Longrightarrow> off + length bs \<le> ib_capacity ops b \<Longrightarrow> ib_len ops (put off bs b) = ib_len ops b"
    and put_box: "ib_would_box ops (put off bs b) = ib_would_box ops b"
    and init_good: "good b \<Longrightarrow> n \<le> ib_capacity ops b \<Longrightarrow> good (init n b)"
    and init_mem: "mem (init n b) = mem b"
    and init_len: "ib_len ops (init n b) = (if fixed then ib_len ops b else n)"
    and init_box: "ib_would_box ops (init n b) = ib_would_box ops b"
    and fixed_full: "good b \<Longrightarrow> fixed \<Longrightarrow> ib_len ops b = ib_capacity ops b"

definition iobuf_to_slice :: "'b io_buf_ops \<Rightarrow> ('b \<Rightarrow> byte list) \<Rightarrow> 'b \<Rightarrow> byte list" where
  "iobuf_to_slice ops mem b = take (ib_len ops b) (mem b)"

text \<open>The buffer as the operations see it.\<close>

definition as_io_buf :: "'b io_buf_ops \<Rightarrow> bool \<Rightarrow> 'b \<Rightarrow> io_buf" where
  "as_io_buf ops fixed b = \<lparr>buf_len = ib_len ops b, buf_capacity = ib_capacity ops b, buf_fixed = fixed,
     would_box = ib_would_box ops b\<rparr>"

section \<open>The implementations\<close>

text \<open>\<open>Vec<u8>\<close>: an allocation of the capacity's size and the number of elements.\<close>

record byte_vec =
  vb_ptr :: place
  vb_mem :: "byte list"
  vb_len :: nat

definition vec_ops :: "byte_vec io_buf_ops" where
  "vec_ops = \<lparr>ib_ptr = (\<lambda>_. vb_ptr), ib_len = vb_len, ib_capacity = (\<lambda>v. length (vb_mem v)), ib_would_box = (\<lambda>_. False)\<rparr>"

definition vec_init :: "nat \<Rightarrow> byte_vec \<Rightarrow> byte_vec" where
  "vec_init n v = v\<lparr>vb_len := n\<rparr>"

definition vec_put :: "nat \<Rightarrow> byte list \<Rightarrow> byte_vec \<Rightarrow> byte_vec" where
  "vec_put off bs v = v\<lparr>vb_mem := overwrite off bs (vb_mem v)\<rparr>"

definition vec_good :: "byte_vec \<Rightarrow> bool" where
  "vec_good v \<longleftrightarrow> vb_len v \<le> length (vb_mem v)"

text \<open>\<open>String\<close>: a vector whose elements are UTF-8.\<close>

datatype string_buf = StringBuf (as_mut_vec: byte_vec)

definition string_ops :: "string_buf io_buf_ops" where
  "string_ops = \<lparr>ib_ptr = (\<lambda>_ s. vb_ptr (as_mut_vec s)), ib_len = (\<lambda>s. vb_len (as_mut_vec s)),
     ib_capacity = (\<lambda>s. length (vb_mem (as_mut_vec s))), ib_would_box = (\<lambda>_. False)\<rparr>"

definition string_init :: "nat \<Rightarrow> string_buf \<Rightarrow> string_buf" where
  "string_init n s = StringBuf (vec_init n (as_mut_vec s))"

definition string_put :: "nat \<Rightarrow> byte list \<Rightarrow> string_buf \<Rightarrow> string_buf" where
  "string_put off bs s = StringBuf (vec_put off bs (as_mut_vec s))"

definition string_utf8 :: "string_buf \<Rightarrow> bool" where
  "string_utf8 s \<longleftrightarrow> from_utf8 (take (vb_len (as_mut_vec s)) (vb_mem (as_mut_vec s))) \<noteq> None"

text \<open>Static slices and strings, and boxed slices: an address and the bytes there.\<close>

record slice_buf =
  sb_ptr :: place
  sb_bytes :: "byte list"

definition slice_ops :: "slice_buf io_buf_ops" where
  "slice_ops = \<lparr>ib_ptr = (\<lambda>_. sb_ptr), ib_len = (\<lambda>s. length (sb_bytes s)), ib_capacity = (\<lambda>s. length (sb_bytes s)),
     ib_would_box = (\<lambda>_. False)\<rparr>"

datatype static_str = StaticStr (str_ptr: place) (str_chars: "nat list")

definition str_ops :: "static_str io_buf_ops" where
  "str_ops = \<lparr>ib_ptr = (\<lambda>_. str_ptr), ib_len = (\<lambda>s. length (as_bytes (str_chars s))),
     ib_capacity = (\<lambda>s. length (as_bytes (str_chars s))), ib_would_box = (\<lambda>_. False)\<rparr>"

definition boxed_ops :: "slice_buf io_buf_ops" where
  "boxed_ops = \<lparr>ib_ptr = (\<lambda>_. sb_ptr), ib_len = (\<lambda>s. length (sb_bytes s)), ib_capacity = (\<lambda>s. length (sb_bytes s)),
     ib_would_box = (\<lambda>_. False)\<rparr>"

definition boxed_init :: "nat \<Rightarrow> slice_buf \<Rightarrow> slice_buf" where
  "boxed_init n s = s"

definition boxed_put :: "nat \<Rightarrow> byte list \<Rightarrow> slice_buf \<Rightarrow> slice_buf" where
  "boxed_put off bs s = s\<lparr>sb_bytes := overwrite off bs (sb_bytes s)\<rparr>"

text \<open>\<open>[u8; N]\<close>: the bytes are the value, and lie where the value lies.\<close>

definition array_ops :: "byte list io_buf_ops" where
  "array_ops = \<lparr>ib_ptr = (\<lambda>p _. p), ib_len = length, ib_capacity = length, ib_would_box = (\<lambda>_. True)\<rparr>"

definition array_init :: "nat \<Rightarrow> byte list \<Rightarrow> byte list" where
  "array_init n xs = xs"

lemmas buf_defs = vec_ops_def vec_init_def vec_put_def vec_good_def string_ops_def string_init_def string_put_def
  slice_ops_def str_ops_def boxed_ops_def boxed_init_def boxed_put_def array_ops_def array_init_def

interpretation vec: io_buffer_mut vec_ops vec_good vb_mem vec_init vec_put False
  by unfold_locales (simp_all add: buf_defs)

interpretation str_buf: io_buffer_mut string_ops "\<lambda>s. vec_good (as_mut_vec s)" "\<lambda>s. vb_mem (as_mut_vec s)" string_init string_put False
  by unfold_locales (simp_all add: buf_defs)

interpretation slice: io_buffer slice_ops "\<lambda>_. True" sb_bytes
  by unfold_locales (simp_all add: buf_defs)

interpretation static_text: io_buffer str_ops "\<lambda>_. True" "\<lambda>s. as_bytes (str_chars s)"
  by unfold_locales (simp_all add: buf_defs)

interpretation boxed: io_buffer_mut boxed_ops "\<lambda>_. True" sb_bytes boxed_init boxed_put True
  by unfold_locales (simp_all add: buf_defs)

interpretation array: io_buffer_mut array_ops "\<lambda>_. True" "\<lambda>xs. xs" array_init overwrite True
  by unfold_locales (simp_all add: buf_defs)

section \<open>The cursor\<close>

record 'b with_cursor =
  wc_buf :: 'b
  wc_cursor :: nat

definition wc_new :: "'b \<Rightarrow> 'b with_cursor" where
  "wc_new b = \<lparr>wc_buf = b, wc_cursor = 0\<rparr>"

definition wc_advance :: "nat \<Rightarrow> 'b with_cursor \<Rightarrow> 'b with_cursor" where
  "wc_advance n c = c\<lparr>wc_cursor := wc_cursor c + n\<rparr>"

definition cursor_ops :: "'b io_buf_ops \<Rightarrow> 'b with_cursor io_buf_ops" where
  "cursor_ops ops = \<lparr>ib_ptr = (\<lambda>p c. ib_ptr ops p (wc_buf c) + wc_cursor c), ib_len = (\<lambda>c. ib_len ops (wc_buf c) - wc_cursor c),
     ib_capacity = (\<lambda>c. ib_capacity ops (wc_buf c) - wc_cursor c), ib_would_box = (\<lambda>c. ib_would_box ops (wc_buf c))\<rparr>"

definition cursor_init :: "(nat \<Rightarrow> 'b \<Rightarrow> 'b) \<Rightarrow> nat \<Rightarrow> 'b with_cursor \<Rightarrow> 'b with_cursor" where
  "cursor_init init n c = c\<lparr>wc_buf := init (wc_cursor c + n) (wc_buf c)\<rparr>"

text \<open>Writing through the pointer of the cursor, and the buffers whose subtractions do not underflow.\<close>

definition cursor_put :: "(nat \<Rightarrow> byte list \<Rightarrow> 'b \<Rightarrow> 'b) \<Rightarrow> nat \<Rightarrow> byte list \<Rightarrow> 'b with_cursor \<Rightarrow> 'b with_cursor" where
  "cursor_put put off bs c = c\<lparr>wc_buf := put (wc_cursor c + off) bs (wc_buf c)\<rparr>"

definition cursor_good :: "'b io_buf_ops \<Rightarrow> ('b \<Rightarrow> bool) \<Rightarrow> 'b with_cursor \<Rightarrow> bool" where
  "cursor_good ops good c \<longleftrightarrow> good (wc_buf c) \<and> wc_cursor c \<le> ib_len ops (wc_buf c)"

lemmas cursor_defs = cursor_ops_def cursor_init_def cursor_put_def cursor_good_def wc_new_def wc_advance_def

lemma drop_overwrite: "k \<le> length xs \<Longrightarrow> drop k (overwrite (k + off) bs xs) = overwrite off bs (drop k xs)"
  by (simp add: overwrite_def drop_take add.assoc add.commute add.left_commute)

context io_buffer
begin

lemma len_mem: "good b \<Longrightarrow> ib_len ops b \<le> length (mem b)"
  using len_capacity[of b] capacity_mem[of b] by simp

lemma cursor_fits:
  assumes "cursor_good ops good c" and "m \<le> ib_capacity (cursor_ops ops) c"
  shows "good (wc_buf c)" and "wc_cursor c + m \<le> ib_capacity ops (wc_buf c)"
  using assms len_capacity[of "wc_buf c"] by (auto simp: cursor_good_def cursor_ops_def)

lemma cursor_io_buffer: "io_buffer (cursor_ops ops) (cursor_good ops good) (\<lambda>c. drop (wc_cursor c) (mem (wc_buf c)))"
proof
  fix c p q assume "\<not> ib_would_box (cursor_ops ops) c"
  then show "ib_ptr (cursor_ops ops) p c = ib_ptr (cursor_ops ops) q c"
    using unboxed_stays[of "wc_buf c" p q] by (simp add: cursor_defs)
qed (auto simp: cursor_defs capacity_mem len_mem diff_le_mono)

end

context io_buffer_mut
begin

lemma cursor_io_buffer_mut:
  "io_buffer_mut (cursor_ops ops) (cursor_good ops good) (\<lambda>c. drop (wc_cursor c) (mem (wc_buf c)))
     (cursor_init init) (cursor_put put) fixed"
proof (intro io_buffer_mut.intro cursor_io_buffer io_buffer_mut_axioms.intro)
  fix c off and bs :: "byte list" assume c: "cursor_good ops good c" and le: "off + length bs \<le> ib_capacity (cursor_ops ops) c"
  note f = cursor_fits[OF c le]
  note l = f(2)[folded add.assoc]
  show "cursor_good ops good (cursor_put put off bs c)"
    using c put_good[OF f(1) l] put_len[OF f(1) l] by (simp add: cursor_defs)
  show "drop (wc_cursor (cursor_put put off bs c)) (mem (wc_buf (cursor_put put off bs c))) =
      overwrite off bs (drop (wc_cursor c) (mem (wc_buf c)))"
    using c put_mem[OF f(1) l] len_mem[OF f(1)] by (simp add: cursor_defs drop_overwrite)
  show "ib_len (cursor_ops ops) (cursor_put put off bs c) = ib_len (cursor_ops ops) c"
    using put_len[OF f(1) l] by (simp add: cursor_defs)
next
  fix c n assume c: "cursor_good ops good c" and le: "n \<le> ib_capacity (cursor_ops ops) c"
  show "cursor_good ops good (cursor_init init n c)"
    using c init_good[OF cursor_fits[OF c le]] by (simp add: cursor_defs init_len)
qed (auto simp: cursor_defs put_box init_mem init_len init_box fixed_full)

text \<open>A read leaves the bytes the kernel stored at the front of the buffer.\<close>

lemma read_prefix:
  assumes "good b" and "length bs \<le> ib_capacity ops b"
  shows "take (length bs) (iobuf_to_slice ops mem (init (length bs) (put 0 bs b))) = bs"
proof -
  have m: "mem (put 0 bs b) = overwrite 0 bs (mem b)" "ib_len ops (put 0 bs b) = ib_len ops b"
    using put_mem[OF assms(1), of 0] put_len[OF assms(1), of 0] assms(2) by simp_all
  show ?thesis using fixed_full[OF assms(1)] assms(2)
    by (simp add: iobuf_to_slice_def init_len init_mem m overwrite_def)
qed

text \<open>The record of the operations and that of the files follow the buffer.\<close>

lemma init_capacity: "good b \<Longrightarrow> n \<le> ib_capacity ops b \<Longrightarrow> ib_capacity ops (init n b) = ib_capacity ops b"
  using capacity_mem[OF init_good] capacity_mem[of b] by (simp add: init_mem)

lemma as_io_buf_init:
  "good b \<Longrightarrow> n \<le> ib_capacity ops b \<Longrightarrow> as_io_buf ops fixed (init n b) = set_buf_init n (as_io_buf ops fixed b)"
  by (simp add: as_io_buf_def set_buf_init_def init_len init_box init_capacity)

end

definition as_mem_buf :: "'b io_buf_ops \<Rightarrow> ('b \<Rightarrow> byte list) \<Rightarrow> bool \<Rightarrow> 'b with_cursor \<Rightarrow> mem_buf" where
  "as_mem_buf ops mem fixed c =
     \<lparr>mb_mem = mem (wc_buf c), mb_len = ib_len ops (wc_buf c), mb_fixed = fixed, mb_cursor = wc_cursor c\<rparr>"

context io_buffer_mut
begin

lemma as_mem_buf_sizes:
  assumes "cursor_good ops good c"
  shows "mb_avail (as_mem_buf ops mem fixed c) = Some (ib_len (cursor_ops ops) c)"
    and "mb_room (as_mem_buf ops mem fixed c) = ib_capacity (cursor_ops ops) c"
    and "mb_slice (as_mem_buf ops mem fixed c) =
      iobuf_to_slice (cursor_ops ops) (\<lambda>c. drop (wc_cursor c) (mem (wc_buf c))) c"
  using assms by (simp_all add: mb_avail_def mb_room_def mb_slice_def as_mem_buf_def cursor_defs capacity_mem iobuf_to_slice_def)

lemma as_mem_buf_steps:
  "as_mem_buf ops mem fixed (cursor_init init n c) = mb_set_init n (as_mem_buf ops mem fixed c)"
  "as_mem_buf ops mem fixed (wc_advance n c) = mb_advance n (as_mem_buf ops mem fixed c)"
  "as_mem_buf ops mem fixed (wc_new (wc_buf c)) = mb_into_inner (as_mem_buf ops mem fixed c)"
  by (simp_all add: as_mem_buf_def cursor_defs mb_set_init_def mb_advance_def mb_into_inner_def init_len init_mem)

lemma as_mem_buf_put:
  assumes "cursor_good ops good c" and "length bs \<le> ib_capacity (cursor_ops ops) c"
  shows "as_mem_buf ops mem fixed (cursor_put put 0 bs c) = mb_store bs (as_mem_buf ops mem fixed c)"
  using cursor_fits[OF assms] put_mem[of "wc_buf c" "wc_cursor c" bs] put_len[of "wc_buf c" "wc_cursor c" bs]
  by (simp add: as_mem_buf_def cursor_put_def mb_store_def)

lemma as_mem_buf_read:
  assumes "cursor_good ops good c" and "length bs \<le> ib_capacity (cursor_ops ops) c"
  shows "as_mem_buf ops mem fixed (cursor_init init (length bs) (cursor_put put 0 bs c)) =
    read_into CompletionIo bs (as_mem_buf ops mem fixed c)"
  by (simp add: as_mem_buf_steps as_mem_buf_put[OF assms] read_into_def)

end

section \<open>Buffers of operations in flight\<close>

text \<open>
  \<open>CompletionBuffer\<close> with places: the box has an address of its own, an inline buffer lies where
  the operation does. The pointer is the one that an entry submitted from there carries.
\<close>

datatype 'b completion_slot = InlineBuf 'b | BoxedBuf place 'b

definition slot_new :: "'b io_buf_ops \<Rightarrow> place \<Rightarrow> 'b \<Rightarrow> bool \<Rightarrow> 'b completion_slot" where
  "slot_new ops r b pinned = (if pinned \<and> ib_would_box ops b then BoxedBuf r b else InlineBuf b)"

fun slot_ptr :: "'b io_buf_ops \<Rightarrow> place \<Rightarrow> 'b completion_slot \<Rightarrow> place" where
  "slot_ptr ops p (InlineBuf b) = ib_ptr ops p b"
| "slot_ptr ops p (BoxedBuf r b) = ib_ptr ops r b"

fun slot_into_box :: "place \<Rightarrow> 'b completion_slot \<Rightarrow> place \<times> 'b" where
  "slot_into_box q (InlineBuf b) = (q, b)"
| "slot_into_box q (BoxedBuf r b) = (r, b)"

text \<open>
  The pointer in the entry stays that of the buffer: wherever the operation is moved (\<open>p'\<close>), and
  when its drop boxes the buffer for the driver (at \<open>q\<close>).
\<close>

definition pointer_kept :: "'b io_buf_ops \<Rightarrow> bool" where
  "pointer_kept ops \<longleftrightarrow> (\<forall>p p' q r b. let s = slot_new ops r b True in
     slot_ptr ops p' s = slot_ptr ops p s \<and> (case slot_into_box q s of (q', b') \<Rightarrow> ib_ptr ops q' b') = slot_ptr ops p s)"

context io_buffer
begin

lemma keeps_pointer: "pointer_kept ops"
  unfolding pointer_kept_def Let_def slot_new_def using unboxed_stays by (auto split: if_split)

lemma cursor_keeps_pointer: "pointer_kept (cursor_ops ops)"
  by (rule io_buffer.keeps_pointer[OF cursor_io_buffer])

end

section \<open>Vectored buffers\<close>

record iovec =
  iov_base :: place
  iov_len :: nat

text \<open>
  The loop of \<open>as_iovecs\<close>: an uninitialised slice is written entry by entry; taking it as
  initialised is undefined while an entry is not written.
\<close>

primrec write_iovecs :: "nat \<Rightarrow> ('e \<Rightarrow> iovec) \<Rightarrow> 'e list \<Rightarrow> iovec option list \<Rightarrow> iovec option list" where
  "write_iovecs i f [] out = out"
| "write_iovecs i f (e # es) out = write_iovecs (Suc i) f es (out[i := Some (f e)])"

fun assume_init :: "iovec option list \<Rightarrow> iovec list option" where
  "assume_init [] = Some []"
| "assume_init (None # _) = None"
| "assume_init (Some v # vs) = map_option ((#) v) (assume_init vs)"

definition as_iovecs :: "('e \<Rightarrow> iovec) \<Rightarrow> 'e list \<Rightarrow> iovec list option" where
  "as_iovecs f es = assume_init (write_iovecs 0 f es (replicate (length es) None))"

text \<open>The implementations for vectors and boxed slices of \<open>libc::iovec\<close>, pairs of pointer and length.\<close>

type_synonym libc_iovec = "place \<times> nat"

definition vec_as_iovecs :: "libc_iovec list \<Rightarrow> iovec list option" where
  "vec_as_iovecs vs = as_iovecs (\<lambda>(base, len). \<lparr>iov_base = base, iov_len = len\<rparr>) vs"

definition vec_iovecs_is_empty :: "libc_iovec list \<Rightarrow> bool" where
  "vec_iovecs_is_empty vs = (vs = [])"

definition box_as_iovecs :: "libc_iovec list \<Rightarrow> iovec list option" where
  "box_as_iovecs vs = as_iovecs (\<lambda>(base, len). \<lparr>iov_base = base, iov_len = len\<rparr>) vs"

text \<open>The default of the trait, which the boxed slice has.\<close>

definition vectored_is_empty :: "(libc_iovec list \<Rightarrow> iovec list option) \<Rightarrow> libc_iovec list \<Rightarrow> bool option" where
  "vectored_is_empty get vs = map_option (\<lambda>es. es = []) (get vs)"

text \<open>\<open>IoVectoredBufTemporaryPoll\<close>, from slices.\<close>

definition temporary_iovecs :: "slice_buf list \<Rightarrow> (place \<times> nat) list" where
  "temporary_iovecs ss = map (\<lambda>s. (sb_ptr s, length (sb_bytes s))) ss"

definition temporary_as_iovecs :: "(place \<times> nat) list \<Rightarrow> iovec list option" where
  "temporary_as_iovecs es = as_iovecs (\<lambda>e. \<lparr>iov_base = fst e, iov_len = snd e\<rparr>) es"

lemma assume_init_map: "assume_init (map Some vs) = Some vs"
  by (induction vs) auto

lemma write_iovecs_fills:
  "write_iovecs (length pre) f es (map Some pre @ replicate (length es) None) = map Some (pre @ map f es)"
proof (induction es arbitrary: pre)
  case (Cons e es)
  have "write_iovecs (length pre) f (e # es) (map Some pre @ replicate (length (e # es)) None) =
      write_iovecs (length (pre @ [f e])) f es (map Some (pre @ [f e]) @ replicate (length es) None)"
    by (simp add: list_update_append)
  also have "\<dots> = map Some (pre @ map f (e # es))" unfolding Cons.IH by simp
  finally show ?case .
qed simp

lemma as_iovecs_eq: "as_iovecs f es = Some (map f es)"
proof -
  have "write_iovecs 0 f es (replicate (length es) None) = map Some (map f es)"
    using write_iovecs_fills[of "[]" f es] by simp
  then show ?thesis by (simp only: as_iovecs_def assume_init_map)
qed

section \<open>Properties\<close>

text \<open>
  C8: The pointer that an entry carries stays valid. For every buffer type, and for each behind a
  cursor, an operation that may use completions keeps its buffer so that the pointer does not
  change when the operation is moved, nor when a drop in flight moves the buffer into the box
  that the driver keeps: the types whose bytes lie in the value are boxed from the start.
\<close>

theorem kernel_pointer_survives_moves:
  "pointer_kept vec_ops \<and> pointer_kept string_ops \<and> pointer_kept slice_ops \<and> pointer_kept str_ops \<and>
   pointer_kept boxed_ops \<and> pointer_kept array_ops \<and> pointer_kept (cursor_ops vec_ops) \<and>
   pointer_kept (cursor_ops string_ops) \<and> pointer_kept (cursor_ops slice_ops) \<and> pointer_kept (cursor_ops str_ops) \<and>
   pointer_kept (cursor_ops boxed_ops) \<and> pointer_kept (cursor_ops array_ops)"
  by (intro conjI vec.keeps_pointer str_buf.keeps_pointer slice.keeps_pointer static_text.keeps_pointer
      boxed.keeps_pointer array.keeps_pointer vec.cursor_keeps_pointer str_buf.cursor_keeps_pointer
      slice.cursor_keeps_pointer static_text.cursor_keeps_pointer boxed.cursor_keeps_pointer array.cursor_keeps_pointer)

text \<open>
  C11: Reading into a \<open>String\<close> breaks its invariant. \<open>String\<close> implements \<open>IoBufMut\<close>, so safe code can
  pass one to a read. When the kernel stores bytes that are not UTF-8 and the read reports their
  number, the string that \<open>take_bufs\<close> returns holds exactly those bytes, although a \<open>String\<close> must
  hold UTF-8.
\<close>

theorem read_into_string_breaks_utf8:
  assumes "vec_good (as_mut_vec s)" and "length bs \<le> ib_capacity string_ops s" and "from_utf8 bs = None"
    and "read_poll_poll cfg ans sys w (buf_op_new drv h (as_io_buf string_ops False s)) drv = (Ready (Inr (length bs)), op', drv')"
    and "s' = string_init (length bs) (string_put 0 bs s)"
  shows "take_bufs op' = as_io_buf string_ops False s' \<and> \<not> string_utf8 s'"
proof
  have g: "vec_good (as_mut_vec (string_put 0 bs s))" using assms(1,2) by (simp add: buf_defs)
  have "as_io_buf string_ops False s' = set_buf_init (length bs) (as_io_buf string_ops False (string_put 0 bs s))"
    unfolding assms(5) by (rule str_buf.as_io_buf_init[OF g]) (use assms(2) in \<open>simp add: buf_defs\<close>)
  also have "as_io_buf string_ops False (string_put 0 bs s) = as_io_buf string_ops False s"
    using assms(2) by (simp add: as_io_buf_def buf_defs)
  finally show "take_bufs op' = as_io_buf string_ops False s'"
    using assms(4) by (auto simp: read_poll_poll_def init_on_success_def take_bufs_def buf_op_new_def completion_buffer_new_def
        split: prod.splits)
  have "take (length bs) (overwrite 0 bs (vb_mem (as_mut_vec s))) = bs" by (simp add: overwrite_def)
  then show "\<not> string_utf8 s'" using assms(3) by (simp add: assms(5) string_utf8_def buf_defs)
qed

text \<open>
  The buffers of the file operations are an abstraction of the buffer types: storing the bytes
  of a read through the pointer of a cursor and calling \<open>set_buf_init\<close> is, on the abstraction, what
  the model of the files does.
\<close>

theorem buffers_refine_file_buffers:
  "cursor_good vec_ops vec_good v \<Longrightarrow> length bs \<le> ib_capacity (cursor_ops vec_ops) v \<Longrightarrow>
   as_mem_buf vec_ops vb_mem False (cursor_init vec_init (length bs) (cursor_put vec_put 0 bs v)) =
   read_into CompletionIo bs (as_mem_buf vec_ops vb_mem False v)"
  "cursor_good boxed_ops (\<lambda>_. True) x \<Longrightarrow> length bs \<le> ib_capacity (cursor_ops boxed_ops) x \<Longrightarrow>
   as_mem_buf boxed_ops sb_bytes True (cursor_init boxed_init (length bs) (cursor_put boxed_put 0 bs x)) =
   read_into CompletionIo bs (as_mem_buf boxed_ops sb_bytes True x)"
  "cursor_good array_ops (\<lambda>_. True) a \<Longrightarrow> length bs \<le> ib_capacity (cursor_ops array_ops) a \<Longrightarrow>
   as_mem_buf array_ops (\<lambda>xs. xs) True (cursor_init array_init (length bs) (cursor_put overwrite 0 bs a)) =
   read_into CompletionIo bs (as_mem_buf array_ops (\<lambda>xs. xs) True a)"
  by (rule vec.as_mem_buf_read boxed.as_mem_buf_read array.as_mem_buf_read; assumption)+

text \<open>
  A vectored operation gets one entry per buffer, in order, and every entry is written before
  the slice is taken as initialised; it is empty exactly when there is no buffer.
\<close>

theorem iovecs_are_initialised:
  "vec_as_iovecs vs = Some (map (\<lambda>(base, len). \<lparr>iov_base = base, iov_len = len\<rparr>) vs) \<and> box_as_iovecs vs = vec_as_iovecs vs \<and>
   temporary_as_iovecs (temporary_iovecs ss) = Some (map (\<lambda>s. \<lparr>iov_base = sb_ptr s, iov_len = length (sb_bytes s)\<rparr>) ss) \<and>
   vectored_is_empty box_as_iovecs vs = Some (vec_iovecs_is_empty vs)"
  by (simp add: as_iovecs_eq vec_as_iovecs_def box_as_iovecs_def temporary_as_iovecs_def temporary_iovecs_def comp_def
      vectored_is_empty_def vec_iovecs_is_empty_def)

section \<open>Instances\<close>

text \<open>A string of capacity four, and one byte that starts no character.\<close>

definition demo_string :: string_buf where
  "demo_string = StringBuf \<lparr>vb_ptr = 4096, vb_mem = [111, 107, 0, 0], vb_len = 2\<rparr>"

definition demo_string_read :: "raw_handle \<Rightarrow> buf_op" where
  "demo_string_read h = buf_op_new (MockDriver :: (nat, nat, nat, nat) any_driver) h (as_io_buf string_ops False demo_string)"

theorem read_into_string_breaks_utf8_witness:
  "\<forall>(cfg :: (nat, nat, nat, nat) op_cfg) h. \<exists>op'.
     read_poll_poll cfg None (Inr 1) RootWaker (demo_string_read h) MockDriver = (Ready (Inr 1), op', MockDriver) \<and>
     take_bufs op' = as_io_buf string_ops False (string_init 1 (string_put 0 [255] demo_string)) \<and>
     \<not> string_utf8 (string_init 1 (string_put 0 [255] demo_string))"
proof (intro allI)
  fix cfg :: "(nat, nat, nat, nat) op_cfg" and h
  have g: "vec_good (as_mut_vec demo_string)" and c: "length [255] \<le> ib_capacity string_ops demo_string"
    by (simp_all add: demo_string_def buf_defs)
  have u: "from_utf8 [255] = None" by (simp add: from_utf8.simps within_def)
  have r: "read_poll_poll cfg None (Inr 1) RootWaker (demo_string_read h) MockDriver =
      (Ready (Inr (length [255 :: nat])), init_on_success (Ready (Inr 1)) (demo_string_read h), MockDriver)"
    by (simp add: read_poll_poll_def poll_result_or_wait_def)
  from read_into_string_breaks_utf8[OF g c u r[unfolded demo_string_read_def] refl] r
  show "\<exists>op'. read_poll_poll cfg None (Inr 1) RootWaker (demo_string_read h) MockDriver = (Ready (Inr 1), op', MockDriver) \<and>
     take_bufs op' = as_io_buf string_ops False (string_init 1 (string_put 0 [255] demo_string)) \<and>
     \<not> string_utf8 (string_init 1 (string_put 0 [255] demo_string))" by (simp add: demo_string_read_def)
qed

end
