(* ===== verification/Socket_Options.thy ===== *)
theory Socket_Options
  imports Net_Streams "HOL-Library.Word"
begin

text \<open>
  The options of sockets and the constructors that go through the standard library:
  \<open>UdpSocket\<close> and \<open>PollUdpSocket\<close> (\<open>net/udp\<close>), \<open>nodelay\<close> of the TCP streams, and \<open>bind\<close> of datagram
  sockets and Unix listeners. The standard library's accessors are modelled down to the
  \<open>setsockopt\<close> and \<open>getsockopt\<close> they make, which are a parameter: values are C integers or
  \<open>timeval\<close>s.
\<close>

section \<open>The standard library's accessors\<close>

datatype sockopt = SoBroadcast | IpTtl | IpMulticastLoop | IpMulticastTtl | Ipv6MulticastLoop | TcpNodelay
  | SoRcvtimeo | SoSndtimeo | SoError

datatype sockval = CInt "32 word" | Timeval "64 word" nat

datatype membership = Group4 "32 word" "32 word" | Group6 "128 word" "32 word"

record ('k, 'a) sockopt_ops =
  so_set :: "sockopt \<Rightarrow> sockval \<Rightarrow> raw_fd \<Rightarrow> 'k \<Rightarrow> unit io_result \<times> 'k"
  so_get :: "sockopt \<Rightarrow> raw_fd \<Rightarrow> 'k \<Rightarrow> sockval io_result \<times> 'k"
  so_membership :: "bool \<Rightarrow> membership \<Rightarrow> raw_fd \<Rightarrow> 'k \<Rightarrow> unit io_result \<times> 'k"
  so_local :: "raw_fd \<Rightarrow> 'k \<Rightarrow> 'a io_result"
  so_peer :: "raw_fd \<Rightarrow> 'k \<Rightarrow> 'a io_result"

definition set_flag :: "('k, 'a) sockopt_ops \<Rightarrow> sockopt \<Rightarrow> raw_fd \<Rightarrow> bool \<Rightarrow> 'k \<Rightarrow> unit io_result \<times> 'k" where
  "set_flag ops opt fd b = so_set ops opt (CInt (if b then 1 else 0)) fd"

definition get_flag :: "('k, 'a) sockopt_ops \<Rightarrow> sockopt \<Rightarrow> raw_fd \<Rightarrow> 'k \<Rightarrow> bool io_result \<times> 'k" where
  "get_flag ops opt fd k =
     (case so_get ops opt fd k of
        (Inl err, k1) \<Rightarrow> (Inl err, k1)
      | (Inr v, k1) \<Rightarrow> (Inr (case v of CInt x \<Rightarrow> x \<noteq> 0 | Timeval s u \<Rightarrow> False), k1))"

definition set_u32 :: "('k, 'a) sockopt_ops \<Rightarrow> sockopt \<Rightarrow> raw_fd \<Rightarrow> 32 word \<Rightarrow> 'k \<Rightarrow> unit io_result \<times> 'k" where
  "set_u32 ops opt fd v = so_set ops opt (CInt v) fd"

definition get_u32 :: "('k, 'a) sockopt_ops \<Rightarrow> sockopt \<Rightarrow> raw_fd \<Rightarrow> 'k \<Rightarrow> 32 word io_result \<times> 'k" where
  "get_u32 ops opt fd k =
     (case so_get ops opt fd k of
        (Inl err, k1) \<Rightarrow> (Inl err, k1)
      | (Inr v, k1) \<Rightarrow> (Inr (case v of CInt x \<Rightarrow> x | Timeval s u \<Rightarrow> 0), k1))"

text \<open>
  Timeouts: no timeout is the zero \<open>timeval\<close>, so a zero duration is refused, the seconds saturate
  at \<open>time_t::MAX\<close>, and a duration below a microsecond becomes one.
\<close>

definition to_timeval :: "duration \<Rightarrow> sockval" where
  "to_timeval d =
     (let secs = d div 10 ^ 9; micros = d mod 10 ^ 9 div 1000;
          s = (if secs > 2 ^ 63 - 1 then 2 ^ 63 - 1 else secs)
      in Timeval (of_nat s) (if s = 0 \<and> micros = 0 then 1 else micros))"

definition set_timeout :: "('k, 'a) sockopt_ops \<Rightarrow> sockopt \<Rightarrow> raw_fd \<Rightarrow> duration option \<Rightarrow> 'k \<Rightarrow> unit io_result \<times> 'k" where
  "set_timeout ops opt fd dur k =
     (case dur of
        Some d \<Rightarrow> if d = 0 then (Inl (Simple InvalidInput), k) else so_set ops opt (to_timeval d) fd k
      | None \<Rightarrow> so_set ops opt (Timeval 0 0) fd k)"

definition get_timeout :: "('k, 'a) sockopt_ops \<Rightarrow> sockopt \<Rightarrow> raw_fd \<Rightarrow> 'k \<Rightarrow> duration option io_result \<times> 'k" where
  "get_timeout ops opt fd k =
     (case so_get ops opt fd k of
        (Inl err, k1) \<Rightarrow> (Inl err, k1)
      | (Inr v, k1) \<Rightarrow>
          (Inr (case v of
                  CInt x \<Rightarrow> None
                | Timeval s u \<Rightarrow> if s = 0 \<and> u = 0 then None else Some (unat s * 10 ^ 9 + u * 1000)), k1))"

section \<open>Datagram sockets\<close>

definition udp_set_broadcast where "udp_set_broadcast ops s b = set_flag ops SoBroadcast (sk_fd s) b"
definition udp_broadcast where "udp_broadcast ops s = get_flag ops SoBroadcast (sk_fd s)"
definition udp_set_ttl where "udp_set_ttl ops s v = set_u32 ops IpTtl (sk_fd s) v"
definition udp_ttl where "udp_ttl ops s = get_u32 ops IpTtl (sk_fd s)"
definition udp_set_multicast_loop_v4 where "udp_set_multicast_loop_v4 ops s b = set_flag ops IpMulticastLoop (sk_fd s) b"
definition udp_multicast_loop_v4 where "udp_multicast_loop_v4 ops s = get_flag ops IpMulticastLoop (sk_fd s)"
definition udp_set_multicast_ttl_v4 where "udp_set_multicast_ttl_v4 ops s v = set_u32 ops IpMulticastTtl (sk_fd s) v"
definition udp_multicast_ttl_v4 where "udp_multicast_ttl_v4 ops s = get_u32 ops IpMulticastTtl (sk_fd s)"
definition udp_set_multicast_loop_v6 where "udp_set_multicast_loop_v6 ops s b = set_flag ops Ipv6MulticastLoop (sk_fd s) b"
definition udp_multicast_loop_v6 where "udp_multicast_loop_v6 ops s = get_flag ops Ipv6MulticastLoop (sk_fd s)"

definition udp_join_multicast_v4 where
  "udp_join_multicast_v4 ops s multiaddr interface = so_membership ops True (Group4 multiaddr interface) (sk_fd s)"

definition udp_join_multicast_v6 where
  "udp_join_multicast_v6 ops s multiaddr interface = so_membership ops True (Group6 multiaddr interface) (sk_fd s)"

definition udp_leave_multicast_v4 where
  "udp_leave_multicast_v4 ops s multiaddr interface = so_membership ops False (Group4 multiaddr interface) (sk_fd s)"

definition udp_leave_multicast_v6 where
  "udp_leave_multicast_v6 ops s multiaddr interface = so_membership ops False (Group6 multiaddr interface) (sk_fd s)"

text \<open>\<open>take_error\<close> reads and clears \<open>SO_ERROR\<close>.\<close>

definition udp_take_error :: "('k, 'a) sockopt_ops \<Rightarrow> async_socket \<Rightarrow> 'k \<Rightarrow> io_error option io_result \<times> 'k" where
  "udp_take_error ops s k =
     (case get_u32 ops SoError (sk_fd s) k of
        (Inl err, k1) \<Rightarrow> (Inl err, k1)
      | (Inr v, k1) \<Rightarrow> (Inr (if v = 0 then None else Some (Os (unat v))), k1))"

definition udp_set_read_timeout where "udp_set_read_timeout ops s dur = set_timeout ops SoRcvtimeo (sk_fd s) dur"
definition udp_set_write_timeout where "udp_set_write_timeout ops s dur = set_timeout ops SoSndtimeo (sk_fd s) dur"
definition udp_read_timeout where "udp_read_timeout ops s = get_timeout ops SoRcvtimeo (sk_fd s)"
definition udp_write_timeout where "udp_write_timeout ops s = get_timeout ops SoSndtimeo (sk_fd s)"

definition udp_local_addr where "udp_local_addr ops s k = so_local ops (sk_fd s) k"
definition udp_peer_addr where "udp_peer_addr ops s k = so_peer ops (sk_fd s) k"

text \<open>\<open>PollUdpSocket\<close> forwards to the socket it wraps.\<close>

definition poll_udp_set_broadcast where "poll_udp_set_broadcast ops p b = udp_set_broadcast ops (ps_socket p) b"
definition poll_udp_broadcast where "poll_udp_broadcast ops p = udp_broadcast ops (ps_socket p)"
definition poll_udp_set_ttl where "poll_udp_set_ttl ops p v = udp_set_ttl ops (ps_socket p) v"
definition poll_udp_ttl where "poll_udp_ttl ops p = udp_ttl ops (ps_socket p)"
definition poll_udp_set_multicast_loop_v4 where
  "poll_udp_set_multicast_loop_v4 ops p b = udp_set_multicast_loop_v4 ops (ps_socket p) b"
definition poll_udp_multicast_loop_v4 where "poll_udp_multicast_loop_v4 ops p = udp_multicast_loop_v4 ops (ps_socket p)"
definition poll_udp_set_multicast_ttl_v4 where
  "poll_udp_set_multicast_ttl_v4 ops p v = udp_set_multicast_ttl_v4 ops (ps_socket p) v"
definition poll_udp_multicast_ttl_v4 where "poll_udp_multicast_ttl_v4 ops p = udp_multicast_ttl_v4 ops (ps_socket p)"
definition poll_udp_set_multicast_loop_v6 where
  "poll_udp_set_multicast_loop_v6 ops p b = udp_set_multicast_loop_v6 ops (ps_socket p) b"
definition poll_udp_multicast_loop_v6 where "poll_udp_multicast_loop_v6 ops p = udp_multicast_loop_v6 ops (ps_socket p)"
definition poll_udp_set_read_timeout where "poll_udp_set_read_timeout ops p dur = udp_set_read_timeout ops (ps_socket p) dur"
definition poll_udp_set_write_timeout where "poll_udp_set_write_timeout ops p dur = udp_set_write_timeout ops (ps_socket p) dur"
definition poll_udp_read_timeout where "poll_udp_read_timeout ops p = udp_read_timeout ops (ps_socket p)"
definition poll_udp_write_timeout where "poll_udp_write_timeout ops p = udp_write_timeout ops (ps_socket p)"
definition poll_udp_take_error where "poll_udp_take_error ops p = udp_take_error ops (ps_socket p)"

section \<open>TCP streams\<close>

definition tcp_set_nodelay where "tcp_set_nodelay ops s b = set_flag ops TcpNodelay (sk_fd s) b"
definition tcp_nodelay where "tcp_nodelay ops s = get_flag ops TcpNodelay (sk_fd s)"
definition poll_tcp_set_nodelay where "poll_tcp_set_nodelay ops p b = tcp_set_nodelay ops (ps_socket p) b"
definition poll_tcp_nodelay where "poll_tcp_nodelay ops p = tcp_nodelay ops (ps_socket p)"

section \<open>Binding\<close>

text \<open>\<open>bind\<close> of the standard library opens a descriptor; registering it may still fail.\<close>

definition udp_bind ::
  "('ms, 'r, 's, 'c) op_cfg \<Rightarrow> (raw_fd \<times> nat) io_result \<Rightarrow> os_answer \<Rightarrow> os_answer \<Rightarrow> ('ms, 'r, 's, 'c) net
   \<Rightarrow> async_socket io_result \<times> ('ms, 'r, 's, 'c) net" where
  "udp_bind cfg bound ra na n =
     (case new_socket bound n of
        (Inl err, n1) \<Rightarrow> (Inl err, n1)
      | (Inr fd, n1) \<Rightarrow> stream_from_std cfg ra na fd n1)"

definition poll_udp_bind ::
  "('ms, 'r, 's, 'c) op_cfg \<Rightarrow> (raw_fd \<times> nat) io_result \<Rightarrow> os_answer \<Rightarrow> os_answer \<Rightarrow> ('ms, 'r, 's, 'c) net
   \<Rightarrow> poll_socket io_result \<times> ('ms, 'r, 's, 'c) net" where
  "poll_udp_bind cfg bound ra na n =
     (case new_socket bound n of
        (Inl err, n1) \<Rightarrow> (Inl err, n1)
      | (Inr fd, n1) \<Rightarrow> poll_from_std cfg ra na fd n1)"

definition unix_listener_bind ::
  "('ms, 'r, 's, 'c) op_cfg \<Rightarrow> (raw_fd \<times> nat) io_result \<Rightarrow> os_answer \<Rightarrow> os_answer \<Rightarrow> ('ms, 'r, 's, 'c) net
   \<Rightarrow> async_socket io_result \<times> ('ms, 'r, 's, 'c) net" where
  "unix_listener_bind cfg bound ra na n =
     (case new_socket bound n of
        (Inl err, n1) \<Rightarrow> (Inl err, n1)
      | (Inr fd, n1) \<Rightarrow> listener_from_std cfg ra na fd n1)"

section \<open>Properties\<close>

text \<open>
  What the kernel documents of its options: an accepted value that is not negative (a negative
  time to live selects the default) is read back, and no option touches another one. Timeouts
  are rounded by the kernel, and reading \<open>SO_ERROR\<close> clears it, so neither is among the laws.
\<close>

locale option_kernel =
  fixes ops :: "('k, 'a) sockopt_ops"
  assumes set_get: "so_set ops opt (CInt v) fd k = (Inr u, k') \<Longrightarrow> 0 \<le> sint v \<Longrightarrow> fst (so_get ops opt fd k') = Inr (CInt v)"
    and set_other: "so_set ops opt x fd k = (r, k') \<Longrightarrow> (opt', fd') \<noteq> (opt, fd) \<Longrightarrow>
      fst (so_get ops opt' fd' k') = fst (so_get ops opt' fd' k)"
begin

lemma flag_roundtrip: "set_flag ops opt fd b k = (Inr u, k') \<Longrightarrow> fst (get_flag ops opt fd k') = Inr b"
  using set_get[of opt "if b then 1 else 0" fd k u k']
  by (cases b) (auto simp: set_flag_def get_flag_def split: prod.splits sum.splits)

lemma u32_roundtrip: "set_u32 ops opt fd v k = (Inr u, k') \<Longrightarrow> 0 \<le> sint v \<Longrightarrow> fst (get_u32 ops opt fd k') = Inr v"
  using set_get[of opt v fd k u k'] by (auto simp: set_u32_def get_u32_def split: prod.splits sum.splits)

lemma get_cong:
  assumes "fst (so_get ops opt fd k') = fst (so_get ops opt fd k)"
  shows "fst (get_flag ops opt fd k') = fst (get_flag ops opt fd k)" "fst (get_u32 ops opt fd k') = fst (get_u32 ops opt fd k)"
  using assms by (auto simp: get_flag_def get_u32_def split: prod.splits sum.splits)

lemma set_keeps:
  assumes "opt' \<noteq> opt"
  shows "set_flag ops opt fd b k = (r, k') \<Longrightarrow> fst (get_flag ops opt' fd k') = fst (get_flag ops opt' fd k)"
    and "set_flag ops opt fd b k = (r, k') \<Longrightarrow> fst (get_u32 ops opt' fd k') = fst (get_u32 ops opt' fd k)"
    and "set_u32 ops opt fd v k = (r, k') \<Longrightarrow> fst (get_flag ops opt' fd k') = fst (get_flag ops opt' fd k)"
    and "set_u32 ops opt fd v k = (r, k') \<Longrightarrow> fst (get_u32 ops opt' fd k') = fst (get_u32 ops opt' fd k)"
  unfolding set_flag_def set_u32_def using set_other assms get_cong by blast+

end

lemmas udp_options = udp_set_broadcast_def udp_broadcast_def udp_set_ttl_def udp_ttl_def udp_set_multicast_loop_v4_def
  udp_multicast_loop_v4_def udp_set_multicast_ttl_v4_def udp_multicast_ttl_v4_def udp_set_multicast_loop_v6_def
  udp_multicast_loop_v6_def

lemmas poll_udp_options = poll_udp_set_broadcast_def poll_udp_broadcast_def poll_udp_set_ttl_def poll_udp_ttl_def
  poll_udp_set_multicast_loop_v4_def poll_udp_multicast_loop_v4_def poll_udp_set_multicast_ttl_v4_def
  poll_udp_multicast_ttl_v4_def poll_udp_set_multicast_loop_v6_def poll_udp_multicast_loop_v6_def

text \<open>
  Every option of a datagram socket has its own getter. What a setter accepted, through the
  socket or through the poll-based wrapper, is what the getter of the same name reads through the
  other; setting one option leaves the others, in particular the two loopback flags and the two
  lifetimes, as they were.
\<close>

theorem udp_options_read_back:
  assumes "option_kernel ops" and "s = ps_socket p"
  shows "(\<forall>b k k'. udp_set_broadcast ops s b k = (Inr (), k') \<longrightarrow> fst (poll_udp_broadcast ops p k') = Inr b) \<and>
    (\<forall>v k k'. 0 \<le> sint v \<and> udp_set_ttl ops s v k = (Inr (), k') \<longrightarrow>
      fst (poll_udp_ttl ops p k') = Inr v \<and> fst (udp_multicast_ttl_v4 ops s k') = fst (udp_multicast_ttl_v4 ops s k)) \<and>
    (\<forall>b k k'. poll_udp_set_multicast_loop_v4 ops p b k = (Inr (), k') \<longrightarrow> fst (udp_multicast_loop_v4 ops s k') = Inr b \<and>
      fst (udp_multicast_loop_v6 ops s k') = fst (udp_multicast_loop_v6 ops s k)) \<and>
    (\<forall>v k k'. 0 \<le> sint v \<and> poll_udp_set_multicast_ttl_v4 ops p v k = (Inr (), k') \<longrightarrow>
      fst (udp_multicast_ttl_v4 ops s k') = Inr v \<and> fst (udp_ttl ops s k') = fst (udp_ttl ops s k)) \<and>
    (\<forall>b k k'. udp_set_multicast_loop_v6 ops s b k = (Inr (), k') \<longrightarrow> fst (poll_udp_multicast_loop_v6 ops p k') = Inr b \<and>
      fst (udp_multicast_loop_v4 ops s k') = fst (udp_multicast_loop_v4 ops s k) \<and>
      fst (udp_broadcast ops s k') = fst (udp_broadcast ops s k))"
proof -
  note rt = option_kernel.flag_roundtrip[OF assms(1)] option_kernel.u32_roundtrip[OF assms(1)]
  note keep = option_kernel.set_keeps[OF assms(1)]
  show ?thesis unfolding udp_options poll_udp_options assms(2)
    by (intro conjI allI impI) (auto dest: rt keep[rotated])
qed

text \<open>
  A timeout is never turned off by accident. A zero duration is refused without a call; every
  other duration that fits into the seconds of a \<open>timeval\<close> is passed as itself rounded down to
  microseconds, but at least one, so the kernel never sees the zero that means no timeout.
\<close>

theorem timeout_encoding:
  assumes "0 < d" and "d div 10 ^ 9 < 2 ^ 63"
  shows "udp_set_read_timeout ops s (Some 0) k = (Inl (Simple InvalidInput), k) \<and>
    udp_set_read_timeout ops s (Some d) k = so_set ops SoRcvtimeo (to_timeval d) (sk_fd s) k \<and>
    (\<exists>sec mic. to_timeval d = Timeval sec mic \<and> (sec, mic) \<noteq> (0, 0) \<and> mic < 10 ^ 6 \<and>
      unat sec * 10 ^ 9 + mic * 1000 = max 1000 (d div 1000 * 1000))"
proof -
  let ?s = "d div 10 ^ 9" and ?m = "d mod 10 ^ 9 div 1000"
  have s: "unat (of_nat ?s :: 64 word) = ?s" using assms(2) by (intro unat_of_small) simp
  have z: "(of_nat ?s :: 64 word) = 0 \<longleftrightarrow> ?s = 0" by (metis s of_nat_0 unat_eq_zero)
  have tv: "to_timeval d = Timeval (of_nat ?s) (if ?s = 0 \<and> ?m = 0 then 1 else ?m)"
    using assms(2) by (simp add: to_timeval_def Let_def)
  have m: "?m < 10 ^ 6" by (simp add: less_mult_imp_div_less)
  have "d = ?s * 10 ^ 9 + d mod 10 ^ 9" by simp
  then have "d div 1000 = (d mod 10 ^ 9 + 1000 * (?s * 10 ^ 6)) div 1000" by simp
  also have "\<dots> = ?s * 10 ^ 6 + ?m" by (subst div_mult_self2) simp_all
  finally have e: "d div 1000 * 1000 = ?s * 10 ^ 9 + ?m * 1000" by simp
  show ?thesis
  proof (cases "?s = 0 \<and> ?m = 0")
    case True
    then show ?thesis using tv s e assms(1) by (simp add: udp_set_read_timeout_def set_timeout_def)
  next
    case False
    then have "1000 \<le> ?s * 10 ^ 9 + ?m * 1000" by (cases "?s = 0") auto
    then show ?thesis using False tv s z m e assms(1)
      by (auto simp: udp_set_read_timeout_def set_timeout_def)
  qed
qed

text \<open>A kernel that stores what it is told.\<close>

definition stored_options :: "(raw_fd \<times> sockopt \<Rightarrow> sockval, nat) sockopt_ops" where
  "stored_options = \<lparr>so_set = (\<lambda>opt v fd k. (Inr (), k((fd, opt) := v))), so_get = (\<lambda>opt fd k. (Inr (k (fd, opt)), k)),
     so_membership = (\<lambda>join g fd k. (Inr (), k)), so_local = (\<lambda>fd k. Inr fd), so_peer = (\<lambda>fd k. Inr fd)\<rparr>"

interpretation stored_options: option_kernel stored_options
  by unfold_locales (auto simp: stored_options_def)

theorem udp_options_read_back_witness:
  "fst (poll_udp_ttl stored_options \<lparr>ps_socket = \<lparr>sk_fd = 6, sk_handle = demo_handle\<rparr>, ps_read_ready = False, ps_write_ready = False\<rparr>
     (snd (udp_set_ttl stored_options \<lparr>sk_fd = 6, sk_handle = demo_handle\<rparr> 64 (\<lambda>_. CInt 7)))) = Inr 64"
proof -
  let ?s = "\<lparr>sk_fd = 6, sk_handle = demo_handle\<rparr>"
  let ?p = "\<lparr>ps_socket = ?s, ps_read_ready = False, ps_write_ready = False\<rparr>"
  let ?k = "(\<lambda>_. CInt 7) :: raw_fd \<times> sockopt \<Rightarrow> sockval"
  have set: "udp_set_ttl stored_options ?s 64 ?k = (Inr (), snd (udp_set_ttl stored_options ?s 64 ?k))"
    by (simp add: udp_set_ttl_def set_u32_def stored_options_def)
  have "(0 :: int) \<le> sint (64 :: 32 word)" by simp
  moreover have "?s = ps_socket ?p" by simp
  from udp_options_read_back[OF stored_options.option_kernel_axioms this]
  have "\<forall>v k k'. 0 \<le> sint v \<and> udp_set_ttl stored_options ?s v k = (Inr (), k') \<longrightarrow> fst (poll_udp_ttl stored_options ?p k') = Inr v"
    by blast
  ultimately show ?thesis using set by blast
qed

theorem timeout_encoding_witness:
  "\<exists>sec mic. to_timeval 500 = Timeval sec mic \<and> (sec, mic) \<noteq> (0, 0) \<and> unat sec * 10 ^ 9 + mic * 1000 = 1000"
proof -
  have p: "(0 :: nat) < 500" by simp
  have q: "500 div 10 ^ 9 < (2 :: nat) ^ 63" by simp
  obtain sec mic where "to_timeval 500 = Timeval sec mic" "(sec, mic) \<noteq> (0, 0)"
      "unat sec * 10 ^ 9 + mic * 1000 = max 1000 (500 div 1000 * 1000)"
    using timeout_encoding[OF p q, THEN conjunct2, THEN conjunct2] by blast
  moreover have "max 1000 (500 div 1000 * 1000) = (1000 :: nat)" by simp
  ultimately show ?thesis by metis
qed

text \<open>
  Binding leaves no descriptor behind: a failed \<open>bind\<close> of a datagram socket of either kind or of
  a Unix listener, whether the standard library, the registration or the non-blocking flag failed,
  leaves the table of descriptors as it was; a successful one adds exactly the returned one.
\<close>

definition opens_one ::
  "(raw_fd \<rightharpoonup> nat) \<Rightarrow> (raw_fd \<times> nat) io_result \<Rightarrow> ('a \<Rightarrow> raw_fd) \<Rightarrow> 'a io_result \<times> ('ms, 'r, 's, 'c) net \<Rightarrow> bool" where
  "opens_one files bound fd_of out =
     (case fst out of
        Inl _ \<Rightarrow> nt_files (snd out) = files
      | Inr s \<Rightarrow> bound = Inr (fd_of s, the (nt_files (snd out) (fd_of s))) \<and>
                 nt_files (snd out) = files(fd_of s \<mapsto> the (nt_files (snd out) (fd_of s))))"

lemma opens_one_poll_of:
  "opens_one files bound sk_fd out \<Longrightarrow> opens_one files bound (\<lambda>p. sk_fd (ps_socket p)) (poll_of out)"
  by (cases out; cases "fst out") (simp_all add: opens_one_def poll_of_def)

lemma registered_opens_one:
  assumes "fresh_socket (nt_files n) (Inr (fd, i))"
  shows "opens_one (nt_files n) (Inr (fd, i)) sk_fd (from_registered na fd reg (n\<lparr>nt_files := (nt_files n)(fd \<mapsto> i)\<rparr>))"
proof -
  let ?n = "n\<lparr>nt_files := (nt_files n)(fd \<mapsto> i)\<rparr>"
  have f: "(nt_files n)(fd := None) = nt_files n" using assms by (simp add: fresh_socket_def fun_upd_idem_iff)
  obtain r n' where o: "from_registered na fd reg ?n = (r, n')" by fastforce
  show ?thesis
  proof (cases r)
    case (Inl err)
    then show ?thesis using from_registered_files(1)[OF o, of err] f by (simp add: opens_one_def o)
  next
    case (Inr s)
    then show ?thesis using from_registered_files(2)[OF o, of s] by (simp add: opens_one_def o)
  qed
qed

theorem binding_leaves_no_descriptor:
  assumes "fresh_socket (nt_files n) bound"
  shows "opens_one (nt_files n) bound sk_fd (udp_bind cfg bound ra na n) \<and>
    opens_one (nt_files n) bound (\<lambda>p. sk_fd (ps_socket p)) (poll_udp_bind cfg bound ra na n) \<and>
    opens_one (nt_files n) bound sk_fd (unix_listener_bind cfg bound ra na n)"
proof (cases bound)
  case (Inl err)
  then show ?thesis
    by (simp add: udp_bind_def poll_udp_bind_def unix_listener_bind_def new_socket_def opens_one_def)
next
  case (Inr y)
  obtain fd i where y: "y = (fd, i)" by (cases y)
  have ns: "new_socket bound n = (Inr fd, n\<lparr>nt_files := (nt_files n)(fd \<mapsto> i)\<rparr>)" by (simp add: Inr y new_socket_def)
  note r = registered_opens_one[OF assms[unfolded Inr y]]
  show ?thesis
    unfolding udp_bind_def poll_udp_bind_def unix_listener_bind_def ns stream_from_std_def poll_from_std_def
      listener_from_std_def from_std_with_mode_def prod.case sum.case
    unfolding Inr y using r opens_one_poll_of[OF r] by blast
qed

end
