(* ===== verification/Spec2Isabelle.thy ===== *)
theory Spec2Isabelle
  imports Time_Futures Scheduler Wake_Protocol Quinn_Runtime Hyper_Adapter Async_Wrap Processes Io_Split Fs_Metadata Fs_Paths
    Iocp_Safety Probing Op_Wakeups Waker_Counts Runtime_Context Ctrl_C Buffers Socket_Options
begin

text \<open>
  A verification of \<open>zincio\<close>, a single-threaded asynchronous runtime in Rust with a readiness
  driver (\<open>mio\<close>) and a completion driver (\<open>io_uring\<close>), in its Linux configuration, and of the driver and the
  Ctrl-C listener of its Windows configuration. Paths below are relative to \<open>src/zincio/src\<close>.

  \<^bold>\<open>The program.\<close> The executor (\<open>executor.rs\<close>, \<open>task.rs\<close>) polls tasks from three queues; wakers on
  its own thread push to the local queues, wakers on other threads to a concurrent queue and
  interrupt the driver. When nothing is runnable the executor spins the timer (\<open>timer.rs\<close>, a
  hierarchical timing wheel) and waits in the driver (\<open>driver/\<close>). Handles (\<open>fd_inner.rs\<close>) register
  descriptors with the driver, operations (\<open>op/\<close>) are futures over handles that either try a system
  call and wait for readiness or submit an entry and wait for its completion. On top are the
  futures of \<open>time/\<close>, the copying loops and adapters of \<open>io/\<close> and \<open>util/\<close>, files and path operations
  (\<open>fs/\<close>), sockets (\<open>net/\<close>), pipes and standard streams (\<open>io/pipe.rs\<close>, \<open>io/stdio.rs\<close>), signals
  (\<open>signal/\<close>), child processes and their reaper (\<open>process/\<close>), and the adapters of the separate crates
  \<open>zincio-quinn\<close> and \<open>zincio-hyper\<close>.

  \<^bold>\<open>The theories, in dependency order.\<close>

  \<^item> \<open>Prelude\<close>: machine integers and time, \<open>Poll\<close>, I/O errors, shared lemmas. \<open>Slab\<close>: the \<open>slab\<close>
    crate as an operations record with its laws as the locale \<open>slab\<close>, interpreted on a vector of
    options; clients extend that locale.
  \<^item> \<open>Timing_Wheel\<close>: the wheel with every operation of \<open>TimingWheel\<close> and its invariant.
    \<open>Timer_Service\<close>: the abstract timer service and the refinement of it by the wheel, which due
    timers fire and how late. \<open>Timer\<close>: the runtime's \<open>Timer\<close>. \<open>Time_Futures\<close>: \<open>Sleep\<close>, \<open>Timeout\<close>,
    \<open>Interval\<close>.
  \<^item> \<open>Executor\<close>: tasks, wakers, queues, spawning, joining and one iteration of \<open>block_on\<close>; user
    futures are parameters that may use the public operations. \<open>Executor_Invariant\<close> and \<open>Scheduler\<close>:
    the queue invariant and what an iteration does. \<open>Wake_Protocol\<close>: the handshake between the
    scheduler and wakers on other threads, one atomic access per step, sequentially consistent
    or with a store buffer. \<open>Waker_Counts\<close>: the reference counts of tasks through both waker tables, the
    queues and the batch. \<open>Runtime_Context\<close>: the current runtime of a thread, entering, leaving and
    dropping a \<open>Runtime\<close>.
  \<^item> \<open>Driver_Base\<close>, \<open>Driver_Mio\<close>, \<open>Driver_Uring\<close>, \<open>Uring_Completions\<close>, \<open>Any_Driver\<close>: both drivers, the
    dispatch between them, the builder and the registered handle. The poller, the ring and the
    kernel are parameters; the locale \<open>poll_driver\<close> is the contract that both drivers and their
    dispatch meet.
  \<^item> \<open>Driver_Iocp\<close>, \<open>Iocp_Safety\<close>: the driver of the Windows configuration over completion ports, with what the
    kernel holds as part of its state, and what is invariant.
  \<^item> \<open>Io_Ops\<close>, \<open>Io_Sockets\<close>, \<open>Op_Properties\<close>: every operation of \<open>op/\<close> with its entry, its two paths
    and its drop, and what holds of all of them. \<open>Probing\<close>: the probe for \<open>io_uring\<close> against the entries of
    the operations.
  \<^item> \<open>Io_Wakeups\<close>: executor and driver together, over the locale \<open>event_driver\<close> for what a wait delivers,
    which both drivers and their dispatch meet; the locale \<open>io_runtime\<close> joins it with the queues and with
    \<open>poll_driver\<close>. \<open>Op_Wakeups\<close>: the same for a completion and the operation that waits for it.
  \<^item> \<open>Io_Copy\<close>: the reader and writer traits as locales, \<open>copy\<close>, \<open>splice_exact\<close>, \<open>sendfile_exact\<close>.
    \<open>Io_Split\<close>: \<open>split\<close> and \<open>copy_bidirectional\<close> as a step relation over the two copies, their mutexes
    and the peers. \<open>Async_Wrap\<close>: the adapter to poll-based I/O.
  \<^item> \<open>Net_Sockets\<close>: creating, connecting, binding, accepting, switching and closing sockets over a
    state of the open descriptors, their flags and registrations. \<open>Net_Streams\<close>: the transfers of
    streams and datagram sockets. \<open>Socket_Options\<close>: options over a contract for \<open>setsockopt\<close>, and \<open>bind\<close>.
    \<open>Quinn_Adapter\<close>, \<open>Quinn_Runtime\<close>: the datagram socket of
    \<open>zincio-quinn\<close>, its pollers and timers.
    \<open>Hyper_Adapter\<close>: executor, timer and reader of \<open>zincio-hyper\<close>, over a contract for readers that append.
  \<^item> \<open>Signals\<close>: the registry, listeners and dispatch thread. \<open>Ctrl_C\<close>: the listener of Windows. \<open>Reaper\<close>: both back ends as interpretations
    of one contract. \<open>Io_Streams\<close>: the blocking pool, standard streams and pipes. \<open>Processes\<close>: commands,
    children and their pipes, over the reaper.
  \<^item> \<open>Fs_Open\<close>: open options and the flags of both ways to open. \<open>Fs_File\<close>: reading and writing files
    over a contract for positioned I/O. \<open>Fs_Metadata\<close>: metadata from both sources. \<open>Fs_Paths\<close>: path operations and \<open>create_dir_all\<close> over a
    contract for directory trees. \<open>Text_Files\<close>: \<open>read_to_string\<close> with UTF-8, and \<open>canonicalize\<close>.
  \<^item> \<open>Buffers\<close>: the traits of \<open>io/buf.rs\<close> as locales over addresses and memory, interpreted for every
    buffer type, and what the buffers of \<open>Io_Ops\<close> and \<open>Fs_File\<close> abstract from.

  \<^bold>\<open>How code becomes definitions.\<close> A struct is a record, an enum a datatype; a method is a function
  from the state to its result and the new state. Wakers that are woken are returned as lists.
  Answers of the operating system are arguments (\<open>os_answer\<close>, \<open>sys\<close>) or, in loops, operations on a
  state of the environment. Libraries outside the repository (\<open>slab\<close>, \<open>crossbeam\<close> queues, \<open>io_uring\<close>,
  the poller, file systems) are records of operations with their laws as locales. An awaited call
  in \<open>io/\<close> and \<open>fs/\<close> is the answer it resolves with; that operations resolve with the answer of the
  kernel is the content of \<open>Op_Properties\<close>. Panics are \<open>None\<close> or \<open>Panicked\<close>. Counters of 64 bits are
  natural numbers with the wrap-around or saturation written out; ring keys and option bits are
  words.

  \<^bold>\<open>Loops.\<close> Loops that end by themselves are recursive functions with a measure; loops that may run
  forever (\<open>copy_loop\<close>, \<open>read_path_loop\<close>, the write loop of the adapter, the drain of a completion port, the
  resolution of layered sockets) are partial functions into
  \<open>option\<close>, and their properties state that they return. No fuel is used.

  \<^bold>\<open>What the properties show.\<close> No wakeup is lost between threads under sequential consistency (and
  one can be under a store buffer); the queues stay well formed; the wheel implements a timer
  service, fires each due timer at most once, never early and at most 62 ticks late (and can be
  that late); both drivers keep every waiter armed and deliver each completion once, and a reported event puts the task that waits for it into the next
  batch of the executor; reference counts equal owners, so wakers never dangle and tasks are freed
  once (though possibly on the thread of the last waker); operations
  resolve with their own completion and, for buffers, leave the memory the kernel uses with the
  driver (operations on paths do not, and no operation does when its
  runtime is dropped, because the driver cannot be reached then); copying, adapters and file access move exactly the right
  bytes, end, and round-trip, with the exceptions proved beside them; signal handlers are
  installed exactly while somebody listens; children are accounted for; \<open>create_dir_all\<close> ends and
  succeeds on every tree where it can; creating sockets and pipes leaves no descriptor behind when
  it fails, and the flag of a socket agrees with its mode; buffers and streams lent to an operation
  come back unless the call is cancelled; metadata of \<open>statx\<close> and of the standard library agree; the
  completion port never points to freed memory and a waiting task stays armed (but only one task
  can wait on a handle); a positive probe covers every entry.

  \<^bold>\<open>Not modelled.\<close> The Windows branches of operations, sockets and files, since apart from the driver and
  Ctrl-C one platform is modelled; the threads of the default blocking pool, which belong to another crate;
  \<open>lib.rs\<close>, re-exports; examples and build scripts. Memory orderings other than in \<open>Wake_Protocol\<close>, allocation
  failure and poisoned locks are left out.
\<close>

end
